(* ===== verification/Rust_Prelude.thy ===== *)
theory Rust_Prelude
  imports Main "HOL-Library.Sublist"
begin

text \<open>
  Shared vocabulary of the development: the parts of Rust's core library that the
  components use (\<open>Result\<close>, \<open>Poll\<close>, \<open>cmp::Ordering\<close>, the \<open>str\<close>
  methods, \<open>Iterator::max\<close>, \<open>reduce\<close> and \<open>collect\<close> into a \<open>Result\<close>, saturating
  arithmetic), the collections of facts that the component proofs pass to the simplifier, and
  the interface of a type with a total preorder (\<open>Ord\<close>) with the facts
  about choosing a best element that hold for every such type, and the interface of a resource that the
  steps of a run spend.

  A \<open>String\<close> or a byte slice is a \<open>string\<close>: the code compares and
  measures them byte by byte. A \<open>Result<T, E>\<close> is a sum with the error on the left. A
  \<open>Duration\<close> or an \<open>Instant\<close> is a number of nanoseconds.
\<close>

section \<open>Results, polls and collections of facts\<close>

named_theorems route_simps \<open>unfolding rules of the route matchers\<close>

named_theorems policy_simps \<open>unfolding rules of the inbound policy\<close>

named_theorems breaker_simps \<open>unfolding rules of the circuit breakers\<close>

named_theorems body_simps \<open>unfolding rules of the retry bodies\<close>

type_synonym ('a, 'e) result = "'e + 'a"

abbreviation Ok :: "'a \<Rightarrow> ('a, 'e) result" where
  "Ok \<equiv> Inr"

abbreviation Err :: "'e \<Rightarrow> ('a, 'e) result" where
  "Err \<equiv> Inl"

datatype 'a poll = Pending | Ready 'a

text \<open>A call that may panic: \<open>expect\<close>, \<open>unreachable!\<close>, an index out of range.\<close>

datatype 'a outcome = Returns 'a | Panics string

type_synonym duration = nat

type_synonym instant = nat

text \<open>The largest values of the unsigned integer types; \<open>usize\<close> is 64 bits wide.\<close>

definition u32_max :: nat where
  "u32_max = 2 ^ 32 - 1"

definition u64_max :: nat where
  "u64_max = 2 ^ 64 - 1"

fun is_ok :: "('a, 'e) result \<Rightarrow> bool" where
  "is_ok (Inr _) = True"
| "is_ok (Inl _) = False"

definition bind_result :: "('a, 'e) result \<Rightarrow> ('a \<Rightarrow> ('b, 'e) result) \<Rightarrow> ('b, 'e) result" where
  "bind_result r f = (case r of Inl e \<Rightarrow> Inl e | Inr x \<Rightarrow> f x)"

definition map_err :: "('e \<Rightarrow> 'f) \<Rightarrow> ('a, 'e) result \<Rightarrow> ('a, 'f) result" where
  "map_err f r = (case r of Inl e \<Rightarrow> Inl (f e) | Inr x \<Rightarrow> Inr x)"

definition ok_or :: "'e \<Rightarrow> 'a option \<Rightarrow> ('a, 'e) result" where
  "ok_or e x = (case x of None \<Rightarrow> Inl e | Some y \<Rightarrow> Inr y)"

definition bind_outcome :: "'a outcome \<Rightarrow> ('a \<Rightarrow> 'b outcome) \<Rightarrow> 'b outcome" where
  "bind_outcome x f = (case x of Returns y \<Rightarrow> f y | Panics m \<Rightarrow> Panics m)"

definition expect :: "string \<Rightarrow> 'a option \<Rightarrow> 'a outcome" where
  "expect m x = (case x of None \<Rightarrow> Panics m | Some y \<Rightarrow> Returns y)"

definition option_list :: "'a option \<Rightarrow> 'a list" where
  "option_list x = (case x of None \<Rightarrow> [] | Some y \<Rightarrow> [y])"

text \<open>\<open>Option<Result>::transpose\<close> and \<open>collect::<Result<Vec<_>, _>>\<close>: the
  first error wins.\<close>

definition transpose_opt :: "('a, 'e) result option \<Rightarrow> ('a option, 'e) result" where
  "transpose_opt x = (case x of None \<Rightarrow> Inr None
     | Some (Inl e) \<Rightarrow> Inl e | Some (Inr y) \<Rightarrow> Inr (Some y))"

fun collect_results :: "('a, 'e) result list \<Rightarrow> ('a list, 'e) result" where
  "collect_results [] = Inr []"
| "collect_results (Inl e # rs) = Inl e"
| "collect_results (Inr x # rs) =
     (case collect_results rs of Inl e \<Rightarrow> Inl e | Inr xs \<Rightarrow> Inr (x # xs))"

text \<open>A fallible call that may panic, and a \<open>collect\<close> of such calls: they run in order, and
  neither an error nor a panic lets a later one run.\<close>

definition bind_both ::
  "('a, 'e) result outcome \<Rightarrow> ('a \<Rightarrow> ('b, 'e) result outcome) \<Rightarrow> ('b, 'e) result outcome" where
  "bind_both x f = bind_outcome x (\<lambda>r. case r of Inl e \<Rightarrow> Returns (Inl e) | Inr y \<Rightarrow> f y)"

definition map_err_both :: "('e \<Rightarrow> 'f) \<Rightarrow> ('a, 'e) result outcome \<Rightarrow> ('a, 'f) result outcome" where
  "map_err_both f x = bind_outcome x (\<lambda>r. Returns (map_err f r))"

fun collect_both :: "('x \<Rightarrow> ('a, 'e) result outcome) \<Rightarrow> 'x list \<Rightarrow> ('a list, 'e) result outcome" where
  "collect_both f [] = Returns (Inr [])"
| "collect_both f (x # xs) =
     bind_both (f x) (\<lambda>y. bind_both (collect_both f xs) (\<lambda>ys. Returns (Inr (y # ys))))"

lemma bind_result_simps [simp]:
  "bind_result (Inl e) f = Inl e"
  "bind_result (Inr x) f = f x"
  by (simp_all add: bind_result_def)

lemma bind_result_Inr_iff:
  "bind_result r f = Inr y \<longleftrightarrow> (\<exists>x. r = Inr x \<and> f x = Inr y)"
  by (cases r) auto

lemma bind_outcome_simps [simp]:
  "bind_outcome (Returns x) f = f x"
  "bind_outcome (Panics m) f = Panics m"
  by (simp_all add: bind_outcome_def)

lemma bind_outcome_Returns_iff:
  "bind_outcome x f = Returns z \<longleftrightarrow> (\<exists>y. x = Returns y \<and> f y = Returns z)"
  by (cases x) auto

lemma bind_both_simps [simp]:
  "bind_both (Returns (Inr x)) f = f x"
  "bind_both (Returns (Inl e)) f = Returns (Inl e)"
  "bind_both (Panics m) f = Panics m"
  by (simp_all add: bind_both_def)

lemma bind_both_Ok_iff:
  "bind_both x f = Returns (Inr z) \<longleftrightarrow> (\<exists>y. x = Returns (Inr y) \<and> f y = Returns (Inr z))"
  by (auto simp: bind_both_def bind_outcome_def split: outcome.splits sum.splits)

lemma collect_both_Ok_iff:
  "collect_both f xs = Returns (Inr ys) \<longleftrightarrow> list_all2 (\<lambda>x y. f x = Returns (Inr y)) xs ys"
  by (induction xs arbitrary: ys) (auto simp: bind_both_Ok_iff list_all2_Cons1)

lemma collect_both_in:
  "collect_both f xs = Returns (Inr ys) \<Longrightarrow> y \<in> set ys \<Longrightarrow> \<exists>x\<in>set xs. f x = Returns (Inr y)"
  by (auto simp: collect_both_Ok_iff list_all2_conv_all_nth set_conv_nth)

lemma expect_simps [simp]:
  "expect m None = Panics m"
  "expect m (Some x) = Returns x"
  by (simp_all add: expect_def)

lemma map_err_simps [simp]:
  "map_err f (Inl e) = Inl (f e)"
  "map_err f (Inr x) = Inr x"
  by (simp_all add: map_err_def)

lemma map_err_Inr_iff [simp]: "map_err f r = Inr x \<longleftrightarrow> r = Inr x"
  by (cases r) auto

lemma map_err_both_Ok_iff [simp]: "map_err_both f x = Returns (Inr y) \<longleftrightarrow> x = Returns (Inr y)"
  by (cases x) (auto simp: map_err_both_def)

lemma ok_or_simps [simp]:
  "ok_or e None = Inl e"
  "ok_or e (Some x) = Inr x"
  by (simp_all add: ok_or_def)

lemma ok_or_Inr_iff [simp]: "ok_or e x = Inr y \<longleftrightarrow> x = Some y"
  by (cases x) auto

lemma transpose_opt_simps [simp]:
  "transpose_opt None = Inr None"
  "transpose_opt (Some (Inl e)) = Inl e"
  "transpose_opt (Some (Inr x)) = Inr (Some x)"
  by (simp_all add: transpose_opt_def)

lemma collect_results_Inr_iff:
  "collect_results rs = Inr xs \<longleftrightarrow> rs = map Inr xs"
proof (induction rs arbitrary: xs rule: collect_results.induct)
  case (3 x rs)
  show ?case
  proof (cases "collect_results rs")
    case (Inl e)
    then have "\<And>ys. rs \<noteq> map Inr ys" using "3.IH" by simp
    then show ?thesis using Inl by (cases xs) auto
  next
    case (Inr zs)
    then have "rs = map Inr zs" using "3.IH" by simp
    then show ?thesis using Inr by (cases xs) (auto simp: map_injective inj_on_def)
  qed
qed auto

lemma collect_results_Inl_in:
  "collect_results rs = Inl e \<Longrightarrow> Inl e \<in> set rs"
  by (induction rs rule: collect_results.induct) (auto split: sum.splits)

lemma collect_map_Inr_set:
  assumes "collect_results (map f xs) = Inr ys" and "y \<in> set ys"
  shows "\<exists>x\<in>set xs. f x = Inr y"
proof -
  have "map f xs = map Inr ys"
    using assms(1) by (simp add: collect_results_Inr_iff)
  then have "Inr y \<in> f ` set xs"
    using assms(2) by (metis imageI image_set)
  then show ?thesis by force
qed


section \<open>The \<open>str\<close> methods\<close>

definition strip_prefix :: "string \<Rightarrow> string \<Rightarrow> string option" where
  "strip_prefix p s = (if prefix p s then Some (drop (length p) s) else None)"

definition strip_suffix :: "string \<Rightarrow> string \<Rightarrow> string option" where
  "strip_suffix p s = (if suffix p s then Some (take (length s - length p) s) else None)"

definition trim_end_matches :: "char \<Rightarrow> string \<Rightarrow> string" where
  "trim_end_matches c s = rev (dropWhile (\<lambda>x. x = c) (rev s))"

fun split_on :: "char \<Rightarrow> string \<Rightarrow> string list" where
  "split_on c [] = [[]]"
| "split_on c (x # xs) = (if x = c then [] # split_on c xs
     else (case split_on c xs of [] \<Rightarrow> [[x]] | y # ys \<Rightarrow> (x # y) # ys))"

fun join_with :: "char \<Rightarrow> string list \<Rightarrow> string" where
  "join_with c [] = []"
| "join_with c [s] = s"
| "join_with c (s # t # ts) = s @ c # join_with c (t # ts)"

text \<open>\<open>str::splitn(2, c)\<close>: the part before the first separator, and what follows it.\<close>

definition splitn2 :: "char \<Rightarrow> string \<Rightarrow> string \<times> string option" where
  "splitn2 c s =
     (takeWhile (\<lambda>x. x \<noteq> c) s,
      (case dropWhile (\<lambda>x. x \<noteq> c) s of [] \<Rightarrow> None | _ # t \<Rightarrow> Some t))"

text \<open>The decimal digits of a number, as \<open>Display\<close> writes them.\<close>

fun show_nat :: "nat \<Rightarrow> string" where
  "show_nat n = (if n < 10 then [char_of (48 + n)]
     else show_nat (n div 10) @ [char_of (48 + n mod 10)])"

declare show_nat.simps [simp del]

definition read_digit :: "nat \<Rightarrow> char \<Rightarrow> nat" where
  "read_digit n c = 10 * n + (of_char c - 48)"

definition read_nat :: "string \<Rightarrow> nat" where
  "read_nat s = foldl read_digit 0 s"

text \<open>\<open>str::parse\<close> of an unsigned integer type: one optional plus sign, at least one
  digit and nothing else, and a value that the type holds.\<close>

definition is_digit :: "char \<Rightarrow> bool" where
  "is_digit c \<longleftrightarrow> 48 \<le> (of_char c :: nat) \<and> (of_char c :: nat) \<le> 57"

definition parse_uint :: "nat \<Rightarrow> string \<Rightarrow> nat option" where
  "parse_uint bound s =
     (let ds = (case s of c # cs \<Rightarrow> if c = CHR ''+'' then cs else s | [] \<Rightarrow> []) in
      if ds = [] \<or> \<not> list_all is_digit ds \<or> bound < read_nat ds then None else Some (read_nat ds))"

text \<open>\<open>str::parse\<close> of an \<open>i32\<close>: an optional sign and at least one digit, within the type's range.\<close>

definition parse_i32 :: "string \<Rightarrow> int option" where
  "parse_i32 s = (case s of
     c # ds \<Rightarrow>
       if c = CHR ''-''
       then (if ds = [] \<or> \<not> list_all is_digit ds \<or> 2 ^ 31 < read_nat ds then None else Some (- int (read_nat ds)))
       else map_option int (parse_uint (2 ^ 31 - 1) s)
   | [] \<Rightarrow> None)"

definition u16_max :: nat where
  "u16_max = 65535"

text \<open>\<open>str::split_once\<close>, and \<open>str::trim\<close> on ASCII text.\<close>

fun split_once :: "char \<Rightarrow> string \<Rightarrow> (string \<times> string) option" where
  "split_once c [] = None"
| "split_once c (x # xs) =
    (if x = c then Some ([], xs) else map_option (\<lambda>(a, b). (x # a, b)) (split_once c xs))"

definition is_whitespace :: "char \<Rightarrow> bool" where
  "is_whitespace c \<longleftrightarrow> of_char c \<in> {9, 10, 11, 12, 13, 32 :: nat}"

definition trim :: "string \<Rightarrow> string" where
  "trim s = rev (dropWhile is_whitespace (rev (dropWhile is_whitespace s)))"

definition from_millis :: "nat \<Rightarrow> duration" where
  "from_millis ms = ms * 1000000"

lemma read_digit_char [simp]: "d < 10 \<Longrightarrow> read_digit n (char_of (48 + d)) = 10 * n + d"
  by (simp add: read_digit_def of_char_of)

lemma read_show_nat [simp]: "read_nat (show_nat n) = n"
proof (induction n rule: show_nat.induct)
  case (1 n)
  show ?case
  proof (cases "n < 10")
    case True
    then show ?thesis by (simp add: show_nat.simps [of n] read_nat_def)
  next
    case False
    then have "read_nat (show_nat n) = read_digit (read_nat (show_nat (n div 10))) (char_of (48 + n mod 10))"
      by (simp add: show_nat.simps [of n] read_nat_def)
    also have "\<dots> = 10 * (n div 10) + n mod 10"
      using 1 False by (simp del: mult_div_mod_eq)
    finally show ?thesis by simp
  qed
qed

lemma show_nat_digits: "c \<in> set (show_nat n) \<Longrightarrow> of_char c < (58 :: nat)"
proof (induction n rule: show_nat.induct)
  case (1 n)
  have "n mod 10 < 10" by simp
  then have "of_char (char_of (48 + n mod 10) :: char) < (58 :: nat)"
    by (simp add: of_char_of)
  with 1 show ?case
    by (auto simp: show_nat.simps [of n] of_char_of split: if_splits)
qed

lemma show_nat_not_Nil [simp]: "show_nat n \<noteq> []"
  by (subst show_nat.simps) simp

lemma show_nat_is_digit: "list_all is_digit (show_nat n)"
proof (induction n rule: show_nat.induct)
  case (1 n)
  have "is_digit (char_of (48 + d))" if "d < 10" for d :: nat
    using that by (simp add: is_digit_def of_char_of)
  then show ?case using 1 by (subst show_nat.simps) simp
qed

lemma parse_show_nat [simp]: "n \<le> bound \<Longrightarrow> parse_uint bound (show_nat n) = Some n"
proof -
  assume "n \<le> bound"
  have "hd (show_nat n) \<noteq> CHR ''+''"
    using show_nat_is_digit [of n] by (cases "show_nat n") (auto simp: is_digit_def)
  then have "(case show_nat n of c # cs \<Rightarrow> if c = CHR ''+'' then cs else show_nat n | [] \<Rightarrow> []) = show_nat n"
    by (cases "show_nat n") simp_all
  then show ?thesis using \<open>n \<le> bound\<close> show_nat_is_digit [of n]
    by (simp only: parse_uint_def Let_def) simp
qed

lemma parse_show_nat_big: "bound < n \<Longrightarrow> parse_uint bound (show_nat n) = None"
proof -
  assume "bound < n"
  have "hd (show_nat n) \<noteq> CHR ''+''"
    using show_nat_is_digit [of n] by (cases "show_nat n") (auto simp: is_digit_def)
  then have "(case show_nat n of c # cs \<Rightarrow> if c = CHR ''+'' then cs else show_nat n | [] \<Rightarrow> []) = show_nat n"
    by (cases "show_nat n") simp_all
  then show ?thesis using \<open>bound < n\<close> by (simp only: parse_uint_def Let_def) simp
qed

lemma strip_prefix_Some_iff: "strip_prefix p s = Some t \<longleftrightarrow> s = p @ t"
  by (auto simp: strip_prefix_def prefix_def)

lemma strip_suffix_Some_iff: "strip_suffix p s = Some t \<longleftrightarrow> s = t @ p"
  by (auto simp: strip_suffix_def suffix_def)

lemma strip_suffix_append [simp]: "strip_suffix p (t @ p) = Some t"
  by (simp add: strip_suffix_Some_iff)

lemma strip_prefix_append [simp]: "strip_prefix p (p @ t) = Some t"
  by (simp add: strip_prefix_Some_iff)

lemma strip_prefix_self [simp]: "strip_prefix p p = Some []"
  by (simp add: strip_prefix_Some_iff)

lemma trim_end_matches_prefix: "prefix (trim_end_matches c s) s"
proof -
  have "suffix (dropWhile (\<lambda>x. x = c) (rev s)) (rev s)"
    by (simp add: suffix_dropWhile)
  then show ?thesis by (simp add: trim_end_matches_def suffix_to_prefix)
qed

lemma trim_end_matches_length: "length (trim_end_matches c s) \<le> length s"
  by (rule prefix_length_le [OF trim_end_matches_prefix])

lemma trim_end_matches_split:
  obtains k where "s = trim_end_matches c s @ replicate k c"
proof -
  have "takeWhile (\<lambda>x. x = c) (rev s) = replicate (length (takeWhile (\<lambda>x. x = c) (rev s))) c"
    by (rule replicate_length_same [symmetric]) (auto dest: set_takeWhileD)
  then have "rev s = replicate (length (takeWhile (\<lambda>x. x = c) (rev s))) c
      @ dropWhile (\<lambda>x. x = c) (rev s)"
    by (metis takeWhile_dropWhile_id)
  then have "s = trim_end_matches c s @ replicate (length (takeWhile (\<lambda>x. x = c) (rev s))) c"
    by (metis rev_append rev_replicate rev_rev_ident trim_end_matches_def)
  then show ?thesis by (rule that)
qed

lemma trim_end_matches_no_suffix: "\<not> suffix [c] s \<Longrightarrow> trim_end_matches c s = s"
  by (cases s rule: rev_cases) (auto simp: trim_end_matches_def suffix_def)

lemma split_on_not_Nil [simp]: "split_on c s \<noteq> []"
  by (cases s) (auto split: list.splits)

lemma split_on_Cons_sep [simp]: "split_on c (c # s) = [] # split_on c s"
  by simp

lemma split_on_append:
  "split_on c (s @ c # t) = split_on c s @ split_on c t"
proof (induction s)
  case (Cons x s)
  then show ?case
    by (cases "split_on c s") auto
qed simp

lemma join_with_Cons:
  "ts \<noteq> [] \<Longrightarrow> join_with c (s # ts) = s @ c # join_with c ts"
  by (cases ts) auto

lemma join_with_snoc:
  "ts \<noteq> [] \<Longrightarrow> join_with c (ts @ [s]) = join_with c ts @ c # s"
  by (induction c ts rule: join_with.induct) auto

lemma join_split [simp]: "join_with c (split_on c s) = s"
proof (induction s)
  case (Cons x s)
  obtain y ys where yys: "split_on c s = y # ys"
    by (metis list.exhaust split_on_not_Nil)
  show ?case
  proof (cases "x = c")
    case True
    then show ?thesis using Cons by (simp add: join_with_Cons)
  next
    case False
    then show ?thesis using Cons yys by (cases ys) auto
  qed
qed simp

lemma join_with_append:
  "ss \<noteq> [] \<Longrightarrow> ts \<noteq> [] \<Longrightarrow> join_with c (ss @ ts) = join_with c ss @ c # join_with c ts"
  by (induction c ss rule: join_with.induct) (auto simp: join_with_Cons)

lemma concat_sep_join:
  "ts \<noteq> [] \<Longrightarrow> concat (map (Cons c) ts) = c # join_with c ts"
  by (induction c ts rule: join_with.induct) auto

lemma last_split_on_empty_iff: "last (split_on c s) = [] \<longleftrightarrow> suffix [c] s \<or> s = []"
proof (induction s)
  case (Cons x s)
  obtain y ys where yys: "split_on c s = y # ys"
    by (metis list.exhaust split_on_not_Nil)
  show ?case
  proof (cases "s = []")
    case False
    then have "suffix [c] (x # s) \<longleftrightarrow> suffix [c] s"
      by (auto simp: suffix_Cons)
    moreover have "join_with c (y # ys) = s" using yys join_split [of c s] by simp
    ultimately show ?thesis using Cons yys False by (cases "ys = []") auto
  qed (auto simp: suffix_Cons)
qed simp

lemma split_on_prefix_iff:
  "prefix (split_on c p) (split_on c s) \<longleftrightarrow>
     (case strip_prefix p s of None \<Rightarrow> False | Some rest \<Rightarrow> rest = [] \<or> prefix [c] rest)"
  (is "?segs \<longleftrightarrow> ?bytes")
proof
  assume ?segs
  then obtain ts where ts: "split_on c s = split_on c p @ ts" by (auto simp: prefix_def)
  have "s = join_with c (split_on c p @ ts)" using ts by (metis join_split)
  then have "s = p @ (if ts = [] then [] else c # join_with c ts)"
    by (simp add: join_with_append)
  then show ?bytes by (cases "ts = []") simp_all
next
  assume ?bytes
  then obtain rest where rest: "s = p @ rest" "rest = [] \<or> prefix [c] rest"
    by (auto simp: strip_prefix_Some_iff split: option.splits)
  then show ?segs by (auto simp: prefix_def split_on_append)
qed

lemma split_on_suffix_iff:
  "suffix (split_on c p) (split_on c s) \<longleftrightarrow> s = p \<or> suffix (c # p) s"
proof
  assume "suffix (split_on c p) (split_on c s)"
  then obtain ts where ts: "split_on c s = ts @ split_on c p" by (auto simp: suffix_def)
  have "s = join_with c (ts @ split_on c p)" using ts by (metis join_split)
  then have "s = (if ts = [] then p else join_with c ts @ c # p)"
    by (simp add: join_with_append)
  then show "s = p \<or> suffix (c # p) s" by (auto simp: suffix_def split: if_splits)
next
  assume "s = p \<or> suffix (c # p) s"
  then show "suffix (split_on c p) (split_on c s)"
    by (auto simp: suffix_def split_on_append)
qed

lemma split_on_no_sep: "c \<notin> set s \<Longrightarrow> split_on c s = [s]"
  by (induction s) auto

lemma split_on_parts_no_sep: "part \<in> set (split_on c s) \<Longrightarrow> c \<notin> set part"
proof (induction s arbitrary: part)
  case (Cons x s)
  then show ?case
    by (cases "split_on c s") (auto split: if_splits)
qed auto

section \<open>Ordering\<close>

datatype ordering = Less | Equal | Greater

fun reverse_ordering :: "ordering \<Rightarrow> ordering" where
  "reverse_ordering Less = Greater"
| "reverse_ordering Equal = Equal"
| "reverse_ordering Greater = Less"

definition then_with :: "ordering \<Rightarrow> ordering \<Rightarrow> ordering" where
  "then_with a b = (if a = Equal then b else a)"

definition cmp_lin :: "'a::linorder \<Rightarrow> 'a \<Rightarrow> ordering" where
  "cmp_lin x y = (if x < y then Less else if x = y then Equal else Greater)"

fun cmp_option :: "('a \<Rightarrow> 'a \<Rightarrow> ordering) \<Rightarrow> 'a option \<Rightarrow> 'a option \<Rightarrow> ordering" where
  "cmp_option cmp None None = Equal"
| "cmp_option cmp None (Some _) = Less"
| "cmp_option cmp (Some _) None = Greater"
| "cmp_option cmp (Some x) (Some y) = cmp x y"

text \<open>\<open>Iterator::max\<close> keeps the later of two equal elements.\<close>

fun iter_max :: "('a \<Rightarrow> 'a \<Rightarrow> ordering) \<Rightarrow> 'a list \<Rightarrow> 'a option" where
  "iter_max cmp [] = None"
| "iter_max cmp (x # xs) =
     Some (foldl (\<lambda>a b. if cmp a b = Greater then a else b) x xs)"

lemma then_with_simps [simp]:
  "then_with Equal b = b"
  "then_with Less b = Less"
  "then_with Greater b = Greater"
  by (simp_all add: then_with_def)

lemma reverse_then_with:
  "reverse_ordering (then_with a b) = then_with (reverse_ordering a) (reverse_ordering b)"
  by (cases a) auto

lemma cmp_lin_iff [simp]:
  "cmp_lin x y = Less \<longleftrightarrow> x < y"
  "cmp_lin x y = Equal \<longleftrightarrow> x = y"
  "cmp_lin x y = Greater \<longleftrightarrow> y < x"
  by (auto simp: cmp_lin_def)

lemma iter_max_None_iff [simp]: "iter_max cmp xs = None \<longleftrightarrow> xs = []"
  by (cases xs) auto

subsection \<open>The contract of \<open>Ord\<close>\<close>

text \<open>What the code relies on of an \<open>Ord\<close> implementation: a total preorder.
  Equal elements need not be identical: the matchers' summaries are ordered by
  length only.\<close>

locale ord_contract =
  fixes cmp :: "'a \<Rightarrow> 'a \<Rightarrow> ordering"
  assumes cmp_refl [simp]: "cmp x x = Equal"
    and cmp_swap: "cmp y x = reverse_ordering (cmp x y)"
    and cmp_trans: "cmp x y \<noteq> Greater \<Longrightarrow> cmp y z \<noteq> Greater \<Longrightarrow> cmp x z \<noteq> Greater"
begin

lemma cmp_Less_iff: "cmp x y = Less \<longleftrightarrow> cmp y x = Greater"
  using cmp_swap [of y x] by (cases "cmp x y") auto

lemma cmp_not_Less_trans: "cmp x y \<noteq> Less \<Longrightarrow> cmp y z \<noteq> Less \<Longrightarrow> cmp x z \<noteq> Less"
  unfolding cmp_Less_iff by (rule cmp_trans)

lemma cmp_Less_le_trans: "cmp x y = Less \<Longrightarrow> cmp y z \<noteq> Greater \<Longrightarrow> cmp x z = Less"
  using cmp_trans [of y z x] unfolding cmp_Less_iff by blast

lemma cmp_le_Less_trans: "cmp x y \<noteq> Greater \<Longrightarrow> cmp y z = Less \<Longrightarrow> cmp x z = Less"
  using cmp_trans [of z x y] unfolding cmp_Less_iff by blast

text \<open>The element \<open>Iterator::max\<close> returns: nothing exceeds it and everything after it is
  smaller.\<close>

lemma foldl_max_split:
  fixes x :: 'a and xs :: "'a list"
  defines "m \<equiv> foldl (\<lambda>a b. if cmp a b = Greater then a else b) x xs"
  shows "\<exists>pre suf. x # xs = pre @ m # suf
    \<and> (\<forall>y\<in>set pre. cmp y m \<noteq> Greater) \<and> (\<forall>y\<in>set suf. cmp y m = Less)"
  unfolding m_def
proof (induction xs rule: rev_induct)
  case Nil
  show ?case by (rule exI [of _ "[]"], rule exI [of _ "[]"]) simp
next
  case (snoc z zs)
  define k where "k = foldl (\<lambda>a b. if cmp a b = Greater then a else b) x zs"
  have fold: "foldl (\<lambda>a b. if cmp a b = Greater then a else b) x (zs @ [z]) =
      (if cmp k z = Greater then k else z)"
    by (simp add: k_def)
  obtain pre suf where split: "x # zs = pre @ k # suf"
    and pre: "\<forall>y\<in>set pre. cmp y k \<noteq> Greater" and suf: "\<forall>y\<in>set suf. cmp y k = Less"
    using snoc unfolding k_def by blast
  show ?case
  proof (cases "cmp k z = Greater")
    case True
    have "x # (zs @ [z]) = pre @ k # (suf @ [z])" using split by simp
    moreover have "\<forall>y\<in>set (suf @ [z]). cmp y k = Less"
      using suf True cmp_Less_iff [of z k] by simp
    ultimately show ?thesis
      using pre True unfolding fold
      by (intro exI [of _ pre] exI [of _ "suf @ [z]"]) simp
  next
    case False
    have "\<forall>y\<in>set (x # zs). cmp y z \<noteq> Greater"
    proof
      fix y assume "y \<in> set (x # zs)"
      then have "y \<in> set (pre @ k # suf)" using split by simp
      then have "cmp y k \<noteq> Greater" using pre suf by auto
      then show "cmp y z \<noteq> Greater" using False by (rule cmp_trans)
    qed
    then show ?thesis
      using False unfolding fold by (intro exI [of _ "x # zs"] exI [of _ "[]"]) simp
  qed
qed

lemma iter_max_split:
  assumes "iter_max cmp xs = Some m"
  obtains pre suf where "xs = pre @ m # suf"
    and "\<forall>y\<in>set pre. cmp y m \<noteq> Greater" and "\<forall>y\<in>set suf. cmp y m = Less"
proof (cases xs)
  case (Cons x ys)
  have "m = foldl (\<lambda>a b. if cmp a b = Greater then a else b) x ys"
    using assms Cons by simp
  then show ?thesis
    using foldl_max_split [of x ys] that Cons by blast
qed (use assms in simp)

lemma iter_max_in: "iter_max cmp xs = Some m \<Longrightarrow> m \<in> set xs"
  by (erule iter_max_split) simp

lemma iter_max_greatest: "iter_max cmp xs = Some m \<Longrightarrow> y \<in> set xs \<Longrightarrow> cmp y m \<noteq> Greater"
  by (erule iter_max_split) auto

end

interpretation lin_ord: ord_contract "cmp_lin :: 'a::linorder \<Rightarrow> 'a \<Rightarrow> ordering"
proof
  fix x y z :: "'a::linorder"
  show "cmp_lin x z \<noteq> Greater" if "cmp_lin x y \<noteq> Greater" "cmp_lin y z \<noteq> Greater"
    using that by (simp add: not_less)
qed (auto simp: cmp_lin_def)

lemma ord_contract_option:
  assumes "ord_contract cmp"
  shows "ord_contract (cmp_option cmp)"
proof -
  have refl: "cmp x x = Equal" and swap: "cmp y x = reverse_ordering (cmp x y)"
    and trans: "cmp x y \<noteq> Greater \<Longrightarrow> cmp y z \<noteq> Greater \<Longrightarrow> cmp x z \<noteq> Greater" for x y z
    using assms unfolding ord_contract_def by blast+
  show ?thesis
  proof
    fix x y z :: "'a option"
    show "cmp_option cmp x x = Equal" by (cases x) (simp_all add: refl)
    show "cmp_option cmp y x = reverse_ordering (cmp_option cmp x y)"
      by (cases x; cases y) (simp_all add: swap [symmetric])
    show "cmp_option cmp x z \<noteq> Greater"
      if "cmp_option cmp x y \<noteq> Greater" "cmp_option cmp y z \<noteq> Greater"
      using that by (cases x; cases y; cases z) (auto dest: trans)
  qed
qed

text \<open>The order that derived \<open>Ord\<close> implementations and chains of \<open>then_with\<close>
  give: first by \<open>f\<close>, ties by \<open>g\<close>.\<close>

lemma ord_contract_then:
  assumes "ord_contract cmp\<^sub>1" and "ord_contract cmp\<^sub>2"
  shows "ord_contract (\<lambda>x y. then_with (cmp\<^sub>1 (f x) (f y)) (cmp\<^sub>2 (g x) (g y)))"
proof -
  have refl1: "cmp\<^sub>1 x x = Equal" and swap1: "cmp\<^sub>1 y x = reverse_ordering (cmp\<^sub>1 x y)"
    and trans1: "cmp\<^sub>1 x y \<noteq> Greater \<Longrightarrow> cmp\<^sub>1 y z \<noteq> Greater \<Longrightarrow> cmp\<^sub>1 x z \<noteq> Greater" for x y z
    using assms(1) unfolding ord_contract_def by blast+
  have less1: "cmp\<^sub>1 x z = Less" if "cmp\<^sub>1 x y = Less" "cmp\<^sub>1 y z \<noteq> Greater" for x y z
    using assms(1) that by (rule ord_contract.cmp_Less_le_trans)
  have less1': "cmp\<^sub>1 x z = Less" if "cmp\<^sub>1 x y \<noteq> Greater" "cmp\<^sub>1 y z = Less" for x y z
    using assms(1) that by (rule ord_contract.cmp_le_Less_trans)
  have refl2: "cmp\<^sub>2 x x = Equal" and swap2: "cmp\<^sub>2 y x = reverse_ordering (cmp\<^sub>2 x y)"
    and trans2: "cmp\<^sub>2 x y \<noteq> Greater \<Longrightarrow> cmp\<^sub>2 y z \<noteq> Greater \<Longrightarrow> cmp\<^sub>2 x z \<noteq> Greater" for x y z
    using assms(2) unfolding ord_contract_def by blast+
  show ?thesis
  proof
    fix x y z
    show "then_with (cmp\<^sub>1 (f x) (f x)) (cmp\<^sub>2 (g x) (g x)) = Equal"
      by (simp add: refl1 refl2)
    show "then_with (cmp\<^sub>1 (f y) (f x)) (cmp\<^sub>2 (g y) (g x)) =
        reverse_ordering (then_with (cmp\<^sub>1 (f x) (f y)) (cmp\<^sub>2 (g x) (g y)))"
      by (simp add: reverse_then_with swap1 [symmetric] swap2 [symmetric])
    assume xy: "then_with (cmp\<^sub>1 (f x) (f y)) (cmp\<^sub>2 (g x) (g y)) \<noteq> Greater"
      and yz: "then_with (cmp\<^sub>1 (f y) (f z)) (cmp\<^sub>2 (g y) (g z)) \<noteq> Greater"
    have le: "cmp\<^sub>1 (f x) (f y) \<noteq> Greater" "cmp\<^sub>1 (f y) (f z) \<noteq> Greater"
      using xy yz by auto
    consider "cmp\<^sub>1 (f x) (f y) = Less" | "cmp\<^sub>1 (f y) (f z) = Less"
      | "cmp\<^sub>1 (f x) (f y) = Equal" "cmp\<^sub>1 (f y) (f z) = Equal"
      using le by (metis ordering.exhaust)
    then show "then_with (cmp\<^sub>1 (f x) (f z)) (cmp\<^sub>2 (g x) (g z)) \<noteq> Greater"
    proof cases
      case 1
      then have "cmp\<^sub>1 (f x) (f z) = Less" using le(2) by (rule less1)
      then show ?thesis by simp
    next
      case 2
      have "cmp\<^sub>1 (f x) (f z) = Less" using le(1) 2 by (rule less1')
      then show ?thesis by simp
    next
      case 3
      then have "cmp\<^sub>2 (g x) (g z) \<noteq> Greater"
        using xy yz trans2 [of "g x" "g y" "g z"] by simp
      moreover have "cmp\<^sub>1 (f x) (f z) \<noteq> Greater"
        using le by (rule trans1)
      ultimately show ?thesis by (cases "cmp\<^sub>1 (f x) (f z)") auto
    qed
  qed
qed

section \<open>Resources that are paid for\<close>

text \<open>What the steps of a run add up to.\<close>

fun run_sum :: "('x \<Rightarrow> 's \<Rightarrow> 's) \<Rightarrow> ('x \<Rightarrow> 's \<Rightarrow> nat) \<Rightarrow> 'x list \<Rightarrow> 's \<Rightarrow> nat" where
  "run_sum step f [] s = 0"
| "run_sum step f (x # xs) s = f x s + run_sum step f xs (step x s)"

text \<open>The interface of a state that holds a level of some resource: a step spends of it what it
  costs, and nothing fills it up but what the step gains. Over a run, the costs are at most the
  first level and the gains.\<close>

locale metered =
  fixes step :: "'x \<Rightarrow> 's \<Rightarrow> 's"
    and good :: "'s \<Rightarrow> bool"
    and permitted :: "'x \<Rightarrow> bool"
    and cost gain :: "'x \<Rightarrow> 's \<Rightarrow> nat"
    and level :: "'s \<Rightarrow> nat"
  assumes good_step: "good s \<Longrightarrow> permitted x \<Longrightarrow> good (step x s)"
    and pays: "good s \<Longrightarrow> permitted x \<Longrightarrow> cost x s + level (step x s) \<le> level s + gain x s"
begin

lemma run_good: "good s \<Longrightarrow> list_all permitted xs \<Longrightarrow> good (fold step xs s)"
  by (induction xs arbitrary: s) (simp_all add: good_step)

lemma run_pays:
  "good s \<Longrightarrow> list_all permitted xs \<Longrightarrow>
     run_sum step cost xs s + level (fold step xs s) \<le> level s + run_sum step gain xs s"
proof (induction xs arbitrary: s)
  case (Cons x xs)
  then have "good s" "permitted x" "list_all permitted xs" by simp_all
  then show ?case using pays [of s x] Cons.IH [OF good_step] by fastforce
qed simp

end

end
