(* ===== verification/Http_Types.thy ===== *)
theory Http_Types
  imports Rust_Prelude
begin

text \<open>
  The values of the \<open>http\<close>, \<open>regex\<close> and \<open>url\<close> crates that the
  proxy's routing and policy code reads. A URI or an authority is the tuple of what
  its accessors return. Everything the code asks those crates to compute is a field of
  the record \<open>http_api\<close>, an argument of every definition that calls it: running a
  regular expression, reading and changing a header map, decoding a query string, parsing
  an authority or a path, assembling and comparing URIs.
\<close>

type_synonym header_name = string

type_synonym header_value = string

record authority =
  auth_text :: string
  auth_host :: string
  auth_port :: "nat option"

record path_and_query =
  pq_path :: string
  pq_query :: "string option"

record uri =
  uri_scheme :: "string option"
  uri_authority :: "authority option"
  uri_path :: string
  uri_query :: "string option"
  uri_path_and_query :: "path_and_query option"

record 'h request =
  req_method :: string
  req_uri :: uri
  req_headers :: 'h

definition uri_host :: "uri \<Rightarrow> string option" where
  "uri_host u = map_option auth_host (uri_authority u)"

definition uri_port :: "uri \<Rightarrow> nat option" where
  "uri_port u = Option.bind (uri_authority u) auth_port"

text \<open>The operations of the crates. A regular expression's search returns the start and the
  end of the leftmost match.\<close>

record ('re, 'h) http_api =
  re_find :: "'re \<Rightarrow> string \<Rightarrow> (nat \<times> nat) option"
  hdr_get_all :: "'h \<Rightarrow> header_name \<Rightarrow> header_value list"
  hdr_append :: "'h \<Rightarrow> header_name \<Rightarrow> header_value \<Rightarrow> 'h"
  hdr_insert :: "'h \<Rightarrow> header_name \<Rightarrow> header_value \<Rightarrow> 'h"
  hdr_remove :: "'h \<Rightarrow> header_name \<Rightarrow> 'h"
  value_to_str :: "header_value \<Rightarrow> string option"
  form_urlencoded_parse :: "string \<Rightarrow> (string \<times> string) list"
  parse_authority :: "string \<Rightarrow> (authority, string) result"
  parse_path_and_query :: "string \<Rightarrow> (path_and_query, string) result"
  build_uri :: "string \<Rightarrow> authority \<Rightarrow> path_and_query \<Rightarrow> (uri, string) result"
  uri_eq :: "uri \<Rightarrow> uri \<Rightarrow> bool"

text \<open>What \<open>http::HeaderMap\<close> documents of its multimap operations: \<open>append\<close> adds
  a value after the ones a name has, \<open>insert\<close> replaces them, \<open>remove\<close>
  drops them, and none of them touches another name.\<close>

definition header_map_laws :: "('re, 'h) http_api \<Rightarrow> bool" where
  "header_map_laws api \<longleftrightarrow>
     (\<forall>h n v k. hdr_get_all api (hdr_append api h n v) k =
        (if k = n then hdr_get_all api h k @ [v] else hdr_get_all api h k)) \<and>
     (\<forall>h n v k. hdr_get_all api (hdr_insert api h n v) k =
        (if k = n then [v] else hdr_get_all api h k)) \<and>
     (\<forall>h n k. hdr_get_all api (hdr_remove api h n) k =
        (if k = n then [] else hdr_get_all api h k))"

text \<open>What the crate documents of authorities and URIs: a host followed by a colon and a
  16-bit port parses to that host and port, a URI has the parts it was built from, and is
  equal to itself. A host is a text that parses as an authority with that host and no
  port.\<close>

definition valid_host :: "('re, 'h) http_api \<Rightarrow> string \<Rightarrow> bool" where
  "valid_host api h \<longleftrightarrow>
     parse_authority api h = Inr \<lparr> auth_text = h, auth_host = h, auth_port = None \<rparr>"

definition uri_laws :: "('re, 'h) http_api \<Rightarrow> bool" where
  "uri_laws api \<longleftrightarrow>
     (\<forall>h p. valid_host api h \<and> p < 65536 \<longrightarrow>
        parse_authority api (h @ '':'' @ show_nat p) =
          Inr \<lparr> auth_text = h @ '':'' @ show_nat p, auth_host = h, auth_port = Some p \<rparr>) \<and>
     (\<forall>s a pq u. build_uri api s a pq = Inr u \<longrightarrow>
        uri_scheme u = Some s \<and> uri_authority u = Some a \<and> uri_path u = pq_path pq \<and>
        uri_query u = pq_query pq \<and> uri_path_and_query u = Some pq) \<and>
     (\<forall>u. uri_eq api u u)"

definition sample_authority :: "string \<Rightarrow> (authority, string) result" where
  "sample_authority s =
     (case split_on (CHR '':'') s of
        [h] \<Rightarrow> Inr \<lparr> auth_text = s, auth_host = h, auth_port = None \<rparr>
      | [h, p] \<Rightarrow> Inr \<lparr> auth_text = s, auth_host = h, auth_port = Some (read_nat p) \<rparr>
      | _ \<Rightarrow> Inl ''invalid authority'')"

text \<open>An instance of the operations, with header maps as functions, at which the
  properties that rest on the laws are witnessed.\<close>

definition fun_headers_api :: "(string, header_name \<Rightarrow> header_value list) http_api" where
  "fun_headers_api =
     \<lparr> re_find = (\<lambda>re s. if re = s then Some (0, length s) else None),
       hdr_get_all = (\<lambda>h n. h n),
       hdr_append = (\<lambda>h n v. h(n := h n @ [v])),
       hdr_insert = (\<lambda>h n v. h(n := [v])),
       hdr_remove = (\<lambda>h n. h(n := [])),
       value_to_str = Some,
       form_urlencoded_parse = (\<lambda>_. []),
       parse_authority = sample_authority,
       parse_path_and_query = (\<lambda>s. Inr \<lparr> pq_path = s, pq_query = None \<rparr>),
       build_uri = (\<lambda>sch a pq. Inr \<lparr> uri_scheme = Some sch, uri_authority = Some a,
         uri_path = pq_path pq, uri_query = pq_query pq, uri_path_and_query = Some pq \<rparr>),
       uri_eq = (=) \<rparr>"

lemma fun_headers_api_laws: "header_map_laws fun_headers_api"
  by (auto simp: header_map_laws_def fun_headers_api_def)

lemma fun_headers_api_uri_laws: "uri_laws fun_headers_api"
proof -
  have "sample_authority (h @ '':'' @ show_nat p) =
      Inr \<lparr> auth_text = h @ '':'' @ show_nat p, auth_host = h, auth_port = Some p \<rparr>"
    if "sample_authority h = Inr \<lparr> auth_text = h, auth_host = h, auth_port = None \<rparr>" for h p
  proof -
    from that have "split_on (CHR '':'') h = [h]"
      by (auto simp: sample_authority_def split: list.splits)
    moreover have "CHR '':'' \<notin> set (show_nat p)"
      using show_nat_digits [of "CHR '':''" p] by auto
    ultimately show ?thesis
      by (simp add: sample_authority_def split_on_append split_on_no_sep)
  qed
  then show ?thesis
    by (auto simp: uri_laws_def valid_host_def fun_headers_api_def)
qed

end
