(* ===== verification/Http_Match.thy ===== *)
theory Http_Match
  imports Http_Types
begin

text \<open>
  The request matchers of the HTTP route library, \<open>linkerd/http/route/src/http/match\<close>:
  host names (\<open>host.rs\<close>), paths (\<open>path.rs\<close>), headers (\<open>header.rs\<close>),
  query parameters (\<open>query_param.rs\<close>) and their combination
  (\<open>match.rs\<close>), with the orders by which their summaries are compared. The lemmas
  relate the label-by-label host loop and the byte-wise path check to what they are meant to
  decide, and show that every summary order satisfies the contract of \<open>Ord\<close>.
\<close>

section \<open>Hosts\<close>

datatype match_host = MatchHost_Exact string | MatchHost_Suffix "string list"

datatype host_match = HostMatch_Exact nat | HostMatch_Suffix nat

datatype url_host = Host_Domain | Host_Ipv4 | Host_Ipv6

datatype invalid_host = InvalidHost_Invalid string | InvalidHost_NumericHost

definition match_host_from_str ::
  "(string \<Rightarrow> (url_host, string) result) \<Rightarrow> string \<Rightarrow> (match_host, invalid_host) result" where
  "match_host_from_str host_parse host =
     (case host_parse host of
        Inl e \<Rightarrow> Inl (InvalidHost_Invalid e)
      | Inr h \<Rightarrow>
          if h = Host_Ipv4 \<or> h = Host_Ipv6 then Inl InvalidHost_NumericHost
          else (case strip_prefix ''*.'' host of
                  Some rest \<Rightarrow> Inr (MatchHost_Suffix (rev (split_on (CHR ''.'') rest)))
                | None \<Rightarrow> Inr (MatchHost_Exact host)))"

definition strip_trailing_dot :: "string \<Rightarrow> string" where
  "strip_trailing_dot host = (case strip_suffix ''.'' host of Some h \<Rightarrow> h | None \<Rightarrow> host)"

fun suffix_loop :: "string list \<Rightarrow> string \<Rightarrow> nat \<Rightarrow> nat option" where
  "suffix_loop [] host len = Some len"
| "suffix_loop (sfx # rest) host len =
     (case strip_suffix sfx host of
        None \<Rightarrow> None
      | Some host' \<Rightarrow>
          (case strip_suffix ''.'' host' of
             None \<Rightarrow> None
           | Some host'' \<Rightarrow> suffix_loop rest host'' (len + length sfx + 1)))"

fun summarize_match :: "match_host \<Rightarrow> uri \<Rightarrow> host_match option" where
  "summarize_match (MatchHost_Exact h) u =
     (case uri_authority u of
        None \<Rightarrow> None
      | Some a \<Rightarrow>
          (let host = (if suffix ''.'' h then auth_host a else strip_trailing_dot (auth_host a))
           in if h = host then Some (HostMatch_Exact (length h)) else None))"
| "summarize_match (MatchHost_Suffix sfx) u =
     (case uri_authority u of
        None \<Rightarrow> None
      | Some a \<Rightarrow>
          (let host = (if sfx \<noteq> [] \<and> hd sfx = [] then auth_host a
                       else strip_trailing_dot (auth_host a))
           in map_option HostMatch_Suffix (suffix_loop sfx host 0)))"

fun cmp_host_match :: "host_match \<Rightarrow> host_match \<Rightarrow> ordering" where
  "cmp_host_match (HostMatch_Exact l) (HostMatch_Exact r) = cmp_lin l r"
| "cmp_host_match (HostMatch_Suffix l) (HostMatch_Suffix r) = cmp_lin l r"
| "cmp_host_match (HostMatch_Exact _) (HostMatch_Suffix _) = Greater"
| "cmp_host_match (HostMatch_Suffix _) (HostMatch_Exact _) = Less"

section \<open>Paths\<close>

datatype 're match_path = MatchPath_Exact string | MatchPath_Prefix string | MatchPath_Regex 're

datatype path_match = PathMatch_Exact nat | PathMatch_Regex nat | PathMatch_Prefix nat

fun match_length :: "('re, 'h) http_api \<Rightarrow> 're match_path \<Rightarrow> uri \<Rightarrow> path_match option" where
  "match_length api (MatchPath_Exact s) u =
     (if s = uri_path u then Some (PathMatch_Exact (length s)) else None)"
| "match_length api (MatchPath_Regex re) u =
     (case re_find api re (uri_path u) of
        Some (s, e) \<Rightarrow>
          (if s = 0 \<and> e = length (uri_path u) then Some (PathMatch_Regex (length (uri_path u)))
           else None)
      | None \<Rightarrow> None)"
| "match_length api (MatchPath_Prefix pfx) u =
     (if pfx = ''/'' then Some (PathMatch_Prefix 1)
      else (let pfx' = trim_end_matches (CHR ''/'') pfx
            in case strip_prefix pfx' (trim_end_matches (CHR ''/'') (uri_path u)) of
                 None \<Rightarrow> None
               | Some rest \<Rightarrow>
                   (if rest = [] \<or> prefix ''/'' rest then Some (PathMatch_Prefix (length pfx'))
                    else None)))"

fun path_match_len :: "path_match \<Rightarrow> nat" where
  "path_match_len (PathMatch_Exact n) = n"
| "path_match_len (PathMatch_Regex n) = n"
| "path_match_len (PathMatch_Prefix n) = n"

definition cmp_path_match :: "path_match \<Rightarrow> path_match \<Rightarrow> ordering" where
  "cmp_path_match a b = cmp_lin (path_match_len a) (path_match_len b)"

section \<open>Headers and query parameters\<close>

datatype 're match_header =
    MatchHeader_Exact header_name header_value
  | MatchHeader_Regex header_name 're

definition re_matches_all :: "('re, 'h) http_api \<Rightarrow> 're \<Rightarrow> string \<Rightarrow> bool" where
  "re_matches_all api re s =
     (case re_find api re s of Some (b, e) \<Rightarrow> b = 0 \<and> e = length s | None \<Rightarrow> False)"

fun header_is_match :: "('re, 'h) http_api \<Rightarrow> 're match_header \<Rightarrow> 'h \<Rightarrow> bool" where
  "header_is_match api (MatchHeader_Exact n v) h = list_ex (\<lambda>x. x = v) (hdr_get_all api h n)"
| "header_is_match api (MatchHeader_Regex n re) h =
     list_ex (re_matches_all api re) (List.map_filter (value_to_str api) (hdr_get_all api h n))"

datatype 're match_query_param =
    MatchQueryParam_Exact string string
  | MatchQueryParam_Regex string 're

fun query_pair_matches ::
  "('re, 'h) http_api \<Rightarrow> 're match_query_param \<Rightarrow> string \<times> string \<Rightarrow> bool" where
  "query_pair_matches api (MatchQueryParam_Exact n v) (q, p) = (n = q \<and> v = p)"
| "query_pair_matches api (MatchQueryParam_Regex n re) (q, p) =
     (n = q \<and> re_matches_all api re p)"

definition query_param_is_match ::
  "('re, 'h) http_api \<Rightarrow> 're match_query_param \<Rightarrow> uri \<Rightarrow> bool" where
  "query_param_is_match api m u =
     (case uri_query u of
        None \<Rightarrow> False
      | Some qs \<Rightarrow> list_ex (query_pair_matches api m) (form_urlencoded_parse api qs))"

section \<open>Requests\<close>

record 're http_match_request =
  mr_path :: "'re match_path option"
  mr_headers :: "'re match_header list"
  mr_query_params :: "'re match_query_param list"
  mr_method :: "string option"

record request_match =
  rm_path_match :: path_match
  rm_headers :: nat
  rm_query_params :: nat
  rm_method :: bool

definition default_request_match :: request_match where
  "default_request_match =
     \<lparr> rm_path_match = PathMatch_Prefix (length ''/''), rm_headers = 0, rm_query_params = 0,
       rm_method = False \<rparr>"

definition match_request ::
  "('re, 'h) http_api \<Rightarrow> 're http_match_request \<Rightarrow> 'h request \<Rightarrow> request_match option" where
  "match_request api m req =
     (case (case mr_method m of
              None \<Rightarrow> Some default_request_match
            | Some meth \<Rightarrow>
                (if req_method req \<noteq> meth then None
                 else Some (default_request_match\<lparr> rm_method := True \<rparr>))) of
        None \<Rightarrow> None
      | Some s \<Rightarrow>
        (case (case mr_path m of
                 None \<Rightarrow> Some s
               | Some p \<Rightarrow>
                   map_option (\<lambda>pm. s\<lparr> rm_path_match := pm \<rparr>) (match_length api p (req_uri req))) of
           None \<Rightarrow> None
         | Some s' \<Rightarrow>
             (if \<not> list_all (\<lambda>h. header_is_match api h (req_headers req)) (mr_headers m) then None
              else if \<not> list_all (\<lambda>q. query_param_is_match api q (req_uri req))
                (mr_query_params m) then None
              else Some (s'\<lparr> rm_headers := length (mr_headers m),
                            rm_query_params := length (mr_query_params m) \<rparr>))))"

definition cmp_request_match :: "request_match \<Rightarrow> request_match \<Rightarrow> ordering" where
  "cmp_request_match a b =
     then_with (cmp_path_match (rm_path_match a) (rm_path_match b))
       (then_with (cmp_lin (rm_headers a) (rm_headers b))
         (then_with (cmp_lin (rm_query_params a) (rm_query_params b))
           (cmp_lin (rm_method a) (rm_method b))))"

section \<open>The orders satisfy the contract of Ord\<close>

interpretation host_ord: ord_contract cmp_host_match
proof
  fix x y z :: host_match
  show "cmp_host_match x x = Equal" by (cases x) auto
  show "cmp_host_match y x = reverse_ordering (cmp_host_match x y)"
    by (cases x; cases y) (auto simp: cmp_lin_def)
  show "cmp_host_match x z \<noteq> Greater"
    if "cmp_host_match x y \<noteq> Greater" "cmp_host_match y z \<noteq> Greater"
    using that by (cases x; cases y; cases z) auto
qed

interpretation path_ord: ord_contract cmp_path_match
  unfolding cmp_path_match_def
  using lin_ord.cmp_swap lin_ord.cmp_trans by unfold_locales (simp, blast, blast)

interpretation request_ord: ord_contract cmp_request_match
  unfolding cmp_request_match_def
  by (intro ord_contract_then [where f = rm_path_match and g = id, unfolded id_apply]
      ord_contract_then [where f = rm_headers and g = id, unfolded id_apply]
      ord_contract_then [where f = rm_query_params and g = rm_method]
      path_ord.ord_contract_axioms lin_ord.ord_contract_axioms)

section \<open>What the host loop decides\<close>

text \<open>The loop over the reversed labels strips one label and one dot at a time; it accepts
  the hosts that end in the labels, each with the dot before it.\<close>

lemma suffix_loop_eq:
  "suffix_loop sfx host len =
     (if suffix (concat (map (Cons (CHR ''.'')) (rev sfx))) host
      then Some (len + sum_list (map (\<lambda>s. length s + 1) sfx)) else None)"
proof (induction sfx arbitrary: host len)
  case (Cons a sfx)
  let ?tl = "concat (map (Cons (CHR ''.'')) (rev sfx))"
  show ?case
  proof (cases "\<exists>h. host = (h @ ''.'') @ a")
    case True
    then obtain h where h: "host = (h @ ''.'') @ a" by blast
    have "suffix (?tl @ CHR ''.'' # a) host \<longleftrightarrow> suffix ?tl h"
      using same_suffix_suffix [of ?tl "''.'' @ a" h] h by simp
    moreover have "suffix_loop (a # sfx) host len = suffix_loop sfx h (len + length a + 1)"
      using h by (simp only: suffix_loop.simps strip_suffix_append option.case)
    ultimately show ?thesis using Cons.IH [of h "len + length a + 1"] by simp
  next
    case False
    then have "suffix_loop (a # sfx) host len = None"
      by (auto simp: strip_suffix_Some_iff split: option.splits)
    moreover have "\<not> suffix (?tl @ CHR ''.'' # a) host"
      using False by (auto simp: suffix_def)
    ultimately show ?thesis by simp
  qed
qed simp

lemma sum_label_lengths:
  "ts \<noteq> [] \<Longrightarrow> sum_list (map (\<lambda>s. length s + 1) ts) = length (join_with c ts) + 1"
  by (induction c ts rule: join_with.induct) auto

lemma wildcard_suffix_loop:
  "suffix_loop (rev (split_on (CHR ''.'') d)) host len =
     (if suffix (CHR ''.'' # d) host then Some (len + length d + 1) else None)"
proof -
  let ?ts = "split_on (CHR ''.'') d"
  have "concat (map (Cons (CHR ''.'')) (rev (rev ?ts))) = CHR ''.'' # d"
    by (simp add: concat_sep_join)
  moreover have "sum_list (map (\<lambda>s. length s + 1) (rev ?ts)) = length d + 1"
    using sum_label_lengths [of ?ts "CHR ''.''"] by (simp add: rev_map [symmetric] sum_list_rev)
  ultimately show ?thesis unfolding suffix_loop_eq by simp
qed

lemma hd_rev_split_on_empty_iff:
  "hd (rev (split_on c d)) = [] \<longleftrightarrow> suffix [c] d \<or> d = []"
  by (simp add: hd_rev last_split_on_empty_iff)

section \<open>What the path check decides\<close>

lemma match_length_prefix_split:
  assumes "match_length api (MatchPath_Prefix p) u = Some pm" and "p \<noteq> ''/''"
  obtains rest where "pm = PathMatch_Prefix (length (trim_end_matches (CHR ''/'') p))"
    and "uri_path u = trim_end_matches (CHR ''/'') p @ rest" and "rest = [] \<or> prefix ''/'' rest"
proof -
  let ?p = "trim_end_matches (CHR ''/'') p" and ?s = "trim_end_matches (CHR ''/'') (uri_path u)"
  from assms obtain r where r: "strip_prefix ?p ?s = Some r" "r = [] \<or> prefix ''/'' r"
    and pm: "pm = PathMatch_Prefix (length ?p)"
    by (auto simp: Let_def split: option.splits if_splits)
  obtain k where "uri_path u = ?s @ replicate k (CHR ''/'')"
    by (rule trim_end_matches_split)
  with r have "uri_path u = ?p @ r @ replicate k (CHR ''/'')"
    by (simp add: strip_prefix_Some_iff)
  moreover have "r @ replicate k (CHR ''/'') = [] \<or> prefix ''/'' (r @ replicate k (CHR ''/''))"
    using r(2) by (cases k) auto
  ultimately show ?thesis using that pm by blast
qed

section \<open>Properties of the matchers\<close>

text \<open>C20: A wildcard host \<open>*.d\<close>, parsed and matched label by label from the
  right, admits exactly the authorities whose host ends in \<open>.d\<close>. One trailing
  dot of the request's host is ignored unless the pattern ends in a dot itself, and the
  summary is the length of \<open>.d\<close>.\<close>

theorem wildcard_host_match:
  assumes "match_host_from_str host_parse (''*.'' @ d) = Inr m"
    and "uri_authority u = Some a"
  shows "summarize_match m u =
    (if suffix (CHR ''.'' # d)
         (if suffix ''.'' d \<or> d = [] then auth_host a else strip_trailing_dot (auth_host a))
     then Some (HostMatch_Suffix (length d + 1)) else None)"
proof -
  have "m = MatchHost_Suffix (rev (split_on (CHR ''.'') d))"
    using assms(1) unfolding match_host_from_str_def strip_prefix_append
    by (simp split: sum.splits if_splits)
  then show ?thesis
    using assms(2) hd_rev_split_on_empty_iff [of "CHR ''.''" d]
    by (simp add: wildcard_suffix_loop)
qed

theorem wildcard_host_match_witness:
  "summarize_match (MatchHost_Suffix [''com'', ''example''])
     \<lparr> uri_scheme = None,
       uri_authority = Some \<lparr> auth_text = ''foo.example.com.'', auth_host = ''foo.example.com.'',
         auth_port = None \<rparr>,
       uri_path = ''/'', uri_query = None, uri_path_and_query = None \<rparr>
   = Some (HostMatch_Suffix 12)"
proof -
  have parsed: "match_host_from_str (\<lambda>_. Inr Host_Domain) (''*.'' @ ''example.com'')
      = Inr (MatchHost_Suffix [''com'', ''example''])"
    by code_simp
  show ?thesis
    by (subst wildcard_host_match [OF parsed, where a = "\<lparr> auth_text = ''foo.example.com.'',
        auth_host = ''foo.example.com.'', auth_port = None \<rparr>"], simp) code_simp
qed

text \<open>C19: A path prefix other than \<open>/\<close> matches byte by byte exactly when, trailing
  slashes aside, the prefix's segments are the first segments of the path: the check never
  accepts half a segment.\<close>

theorem path_prefix_matches_segments:
  assumes "pfx \<noteq> ''/''"
  shows "match_length api (MatchPath_Prefix pfx) u =
    (if prefix (split_on (CHR ''/'') (trim_end_matches (CHR ''/'') pfx))
         (split_on (CHR ''/'') (trim_end_matches (CHR ''/'') (uri_path u)))
     then Some (PathMatch_Prefix (length (trim_end_matches (CHR ''/'') pfx))) else None)"
  using assms unfolding split_on_prefix_iff
  by (auto simp: Let_def split: option.splits)

theorem path_prefix_matches_segments_witness:
  "match_length fun_headers_api (MatchPath_Prefix ''/foo/'')
     \<lparr> uri_scheme = None, uri_authority = None, uri_path = ''/foo/bar'', uri_query = None,
       uri_path_and_query = None \<rparr> = Some (PathMatch_Prefix 4)
   \<and> match_length fun_headers_api (MatchPath_Prefix ''/foo/'')
     \<lparr> uri_scheme = None, uri_authority = None, uri_path = ''/foobar'', uri_query = None,
       uri_path_and_query = None \<rparr> = None"
proof -
  have "''/foo/'' \<noteq> ''/''" by simp
  note eq = path_prefix_matches_segments [OF this, where api = fun_headers_api]
  show ?thesis unfolding eq by code_simp
qed

end
