(* ===== verification/Http_Route.thy ===== *)
theory Http_Route
  imports Http_Match
begin

text \<open>
  Finding the route of a request, \<open>linkerd/http/route/src/lib.rs\<close>: a route
  groups rules under host names, a rule groups request matchers under a policy, and
  \<open>find\<close> returns the policy of the best match. The search is the same for
  HTTP and gRPC: it is written over the \<open>Match\<close> trait, a record here. The lemmas show
  that the nested search over routes and rules is one search over all rules, that
  the best match wins and the earlier of two equal matches.
\<close>

section \<open>Routes and rules\<close>

record ('m, 'p) rule =
  rule_matches :: "'m list"
  rule_policy :: 'p

record ('m, 'p) route =
  route_hosts :: "match_host list"
  route_rules :: "('m, 'p) rule list"

record 's route_match =
  rtm_host :: "host_match option"
  rtm_route :: 's

record ('m, 'h, 's) match_trait =
  mt_match :: "'m \<Rightarrow> 'h request \<Rightarrow> 's option"
  mt_default :: 's
  mt_cmp :: "'s \<Rightarrow> 's \<Rightarrow> ordering"

definition cmp_route_match ::
  "('s \<Rightarrow> 's \<Rightarrow> ordering) \<Rightarrow> 's route_match \<Rightarrow> 's route_match \<Rightarrow> ordering" where
  "cmp_route_match cmp a b =
     then_with (cmp_option cmp_host_match (rtm_host a) (rtm_host b))
       (cmp (rtm_route a) (rtm_route b))"

section \<open>The search\<close>

definition best :: "('s \<Rightarrow> 's \<Rightarrow> ordering) \<Rightarrow> ('s \<times> 'p) list \<Rightarrow> ('s \<times> 'p) option" where
  "best cmp ms =
     (case ms of
        [] \<Rightarrow> None
      | x # xs \<Rightarrow>
          Some (foldl (\<lambda>(m0, p0) (m1, p1). if cmp m0 m1 \<noteq> Less then (m0, p0) else (m1, p1)) x xs))"

definition find_rule ::
  "('m, 'h, 's) match_trait \<Rightarrow> 'h request \<Rightarrow> ('m, 'p) rule \<Rightarrow> ('s \<times> 'p) option" where
  "find_rule mt req rl =
     (if rule_matches rl = [] then Some (mt_default mt, rule_policy rl)
      else (case iter_max (mt_cmp mt)
              (List.map_filter (\<lambda>m. mt_match mt m req) (rule_matches rl)) of
              None \<Rightarrow> None
            | Some summary \<Rightarrow> Some (summary, rule_policy rl)))"

definition find_host :: "'h request \<Rightarrow> ('m, 'p) route \<Rightarrow> host_match option option" where
  "find_host req rt =
     (if route_hosts rt = [] then Some None
      else map_option Some
        (iter_max cmp_host_match
          (List.map_filter (\<lambda>a. summarize_match a (req_uri req)) (route_hosts rt))))"

definition find_route ::
  "('m, 'h, 's) match_trait \<Rightarrow> 'h request \<Rightarrow> ('m, 'p) route \<Rightarrow> ('s route_match \<times> 'p) option" where
  "find_route mt req rt =
     (case find_host req rt of
        None \<Rightarrow> None
      | Some host \<Rightarrow>
          (case best (mt_cmp mt) (List.map_filter (find_rule mt req) (route_rules rt)) of
             None \<Rightarrow> None
           | Some (r, policy) \<Rightarrow> Some (\<lparr> rtm_host = host, rtm_route = r \<rparr>, policy)))"

definition find ::
  "('m, 'h, 's) match_trait \<Rightarrow> ('m, 'p) route list \<Rightarrow> 'h request \<Rightarrow> ('s route_match \<times> 'p) option"
  where
  "find mt routes req =
     best (cmp_route_match (mt_cmp mt)) (List.map_filter (find_route mt req) routes)"

text \<open>The instance of the \<open>Match\<close> trait for HTTP requests.\<close>

definition http_match_trait ::
  "('re, 'h) http_api \<Rightarrow> ('re http_match_request, 'h, request_match) match_trait" where
  "http_match_trait api =
     \<lparr> mt_match = match_request api, mt_default = default_request_match,
       mt_cmp = cmp_request_match \<rparr>"

section \<open>Choosing the best match\<close>

lemma map_filter_append [simp]:
  "List.map_filter f (xs @ ys) = List.map_filter f xs @ List.map_filter f ys"
  by (simp add: List.map_filter_def)

lemma set_map_filter_iff: "y \<in> set (List.map_filter f xs) \<longleftrightarrow> (\<exists>x\<in>set xs. f x = Some y)"
  by (force simp: List.map_filter_def)

lemma best_Nil [simp]: "best cmp [] = None"
  by (simp add: best_def)

lemma best_single [simp]: "best cmp [x] = Some x"
  by (simp add: best_def)

lemma best_None_iff [simp]: "best cmp ms = None \<longleftrightarrow> ms = []"
  by (cases ms) (simp_all add: best_def)

lemma best_snoc:
  "best cmp (ms @ [x]) =
     (case best cmp ms of
        None \<Rightarrow> Some x
      | Some y \<Rightarrow> Some (if cmp (fst y) (fst x) \<noteq> Less then y else x))"
  by (cases ms) (auto simp: best_def case_prod_beta)

lemma best_map:
  assumes "\<And>a b. cmp' (f a) (f b) = cmp a b"
  shows "best cmp' (map (\<lambda>(s, p). (f s, p)) ms) = map_option (\<lambda>(s, p). (f s, p)) (best cmp ms)"
  by (induction ms rule: rev_induct)
    (auto simp: best_snoc assms case_prod_beta split: option.splits)

context ord_contract
begin

lemma best_split:
  assumes "best cmp ms = Some x"
  shows "\<exists>pre suf. ms = pre @ x # suf \<and> (\<forall>y\<in>set pre. cmp (fst y) (fst x) = Less)
    \<and> (\<forall>y\<in>set suf. cmp (fst y) (fst x) \<noteq> Greater)"
  using assms
proof (induction ms arbitrary: x rule: rev_induct)
  case (snoc z ms)
  show ?case
  proof (cases "best cmp ms")
    case None
    then have "ms @ [z] = [] @ x # []" using snoc.prems by (simp add: best_snoc)
    then show ?thesis by (metis empty_iff list.set(1))
  next
    case (Some y)
    obtain pre suf where split: "ms = pre @ y # suf"
      and pre: "\<forall>w\<in>set pre. cmp (fst w) (fst y) = Less"
      and suf: "\<forall>w\<in>set suf. cmp (fst w) (fst y) \<noteq> Greater"
      using snoc.IH [OF Some] by blast
    show ?thesis
    proof (cases "cmp (fst y) (fst z) = Less")
      case False
      then have x: "x = y" using snoc.prems Some by (simp add: best_snoc)
      have "cmp (fst z) (fst y) \<noteq> Greater" using False by (simp add: cmp_Less_iff)
      then have "\<forall>w\<in>set (suf @ [z]). cmp (fst w) (fst x) \<noteq> Greater"
        using suf x by auto
      moreover have "ms @ [z] = pre @ x # (suf @ [z])" using split x by simp
      ultimately show ?thesis using pre x by blast
    next
      case True
      then have x: "x = z" using snoc.prems Some by (simp add: best_snoc)
      have "cmp (fst w) (fst z) = Less" if "w \<in> set ms" for w
      proof (rule cmp_le_Less_trans [OF _ True])
        show "cmp (fst w) (fst y) \<noteq> Greater" using that pre suf unfolding split by auto
      qed
      then have "\<forall>w\<in>set ms. cmp (fst w) (fst x) = Less" using x by blast
      moreover have "ms @ [z] = ms @ x # []" using x by simp
      ultimately show ?thesis by (metis empty_iff list.set(1))
    qed
  qed
qed simp

lemma best_unique:
  assumes "pre @ x # suf = pre' @ x' # suf'"
    and "\<forall>y\<in>set pre. cmp (fst y) (fst x) = Less" "\<forall>y\<in>set suf. cmp (fst y) (fst x) \<noteq> Greater"
    and "\<forall>y\<in>set pre'. cmp (fst y) (fst x') = Less" "\<forall>y\<in>set suf'. cmp (fst y) (fst x') \<noteq> Greater"
  shows "x = x'"
proof (cases "length pre" "length pre'" rule: linorder_cases)
  case less
  then have "x \<in> set pre'" "x' \<in> set suf"
    using assms(1) by (auto simp: append_eq_append_conv2 Cons_eq_append_conv append_eq_Cons_conv)
  then have "cmp (fst x) (fst x') = Less" "cmp (fst x') (fst x) \<noteq> Greater"
    using assms(3,4) by auto
  then show ?thesis by (simp add: cmp_Less_iff)
next
  case greater
  then have "x' \<in> set pre" "x \<in> set suf'"
    using assms(1) by (auto simp: append_eq_append_conv2 Cons_eq_append_conv append_eq_Cons_conv)
  then have "cmp (fst x') (fst x) = Less" "cmp (fst x) (fst x') \<noteq> Greater"
    using assms(2,5) by auto
  then show ?thesis by (simp add: cmp_Less_iff)
qed (use assms(1) in simp)

text \<open>The element \<open>best\<close> returns, characterised: every earlier element is strictly
  worse and no later one is better.\<close>

lemma best_Some_iff:
  "best cmp ms = Some x \<longleftrightarrow>
     (\<exists>pre suf. ms = pre @ x # suf \<and> (\<forall>y\<in>set pre. cmp (fst y) (fst x) = Less)
       \<and> (\<forall>y\<in>set suf. cmp (fst y) (fst x) \<noteq> Greater))"
    (is "_ \<longleftrightarrow> ?first x")
proof
  assume "?first x"
  then obtain x' where "best cmp ms = Some x'" by (cases "best cmp ms") auto
  moreover from this have "?first x'" by (rule best_split)
  ultimately show "best cmp ms = Some x" using \<open>?first x\<close> best_unique by blast
qed (rule best_split)

lemma best_combine:
  assumes "best cmp xs = Some x" and "best cmp ys = Some y"
  shows "best cmp (xs @ ys) = Some (if cmp (fst x) (fst y) \<noteq> Less then x else y)"
  using assms(2)
proof (induction ys arbitrary: y rule: rev_induct)
  case (snoc z zs)
  show ?case
  proof (cases "best cmp zs")
    case None
    then show ?thesis using snoc.prems assms(1) by (simp add: best_snoc)
  next
    case (Some w)
    have step: "best cmp ((xs @ zs) @ [z]) =
        Some (let b = (if cmp (fst x) (fst w) \<noteq> Less then x else w)
              in if cmp (fst b) (fst z) \<noteq> Less then b else z)"
      using snoc.IH [OF Some] by (simp add: best_snoc del: append_assoc)
    have y: "y = (if cmp (fst w) (fst z) \<noteq> Less then w else z)"
      using snoc.prems Some by (simp add: best_snoc)
    have "cmp (fst x) (fst z) = Less"
      if "cmp (fst x) (fst w) = Less" "cmp (fst w) (fst z) = Less"
      by (rule cmp_Less_le_trans [OF that(1)]) (simp add: that(2))
    moreover have "cmp (fst x) (fst z) \<noteq> Less"
      if "cmp (fst x) (fst w) \<noteq> Less" "cmp (fst w) (fst z) \<noteq> Less"
      using that by (rule cmp_not_Less_trans)
    ultimately show ?thesis
      using step y by (auto simp: Let_def)
  qed
qed simp

lemma best_concat:
  "best cmp (concat mss) = best cmp (List.map_filter (best cmp) mss)"
proof (induction mss rule: rev_induct)
  case (snoc ms mss)
  show ?case
  proof (cases "ms = []")
    case False
    then obtain y where y: "best cmp ms = Some y" by (cases "best cmp ms") auto
    show ?thesis
    proof (cases "best cmp (concat mss)")
      case None
      have "concat mss = []" using None by (simp only: best_None_iff)
      moreover have "List.map_filter (best cmp) mss = []"
        using None unfolding snoc by (simp only: best_None_iff)
      ultimately show ?thesis
        using y by (simp add: List.map_filter_simps del: concat_eq_Nil_conv)
    next
      case (Some x)
      then show ?thesis
        using snoc y best_combine [OF Some y] by (simp add: List.map_filter_simps best_snoc)
    qed
  qed (use snoc in \<open>simp add: List.map_filter_simps\<close>)
qed simp

lemma ord_contract_route_match: "ord_contract (cmp_route_match cmp)"
  unfolding cmp_route_match_def
  by (intro ord_contract_then ord_contract_option host_ord.ord_contract_axioms
      ord_contract_axioms)

end

interpretation http_route_ord: ord_contract "cmp_route_match cmp_request_match"
  by (rule request_ord.ord_contract_route_match)

section \<open>The search over all rules\<close>

text \<open>Every rule of every route whose hosts admit the request, with its match, in the order
  of the configuration.\<close>

definition candidates ::
  "('m, 'h, 's) match_trait \<Rightarrow> ('m, 'p) route list \<Rightarrow> 'h request \<Rightarrow> ('s route_match \<times> 'p) list"
  where
  "candidates mt routes req =
     concat (map (\<lambda>rt. case find_host req rt of
         None \<Rightarrow> []
       | Some host \<Rightarrow> map (\<lambda>(r, p). (\<lparr> rtm_host = host, rtm_route = r \<rparr>, p))
           (List.map_filter (find_rule mt req) (route_rules rt))) routes)"

lemma cmp_route_match_same_host [simp]:
  "cmp_route_match cmp \<lparr> rtm_host = h, rtm_route = a \<rparr> \<lparr> rtm_host = h, rtm_route = b \<rparr> = cmp a b"
proof -
  have "cmp_option cmp_host_match h h = Equal"
    by (rule ord_contract.cmp_refl [OF ord_contract_option [OF host_ord.ord_contract_axioms]])
  then show ?thesis by (simp add: cmp_route_match_def)
qed

lemma find_route_best:
  "find_route mt req rt =
     best (cmp_route_match (mt_cmp mt))
       (case find_host req rt of
          None \<Rightarrow> []
        | Some host \<Rightarrow> map (\<lambda>(r, p). (\<lparr> rtm_host = host, rtm_route = r \<rparr>, p))
            (List.map_filter (find_rule mt req) (route_rules rt)))"
  by (simp add: find_route_def best_map [where cmp = "mt_cmp mt"] case_prod_beta
      map_option_case split: option.splits)

lemma find_eq_best_candidates:
  assumes "ord_contract (mt_cmp mt)"
  shows "find mt routes req = best (cmp_route_match (mt_cmp mt)) (candidates mt routes req)"
proof -
  have oc: "ord_contract (cmp_route_match (mt_cmp mt))"
    using assms by (rule ord_contract.ord_contract_route_match)
  show ?thesis
    unfolding candidates_def ord_contract.best_concat [OF oc] find_def
    by (simp add: List.map_filter_def find_route_best comp_def filter_map)
qed

section \<open>What a found route comes from\<close>

lemma best_in: "best cmp ms = Some x \<Longrightarrow> x \<in> set ms"
  by (induction ms arbitrary: x rule: rev_induct) (auto simp: best_snoc split: option.splits if_splits)

lemma foldl_choice_set: "foldl (\<lambda>a b. if P a b then a else b) x xs \<in> set (x # xs)"
proof (induction xs arbitrary: x)
  case (Cons y ys)
  show ?case using Cons [of "if P x y then x else y"] by (auto split: if_splits)
qed simp

lemma iter_max_set: "iter_max cmp xs = Some x \<Longrightarrow> x \<in> set xs"
  using foldl_choice_set [of "\<lambda>a b. cmp a b = Greater"] by (cases xs) (auto simp: insert_iff)

lemma find_rule_SomeE:
  assumes "find_rule mt req rl = Some (s, p)"
  obtains "rule_matches rl = []" "s = mt_default mt" "p = rule_policy rl"
    | m where "m \<in> set (rule_matches rl)" "mt_match mt m req = Some s" "p = rule_policy rl"
  using assms
  by (auto simp: find_rule_def set_map_filter_iff split: if_splits option.splits dest!: iter_max_set)

lemma find_SomeE:
  assumes "find mt routes req = Some (m, p)"
  obtains rt rl where "rt \<in> set routes" "find_host req rt = Some (rtm_host m)"
    "rl \<in> set (route_rules rt)" "find_rule mt req rl = Some (rtm_route m, p)"
proof -
  from assms obtain rt where rt: "rt \<in> set routes" "find_route mt req rt = Some (m, p)"
    by (auto simp: find_def set_map_filter_iff dest!: best_in)
  then obtain h r where "find_host req rt = Some h"
    and b: "best (mt_cmp mt) (List.map_filter (find_rule mt req) (route_rules rt)) = Some (r, p)"
    and "m = \<lparr> rtm_host = h, rtm_route = r \<rparr>"
    by (auto simp: find_route_def split: option.splits)
  moreover from best_in [OF b] obtain rl where
    "rl \<in> set (route_rules rt)" "find_rule mt req rl = Some (r, p)"
    by (auto simp: set_map_filter_iff)
  ultimately show ?thesis using that rt by simp
qed

section \<open>The best match wins\<close>

text \<open>C6: \<open>find\<close> returns the policy of a rule exactly when that rule's match is at
  least as good as every other rule's, by host first and by the request's summary
  next, and strictly better than every rule configured before it. The nested search over
  routes and then rules is the same as one search over all of them.\<close>

theorem find_first_best:
  "find (http_match_trait api) routes req = Some (m, p) \<longleftrightarrow>
     (\<exists>pre suf. candidates (http_match_trait api) routes req = pre @ (m, p) # suf
       \<and> (\<forall>c\<in>set pre. cmp_route_match cmp_request_match (fst c) m = Less)
       \<and> (\<forall>c\<in>set suf. cmp_route_match cmp_request_match (fst c) m \<noteq> Greater))"
proof -
  have "mt_cmp (http_match_trait api) = cmp_request_match"
    by (simp add: http_match_trait_def)
  then have "find (http_match_trait api) routes req =
      best (cmp_route_match cmp_request_match) (candidates (http_match_trait api) routes req)"
    using find_eq_best_candidates [of "http_match_trait api" routes req]
      request_ord.ord_contract_axioms by simp
  then show ?thesis by (simp add: http_route_ord.best_Some_iff)
qed

definition sample_request :: "string \<Rightarrow> (header_name \<Rightarrow> header_value list) request" where
  "sample_request path =
     \<lparr> req_method = ''GET'',
       req_uri = \<lparr> uri_scheme = Some ''http'',
         uri_authority = Some \<lparr> auth_text = ''web.ns'', auth_host = ''web.ns'', auth_port = None \<rparr>,
         uri_path = path, uri_query = None,
         uri_path_and_query = Some \<lparr> pq_path = path, pq_query = None \<rparr> \<rparr>,
       req_headers = (\<lambda>_. []) \<rparr>"

definition path_rule :: "string match_path list \<Rightarrow> 'p \<Rightarrow> (string http_match_request, 'p) rule" where
  "path_rule ps p =
     \<lparr> rule_matches = map (\<lambda>m. \<lparr> mr_path = Some m, mr_headers = [], mr_query_params = [],
         mr_method = None \<rparr>) ps,
       rule_policy = p \<rparr>"

definition any_host :: "('m, 'p) rule list \<Rightarrow> ('m, 'p) route" where
  "any_host rs = \<lparr> route_hosts = [], route_rules = rs \<rparr>"

theorem find_first_best_witness:
  "find (http_match_trait fun_headers_api)
     [any_host [path_rule [MatchPath_Prefix ''/''] (0::nat),
                path_rule [MatchPath_Prefix ''/foo''] 1, path_rule [MatchPath_Exact ''/foo''] 2]]
     (sample_request ''/foo'')
   = Some (\<lparr> rtm_host = None, rtm_route = \<lparr> rm_path_match = PathMatch_Prefix 4, rm_headers = 0,
             rm_query_params = 0, rm_method = False \<rparr> \<rparr>, 1)"
  unfolding find_first_best
proof (intro exI conjI)
  let ?c = "\<lambda>pm. \<lparr> rtm_host = None, rtm_route = \<lparr> rm_path_match = pm, rm_headers = 0,
      rm_query_params = 0, rm_method = False \<rparr> \<rparr>"
  show "candidates (http_match_trait fun_headers_api)
     [any_host [path_rule [MatchPath_Prefix ''/''] (0::nat),
                path_rule [MatchPath_Prefix ''/foo''] 1, path_rule [MatchPath_Exact ''/foo''] 2]]
     (sample_request ''/foo'') =
     [(?c (PathMatch_Prefix 1), 0)] @ (?c (PathMatch_Prefix 4), 1) # [(?c (PathMatch_Exact 4), 2)]"
    by code_simp
qed code_simp+

end
