(* ===== verification/Http_Filter.thy ===== *)
theory Http_Filter
  imports Http_Route
begin

text \<open>
  The filters of the HTTP route library, \<open>linkerd/http/route/src/http/filter\<close>: request
  redirection (\<open>redirect.rs\<close>), header modification (\<open>modify_header.rs\<close>) and failure
  injection (\<open>inject_failure.rs\<close>), with the conversions from the policy
  controller's messages. A message is a record or a datatype with the fields that the
  conversion reads. The random generator is an argument that the draws thread through.
\<close>

section \<open>Redirects\<close>

datatype modify_path = ReplaceFullPath string | ReplacePrefixMatch string

datatype authority_override =
    AuthorityOverride_Exact authority
  | AuthorityOverride_Host authority
  | AuthorityOverride_Port nat

record redirect_request =
  rr_scheme :: "string option"
  rr_authority :: "authority_override option"
  rr_path :: "modify_path option"
  rr_status :: "nat option"

datatype invalid_redirect =
    InvalidRedirect_ReplacePrefix
  | InvalidRedirect_Location string
  | InvalidRedirect_Authority string
  | InvalidRedirect_MissingAuthority

record redirection =
  rd_status :: nat
  rd_location :: uri

definition port_if_not_default :: "string \<Rightarrow> nat \<Rightarrow> nat option" where
  "port_if_not_default scheme port =
     (if scheme = ''http'' \<and> port = 80 then None
      else if scheme = ''https'' \<and> port = 443 then None
      else Some port)"

definition redirect_authority ::
  "('re, 'h) http_api \<Rightarrow> redirect_request \<Rightarrow> uri \<Rightarrow> string \<Rightarrow> (authority, invalid_redirect) result"
  where
  "redirect_authority api rr orig scheme =
     (case rr_authority rr of
        None \<Rightarrow> ok_or InvalidRedirect_MissingAuthority (uri_authority orig)
      | Some (AuthorityOverride_Exact hp) \<Rightarrow> Inr hp
      | Some (AuthorityOverride_Host h) \<Rightarrow>
          (case Option.bind (uri_port orig) (port_if_not_default scheme) of
             Some p \<Rightarrow> map_err InvalidRedirect_Authority
               (parse_authority api (auth_text h @ '':'' @ show_nat p))
           | None \<Rightarrow> Inr h)
      | Some (AuthorityOverride_Port p) \<Rightarrow>
          (case port_if_not_default scheme p of
             Some q \<Rightarrow>
               (if Some q \<noteq> uri_port orig then
                  (case uri_host orig of
                     None \<Rightarrow> Inl InvalidRedirect_MissingAuthority
                   | Some h \<Rightarrow> map_err InvalidRedirect_Authority
                       (parse_authority api (h @ '':'' @ show_nat q)))
                else ok_or InvalidRedirect_MissingAuthority (uri_authority orig))
           | None \<Rightarrow>
               (if uri_port orig \<noteq> None then
                  (case uri_host orig of
                     None \<Rightarrow> Inl InvalidRedirect_MissingAuthority
                   | Some h \<Rightarrow> map_err InvalidRedirect_Authority (parse_authority api h))
                else ok_or InvalidRedirect_MissingAuthority (uri_authority orig))))"

definition redirect_path_and_query ::
  "('re, 'h) http_api \<Rightarrow> redirect_request \<Rightarrow> uri \<Rightarrow> request_match route_match \<Rightarrow>
     (path_and_query, invalid_redirect) result outcome" where
  "redirect_path_and_query api rr orig rm =
     (case rr_path rr of
        None \<Rightarrow> bind_outcome (expect ''URI must have a path'' (uri_path_and_query orig))
          (\<lambda>pq. Returns (Inr pq))
      | Some (ReplaceFullPath p) \<Rightarrow>
          Returns (map_err InvalidRedirect_Authority (parse_path_and_query api p))
      | Some (ReplacePrefixMatch new_pfx) \<Rightarrow>
          Returns (case rm_path_match (rtm_route rm) of
             PathMatch_Prefix pfx_len \<Rightarrow>
               (if pfx_len \<le> length (uri_path orig) then
                  (let rest = drop pfx_len (uri_path orig);
                       path = new_pfx
                         @ (if rest \<noteq> [] \<and> \<not> prefix ''/'' rest then ''/'' else [])
                         @ rest
                         @ (case uri_query orig of None \<Rightarrow> [] | Some q \<Rightarrow> ''?'' @ q)
                   in map_err InvalidRedirect_Authority (parse_path_and_query api path))
                else Inl InvalidRedirect_ReplacePrefix)
           | _ \<Rightarrow> Inl InvalidRedirect_ReplacePrefix))"

definition redirect_scheme :: "redirect_request \<Rightarrow> uri \<Rightarrow> string" where
  "redirect_scheme rr orig =
     (case rr_scheme rr of
        Some s \<Rightarrow> s
      | None \<Rightarrow> (case uri_scheme orig of Some s \<Rightarrow> s | None \<Rightarrow> ''http''))"

definition redirect_apply ::
  "('re, 'h) http_api \<Rightarrow> redirect_request \<Rightarrow> uri \<Rightarrow> request_match route_match \<Rightarrow>
     (redirection option, invalid_redirect) result outcome" where
  "redirect_apply api rr orig rm =
     (let scheme = redirect_scheme rr orig
      in case redirect_authority api rr orig scheme of
           Inl e \<Rightarrow> Returns (Inl e)
         | Inr authority \<Rightarrow>
             bind_outcome (redirect_path_and_query api rr orig rm)
               (\<lambda>r. Returns (case r of
                   Inl e \<Rightarrow> Inl e
                 | Inr pq \<Rightarrow>
                     (case build_uri api scheme authority pq of
                        Inl e \<Rightarrow> Inl (InvalidRedirect_Location e)
                      | Inr location \<Rightarrow>
                          (if uri_eq api location orig then Inr None
                           else Inr (Some
                             \<lparr> rd_status = (case rr_status rr of Some s \<Rightarrow> s | None \<Rightarrow> 301),
                               rd_location = location \<rparr>))))))"

subsection \<open>From the controller's message\<close>

datatype proto_replace = Replace_Full string | Replace_Prefix string

record 'sch proto_request_redirect =
  prr_scheme :: "'sch option"
  prr_host :: string
  prr_port :: nat
  prr_path :: "proto_replace option option"
  prr_status :: nat

datatype 'e invalid_request_redirect =
    InvalidRequestRedirect_Scheme 'e
  | InvalidRequestRedirect_Status
  | InvalidRequestRedirect_StatusNonU16 nat
  | InvalidRequestRedirect_Authority string
  | InvalidRequestRedirect_Port nat
  | InvalidRequestRedirect_RelativePath

text \<open>\<open>u16::try_from\<close> a \<open>u32\<close>.\<close>

definition u16_try_from :: "nat \<Rightarrow> nat option" where
  "u16_try_from n = (if n < 65536 then Some n else None)"

definition redirect_path_try_from :: "proto_replace \<Rightarrow> (modify_path, 'e invalid_request_redirect) result"
  where
  "redirect_path_try_from r =
     (case r of
        Replace_Full path \<Rightarrow>
          (if \<not> prefix ''/'' path then Inl InvalidRequestRedirect_RelativePath
           else Inr (ReplaceFullPath path))
      | Replace_Prefix pfx \<Rightarrow>
          (if \<not> prefix ''/'' pfx then Inl InvalidRequestRedirect_RelativePath
           else Inr (ReplacePrefixMatch pfx)))"

definition redirect_authority_try_from ::
  "('re, 'h) http_api \<Rightarrow> string \<Rightarrow> nat \<Rightarrow>
     (authority_override option, 'e invalid_request_redirect) result" where
  "redirect_authority_try_from api h port =
     (if h = [] then Inr (if port = 0 then None else Some (AuthorityOverride_Port port))
      else if port \<noteq> 0 then
        bind_result (map_err InvalidRequestRedirect_Authority
            (parse_authority api (h @ '':'' @ show_nat port)))
          (\<lambda>a. Inr (Some (AuthorityOverride_Exact a)))
      else
        bind_result (map_err InvalidRequestRedirect_Authority (parse_authority api h))
          (\<lambda>a. Inr (Some (AuthorityOverride_Host a))))"

definition redirect_status_try_from ::
  "(nat \<Rightarrow> bool) \<Rightarrow> nat \<Rightarrow> (nat option, 'e invalid_request_redirect) result" where
  "redirect_status_try_from status_valid status =
     (case u16_try_from status of
        None \<Rightarrow> Inl (InvalidRequestRedirect_StatusNonU16 status)
      | Some s \<Rightarrow>
          (if s = 0 then Inr None
           else if status_valid s then Inr (Some s) else Inl InvalidRequestRedirect_Status))"

definition redirect_try_from ::
  "('re, 'h) http_api \<Rightarrow> ('sch \<Rightarrow> (string, 'e) result) \<Rightarrow> (nat \<Rightarrow> bool) \<Rightarrow>
     'sch proto_request_redirect \<Rightarrow> (redirect_request, 'e invalid_request_redirect) result" where
  "redirect_try_from api scheme_try_from status_valid rr =
     bind_result (transpose_opt (map_option
         (\<lambda>s. map_err InvalidRequestRedirect_Scheme (scheme_try_from s)) (prr_scheme rr)))
     (\<lambda>scheme. bind_result
         (ok_or (InvalidRequestRedirect_Port (prr_port rr)) (u16_try_from (prr_port rr)))
     (\<lambda>port. bind_result
         (redirect_authority_try_from api (prr_host rr) port)
     (\<lambda>authority. bind_result
         (transpose_opt (map_option redirect_path_try_from
            (Option.bind (prr_path rr) (\<lambda>p. p))))
     (\<lambda>path. bind_result
         (redirect_status_try_from status_valid (prr_status rr))
     (\<lambda>status. Inr \<lparr> rr_scheme = scheme, rr_authority = authority, rr_path = path,
         rr_status = status \<rparr>)))))"

section \<open>Header modification\<close>

record modify_header =
  mh_add :: "(header_name \<times> header_value) list"
  mh_set :: "(header_name \<times> header_value) list"
  mh_remove :: "header_name list"

definition modify_header_apply :: "('re, 'h) http_api \<Rightarrow> modify_header \<Rightarrow> 'h \<Rightarrow> 'h" where
  "modify_header_apply api mh headers =
     (let added = foldl (\<lambda>h (n, v). hdr_append api h n v) headers (mh_add mh);
          set = foldl (\<lambda>h (n, v). hdr_insert api h n v) added (mh_set mh)
      in foldl (\<lambda>h n. hdr_remove api h n) set (mh_remove mh))"

datatype invalid_modify_header = InvalidModifyHeader_Name string | InvalidModifyHeader_Value string

record proto_header_modifier =
  phm_add :: "(string \<times> string) list option"
  phm_set :: "(string \<times> string) list option"
  phm_remove :: "string list"

definition to_pairs ::
  "(string \<Rightarrow> (header_name, string) result) \<Rightarrow> (string \<Rightarrow> (header_value, string) result) \<Rightarrow>
     (string \<times> string) list option \<Rightarrow>
     ((header_name \<times> header_value) list, invalid_modify_header) result" where
  "to_pairs parse_name parse_value hs =
     collect_results (map
       (\<lambda>(n, v). bind_result (map_err InvalidModifyHeader_Name (parse_name n))
          (\<lambda>name. bind_result (map_err InvalidModifyHeader_Value (parse_value v))
             (\<lambda>value. Inr (name, value))))
       (case hs of None \<Rightarrow> [] | Some l \<Rightarrow> l))"

definition modify_header_try_from ::
  "(string \<Rightarrow> (header_name, string) result) \<Rightarrow> (string \<Rightarrow> (header_value, string) result) \<Rightarrow>
     proto_header_modifier \<Rightarrow> (modify_header, invalid_modify_header) result" where
  "modify_header_try_from parse_name parse_value rhm =
     bind_result (to_pairs parse_name parse_value (phm_add rhm)) (\<lambda>add.
     bind_result (to_pairs parse_name parse_value (phm_set rhm)) (\<lambda>set.
     bind_result (collect_results
         (map (\<lambda>n. map_err InvalidModifyHeader_Name (parse_name n)) (phm_remove rhm))) (\<lambda>remove.
     Inr \<lparr> mh_add = add, mh_set = set, mh_remove = remove \<rparr>)))"

section \<open>Failure injection\<close>

record distribution =
  dist_numerator :: nat
  dist_denominator :: nat

record failure_response =
  fr_status :: nat
  fr_message :: string

record 't inject_failure =
  if_response :: 't
  if_distribution :: distribution

text \<open>The random generator is threaded through the draws: \<open>sample d g\<close> is the outcome of
  a draw from the distribution and the generator after it.\<close>

definition inject_failure_apply ::
  "(distribution \<Rightarrow> 'g \<Rightarrow> bool \<times> 'g) \<Rightarrow> 't inject_failure \<Rightarrow> 'g \<Rightarrow> 't option \<times> 'g" where
  "inject_failure_apply sample f g =
     (case sample (if_distribution f) g of
        (hit, g') \<Rightarrow> (if hit then (Some (if_response f), g') else (None, g')))"

definition distribution_from_ratio ::
  "(nat \<Rightarrow> nat \<Rightarrow> (unit, 'e) result) \<Rightarrow> nat \<Rightarrow> nat \<Rightarrow> (distribution, 'e) result" where
  "distribution_from_ratio bernoulli n d =
     bind_result (bernoulli n d) (\<lambda>_. Inr \<lparr> dist_numerator = n, dist_denominator = d \<rparr>)"

definition default_distribution ::
  "(nat \<Rightarrow> nat \<Rightarrow> (unit, 'e) result) \<Rightarrow> distribution outcome" where
  "default_distribution bernoulli =
     (case distribution_from_ratio bernoulli 1 1 of
        Inl _ \<Rightarrow> Panics ''default distribution must be valid''
      | Inr d \<Rightarrow> Returns d)"

datatype 'e invalid_failure_response =
    InvalidFailureResponse_Status
  | InvalidFailureResponse_StatusNonU16
  | InvalidFailureResponse_Distribution 'e

record proto_failure_injector =
  pfi_status :: nat
  pfi_message :: string
  pfi_ratio :: "(nat \<times> nat) option"

definition distribution_try_from ::
  "(nat \<Rightarrow> nat \<Rightarrow> (unit, 'e) result) \<Rightarrow> (nat \<times> nat) option \<Rightarrow>
     (distribution, 'e) result outcome" where
  "distribution_try_from bernoulli p =
     (case p of
        None \<Rightarrow> bind_outcome (default_distribution bernoulli) (\<lambda>d. Returns (Inr d))
      | Some (n, d) \<Rightarrow> Returns (distribution_from_ratio bernoulli n d))"

definition inject_failure_try_from ::
  "(nat \<Rightarrow> bool) \<Rightarrow> (nat \<Rightarrow> nat \<Rightarrow> (unit, 'e) result) \<Rightarrow> proto_failure_injector \<Rightarrow>
     (failure_response inject_failure, 'e invalid_failure_response) result outcome" where
  "inject_failure_try_from status_valid bernoulli p =
     (case u16_try_from (pfi_status p) of
        None \<Rightarrow> Returns (Inl InvalidFailureResponse_StatusNonU16)
      | Some s \<Rightarrow>
          (if \<not> status_valid s then Returns (Inl InvalidFailureResponse_Status)
           else bind_outcome (distribution_try_from bernoulli (pfi_ratio p))
             (\<lambda>r. Returns (bind_result (map_err InvalidFailureResponse_Distribution r)
                (\<lambda>d. Inr \<lparr> if_response = \<lparr> fr_status = s, fr_message = pfi_message p \<rparr>,
                   if_distribution = d \<rparr>)))))"

section \<open>Redirects do not loop\<close>

text \<open>A redirect whose host override is a host, without a port, and whose port override is
  nonzero and 16-bit; and a URI whose authority is a host with a 16-bit port, if any. The
  first is more than the code checks: \<open>AuthorityOverride::Host\<close> holds any authority, one with
  a port included.\<close>

definition redirect_wf :: "('re, 'h) http_api \<Rightarrow> redirect_request \<Rightarrow> bool" where
  "redirect_wf api rr \<longleftrightarrow>
     (case rr_authority rr of
        Some (AuthorityOverride_Host h) \<Rightarrow> valid_host api (auth_text h) \<and> auth_port h = None
      | Some (AuthorityOverride_Port p) \<Rightarrow> 0 < p \<and> p < 65536
      | _ \<Rightarrow> True)"

definition uri_wf :: "('re, 'h) http_api \<Rightarrow> uri \<Rightarrow> bool" where
  "uri_wf api u \<longleftrightarrow>
     (case uri_authority u of
        Some a \<Rightarrow> valid_host api (auth_host a) \<and> (case auth_port a of Some p \<Rightarrow> p < 65536 | None \<Rightarrow> True)
      | None \<Rightarrow> True)"

lemma port_if_not_default_Some:
  "port_if_not_default s p = Some q \<Longrightarrow> q = p \<and> port_if_not_default s q = Some q"
  by (auto simp: port_if_not_default_def split: if_splits)

lemma uri_laws_parse:
  assumes "uri_laws api" and "valid_host api h" and "p < 65536"
  shows "parse_authority api (h @ CHR '':'' # show_nat p) =
    Inr \<lparr> auth_text = h @ CHR '':'' # show_nat p, auth_host = h, auth_port = Some p \<rparr>"
  using assms by (simp add: uri_laws_def)

lemma uri_laws_build:
  assumes "uri_laws api" and "build_uri api s a pq = Inr u"
  shows "uri_scheme u = Some s" "uri_authority u = Some a" "uri_path u = pq_path pq"
    "uri_query u = pq_query pq" "uri_path_and_query u = Some pq"
  using assms by (simp_all add: uri_laws_def)

text \<open>The authority of a redirect is a fixed point: computed again from a URI that has it
  already, it is the same.\<close>

lemma redirect_authority_stable_host:
  assumes laws: "uri_laws api" and h: "valid_host api (auth_text h)" "auth_port h = None"
    and orig: "uri_wf api orig" and rr: "rr_authority rr = Some (AuthorityOverride_Host h)"
    and a: "redirect_authority api rr orig s = Inr a" and u: "uri_authority u = Some a"
  shows "redirect_authority api rr u s = Inr a"
proof (cases "Option.bind (uri_port orig) (port_if_not_default s)")
  case None
  with rr a have "a = h" by (simp add: redirect_authority_def)
  with rr u h show ?thesis by (simp add: redirect_authority_def uri_port_def)
next
  case (Some q)
  then have "uri_port orig = Some q" and q: "port_if_not_default s q = Some q"
    using port_if_not_default_Some [of s _ q] by (auto simp: bind_eq_Some_conv)
  with orig have "q < 65536"
    by (cases "uri_authority orig") (simp_all add: uri_wf_def uri_port_def)
  with a Some rr h have "a = \<lparr> auth_text = auth_text h @ CHR '':'' # show_nat q,
      auth_host = auth_text h, auth_port = Some q \<rparr>"
    by (simp add: redirect_authority_def uri_laws_parse [OF laws])
  with u rr q h \<open>q < 65536\<close> show ?thesis
    by (simp add: redirect_authority_def uri_port_def uri_laws_parse [OF laws])
qed

lemma redirect_authority_stable_port:
  assumes laws: "uri_laws api" and p: "p < 65536"
    and orig: "uri_wf api orig" and rr: "rr_authority rr = Some (AuthorityOverride_Port p)"
    and a: "redirect_authority api rr orig s = Inr a" and u: "uri_authority u = Some a"
  shows "redirect_authority api rr u s = Inr a"
proof -
  from rr a obtain oa where oa: "uri_authority orig = Some oa"
    by (cases "uri_authority orig")
      (auto simp: redirect_authority_def uri_port_def uri_host_def split: option.splits if_splits)
  with orig have host: "valid_host api (auth_host oa)" by (simp add: uri_wf_def)
  have port: "auth_port a = port_if_not_default s p"
  proof (cases "port_if_not_default s p")
    case None
    with a rr oa host show ?thesis
      by (cases "auth_port oa")
        (simp_all add: redirect_authority_def uri_port_def uri_host_def valid_host_def)
  next
    case (Some q)
    with port_if_not_default_Some have "q = p" by blast
    with Some a rr oa host p show ?thesis
      by (cases "auth_port oa = Some p")
        (auto simp: redirect_authority_def uri_port_def uri_host_def uri_laws_parse [OF laws])
  qed
  show ?thesis
  proof (cases "port_if_not_default s p")
    case None
    with port u rr show ?thesis by (simp add: redirect_authority_def uri_port_def)
  next
    case (Some q)
    with port u rr show ?thesis by (simp add: redirect_authority_def uri_port_def)
  qed
qed

lemma redirect_authority_stable:
  assumes "uri_laws api" and rr: "redirect_wf api rr" and "uri_wf api orig"
    and a: "redirect_authority api rr orig s = Inr a" and u: "uri_authority u = Some a"
  shows "redirect_authority api rr u s = Inr a"
proof (cases "rr_authority rr")
  case None
  with a u show ?thesis by (simp add: redirect_authority_def)
next
  case (Some ov)
  show ?thesis
  proof (cases ov)
    case (AuthorityOverride_Exact hp)
    with Some a u show ?thesis by (simp add: redirect_authority_def)
  next
    case (AuthorityOverride_Host h)
    with Some rr have "valid_host api (auth_text h)" "auth_port h = None"
      by (simp_all add: redirect_wf_def)
    with Some AuthorityOverride_Host show ?thesis
      using redirect_authority_stable_host [OF assms(1) _ _ assms(3) _ a u] by simp
  next
    case (AuthorityOverride_Port p)
    with Some rr have "p < 65536" by (simp add: redirect_wf_def)
    with Some AuthorityOverride_Port show ?thesis
      using redirect_authority_stable_port [OF assms(1) _ assms(3) _ a u] by simp
  qed
qed

lemma redirect_apply_SomeE:
  assumes "redirect_apply api rr orig rm = Returns (Inr (Some rd))"
  obtains a pq where "redirect_authority api rr orig (redirect_scheme rr orig) = Inr a"
    and "redirect_path_and_query api rr orig rm = Returns (Inr pq)"
    and "build_uri api (redirect_scheme rr orig) a pq = Inr (rd_location rd)"
    and "\<not> uri_eq api (rd_location rd) orig"
    and "rd_status rd = (case rr_status rr of Some s \<Rightarrow> s | None \<Rightarrow> 301)"
proof -
  from assms obtain a where a: "redirect_authority api rr orig (redirect_scheme rr orig) = Inr a"
    by (cases "redirect_authority api rr orig (redirect_scheme rr orig)")
      (simp_all add: redirect_apply_def)
  with assms obtain r where r: "redirect_path_and_query api rr orig rm = Returns r"
    by (cases "redirect_path_and_query api rr orig rm") (simp_all add: redirect_apply_def)
  with a assms obtain pq where "r = Inr pq"
    by (cases r) (simp_all add: redirect_apply_def)
  with a r have ap: "redirect_authority api rr orig (redirect_scheme rr orig) = Inr a"
      "redirect_path_and_query api rr orig rm = Returns (Inr pq)"
    by simp_all
  moreover from this assms obtain u where
    u: "build_uri api (redirect_scheme rr orig) a pq = Inr u" "\<not> uri_eq api u orig"
    by (auto simp: redirect_apply_def Let_def split: sum.splits if_splits)
  moreover from ap assms u have
    "rd = \<lparr> rd_status = (case rr_status rr of Some s \<Rightarrow> s | None \<Rightarrow> 301), rd_location = u \<rparr>"
    by (simp add: redirect_apply_def)
  ultimately show ?thesis using that by simp
qed

lemma redirect_try_from_wf:
  assumes "redirect_try_from api scheme_try_from status_valid msg =
      (Inr rr :: (redirect_request, 'e invalid_request_redirect) result)"
    and "prr_host msg = [] \<or> valid_host api (prr_host msg)"
  shows "redirect_wf api rr"
proof -
  from assms(1) [unfolded redirect_try_from_def bind_result_Inr_iff ok_or_Inr_iff]
  obtain port where "u16_try_from (prr_port msg) = Some port"
    and "redirect_authority_try_from api (prr_host msg) port =
       (Inr (rr_authority rr) :: (_, 'e invalid_request_redirect) result)"
    by clarsimp
  with assms(2) show ?thesis
    by (cases "prr_host msg = []")
      (auto simp: redirect_authority_try_from_def u16_try_from_def bind_result_Inr_iff
        redirect_wf_def valid_host_def split: if_splits
        dest!: sym [of "Some _" "rr_authority rr"] sym [of None "rr_authority rr"])
qed

text \<open>C18: a client that follows a redirect is not redirected again by the same filter, whatever
  rule its new request matches. This holds for the redirects accepted from the controller that
  keep the path or replace all of it, and whose host override, if they have one, names no
  port: on the location it computed, such a redirect has nothing left to do, with the port of
  the request kept, replaced or dropped because it is the scheme's default. It does not
  cover the redirects that replace a path prefix.\<close>

theorem redirect_location_is_stable:
  assumes laws: "uri_laws api"
    and msg: "redirect_try_from api scheme_try_from status_valid msg =
      (Inr rr :: (redirect_request, 'e invalid_request_redirect) result)"
    and host: "prr_host msg = [] \<or> valid_host api (prr_host msg)"
    and orig: "uri_wf api orig"
    and path: "\<nexists>pfx. rr_path rr = Some (ReplacePrefixMatch pfx)"
    and rd: "redirect_apply api rr orig rm = Returns (Inr (Some rd))"
  shows "redirect_apply api rr (rd_location rd) rm' = Returns (Inr None)"
proof -
  from rd obtain a pq where
    a: "redirect_authority api rr orig (redirect_scheme rr orig) = Inr a"
    and pq: "redirect_path_and_query api rr orig rm = Returns (Inr pq)"
    and b: "build_uri api (redirect_scheme rr orig) a pq = Inr (rd_location rd)"
    by (rule redirect_apply_SomeE)
  have s: "redirect_scheme rr (rd_location rd) = redirect_scheme rr orig"
    using uri_laws_build [OF laws b] by (simp add: redirect_scheme_def split: option.splits)
  have "redirect_authority api rr (rd_location rd) (redirect_scheme rr orig) = Inr a"
    using redirect_authority_stable [OF laws redirect_try_from_wf [OF msg host] orig a] uri_laws_build [OF laws b] by blast
  moreover have "redirect_path_and_query api rr (rd_location rd) rm' = Returns (Inr pq)"
  proof (cases "rr_path rr")
    case None
    with pq show ?thesis
      using uri_laws_build(5) [OF laws b]
      by (cases "uri_path_and_query orig") (simp_all add: redirect_path_and_query_def)
  next
    case (Some mp)
    with pq path show ?thesis
      by (cases mp) (simp_all add: redirect_path_and_query_def)
  qed
  moreover have "uri_eq api (rd_location rd) (rd_location rd)"
    using laws by (simp add: uri_laws_def)
  ultimately show ?thesis by (simp add: redirect_apply_def s b)
qed

definition any_match :: "request_match route_match" where
  "any_match = \<lparr> rtm_host = None, rtm_route = default_request_match \<rparr>"

definition port_redirect :: redirect_request where
  "port_redirect = \<lparr> rr_scheme = Some ''https'', rr_authority = Some (AuthorityOverride_Port 81),
     rr_path = None, rr_status = None \<rparr>"

definition port_redirect_message :: "string proto_request_redirect" where
  "port_redirect_message = \<lparr> prr_scheme = Some ''https'', prr_host = [], prr_port = 81,
     prr_path = None, prr_status = 0 \<rparr>"

definition port_redirection :: redirection where
  "port_redirection = \<lparr> rd_status = 301, rd_location = \<lparr> uri_scheme = Some ''https'',
     uri_authority = Some \<lparr> auth_text = ''web.ns:81'', auth_host = ''web.ns'', auth_port = Some 81 \<rparr>,
     uri_path = ''/foo'', uri_query = None,
     uri_path_and_query = Some \<lparr> pq_path = ''/foo'', pq_query = None \<rparr> \<rparr> \<rparr>"

lemma port_redirect_accepted:
  "redirect_try_from fun_headers_api (\<lambda>s. Inr s :: (string, unit) result) (\<lambda>s. 100 \<le> s)
     port_redirect_message = Inr port_redirect"
  by (simp add: redirect_try_from_def transpose_opt_def u16_try_from_def port_redirect_message_def
      redirect_authority_try_from_def redirect_status_try_from_def port_redirect_def)

theorem redirect_location_is_stable_witness:
  "redirect_apply fun_headers_api port_redirect (req_uri (sample_request ''/foo'')) any_match
     = Returns (Inr (Some port_redirection))
   \<and> redirect_apply fun_headers_api port_redirect (rd_location port_redirection) any_match
     = Returns (Inr None)"
proof
  show app: "redirect_apply fun_headers_api port_redirect (req_uri (sample_request ''/foo'')) any_match
     = Returns (Inr (Some port_redirection))"
    by code_simp
  have "uri_wf fun_headers_api (req_uri (sample_request ''/foo''))"
    by (simp add: uri_wf_def sample_request_def valid_host_def fun_headers_api_def
        sample_authority_def)
  from redirect_location_is_stable [OF fun_headers_api_uri_laws port_redirect_accepted _ this _ app]
  show "redirect_apply fun_headers_api port_redirect (rd_location port_redirection) any_match
     = Returns (Inr None)"
    by (simp add: port_redirect_def port_redirect_message_def)
qed

text \<open>A host override that carries a port is accepted when the message's port is zero, and the
  request's own port is then written after it: for the host \<open>web:81\<close> and a request on port
  8080, the authority parsed is \<open>web:81:8080\<close>.\<close>

lemma host_override_with_port:
  assumes "redirect_authority_try_from api h 0 =
      (Inr (rr_authority rr) :: (_, 'e invalid_request_redirect) result)"
    and "h \<noteq> []" and "parse_authority api h = Inr a" and "uri_port orig = Some p"
    and "port_if_not_default s p = Some p"
  shows "redirect_authority api rr orig s =
    map_err InvalidRedirect_Authority (parse_authority api (auth_text a @ '':'' @ show_nat p))"
  using assms
  by (auto simp: redirect_authority_try_from_def redirect_authority_def
      dest!: sym [of "Some _" "rr_authority rr"])

section \<open>Redirects of a path prefix\<close>

text \<open>The path of a prefix redirect: the rest of the request's path moved under the new prefix,
  with the query kept.\<close>

definition prefix_redirect_path :: "string \<Rightarrow> string \<Rightarrow> string option \<Rightarrow> string" where
  "prefix_redirect_path new_pfx rest query =
     new_pfx @ (if rest \<noteq> [] \<and> \<not> prefix ''/'' rest then ''/'' else [])
       @ rest @ (case query of None \<Rightarrow> [] | Some q \<Rightarrow> ''?'' @ q)"

fun is_prefix_matcher :: "'re http_match_request \<Rightarrow> bool" where
  "is_prefix_matcher m =
     (case mr_path m of None \<Rightarrow> True | Some (MatchPath_Prefix _) \<Rightarrow> True | _ \<Rightarrow> False)"

text \<open>The prefix a matcher is for: the configured one without its trailing slashes, and the root
  for a matcher that does not look at the path.\<close>

definition matcher_prefix :: "'re http_match_request \<Rightarrow> string" where
  "matcher_prefix m =
     (case mr_path m of
        Some (MatchPath_Prefix p) \<Rightarrow> (if p = ''/'' then ''/'' else trim_end_matches (CHR ''/'') p)
      | _ \<Rightarrow> ''/'')"

lemma redirect_path_and_query_prefix:
  assumes "rr_path rr = Some (ReplacePrefixMatch new_pfx)"
    and "rm_path_match (rtm_route rm) = PathMatch_Prefix (length pfx)"
    and "uri_path orig = pfx @ rest"
  shows "redirect_path_and_query api rr orig rm =
    Returns (map_err InvalidRedirect_Authority
      (parse_path_and_query api (prefix_redirect_path new_pfx rest (uri_query orig))))"
  using assms by (simp add: redirect_path_and_query_def prefix_redirect_path_def Let_def)

lemma match_request_path:
  assumes "match_request api m req = Some s"
  shows "case mr_path m of
      None \<Rightarrow> rm_path_match s = PathMatch_Prefix 1
    | Some p \<Rightarrow> match_length api p (req_uri req) = Some (rm_path_match s)"
  using assms
  by (auto simp: match_request_def default_request_match_def split: option.splits if_splits)

lemma match_request_prefix:
  assumes "match_request api m req = Some s" and m: "is_prefix_matcher m"
    and path: "prefix ''/'' (uri_path (req_uri req))"
  obtains rest where "rm_path_match s = PathMatch_Prefix (length (matcher_prefix m))"
    and "uri_path (req_uri req) = matcher_prefix m @ rest"
    and "matcher_prefix m = ''/'' \<or> rest = [] \<or> prefix ''/'' rest"
proof -
  from path obtain r where r: "uri_path (req_uri req) = ''/'' @ r" by (auto simp: prefix_def)
  note pm = match_request_path [OF assms(1)]
  show ?thesis
  proof (cases "\<exists>p. mr_path m = Some (MatchPath_Prefix p) \<and> p \<noteq> ''/''")
    case True
    then obtain p where p: "mr_path m = Some (MatchPath_Prefix p)" "p \<noteq> ''/''" by blast
    with pm have "match_length api (MatchPath_Prefix p) (req_uri req) = Some (rm_path_match s)"
      by simp
    from match_length_prefix_split [OF this p(2)] that p show ?thesis
      by (auto simp: matcher_prefix_def)
  next
    case False
    with m have "mr_path m = None \<or> mr_path m = Some (MatchPath_Prefix ''/'')"
      by (auto split: option.splits match_path.splits)
    with pm r that show ?thesis by (auto simp: matcher_prefix_def)
  qed
qed

text \<open>The prefix that a rule's match is for: that of the matcher whose summary \<open>find_rule\<close>
  returned, or the root where the rule has no matchers.\<close>

definition rule_prefix ::
  "('re, 'h) http_api \<Rightarrow> 'h request \<Rightarrow> ('re http_match_request, 'p) rule \<Rightarrow> request_match \<Rightarrow> string \<Rightarrow> bool"
  where
  "rule_prefix api req rl s pfx \<longleftrightarrow>
     (if rule_matches rl = [] then pfx = ''/''
      else list_ex (\<lambda>m. match_request api m req = Some s \<and> pfx = matcher_prefix m) (rule_matches rl))"

lemma find_rule_prefix_match:
  assumes "find_rule (http_match_trait api) req rl = Some (s, p)"
    and "list_all is_prefix_matcher (rule_matches rl)"
    and path: "prefix ''/'' (uri_path (req_uri req))"
  obtains pfx rest where "rule_prefix api req rl s pfx"
    and "rm_path_match s = PathMatch_Prefix (length pfx)"
    and "uri_path (req_uri req) = pfx @ rest" and "pfx = ''/'' \<or> rest = [] \<or> prefix ''/'' rest"
  using assms(1)
proof (cases rule: find_rule_SomeE)
  case 1
  from path obtain r where "uri_path (req_uri req) = ''/'' @ r" by (auto simp: prefix_def)
  with 1 that [of "''/''" r] show ?thesis
    by (simp add: http_match_trait_def default_request_match_def rule_prefix_def)
next
  case (2 m)
  then have s: "match_request api m req = Some s" by (simp add: http_match_trait_def)
  with 2 have "rule_prefix api req rl s (matcher_prefix m)"
    by (auto simp: rule_prefix_def list_ex_iff)
  moreover from 2 assms(2) have "is_prefix_matcher m" by (simp add: list_all_iff)
  ultimately show ?thesis using match_request_prefix [OF s _ path] that by metis
qed

text \<open>C23: a redirect that replaces the matched prefix never fails for want of a prefix match
  when all the rules match paths by prefix only, or not at all. The path it drops is the
  prefix, without trailing slashes, of the matcher of the found rule that matched the
  request, or the root where that looks at no path. What is dropped ends at a segment of the
  request's path, and the new path is the rest of that path moved under the new prefix, with
  the query kept.\<close>

theorem prefix_redirect_of_found_route:
  assumes found: "find (http_match_trait api) routes req = Some (m, p)"
    and rules: "\<forall>rt\<in>set routes. \<forall>rl\<in>set (route_rules rt). list_all is_prefix_matcher (rule_matches rl)"
    and path: "prefix ''/'' (uri_path (req_uri req))"
    and rr: "rr_path rr = Some (ReplacePrefixMatch new_pfx)"
  shows "\<exists>rl pfx rest. rl \<in> set (concat (map route_rules routes))
    \<and> find_rule (http_match_trait api) req rl = Some (rtm_route m, p)
    \<and> rule_prefix api req rl (rtm_route m) pfx
    \<and> uri_path (req_uri req) = pfx @ rest \<and> (pfx = ''/'' \<or> rest = [] \<or> prefix ''/'' rest)
    \<and> redirect_path_and_query api rr (req_uri req) m =
      Returns (map_err InvalidRedirect_Authority
        (parse_path_and_query api (prefix_redirect_path new_pfx rest (uri_query (req_uri req)))))"
proof -
  from found obtain rt rl where rl: "rt \<in> set routes" "rl \<in> set (route_rules rt)"
    and fr: "find_rule (http_match_trait api) req rl = Some (rtm_route m, p)"
    by (rule find_SomeE)
  with rules have "list_all is_prefix_matcher (rule_matches rl)" by blast
  from fr this path obtain pfx rest where "rule_prefix api req rl (rtm_route m) pfx"
    and n: "rm_path_match (rtm_route m) = PathMatch_Prefix (length pfx)"
    and split: "uri_path (req_uri req) = pfx @ rest"
    and "pfx = ''/'' \<or> rest = [] \<or> prefix ''/'' rest"
    by (rule find_rule_prefix_match)
  with rl fr redirect_path_and_query_prefix [OF rr n split] show ?thesis by fastforce
qed

definition prefix_redirect :: redirect_request where
  "prefix_redirect = \<lparr> rr_scheme = None, rr_authority = None,
     rr_path = Some (ReplacePrefixMatch ''/new''), rr_status = Some 302 \<rparr>"

definition prefix_match :: "nat \<Rightarrow> request_match route_match" where
  "prefix_match n = \<lparr> rtm_host = None, rtm_route = default_request_match
     \<lparr> rm_path_match := PathMatch_Prefix n \<rparr> \<rparr>"

definition foo_rule :: "(string http_match_request, nat) rule" where
  "foo_rule = path_rule [MatchPath_Prefix ''/foo/''] 0"

lemma foo_rule_prefix:
  "rule_prefix fun_headers_api (sample_request ''/foo/bar'') foo_rule (rtm_route (prefix_match 4)) pfx
     \<Longrightarrow> pfx = ''/foo''"
  by (simp add: rule_prefix_def foo_rule_def path_rule_def matcher_prefix_def trim_end_matches_def)

theorem prefix_redirect_of_found_route_witness:
  "redirect_path_and_query fun_headers_api prefix_redirect
       (req_uri (sample_request ''/foo/bar'')) (prefix_match 4) =
     Returns (map_err InvalidRedirect_Authority (parse_path_and_query fun_headers_api ''/new/bar''))"
proof -
  let ?req = "sample_request ''/foo/bar''"
  have path: "uri_path (req_uri ?req) = ''/foo/bar''" and query: "uri_query (req_uri ?req) = None"
    by (simp_all add: sample_request_def)
  have found: "find (http_match_trait fun_headers_api) [any_host [foo_rule]] ?req
      = Some (prefix_match 4, 0)"
    by code_simp
  have "\<forall>rt\<in>set [any_host [foo_rule]]. \<forall>rl\<in>set (route_rules rt).
      list_all is_prefix_matcher (rule_matches rl)"
    and rules: "set (concat (map route_rules [any_host [foo_rule]])) = {foo_rule}"
    and "prefix ''/'' (uri_path (req_uri ?req))"
    and "rr_path prefix_redirect = Some (ReplacePrefixMatch ''/new'')"
    by (simp_all add: foo_rule_def path_rule_def any_host_def path prefix_redirect_def)
  from prefix_redirect_of_found_route [OF found this(1,3,4), unfolded rules path query]
  obtain pfx rest where "rule_prefix fun_headers_api ?req foo_rule (rtm_route (prefix_match 4)) pfx"
    and "''/foo/bar'' = pfx @ rest"
    and r: "redirect_path_and_query fun_headers_api prefix_redirect (req_uri ?req) (prefix_match 4) =
      Returns (map_err InvalidRedirect_Authority (parse_path_and_query fun_headers_api
        (prefix_redirect_path ''/new'' rest None)))"
    by (metis singletonD)
  then have "rest = ''/bar''" using foo_rule_prefix by fastforce
  with r show ?thesis by (simp add: prefix_redirect_path_def)
qed

text \<open>The order of a rule's matches is relevant. Matches of equal length are equal in the
  order of summaries, whatever their kind, and the last one of them is the one recorded. So with the
  same two matchers, an exact and a prefix one for the same path, a redirect that replaces
  the matched prefix fails or succeeds by which of them is configured last.\<close>

theorem match_order_decides_redirect:
  assumes s: "s \<noteq> []" "\<not> suffix ''/'' s"
  shows "\<exists>m m'.
    find (http_match_trait api) [any_host [path_rule [MatchPath_Prefix s, MatchPath_Exact s] p]]
      (sample_request s) = Some (m, p) \<and>
    find (http_match_trait api) [any_host [path_rule [MatchPath_Exact s, MatchPath_Prefix s] p]]
      (sample_request s) = Some (m', p) \<and>
    redirect_path_and_query api prefix_redirect (req_uri (sample_request s)) m =
      Returns (Inl InvalidRedirect_ReplacePrefix) \<and>
    redirect_path_and_query api prefix_redirect (req_uri (sample_request s)) m' =
      Returns (map_err InvalidRedirect_Authority (parse_path_and_query api ''/new''))"
proof -
  let ?u = "req_uri (sample_request s)"
  have path: "uri_path ?u = s" and query: "uri_query ?u = None"
    by (simp_all add: sample_request_def)
  have "s \<noteq> ''/''" "trim_end_matches (CHR ''/'') s = s"
    using s trim_end_matches_no_suffix by auto
  then have p: "match_length api (MatchPath_Prefix s) ?u = Some (PathMatch_Prefix (length s))"
    by (simp add: path strip_prefix_def)
  have e: "match_length api (MatchPath_Exact s) ?u = Some (PathMatch_Exact (length s))"
    by (simp add: path)
  note defs = find_def find_route_def find_host_def find_rule_def any_host_def path_rule_def
    http_match_trait_def List.map_filter_def match_request_def p e cmp_request_match_def
    cmp_path_match_def cmp_lin_def
  show ?thesis
    by (rule exI [of _ "\<lparr> rtm_host = None, rtm_route = default_request_match
          \<lparr> rm_path_match := PathMatch_Exact (length s) \<rparr> \<rparr>"],
        rule exI [of _ "prefix_match (length s)"])
      (simp del: match_length.simps add: defs redirect_path_and_query_def prefix_redirect_def
         prefix_match_def path default_request_match_def query)
qed

theorem match_order_decides_redirect_witness:
  "\<exists>m m'.
    find (http_match_trait fun_headers_api)
      [any_host [path_rule [MatchPath_Prefix ''/foo'', MatchPath_Exact ''/foo''] (0 :: nat)]]
      (sample_request ''/foo'') = Some (m, 0) \<and>
    find (http_match_trait fun_headers_api)
      [any_host [path_rule [MatchPath_Exact ''/foo'', MatchPath_Prefix ''/foo''] (0 :: nat)]]
      (sample_request ''/foo'') = Some (m', 0) \<and>
    redirect_path_and_query fun_headers_api prefix_redirect (req_uri (sample_request ''/foo'')) m =
      Returns (Inl InvalidRedirect_ReplacePrefix) \<and>
    redirect_path_and_query fun_headers_api prefix_redirect (req_uri (sample_request ''/foo'')) m' =
      Returns (map_err InvalidRedirect_Authority (parse_path_and_query fun_headers_api ''/new''))"
  by (rule match_order_decides_redirect) (simp_all add: suffix_def)

section \<open>Header modification\<close>

lemma foldl_hdr_append:
  assumes "header_map_laws api"
  shows "hdr_get_all api (foldl (\<lambda>h (n, v). hdr_append api h n v) h ps) k =
    hdr_get_all api h k @ map snd (filter (\<lambda>x. fst x = k) ps)"
  using assms by (induction ps arbitrary: h) (auto simp: header_map_laws_def)

lemma foldl_hdr_insert:
  assumes "header_map_laws api"
  shows "hdr_get_all api (foldl (\<lambda>h (n, v). hdr_insert api h n v) h ps) k =
    (case filter (\<lambda>x. fst x = k) ps of [] \<Rightarrow> hdr_get_all api h k | qs \<Rightarrow> [snd (last qs)])"
  using assms
  by (induction ps arbitrary: h) (auto simp: header_map_laws_def split: list.splits)

lemma foldl_hdr_remove:
  assumes "header_map_laws api"
  shows "hdr_get_all api (foldl (hdr_remove api) h ns) k =
    (if k \<in> set ns then [] else hdr_get_all api h k)"
  using assms by (induction ns arbitrary: h) (auto simp: header_map_laws_def)

text \<open>After a header modification, a removed header is absent even if the same filter adds or sets
  it, a header that is set has only the last value set, and any other header has the
  values it had, followed by the values added, in order.\<close>

theorem modify_header_values:
  assumes "header_map_laws api"
  shows "hdr_get_all api (modify_header_apply api mh h) k =
    (if k \<in> set (mh_remove mh) then []
     else case filter (\<lambda>x. fst x = k) (mh_set mh) of
            [] \<Rightarrow> hdr_get_all api h k @ map snd (filter (\<lambda>x. fst x = k) (mh_add mh))
          | qs \<Rightarrow> [snd (last qs)])"
  using assms
  by (simp add: modify_header_apply_def foldl_hdr_append foldl_hdr_insert foldl_hdr_remove
      split: list.splits)

theorem modify_header_values_witness:
  "hdr_get_all fun_headers_api
     (modify_header_apply fun_headers_api
        \<lparr> mh_add = [(''l5d'', ''b'')], mh_set = [(''x'', ''1'')], mh_remove = [''y''] \<rparr>
        (\<lambda>n. if n = ''l5d'' then [''a''] else [])) ''l5d'' = [''a'', ''b'']"
  by (subst modify_header_values [OF fun_headers_api_laws]) (simp add: fun_headers_api_def)

section \<open>Redirects from the controller\<close>

text \<open>A redirect accepted from the controller has an absolute replacement path, a
  port that is nonzero and 16-bit, and a status that is a valid one and not zero; a
  replacement path that is relative is refused.\<close>

theorem redirect_try_from_valid:
  assumes "redirect_try_from api scheme_try_from status_valid msg =
    (Inr rr :: (redirect_request, 'e invalid_request_redirect) result)"
  shows "(case rr_path rr of
            Some (ReplaceFullPath p) \<Rightarrow> prefix ''/'' p
          | Some (ReplacePrefixMatch p) \<Rightarrow> prefix ''/'' p
          | None \<Rightarrow> Option.bind (prr_path msg) (\<lambda>p. p) = None)
    \<and> (\<forall>p. rr_authority rr = Some (AuthorityOverride_Port p) \<longrightarrow> 0 < p \<and> p < 65536)
    \<and> (\<forall>s. rr_status rr = Some s \<longrightarrow> 0 < s \<and> s < 65536 \<and> status_valid s)"
proof -
  note res = assms [unfolded redirect_try_from_def bind_result_Inr_iff ok_or_Inr_iff]
  from res obtain port where
    "u16_try_from (prr_port msg) = Some port"
    "redirect_authority_try_from api (prr_host msg) port =
       (Inr (rr_authority rr) :: (_, 'e invalid_request_redirect) result)"
    by clarsimp
  then have "\<forall>p. rr_authority rr = Some (AuthorityOverride_Port p) \<longrightarrow> 0 < p \<and> p < 65536"
    by (auto simp: redirect_authority_try_from_def u16_try_from_def bind_result_Inr_iff
        split: if_splits)
  moreover from res have "redirect_status_try_from status_valid (prr_status msg) =
      (Inr (rr_status rr) :: (_, 'e invalid_request_redirect) result)"
    by clarsimp
  then have "\<forall>s. rr_status rr = Some s \<longrightarrow> 0 < s \<and> s < 65536 \<and> status_valid s"
    by (auto simp: redirect_status_try_from_def u16_try_from_def split: option.splits if_splits)
  moreover from res have "transpose_opt (map_option redirect_path_try_from
        (Option.bind (prr_path msg) (\<lambda>p. p))) =
      (Inr (rr_path rr) :: (_, 'e invalid_request_redirect) result)"
    by clarsimp
  then have "case rr_path rr of
      Some (ReplaceFullPath p) \<Rightarrow> prefix ''/'' p
    | Some (ReplacePrefixMatch p) \<Rightarrow> prefix ''/'' p
    | None \<Rightarrow> Option.bind (prr_path msg) (\<lambda>p. p) = None"
    by (cases "Option.bind (prr_path msg) (\<lambda>p. p)")
      (auto simp: transpose_opt_def redirect_path_try_from_def
        split: proto_replace.splits if_splits dest: sym [of "Some _" "rr_path rr"])
  ultimately show ?thesis by blast
qed

theorem redirect_try_from_valid_witness:
  "(\<exists>rr. redirect_try_from fun_headers_api (\<lambda>s :: string. Inr s :: (string, unit) result) (\<lambda>s. 100 \<le> s)
       \<lparr> prr_scheme = None, prr_host = [], prr_port = 8080,
         prr_path = Some (Some (Replace_Full ''/x'')), prr_status = 302 \<rparr> = Inr rr
     \<and> rr_authority rr = Some (AuthorityOverride_Port 8080)
     \<and> rr_path rr = Some (ReplaceFullPath ''/x'') \<and> prefix ''/'' ''/x'')"
proof -
  let ?msg = "\<lparr> prr_scheme = None :: string option, prr_host = [], prr_port = 8080,
    prr_path = Some (Some (Replace_Full ''/x'')), prr_status = 302 \<rparr>"
  let ?rr = "\<lparr> rr_scheme = None, rr_authority = Some (AuthorityOverride_Port 8080),
    rr_path = Some (ReplaceFullPath ''/x''), rr_status = Some 302 \<rparr>"
  have "redirect_try_from fun_headers_api (\<lambda>s. Inr s :: (string, unit) result) (\<lambda>s. 100 \<le> s) ?msg
      = Inr ?rr"
    by (simp add: redirect_try_from_def transpose_opt_def u16_try_from_def
        redirect_authority_try_from_def redirect_path_try_from_def redirect_status_try_from_def)
  from this redirect_try_from_valid [OF this] show ?thesis by auto
qed

end
