(* ===== verification/Grpc_Route.thy ===== *)
theory Grpc_Route
  imports Http_Filter
begin

text \<open>
  The gRPC part of the route library, \<open>linkerd/http/route/src/grpc\<close>: the matcher of
  RPC paths (\<open>match.rs\<close>), its instance of the generic search, and the gRPC
  failure filter (\<open>filter/inject_failure.rs\<close>).
\<close>

section \<open>Matching RPCs\<close>

record match_rpc =
  mrpc_service :: "string option"
  mrpc_method :: "string option"

record rpc_match =
  rpcm_service :: nat
  rpcm_method :: nat

record 're grpc_match_route =
  mg_rpc :: match_rpc
  mg_headers :: "'re match_header list"

record grpc_route_match =
  gm_rpc :: rpc_match
  gm_headers :: nat

definition default_rpc_match :: rpc_match where
  "default_rpc_match = \<lparr> rpcm_service = 0, rpcm_method = 0 \<rparr>"

definition default_grpc_route_match :: grpc_route_match where
  "default_grpc_route_match = \<lparr> gm_rpc = default_rpc_match, gm_headers = 0 \<rparr>"

text \<open>The parts of the path are taken from the iterator one after the other; what follows the
  method is never looked at.\<close>

definition rpc_match_length :: "match_rpc \<Rightarrow> string \<Rightarrow> rpc_match option" where
  "rpc_match_length m path =
     (case split_on (CHR ''/'') path of
        [] \<Rightarrow> None
      | root # parts \<Rightarrow>
          (if root \<noteq> [] then None
           else (case parts of
             [] \<Rightarrow> None
           | service # parts' \<Rightarrow>
               (case (case mrpc_service m of
                        None \<Rightarrow> Some default_rpc_match
                      | Some s \<Rightarrow> (if s \<noteq> service then None
                          else Some (default_rpc_match\<lparr> rpcm_service := length s \<rparr>))) of
                  None \<Rightarrow> None
                | Some summary \<Rightarrow>
                    (case parts' of
                       [] \<Rightarrow> None
                     | method # _ \<Rightarrow>
                         (case mrpc_method m of
                            None \<Rightarrow> Some summary
                          | Some mm \<Rightarrow> (if mm \<noteq> method then None
                              else Some (summary\<lparr> rpcm_method := length mm \<rparr>))))))))"

definition match_grpc ::
  "('re, 'h) http_api \<Rightarrow> 're grpc_match_route \<Rightarrow> 'h request \<Rightarrow> grpc_route_match option" where
  "match_grpc api m req =
     (if req_method req \<noteq> ''POST'' then None
      else (case rpc_match_length (mg_rpc m) (uri_path (req_uri req)) of
        None \<Rightarrow> None
      | Some rpc \<Rightarrow>
          (if \<not> list_all (\<lambda>h. header_is_match api h (req_headers req)) (mg_headers m) then None
           else Some \<lparr> gm_rpc = rpc, gm_headers = length (mg_headers m) \<rparr>)))"

definition cmp_rpc_match :: "rpc_match \<Rightarrow> rpc_match \<Rightarrow> ordering" where
  "cmp_rpc_match a b =
     then_with (cmp_lin (rpcm_service a) (rpcm_service b))
       (cmp_lin (rpcm_method a) (rpcm_method b))"

definition cmp_grpc_route_match :: "grpc_route_match \<Rightarrow> grpc_route_match \<Rightarrow> ordering" where
  "cmp_grpc_route_match a b =
     then_with (cmp_rpc_match (gm_rpc a) (gm_rpc b)) (cmp_lin (gm_headers a) (gm_headers b))"

definition grpc_match_trait ::
  "('re, 'h) http_api \<Rightarrow> ('re grpc_match_route, 'h, grpc_route_match) match_trait" where
  "grpc_match_trait api =
     \<lparr> mt_match = match_grpc api, mt_default = default_grpc_route_match,
       mt_cmp = cmp_grpc_route_match \<rparr>"

section \<open>Failure injection\<close>

record grpc_failure_response =
  gfr_code :: nat
  gfr_message :: string

datatype 'e invalid_grpc_failure =
    InvalidGrpcFailure_StatusNonU16
  | InvalidGrpcFailure_Distribution 'e

record proto_grpc_failure_injector =
  pgfi_code :: nat
  pgfi_message :: string
  pgfi_ratio :: "(nat \<times> nat) option"

definition grpc_inject_failure_try_from ::
  "(nat \<Rightarrow> nat \<Rightarrow> (unit, 'e) result) \<Rightarrow> proto_grpc_failure_injector \<Rightarrow>
     (grpc_failure_response inject_failure, 'e invalid_grpc_failure) result outcome" where
  "grpc_inject_failure_try_from bernoulli p =
     (case u16_try_from (pgfi_code p) of
        None \<Rightarrow> Returns (Inl InvalidGrpcFailure_StatusNonU16)
      | Some code \<Rightarrow>
          bind_outcome (distribution_try_from bernoulli (pgfi_ratio p))
            (\<lambda>r. Returns (bind_result (map_err InvalidGrpcFailure_Distribution r)
               (\<lambda>d. Inr \<lparr> if_response = \<lparr> gfr_code = code, gfr_message = pgfi_message p \<rparr>,
                  if_distribution = d \<rparr>))))"

section \<open>The order of summaries\<close>

interpretation rpc_ord: ord_contract cmp_rpc_match
  unfolding cmp_rpc_match_def
  by (intro ord_contract_then [where f = rpcm_service and g = rpcm_method] lin_ord.ord_contract_axioms)

interpretation grpc_ord: ord_contract cmp_grpc_route_match
  unfolding cmp_grpc_route_match_def
  by (intro ord_contract_then [where f = gm_rpc and g = gm_headers] rpc_ord.ord_contract_axioms
      lin_ord.ord_contract_axioms)

interpretation grpc_route_ord: ord_contract "cmp_route_match cmp_grpc_route_match"
  by (rule grpc_ord.ord_contract_route_match)

lemma grpc_find_eq_best:
  "find (grpc_match_trait api) routes req =
     best (cmp_route_match cmp_grpc_route_match) (candidates (grpc_match_trait api) routes req)"
  using find_eq_best_candidates [of "grpc_match_trait api" routes req] grpc_ord.ord_contract_axioms
  by (simp add: grpc_match_trait_def)

section \<open>What the RPC check decides\<close>

lemma split_on_two:
  assumes "c \<notin> set s" and "c \<notin> set m"
  shows "split_on c (c # s @ c # m) = [[], s, m]"
    and "split_on c (c # s @ c # m @ c # rest) = [] # s # m # split_on c rest"
  using assms split_on_append [of c s m] split_on_append [of c s "m @ c # rest"]
    split_on_append [of c m rest]
  by (simp_all add: split_on_no_sep)

lemma split_on_three:
  assumes "split_on c path = [] # s # m # rest"
  shows "\<exists>tl. path = c # s @ c # m @ tl \<and> (tl = [] \<or> (\<exists>t. tl = c # t))"
proof -
  have "path = join_with c ([] # s # m # rest)" using assms join_split [of c path] by simp
  then show ?thesis by (cases rest) (auto simp: join_with.simps)
qed

definition exact_rpc :: "string \<Rightarrow> string \<Rightarrow> match_rpc" where
  "exact_rpc s m = \<lparr> mrpc_service = Some s, mrpc_method = Some m \<rparr>"

lemma rpc_match_length_exact:
  assumes "CHR ''/'' \<notin> set s" and "CHR ''/'' \<notin> set m"
  shows "rpc_match_length (exact_rpc s m) path = Some r \<longleftrightarrow>
    r = \<lparr> rpcm_service = length s, rpcm_method = length m \<rparr> \<and>
    (\<exists>tl. path = ''/'' @ s @ ''/'' @ m @ tl \<and> (tl = [] \<or> prefix ''/'' tl))"
proof
  assume l: "rpc_match_length (exact_rpc s m) path = Some r"
  then obtain rest where "split_on (CHR ''/'') path = [] # s # m # rest"
    by (auto simp: rpc_match_length_def exact_rpc_def split: list.splits if_splits)
  with l split_on_three [OF this]
  show "r = \<lparr> rpcm_service = length s, rpcm_method = length m \<rparr> \<and>
    (\<exists>tl. path = ''/'' @ s @ ''/'' @ m @ tl \<and> (tl = [] \<or> prefix ''/'' tl))"
    by (auto simp: rpc_match_length_def exact_rpc_def default_rpc_match_def)
next
  assume "r = \<lparr> rpcm_service = length s, rpcm_method = length m \<rparr> \<and>
    (\<exists>tl. path = ''/'' @ s @ ''/'' @ m @ tl \<and> (tl = [] \<or> prefix ''/'' tl))"
  then obtain tl where r: "r = \<lparr> rpcm_service = length s, rpcm_method = length m \<rparr>"
    and "path = CHR ''/'' # s @ CHR ''/'' # m @ tl" "tl = [] \<or> (\<exists>t. tl = CHR ''/'' # t)"
    by (auto simp: prefix_def)
  then obtain rest where "split_on (CHR ''/'') path = [] # s # m # rest"
    using split_on_two [OF assms] by auto
  then show "rpc_match_length (exact_rpc s m) path = Some r"
    by (simp add: rpc_match_length_def exact_rpc_def default_rpc_match_def r)
qed

text \<open>A matcher of one RPC accepts exactly the \<open>POST\<close> requests whose headers match
  and whose path starts with the service and the method as whole segments. Segments after the
  method are accepted too. The summary counts the bytes of the service and of the method.\<close>

theorem grpc_exact_match:
  assumes "CHR ''/'' \<notin> set s" and "CHR ''/'' \<notin> set m"
  shows "match_grpc api \<lparr> mg_rpc = exact_rpc s m, mg_headers = hs \<rparr> req = Some gm \<longleftrightarrow>
    gm = \<lparr> gm_rpc = \<lparr> rpcm_service = length s, rpcm_method = length m \<rparr>, gm_headers = length hs \<rparr> \<and>
    req_method req = ''POST'' \<and> (\<forall>h\<in>set hs. header_is_match api h (req_headers req)) \<and>
    (\<exists>tl. uri_path (req_uri req) = ''/'' @ s @ ''/'' @ m @ tl \<and> (tl = [] \<or> prefix ''/'' tl))"
proof (cases "rpc_match_length (exact_rpc s m) (uri_path (req_uri req))")
  case None
  then have "\<not> (\<exists>tl. uri_path (req_uri req) = ''/'' @ s @ ''/'' @ m @ tl \<and> (tl = [] \<or> prefix ''/'' tl))"
    using rpc_match_length_exact [OF assms, of "uri_path (req_uri req)"] by auto
  with None show ?thesis by (simp add: match_grpc_def)
next
  case (Some r)
  with rpc_match_length_exact [OF assms, of "uri_path (req_uri req)" r]
  have "r = \<lparr> rpcm_service = length s, rpcm_method = length m \<rparr>"
    "\<exists>tl. uri_path (req_uri req) = ''/'' @ s @ ''/'' @ m @ tl \<and> (tl = [] \<or> prefix ''/'' tl)"
    by blast+
  with Some show ?thesis by (auto simp: match_grpc_def list_all_iff)
qed

theorem grpc_exact_match_witness:
  "match_grpc fun_headers_api
     \<lparr> mg_rpc = exact_rpc ''svc.Echo'' ''Say'', mg_headers = ([] :: string match_header list) \<rparr>
     (sample_request ''/svc.Echo/Say''\<lparr> req_method := ''POST'' \<rparr>)
   = Some \<lparr> gm_rpc = \<lparr> rpcm_service = 8, rpcm_method = 3 \<rparr>, gm_headers = 0 \<rparr>"
  by (subst grpc_exact_match) (simp_all add: sample_request_def)

end
