(* ===== verification/Route_Proto.thy ===== *)
theory Route_Proto
  imports Grpc_Route
begin

text \<open>
  The conversions of the policy controller's match messages into the matchers of the
  route library: the \<open>proto\<close> modules of \<open>host.rs\<close>, \<open>path.rs\<close>,
  \<open>header.rs\<close>, \<open>query_param.rs\<close>, \<open>http/match.rs\<close> and \<open>grpc/match.rs\<close>.
  The messages have the fields the conversions read; compiling a regular expression and
  validating header names, header values and methods are parameters (\<open>proto_api\<close>).
\<close>

record 're proto_api =
  regex_parse :: "string \<Rightarrow> ('re, string) result"
  header_name_from_bytes :: "string \<Rightarrow> (header_name, string) result"
  header_value_try_from :: "string \<Rightarrow> (header_value, string) result"
  method_try_from :: "string \<Rightarrow> (string, string) result"

section \<open>Hosts\<close>

datatype proto_host_match = ProtoHost_Exact string | ProtoHost_Suffix "string list"

datatype invalid_host_match = InvalidHostMatch_Missing

definition match_host_try_from ::
  "proto_host_match option \<Rightarrow> (match_host, invalid_host_match) result" where
  "match_host_try_from hm =
     bind_result (ok_or InvalidHostMatch_Missing hm) (\<lambda>m. case m of
        ProtoHost_Exact h \<Rightarrow> Inr (MatchHost_Exact h)
      | ProtoHost_Suffix reverse_labels \<Rightarrow> Inr (MatchHost_Suffix reverse_labels))"

section \<open>Paths\<close>

datatype proto_path_kind = ProtoPath_Exact string | ProtoPath_Prefix string | ProtoPath_Regex string

datatype invalid_path_match = InvalidPathMatch_MissingMatch | InvalidPathMatch_Regex string

definition match_path_try_from ::
  "'re proto_api \<Rightarrow> proto_path_kind option \<Rightarrow> ('re match_path, invalid_path_match) result" where
  "match_path_try_from papi rm =
     bind_result (ok_or InvalidPathMatch_MissingMatch rm) (\<lambda>k. case k of
        ProtoPath_Exact p \<Rightarrow> Inr (MatchPath_Exact p)
      | ProtoPath_Prefix p \<Rightarrow> Inr (MatchPath_Prefix p)
      | ProtoPath_Regex re \<Rightarrow>
          bind_result (map_err InvalidPathMatch_Regex (regex_parse papi re))
            (\<lambda>re'. Inr (MatchPath_Regex re')))"

section \<open>Headers\<close>

datatype proto_value = ProtoValue_Exact string | ProtoValue_Regex string

datatype invalid_header_match =
    InvalidHeaderMatch_Name string
  | InvalidHeaderMatch_MissingValueMatch
  | InvalidHeaderMatch_Value string
  | InvalidHeaderMatch_Regex string

definition match_header_try_from ::
  "'re proto_api \<Rightarrow> string \<times> proto_value option \<Rightarrow> ('re match_header, invalid_header_match) result"
  where
  "match_header_try_from papi hm =
     bind_result (map_err InvalidHeaderMatch_Name (header_name_from_bytes papi (fst hm))) (\<lambda>name.
     bind_result (ok_or InvalidHeaderMatch_MissingValueMatch (snd hm)) (\<lambda>v. case v of
        ProtoValue_Exact h \<Rightarrow>
          bind_result (map_err InvalidHeaderMatch_Value (header_value_try_from papi h))
            (\<lambda>h'. Inr (MatchHeader_Exact name h'))
      | ProtoValue_Regex re \<Rightarrow>
          bind_result (map_err InvalidHeaderMatch_Regex (regex_parse papi re))
            (\<lambda>re'. Inr (MatchHeader_Regex name re'))))"

section \<open>Query parameters\<close>

datatype invalid_query_param_match =
    InvalidQueryParamMatch_MissingName
  | InvalidQueryParamMatch_MissingValue
  | InvalidQueryParamMatch_Regex string

definition match_query_param_try_from ::
  "'re proto_api \<Rightarrow> string \<times> proto_value option \<Rightarrow>
     ('re match_query_param, invalid_query_param_match) result" where
  "match_query_param_try_from papi qpm =
     (if fst qpm = [] then Inl InvalidQueryParamMatch_MissingName
      else bind_result (ok_or InvalidQueryParamMatch_MissingValue (snd qpm)) (\<lambda>v. case v of
         ProtoValue_Exact x \<Rightarrow> Inr (MatchQueryParam_Exact (fst qpm) x)
       | ProtoValue_Regex re \<Rightarrow>
           bind_result (map_err InvalidQueryParamMatch_Regex (regex_parse papi re))
             (\<lambda>re'. Inr (MatchQueryParam_Regex (fst qpm) re'))))"

section \<open>Requests\<close>

record proto_http_route_match =
  phrm_path :: "proto_path_kind option option"
  phrm_headers :: "(string \<times> proto_value option) list"
  phrm_query_params :: "(string \<times> proto_value option) list"
  phrm_method :: "string option"

datatype invalid_route_match =
    InvalidRouteMatch_Path invalid_path_match
  | InvalidRouteMatch_Header invalid_header_match
  | InvalidRouteMatch_QueryParam invalid_query_param_match
  | InvalidRouteMatch_Method string

definition match_request_try_from ::
  "'re proto_api \<Rightarrow> proto_http_route_match \<Rightarrow> ('re http_match_request, invalid_route_match) result" where
  "match_request_try_from papi rm =
     bind_result (map_err InvalidRouteMatch_Path
         (transpose_opt (map_option (match_path_try_from papi) (phrm_path rm)))) (\<lambda>path.
     bind_result (map_err InvalidRouteMatch_Header
         (collect_results (map (match_header_try_from papi) (phrm_headers rm)))) (\<lambda>headers.
     bind_result (map_err InvalidRouteMatch_QueryParam
         (collect_results (map (match_query_param_try_from papi) (phrm_query_params rm)))) (\<lambda>query_params.
     bind_result (map_err InvalidRouteMatch_Method
         (transpose_opt (map_option (method_try_from papi) (phrm_method rm)))) (\<lambda>method.
     Inr \<lparr> mr_path = path, mr_headers = headers, mr_query_params = query_params,
           mr_method = method \<rparr>))))"

section \<open>RPCs\<close>

record proto_grpc_rpc_match =
  pgrm_service :: string
  pgrm_method :: string

datatype invalid_grpc_route_match =
    InvalidGrpcRouteMatch_Header invalid_header_match
  | InvalidGrpcRouteMatch_MissingRpc

definition match_rpc_from :: "proto_grpc_rpc_match \<Rightarrow> match_rpc" where
  "match_rpc_from pb =
     \<lparr> mrpc_service = (if pgrm_service pb = [] then None else Some (pgrm_service pb)),
       mrpc_method = (if pgrm_method pb = [] then None else Some (pgrm_method pb)) \<rparr>"

definition match_grpc_try_from ::
  "'re proto_api \<Rightarrow> proto_grpc_rpc_match option \<times> (string \<times> proto_value option) list \<Rightarrow>
     ('re grpc_match_route, invalid_grpc_route_match) result" where
  "match_grpc_try_from papi pb =
     bind_result (ok_or InvalidGrpcRouteMatch_MissingRpc (fst pb)) (\<lambda>rpc.
     bind_result (map_err InvalidGrpcRouteMatch_Header
         (collect_results (map (match_header_try_from papi) (snd pb)))) (\<lambda>headers.
     Inr \<lparr> mg_rpc = match_rpc_from rpc, mg_headers = headers \<rparr>))"

end
