(* ===== verification/Dns_Name.thy ===== *)
theory Dns_Name
  imports Rust_Prelude
begin

text \<open>
  DNS names, \<open>linkerd/dns/name/src\<close>: the byte-by-byte validation of a name
  (\<open>name.rs\<close>) and the test for a suffix (\<open>suffix.rs\<close>). The lemmas relate the
  validating loop, which carries three variables from byte to byte, to a description of
  a valid name by its labels.
\<close>

section \<open>Validation\<close>

record label_state =
  label_length :: nat
  label_is_all_numeric :: bool
  label_ends_with_hyphen :: bool

definition is_ascii_digit :: "char \<Rightarrow> bool" where
  "is_ascii_digit c \<longleftrightarrow> (48 :: nat) \<le> of_char c \<and> of_char c \<le> (57 :: nat)"

definition is_ascii_letter :: "char \<Rightarrow> bool" where
  "is_ascii_letter c \<longleftrightarrow>
     (97 :: nat) \<le> of_char c \<and> of_char c \<le> (122 :: nat) \<or>
     (65 :: nat) \<le> of_char c \<and> of_char c \<le> (90 :: nat)"

definition max_label_length :: nat where
  "max_label_length = 63"

text \<open>One iteration of the loop on the byte read; \<open>None\<close> is an early
  \<open>return false\<close>.\<close>

definition label_step :: "char \<Rightarrow> label_state \<Rightarrow> label_state option" where
  "label_step c st =
     (if c = CHR ''-'' then
        (if label_length st = 0 then None
         else (let st' = st\<lparr> label_is_all_numeric := False, label_ends_with_hyphen := True,
                            label_length := label_length st + 1 \<rparr>
               in if label_length st' > max_label_length then None else Some st'))
      else if is_ascii_digit c then
        (let st' = st\<lparr> label_is_all_numeric :=
                         (if label_length st = 0 then True else label_is_all_numeric st),
                      label_ends_with_hyphen := False, label_length := label_length st + 1 \<rparr>
         in if label_length st' > max_label_length then None else Some st')
      else if is_ascii_letter c \<or> c = CHR ''_'' then
        (let st' = st\<lparr> label_is_all_numeric := False, label_ends_with_hyphen := False,
                      label_length := label_length st + 1 \<rparr>
         in if label_length st' > max_label_length then None else Some st')
      else if c = CHR ''.'' then
        (if label_ends_with_hyphen st then None
         else if label_length st = 0 then None
         else Some (st\<lparr> label_length := 0 \<rparr>))
      else None)"

text \<open>The loop reads a byte, fails when there is none, and leaves at the end of the input with
  the checks of the last label.\<close>

fun dns_id_loop :: "string \<Rightarrow> label_state \<Rightarrow> bool" where
  "dns_id_loop [] st = False"
| "dns_id_loop (c # cs) st =
     (case label_step c st of
        None \<Rightarrow> False
      | Some st' \<Rightarrow>
          (if cs = [] then \<not> label_ends_with_hyphen st' \<and> \<not> label_is_all_numeric st'
           else dns_id_loop cs st'))"

definition is_valid_dns_id :: "string \<Rightarrow> bool" where
  "is_valid_dns_id hostname =
     (if length hostname > 253 then False
      else dns_id_loop hostname
        \<lparr> label_length = 0, label_is_all_numeric = False, label_ends_with_hyphen = False \<rparr>)"

definition ascii_lowercase :: "char \<Rightarrow> char" where
  "ascii_lowercase c =
     (if (65 :: nat) \<le> of_char c \<and> of_char c \<le> (90 :: nat) then char_of (of_char c + 32 :: nat) else c)"

definition to_ascii_lowercase :: "string \<Rightarrow> string" where
  "to_ascii_lowercase s = map ascii_lowercase s"

text \<open>A \<open>Name\<close> is the text it holds; the valid bytes are all ASCII, so reading
  them as UTF-8 succeeds.\<close>

definition name_try_from_ascii :: "string \<Rightarrow> string option" where
  "name_try_from_ascii n = (if \<not> is_valid_dns_id n then None else Some (to_ascii_lowercase n))"

definition without_trailing_dot :: "string \<Rightarrow> string" where
  "without_trailing_dot n = trim_end_matches (CHR ''.'') n"

definition is_localhost :: "string \<Rightarrow> bool" where
  "is_localhost n \<longleftrightarrow> to_ascii_lowercase n = ''localhost.''"

section \<open>Suffixes\<close>

datatype dns_suffix = Suffix_Root | Suffix_Name string

definition dns_suffix_from_str :: "string \<Rightarrow> dns_suffix option" where
  "dns_suffix_from_str s =
     (if s = ''.'' then Some Suffix_Root else map_option Suffix_Name (name_try_from_ascii s))"

fun dns_suffix_contains :: "dns_suffix \<Rightarrow> string \<Rightarrow> bool" where
  "dns_suffix_contains Suffix_Root name = True"
| "dns_suffix_contains (Suffix_Name sfx) name =
     (let name' = without_trailing_dot name; sfx' = without_trailing_dot sfx
      in suffix sfx' name' \<and>
         (length name' = length sfx' \<or>
          suffix ''.'' (take (length name' - length sfx') name')))"

section \<open>Names by their labels\<close>

definition is_label_char :: "char \<Rightarrow> bool" where
  "is_label_char c \<longleftrightarrow> c = CHR ''-'' \<or> is_ascii_digit c \<or> is_ascii_letter c \<or> c = CHR ''_''"

definition label_ok :: "string \<Rightarrow> bool" where
  "label_ok l \<longleftrightarrow> l \<noteq> [] \<and> length l \<le> 63 \<and> list_all is_label_char l
     \<and> hd l \<noteq> CHR ''-'' \<and> last l \<noteq> CHR ''-''"

definition dns_labels :: "string \<Rightarrow> string list" where
  "dns_labels n =
     (let ls = split_on (CHR ''.'') n in if last ls = [] then butlast ls else ls)"

text \<open>The part of a label already read is one that may be continued.\<close>

definition label_part :: "string \<Rightarrow> bool" where
  "label_part l \<longleftrightarrow> length l \<le> 63 \<and> list_all is_label_char l \<and> (l \<noteq> [] \<longrightarrow> hd l \<noteq> CHR ''-'')"

definition state_of :: "bool \<Rightarrow> string \<Rightarrow> label_state" where
  "state_of prev l =
     \<lparr> label_length = length l,
       label_is_all_numeric = (if l = [] then prev else list_all is_ascii_digit l),
       label_ends_with_hyphen = (l \<noteq> [] \<and> last l = CHR ''-'') \<rparr>"

lemma char_classes:
  "\<not> is_ascii_digit (CHR ''-'')" "\<not> is_ascii_letter (CHR ''-'')" "\<not> is_ascii_digit (CHR ''_'')"
  "\<not> is_ascii_digit (CHR ''.'')" "\<not> is_ascii_letter (CHR ''.'')" "\<not> is_label_char (CHR ''.'')"
  "is_ascii_letter c \<Longrightarrow> \<not> is_ascii_digit c"
  by (auto simp: is_ascii_digit_def is_ascii_letter_def is_label_char_def)

lemma label_part_snoc:
  assumes "label_part l" and "c \<noteq> CHR ''.''"
  shows "label_step c (state_of prev l) =
    (if label_part (l @ [c]) then Some (state_of prev (l @ [c])) else None)"
  using assms
  by (cases "l = []")
    (auto simp: label_step_def label_part_def state_of_def is_label_char_def max_label_length_def
      char_classes Let_def hd_append)

lemma label_step_dot:
  assumes "label_part l"
  shows "label_step (CHR ''.'') (state_of prev l) =
    (if label_ok l then Some (state_of (list_all is_ascii_digit l) []) else None)"
  using assms
  by (auto simp: label_step_def label_part_def label_ok_def state_of_def char_classes)

text \<open>What is left to check of a name from its labels on, given whether the label before is all
  digits.\<close>

fun labels_ok :: "bool \<Rightarrow> string list \<Rightarrow> bool" where
  "labels_ok prev [] = (\<not> prev)"
| "labels_ok prev (l # ls) =
     (if l = [] \<and> ls = [] then \<not> prev
      else label_ok l \<and> labels_ok (list_all is_ascii_digit l) ls)"

lemma split_on_label:
  "c \<notin> set l \<Longrightarrow> split_on c (l @ c # s) = l # split_on c s"
  by (simp add: split_on_append split_on_no_sep)

lemma label_part_no_dot: "label_part l \<Longrightarrow> CHR ''.'' \<notin> set l"
  by (auto simp: label_part_def list_all_iff char_classes)

lemma label_not_part:
  assumes "\<not> label_part l" and "CHR ''.'' \<notin> set l"
  shows "\<not> labels_ok prev (split_on (CHR ''.'') (l @ s))"
proof -
  obtain y ys where y: "split_on (CHR ''.'') s = y # ys"
    by (cases "split_on (CHR ''.'') s") auto
  have "split_on (CHR ''.'') (l @ s) = (l @ y) # ys"
    using assms(2) y by (induction l) auto
  moreover have "\<not> label_ok (l @ y)" "l \<noteq> []"
    using assms(1) by (auto simp: label_part_def label_ok_def hd_append)
  ultimately show ?thesis by simp
qed

lemma dns_id_loop_labels:
  assumes "label_part l" and "cs \<noteq> []"
  shows "dns_id_loop cs (state_of prev l) = labels_ok prev (split_on (CHR ''.'') (l @ cs))"
  using assms
proof (induction cs arbitrary: l prev)
  case (Cons c cs)
  note l = \<open>label_part l\<close>
  show ?case
  proof (cases "c = CHR ''.''")
    case True
    have split: "split_on (CHR ''.'') (l @ c # cs) = l # split_on (CHR ''.'') cs"
      using True split_on_label [OF label_part_no_dot [OF l]] by simp
    have part: "label_part []" by (simp add: label_part_def)
    show ?thesis
      using Cons.IH [OF part] label_step_dot [OF l, of prev] True split
      by (cases "label_ok l"; cases "cs = []") (auto simp: state_of_def label_ok_def)
  next
    case False
    show ?thesis
    proof (cases "label_part (l @ [c])")
      case part: True
      show ?thesis
      proof (cases "cs = []")
        case True
        with part have "split_on (CHR ''.'') (l @ [c]) = [l @ [c]]"
          by (intro split_on_no_sep label_part_no_dot)
        then show ?thesis
          using True part label_part_snoc [OF l False, of prev]
          by (auto simp: state_of_def label_ok_def label_part_def)
      next
        case False
        with Cons.IH [OF part] part label_part_snoc [OF l \<open>c \<noteq> CHR ''.''\<close>, of prev]
        show ?thesis by simp
      qed
    next
      case part: False
      have "CHR ''.'' \<notin> set (l @ [c])" using label_part_no_dot [OF l] False by simp
      from label_not_part [OF part this, of prev cs] part label_part_snoc [OF l False, of prev]
      show ?thesis by simp
    qed
  qed
qed simp

lemma labels_ok_iff:
  "ls \<noteq> [] \<Longrightarrow> labels_ok prev ls \<longleftrightarrow>
     (let ls' = (if last ls = [] then butlast ls else ls)
      in list_all label_ok ls' \<and> \<not> (if ls' = [] then prev else list_all is_ascii_digit (last ls')))"
proof (induction ls arbitrary: prev)
  case (Cons l ls)
  show ?case
  proof (cases "ls = []")
    case True
    then show ?thesis by (auto simp: Let_def)
  next
    case False
    then show ?thesis
      using Cons.IH [of "list_all is_ascii_digit l"] by (auto simp: Let_def)
  qed
qed simp

text \<open>C21: The validating loop accepts exactly the names of at most 253 bytes that are a
  non-empty sequence of labels separated by dots, with at most one dot at the end: every
  label has 1 to 63 letters, digits, hyphens and underscores, with no hyphen at its start or its
  end, and the last label is not all digits.\<close>

theorem is_valid_dns_id_iff:
  "is_valid_dns_id n \<longleftrightarrow>
     length n \<le> 253 \<and> dns_labels n \<noteq> [] \<and> list_all label_ok (dns_labels n)
     \<and> \<not> list_all is_ascii_digit (last (dns_labels n))"
proof (cases "n = []")
  case True
  then show ?thesis by (simp add: is_valid_dns_id_def dns_labels_def)
next
  case False
  have "dns_id_loop n (state_of False []) = labels_ok False (split_on (CHR ''.'') n)"
    using dns_id_loop_labels [of "[]" n False] False by (simp add: label_part_def)
  also have "\<dots> \<longleftrightarrow> list_all label_ok (dns_labels n)
      \<and> \<not> (if dns_labels n = [] then False else list_all is_ascii_digit (last (dns_labels n)))"
    unfolding dns_labels_def by (simp add: labels_ok_iff Let_def)
  finally have "dns_id_loop n (state_of False []) \<longleftrightarrow> list_all label_ok (dns_labels n)
      \<and> \<not> (if dns_labels n = [] then False else list_all is_ascii_digit (last (dns_labels n)))" .
  moreover have "dns_labels n \<noteq> []"
  proof
    assume "dns_labels n = []"
    then have "butlast (split_on (CHR ''.'') n) = []" "last (split_on (CHR ''.'') n) = []"
      by (auto simp: dns_labels_def Let_def split: if_splits)
    then have "split_on (CHR ''.'') n = [[]]"
      by (metis append_butlast_last_id append_Nil split_on_not_Nil)
    with False join_split [of "CHR ''.''" n] show False by simp
  qed
  ultimately show ?thesis by (auto simp: is_valid_dns_id_def state_of_def)
qed

text \<open>A name is in a suffix, trailing dots aside, exactly when the suffix's labels are
  the last labels of the name: the byte-wise comparison never accepts half a label.\<close>

theorem dns_suffix_contains_labels:
  "dns_suffix_contains (Suffix_Name sfx) name \<longleftrightarrow>
     suffix (split_on (CHR ''.'') (without_trailing_dot sfx))
       (split_on (CHR ''.'') (without_trailing_dot name))"
proof -
  let ?n = "without_trailing_dot name" and ?s = "without_trailing_dot sfx"
  have "suffix ?s ?n \<and> (length ?n = length ?s \<or> suffix ''.'' (take (length ?n - length ?s) ?n))
      \<longleftrightarrow> ?n = ?s \<or> suffix (CHR ''.'' # ?s) ?n"
    by (auto simp: suffix_def)
  then show ?thesis by (simp add: split_on_suffix_iff Let_def)
qed

end
