(* ===== verification/Identity.thy ===== *)
theory Identity
  imports Dns_Name
begin

text \<open>
  Endpoint identities, \<open>linkerd/identity/src/lib.rs\<close>, and the TLS status of an accepted
  connection, \<open>linkerd/tls/src/server.rs\<close>. Parsing a URL is a parameter: an
  identity of the URI form holds the text of the parsed URL.
\<close>

datatype id = Id_Dns string | Id_Uri string

definition id_parse_dns_name :: "string \<Rightarrow> id option" where
  "id_parse_dns_name s =
     (case name_try_from_ascii s of
        None \<Rightarrow> None
      | Some n \<Rightarrow> (if suffix ''.'' n then None else Some (Id_Dns n)))"

definition id_parse_uri :: "(string \<Rightarrow> string option) \<Rightarrow> string \<Rightarrow> id option" where
  "id_parse_uri url_parse s = map_option Id_Uri (url_parse s)"

definition id_from_str :: "(string \<Rightarrow> string option) \<Rightarrow> string \<Rightarrow> id option" where
  "id_from_str url_parse s =
     (case id_parse_dns_name s of Some i \<Rightarrow> Some i | None \<Rightarrow> id_parse_uri url_parse s)"

fun id_to_str :: "id \<Rightarrow> string" where
  "id_to_str (Id_Dns n) = n"
| "id_to_str (Id_Uri u) = u"

fun id_display :: "id \<Rightarrow> string" where
  "id_display (Id_Dns n) = without_trailing_dot n"
| "id_display (Id_Uri u) = u"

section \<open>The TLS status of a connection\<close>

datatype server_tls =
    Tls_Established (tls_client_id: "id option") (tls_negotiated: "string option")
  | Tls_Passthru string

datatype no_server_tls = NoTls_Disabled | NoTls_Loopback | NoTls_PortSkipped | NoTls_NoClientHello

datatype ('c, 'r) conditional = Conditional_Some 'c | Conditional_None 'r

type_synonym conditional_server_tls = "(server_tls, no_server_tls) conditional"

text \<open>The identity of an authenticated client.\<close>

fun client_id :: "conditional_server_tls \<Rightarrow> id option" where
  "client_id (Conditional_Some (Tls_Established i _)) = i"
| "client_id _ = None"

section \<open>Identities print and parse\<close>

lemma ascii_lowercase_idem [simp]: "ascii_lowercase (ascii_lowercase c) = ascii_lowercase c"
  by (auto simp: ascii_lowercase_def of_char_of)

lemma to_ascii_lowercase_idem [simp]: "to_ascii_lowercase (to_ascii_lowercase s) = to_ascii_lowercase s"
  by (simp add: to_ascii_lowercase_def)

lemma ascii_lowercase_classes [simp]:
  "is_ascii_digit (ascii_lowercase c) = is_ascii_digit c"
  "is_ascii_letter (ascii_lowercase c) = is_ascii_letter c"
  by (auto simp: ascii_lowercase_def is_ascii_digit_def is_ascii_letter_def of_char_of)

lemma ascii_lowercase_eq_iff:
  "ascii_lowercase c = CHR ''-'' \<longleftrightarrow> c = CHR ''-''"
  "ascii_lowercase c = CHR ''_'' \<longleftrightarrow> c = CHR ''_''"
  "ascii_lowercase c = CHR ''.'' \<longleftrightarrow> c = CHR ''.''"
proof -
  have "ascii_lowercase c = d \<longleftrightarrow> c = d" if "\<not> is_ascii_letter d" for d
    using that
    by (auto simp: ascii_lowercase_def is_ascii_letter_def of_char_of split: if_splits)
  then show "ascii_lowercase c = CHR ''-'' \<longleftrightarrow> c = CHR ''-''"
    "ascii_lowercase c = CHR ''_'' \<longleftrightarrow> c = CHR ''_''"
    "ascii_lowercase c = CHR ''.'' \<longleftrightarrow> c = CHR ''.''"
    by (simp_all add: is_ascii_letter_def)
qed

lemma label_step_lowercase: "label_step (ascii_lowercase c) st = label_step c st"
  by (simp add: label_step_def ascii_lowercase_eq_iff)

lemma dns_id_loop_lowercase: "dns_id_loop (to_ascii_lowercase s) st = dns_id_loop s st"
  by (induction s arbitrary: st)
    (simp_all add: to_ascii_lowercase_def label_step_lowercase split: option.splits)

lemma is_valid_dns_id_lowercase [simp]: "is_valid_dns_id (to_ascii_lowercase s) = is_valid_dns_id s"
  using dns_id_loop_lowercase by (simp add: is_valid_dns_id_def to_ascii_lowercase_def)

lemma name_try_from_ascii_Some:
  assumes "name_try_from_ascii s = Some n"
  shows "n = to_ascii_lowercase s" and "is_valid_dns_id n" and "name_try_from_ascii n = Some n"
  using assms by (auto simp: name_try_from_ascii_def split: if_splits)

text \<open>C27: an identity that was parsed prints as a text that parses to the same identity,
  provided that the text of a parsed URL is a URL that parses to itself and is not a DNS name.\<close>

theorem id_round_trip:
  assumes url: "\<And>s u. url_parse s = Some u \<Longrightarrow> url_parse u = Some u \<and> name_try_from_ascii u = None"
    and "id_from_str url_parse s = Some i"
  shows "id_from_str url_parse (id_display i) = Some i"
proof (cases "id_parse_dns_name s")
  case None
  with assms(2) obtain u where "url_parse s = Some u" "i = Id_Uri u"
    by (auto simp: id_from_str_def id_parse_uri_def)
  with url [of s u] show ?thesis
    by (simp add: id_from_str_def id_parse_dns_name_def id_parse_uri_def)
next
  case (Some i')
  with assms(2) obtain n where n: "name_try_from_ascii s = Some n" "\<not> suffix ''.'' n" "i = Id_Dns n"
    by (auto simp: id_from_str_def id_parse_dns_name_def split: option.splits if_splits)
  then show ?thesis
    by (simp add: id_from_str_def id_parse_dns_name_def without_trailing_dot_def
        trim_end_matches_no_suffix name_try_from_ascii_Some(3) [OF n(1)])
qed

theorem id_round_trip_witness:
  "id_from_str (\<lambda>s. if prefix ''spiffe:'' s then Some s else None)
     (id_display (Id_Dns ''web.ns'')) = Some (Id_Dns ''web.ns'')"
proof (rule id_round_trip [where s = "''Web.ns''"])
  have "name_try_from_ascii (''spiffe:'' @ x) = None" for x
    by (simp add: name_try_from_ascii_def is_valid_dns_id_def label_step_def is_ascii_digit_def
        is_ascii_letter_def max_label_length_def Let_def)
  then show "(if prefix ''spiffe:'' u then Some u else None) = Some u \<and> name_try_from_ascii u = None"
    if "(if prefix ''spiffe:'' s then Some s else None) = Some u" for s u
    using that by (auto simp: prefix_def split: if_splits)
  show "id_from_str (\<lambda>s. if prefix ''spiffe:'' s then Some s else None) ''Web.ns'' = Some (Id_Dns ''web.ns'')"
    by code_simp
qed

end
