(* ===== verification/Server_Policy.thy ===== *)
theory Server_Policy
  imports Route_Proto Identity "HOL-Library.Word"
begin

text \<open>
  The server policies of the inbound proxy, \<open>linkerd/proxy/server-policy/src\<close>:
  metadata (\<open>meta.rs\<close>), networks and authorizations (\<open>authz.rs\<close>,
  \<open>authz/network.rs\<close>), local rate limits (\<open>local_rate_limit.rs\<close>), the route policies
  (\<open>http.rs\<close>, \<open>grpc.rs\<close>) and the policy of a server (\<open>lib.rs\<close>). The
  \<open>ipnet\<close> and \<open>governor\<close> crates are the parameters \<open>ipnet_api\<close> and
  \<open>governor_api\<close>.
\<close>

section \<open>Metadata\<close>

datatype meta = Meta_Default string | Meta_Resource string string string

fun meta_name :: "meta \<Rightarrow> string" where
  "meta_name (Meta_Default name) = name"
| "meta_name (Meta_Resource grp kind name) = name"

fun meta_kind :: "meta \<Rightarrow> string" where
  "meta_kind (Meta_Default name) = ''default''"
| "meta_kind (Meta_Resource grp kind name) = kind"

fun meta_group :: "meta \<Rightarrow> string" where
  "meta_group (Meta_Default name) = []"
| "meta_group (Meta_Resource grp kind name) = grp"

fun is_audit :: "meta \<Rightarrow> bool" where
  "is_audit (Meta_Default name) = (name = ''audit'')"
| "is_audit _ = False"

definition meta_eq :: "meta \<Rightarrow> meta \<Rightarrow> bool" where
  "meta_eq a b \<longleftrightarrow>
     meta_group a = meta_group b \<and> meta_kind a = meta_kind b \<and> meta_name a = meta_name b"

section \<open>Networks\<close>

datatype ip_addr = Ipv4 "32 word" | Ipv6 "128 word"

definition ipv4_localhost :: ip_addr where
  "ipv4_localhost = Ipv4 0x7f000001"

definition ipv6_localhost :: ip_addr where
  "ipv6_localhost = Ipv6 1"

text \<open>What the code asks of \<open>ipnet\<close>: whether a network has an address, the network of one
  address, and the networks of all IPv4 and all IPv6 addresses.\<close>

record 'net ipnet_api =
  net_contains :: "'net \<Rightarrow> ip_addr \<Rightarrow> bool"
  net_of_addr :: "ip_addr \<Rightarrow> 'net"
  net_all_v4 :: 'net
  net_all_v6 :: 'net

definition ipnet_laws :: "'net ipnet_api \<Rightarrow> bool" where
  "ipnet_laws napi \<longleftrightarrow>
     (\<forall>a b. net_contains napi (net_of_addr napi a) b \<longleftrightarrow> a = b) \<and>
     (\<forall>w. net_contains napi (net_all_v4 napi) (Ipv4 w)) \<and>
     (\<forall>w. net_contains napi (net_all_v6 napi) (Ipv6 w))"

text \<open>An instance: a network is an address and a prefix length.\<close>

fun prefix_net_contains :: "ip_addr \<times> nat \<Rightarrow> ip_addr \<Rightarrow> bool" where
  "prefix_net_contains (Ipv4 a, n) (Ipv4 b) = (drop_bit (32 - n) a = drop_bit (32 - n) b)"
| "prefix_net_contains (Ipv6 a, n) (Ipv6 b) = (drop_bit (128 - n) a = drop_bit (128 - n) b)"
| "prefix_net_contains _ _ = False"

definition prefix_net_api :: "(ip_addr \<times> nat) ipnet_api" where
  "prefix_net_api =
     \<lparr> net_contains = prefix_net_contains,
       net_of_addr = (\<lambda>a. (a, case a of Ipv4 _ \<Rightarrow> 32 | Ipv6 _ \<Rightarrow> 128)),
       net_all_v4 = (Ipv4 0, 0), net_all_v6 = (Ipv6 0, 0) \<rparr>"

record 'net network =
  nw_net :: 'net
  nw_except :: "'net list"

definition network_from :: "'net \<Rightarrow> 'net network" where
  "network_from net = \<lparr> nw_net = net, nw_except = [] \<rparr>"

definition network_contains :: "'net ipnet_api \<Rightarrow> 'net network \<Rightarrow> ip_addr \<Rightarrow> bool" where
  "network_contains napi nw ip \<longleftrightarrow>
     net_contains napi (nw_net nw) ip \<and> \<not> list_ex (\<lambda>net. net_contains napi net ip) (nw_except nw)"

section \<open>Authorizations\<close>

record suffix_match =
  ends_with :: string

definition suffix_from :: "string list \<Rightarrow> suffix_match" where
  "suffix_from parts =
     \<lparr> ends_with = (if parts = [] then [] else ''.'' @ join_with (CHR ''.'') parts) \<rparr>"

definition suffix_contains :: "suffix_match \<Rightarrow> string \<Rightarrow> bool" where
  "suffix_contains s name \<longleftrightarrow> suffix (ends_with s) name"

datatype authentication =
    Unauthenticated
  | TlsUnauthenticated
  | TlsAuthenticated "string set" "suffix_match list"

record 'net authorization =
  az_networks :: "'net network list"
  az_authentication :: authentication
  az_meta :: meta

section \<open>Rate limits\<close>

text \<open>The limiters of \<open>governor\<close>: a direct one and one keyed by a client's identity. A
  check says whether the request is admitted and changes the limiter. A limiter reads a clock,
  so it also changes when time passes: \<open>gov_elapse\<close> and \<open>gov_elapse_key\<close> give the limiter
  some nanoseconds later.\<close>

record ('d, 'k) governor_api =
  gov_direct :: "nat \<Rightarrow> 'd"
  gov_check :: "'d \<Rightarrow> bool \<times> 'd"
  gov_keyed :: "nat \<Rightarrow> 'k"
  gov_check_key :: "'k \<Rightarrow> id option \<Rightarrow> bool \<times> 'k"
  gov_elapse :: "nat \<Rightarrow> 'd \<Rightarrow> 'd"
  gov_elapse_key :: "nat \<Rightarrow> 'k \<Rightarrow> 'k"

record 'l rate_limit =
  rl_rps :: nat
  rl_limiter :: 'l

text \<open>The limiter of an override is shared by the identities it is for, so the overrides are a
  table of limiters and the position of each identity's limiter in it.\<close>

record ('d, 'k) local_rate_limit =
  lrl_meta :: "meta option"
  lrl_total :: "'d rate_limit option"
  lrl_per_identity :: "'k rate_limit option"
  lrl_overrides :: "id \<Rightarrow> nat option"
  lrl_override_limits :: "'d rate_limit list"

datatype rate_limit_error =
    RateLimitError_Total nat
  | RateLimitError_PerIdentity nat
  | RateLimitError_Override nat

definition default_rate_limit :: "('d, 'k) local_rate_limit" where
  "default_rate_limit =
     \<lparr> lrl_meta = None, lrl_total = None, lrl_per_identity = None, lrl_overrides = (\<lambda>_. None),
       lrl_override_limits = [] \<rparr>"

definition check_total ::
  "('d, 'k) governor_api \<Rightarrow> ('d, 'k) local_rate_limit \<Rightarrow>
     (unit, rate_limit_error) result \<times> ('d, 'k) local_rate_limit" where
  "check_total gov l =
     (case lrl_total l of
        None \<Rightarrow> (Inr (), l)
      | Some lim \<Rightarrow>
          (case gov_check gov (rl_limiter lim) of
             (admit, limiter) \<Rightarrow>
               (if admit then Inr () else Inl (RateLimitError_Total (rl_rps lim)),
                l\<lparr> lrl_total := Some (lim\<lparr> rl_limiter := limiter \<rparr>) \<rparr>)))"

definition check_override ::
  "('d, 'k) governor_api \<Rightarrow> nat \<Rightarrow> ('d, 'k) local_rate_limit \<Rightarrow>
     (unit, rate_limit_error) result \<times> ('d, 'k) local_rate_limit" where
  "check_override gov i l =
     (let lim = lrl_override_limits l ! i
      in case gov_check gov (rl_limiter lim) of
           (admit, limiter) \<Rightarrow>
             (if admit then Inr () else Inl (RateLimitError_Override (rl_rps lim)),
              l\<lparr> lrl_override_limits := (lrl_override_limits l)[i := lim\<lparr> rl_limiter := limiter \<rparr>] \<rparr>))"

definition check_per_identity ::
  "('d, 'k) governor_api \<Rightarrow> id option \<Rightarrow> ('d, 'k) local_rate_limit \<Rightarrow>
     (unit, rate_limit_error) result \<times> ('d, 'k) local_rate_limit" where
  "check_per_identity gov i l =
     (case lrl_per_identity l of
        None \<Rightarrow> (Inr (), l)
      | Some lim \<Rightarrow>
          (case gov_check_key gov (rl_limiter lim) i of
             (admit, limiter) \<Rightarrow>
               (if admit then Inr () else Inl (RateLimitError_PerIdentity (rl_rps lim)),
                l\<lparr> lrl_per_identity := Some (lim\<lparr> rl_limiter := limiter \<rparr>) \<rparr>)))"

definition rate_limit_check ::
  "('d, 'k) governor_api \<Rightarrow> id option \<Rightarrow> ('d, 'k) local_rate_limit \<Rightarrow>
     (unit, rate_limit_error) result \<times> ('d, 'k) local_rate_limit" where
  "rate_limit_check gov i l =
     (case check_total gov l of
        (Inl e, l') \<Rightarrow> (Inl e, l')
      | (Inr _, l') \<Rightarrow>
          (case Option.bind i (lrl_overrides l') of
             Some n \<Rightarrow> check_override gov n l'
           | None \<Rightarrow> check_per_identity gov i l'))"

section \<open>Routes and servers\<close>

datatype http_filter =
    HttpFilter_InjectFailure "failure_response inject_failure"
  | HttpFilter_Redirect redirect_request
  | HttpFilter_RequestHeaders modify_header
  | HttpFilter_InternalError string

datatype grpc_filter =
    GrpcFilter_InjectFailure "grpc_failure_response inject_failure"
  | GrpcFilter_RequestHeaders modify_header
  | GrpcFilter_InternalError string

record ('net, 'f) route_policy =
  rp_meta :: meta
  rp_authorizations :: "'net authorization list"
  rp_filters :: "'f list"

type_synonym ('re, 'net) http_route = "('re http_match_request, ('net, http_filter) route_policy) route"

type_synonym ('re, 'net) grpc_route = "('re grpc_match_route, ('net, grpc_filter) route_policy) route"

datatype ('re, 'net) protocol =
    Detect "('re, 'net) http_route list" duration "'net authorization list"
  | Http1 "('re, 'net) http_route list"
  | Http2 "('re, 'net) http_route list"
  | Grpc "('re, 'net) grpc_route list"
  | Tls "'net authorization list"
  | Opaque "'net authorization list"

record ('re, 'net, 'd, 'k) server_policy =
  sp_protocol :: "('re, 'net) protocol"
  sp_meta :: meta
  sp_local_rate_limit :: "('d, 'k) local_rate_limit"

text \<open>\<open>http::default\<close> and \<open>grpc::default\<close>: one rule for every request.\<close>

definition http_default :: "'net authorization list \<Rightarrow> ('re, 'net) http_route" where
  "http_default authorizations =
     \<lparr> route_hosts = [],
       route_rules = [\<lparr> rule_matches = [],
         rule_policy = \<lparr> rp_meta = Meta_Default ''default'', rp_authorizations = authorizations,
           rp_filters = [] \<rparr> \<rparr>] \<rparr>"

definition grpc_default :: "'net authorization list \<Rightarrow> ('re, 'net) grpc_route" where
  "grpc_default authorizations =
     \<lparr> route_hosts = [],
       route_rules = [\<lparr> rule_matches = [],
         rule_policy = \<lparr> rp_meta = Meta_Default ''default'', rp_authorizations = authorizations,
           rp_filters = [] \<rparr> \<rparr>] \<rparr>"

definition default_match_request :: "'re http_match_request" where
  "default_match_request =
     \<lparr> mr_path = None, mr_headers = [], mr_query_params = [], mr_method = None \<rparr>"

definition invalid_server :: "duration \<Rightarrow> ('re, 'net, 'd, 'k) server_policy" where
  "invalid_server timeout =
     (let meta = Meta_Default ''invalid''
      in \<lparr> sp_protocol = Detect
             [\<lparr> route_hosts = [],
                route_rules = [\<lparr> rule_matches = [default_match_request],
                  rule_policy = \<lparr> rp_meta = meta, rp_authorizations = [],
                    rp_filters = [HttpFilter_InternalError ''invalid server configuration''] \<rparr> \<rparr>] \<rparr>]
             timeout [],
           sp_meta = meta, sp_local_rate_limit = default_rate_limit \<rparr>)"

section \<open>Facts about networks and suffixes\<close>

lemma prefix_net_api_laws: "ipnet_laws prefix_net_api"
proof -
  have "prefix_net_contains (a, case a of Ipv4 _ \<Rightarrow> 32 | Ipv6 _ \<Rightarrow> 128) b \<longleftrightarrow> a = b" for a b
    by (cases a; cases b) simp_all
  moreover have "drop_bit 32 w = (0 :: 32 word)" for w
    by (rule bit_word_eqI) (simp add: bit_drop_bit_eq)
  moreover have "drop_bit 128 w = (0 :: 128 word)" for w
    by (rule bit_word_eqI) (simp add: bit_drop_bit_eq)
  ultimately show ?thesis by (simp add: ipnet_laws_def prefix_net_api_def)
qed

section \<open>Rate limits\<close>

text \<open>Every identity's override is in the table.\<close>

definition overrides_wf :: "('d, 'k) local_rate_limit \<Rightarrow> bool" where
  "overrides_wf l \<longleftrightarrow> (\<forall>i n. lrl_overrides l i = Some n \<longrightarrow> n < length (lrl_override_limits l))"

lemma check_total_overrides [simp]:
  "lrl_overrides (snd (check_total gov l)) = lrl_overrides l"
  "lrl_override_limits (snd (check_total gov l)) = lrl_override_limits l"
  "lrl_per_identity (snd (check_total gov l)) = lrl_per_identity l"
  by (simp_all add: check_total_def split: option.splits prod.splits)

lemma rate_limit_check_wf: "overrides_wf l \<Longrightarrow> overrides_wf (snd (rate_limit_check gov i l))"
  by (cases "check_total gov l" rule: prod.exhaust)
    (use check_total_overrides [of gov l] in
      \<open>auto simp: rate_limit_check_def overrides_wf_def check_override_def check_per_identity_def Let_def
        split: sum.splits option.splits prod.splits\<close>)

text \<open>Time passes for all the limiters of a rate limit alike.\<close>

definition rate_limit_elapse ::
  "('d, 'k) governor_api \<Rightarrow> nat \<Rightarrow> ('d, 'k) local_rate_limit \<Rightarrow> ('d, 'k) local_rate_limit" where
  "rate_limit_elapse gov t l =
     (let later = (\<lambda>lim. lim\<lparr> rl_limiter := gov_elapse gov t (rl_limiter lim) \<rparr>)
      in l\<lparr> lrl_total := map_option later (lrl_total l),
           lrl_per_identity := map_option
             (\<lambda>lim. lim\<lparr> rl_limiter := gov_elapse_key gov t (rl_limiter lim) \<rparr>) (lrl_per_identity l),
           lrl_override_limits := map later (lrl_override_limits l) \<rparr>)"

text \<open>A sequence of requests against one rate limit, each with the nanoseconds since the one
  before and its client's identity.\<close>

definition timed_check ::
  "('d, 'k) governor_api \<Rightarrow> nat \<times> id option \<Rightarrow> ('d, 'k) local_rate_limit \<Rightarrow>
     (unit, rate_limit_error) result \<times> ('d, 'k) local_rate_limit" where
  "timed_check gov q l = rate_limit_check gov (snd q) (rate_limit_elapse gov (fst q) l)"

fun rate_limit_run ::
  "('d, 'k) governor_api \<Rightarrow> (nat \<times> id option) list \<Rightarrow> ('d, 'k) local_rate_limit \<Rightarrow>
     (unit, rate_limit_error) result list" where
  "rate_limit_run gov [] l = []"
| "rate_limit_run gov (q # qs) l =
     (case timed_check gov q l of (r, l') \<Rightarrow> r # rate_limit_run gov qs l')"

text \<open>What \<open>governor\<close> documents of a limiter with the quota \<open>Quota::per_second\<close>. It starts
  with its whole rate to spend at once, and is refilled with one request each time a second
  divided by the rate goes by. The level, in nanoseconds, is what it has to spend: an admitted request
  takes one period from it, a refused one adds nothing, and time adds at most itself.\<close>

definition quota_period :: "nat \<Rightarrow> nat" where
  "quota_period rps = 1000000000 div rps"

definition quota_law :: "('d, 'k) governor_api \<Rightarrow> ('d \<Rightarrow> nat) \<Rightarrow> ('d \<Rightarrow> nat) \<Rightarrow> bool" where
  "quota_law gov rate level \<longleftrightarrow>
     (\<forall>rps. rate (gov_direct gov rps) = rps \<and> level (gov_direct gov rps) = rps * quota_period rps) \<and>
     (\<forall>d. rate (snd (gov_check gov d)) = rate d \<and>
        level (snd (gov_check gov d)) + (if fst (gov_check gov d) then quota_period (rate d) else 0)
          \<le> level d) \<and>
     (\<forall>t d. rate (gov_elapse gov t d) = rate d \<and> level (gov_elapse gov t d) \<le> level d + t)"

definition total_limiter :: "('d, 'k) local_rate_limit \<Rightarrow> 'd option" where
  "total_limiter l = map_option rl_limiter (lrl_total l)"

definition override_limiter :: "nat \<Rightarrow> ('d, 'k) local_rate_limit \<Rightarrow> 'd option" where
  "override_limiter n l =
     (if n < length (lrl_override_limits l) then Some (rl_limiter (lrl_override_limits l ! n)) else None)"

definition level_of :: "('d \<Rightarrow> nat) \<Rightarrow> 'd option \<Rightarrow> nat" where
  "level_of level d = (case d of None \<Rightarrow> 0 | Some d \<Rightarrow> level d)"

lemma rate_limit_elapse_simps [simp]:
  "lrl_overrides (rate_limit_elapse gov t l) = lrl_overrides l"
  "total_limiter (rate_limit_elapse gov t l) = map_option (gov_elapse gov t) (total_limiter l)"
  "override_limiter n (rate_limit_elapse gov t l) = map_option (gov_elapse gov t) (override_limiter n l)"
  by (simp_all add: rate_limit_elapse_def Let_def total_limiter_def override_limiter_def
      option.map_comp comp_def)

lemma check_override_others [simp]:
  "lrl_total (snd (check_override gov n l)) = lrl_total l"
  "lrl_overrides (snd (check_override gov n l)) = lrl_overrides l"
  "lrl_per_identity (snd (check_override gov n l)) = lrl_per_identity l"
  by (simp_all add: check_override_def Let_def split: prod.splits)

lemma check_per_identity_others [simp]:
  "lrl_total (snd (check_per_identity gov i l)) = lrl_total l"
  "lrl_overrides (snd (check_per_identity gov i l)) = lrl_overrides l"
  "lrl_override_limits (snd (check_per_identity gov i l)) = lrl_override_limits l"
  by (simp_all add: check_per_identity_def split: option.splits prod.splits)

lemma rate_limit_check_cases:
  obtains (total) "\<not> is_ok (fst (check_total gov l))" "rate_limit_check gov i l = check_total gov l"
    | (override) n where "is_ok (fst (check_total gov l))" "Option.bind i (lrl_overrides l) = Some n"
        "rate_limit_check gov i l = check_override gov n (snd (check_total gov l))"
    | (identity) "is_ok (fst (check_total gov l))" "Option.bind i (lrl_overrides l) = None"
        "rate_limit_check gov i l = check_per_identity gov i (snd (check_total gov l))"
proof -
  obtain r l' where c: "check_total gov l = (r, l')" by force
  then have l': "lrl_overrides l' = lrl_overrides l"
    using check_total_overrides(1) [of gov l] by simp
  show ?thesis
  proof (cases r)
    case (Inl e)
    with c total show ?thesis by (simp add: rate_limit_check_def)
  next
    case (Inr u)
    with c l' override identity show ?thesis
      by (cases "Option.bind i (lrl_overrides l)") (simp_all add: rate_limit_check_def)
  qed
qed

lemma rate_limit_check_overrides [simp]:
  "lrl_overrides (snd (rate_limit_check gov i l)) = lrl_overrides l"
  by (cases rule: rate_limit_check_cases [of gov l i]) simp_all

text \<open>What one check does to the total limiter, and to the limiter of an override: it is checked
  at most once, and a request of its own that is admitted was admitted by it.\<close>

lemma rate_limit_check_total:
  assumes "total_limiter l = Some d"
  shows "total_limiter (snd (rate_limit_check gov i l)) = Some (snd (gov_check gov d))
    \<and> (is_ok (fst (rate_limit_check gov i l)) \<longrightarrow> fst (gov_check gov d))"
proof -
  from assms obtain lim where lim: "lrl_total l = Some lim" "rl_limiter lim = d"
    by (auto simp: total_limiter_def)
  have "total_limiter (snd (check_total gov l)) = Some (snd (gov_check gov d))"
      "is_ok (fst (check_total gov l)) = fst (gov_check gov d)"
    by (simp_all add: check_total_def lim total_limiter_def split: prod.splits)
  then show ?thesis
    by (cases rule: rate_limit_check_cases [of gov l i]) (simp_all add: total_limiter_def)
qed

lemma check_override_limiter:
  assumes "override_limiter n l = Some d"
  shows "if m = n
    then override_limiter n (snd (check_override gov m l)) = Some (snd (gov_check gov d))
      \<and> is_ok (fst (check_override gov m l)) = fst (gov_check gov d)
    else override_limiter n (snd (check_override gov m l)) = Some d"
  using assms
  by (auto simp: check_override_def Let_def override_limiter_def split: prod.splits if_splits)

lemma rate_limit_check_override:
  assumes d: "override_limiter n l = Some d"
  shows "if Option.bind i (lrl_overrides l) = Some n \<and> is_ok (fst (rate_limit_check gov i l))
    then fst (gov_check gov d)
      \<and> override_limiter n (snd (rate_limit_check gov i l)) = Some (snd (gov_check gov d))
    else override_limiter n (snd (rate_limit_check gov i l)) \<in> {Some d, Some (snd (gov_check gov d))}"
proof -
  have t: "override_limiter n (snd (check_total gov l)) = Some d"
    using d by (simp add: override_limiter_def split: if_splits)
  show ?thesis
  proof (cases rule: rate_limit_check_cases [of gov l i])
    case total
    with t show ?thesis by simp
  next
    case (override m)
    with check_override_limiter [OF t, of m gov] show ?thesis by (auto split: if_splits)
  next
    case identity
    with t show ?thesis by (auto simp: override_limiter_def split: if_splits)
  qed
qed

definition timed_step ::
  "('d, 'k) governor_api \<Rightarrow> nat \<times> id option \<Rightarrow> ('d, 'k) local_rate_limit \<Rightarrow> ('d, 'k) local_rate_limit"
  where "timed_step gov q l = snd (timed_check gov q l)"

text \<open>A limiter of a rate limit is picked by \<open>pick\<close>, and \<open>own\<close> says whose requests it is for.\<close>

definition quota_state ::
  "('d, 'k) governor_api \<Rightarrow> ('d \<Rightarrow> nat) \<Rightarrow> ('d \<Rightarrow> nat) \<Rightarrow> nat \<Rightarrow>
     (('d, 'k) local_rate_limit \<Rightarrow> 'd option) \<Rightarrow> ('d, 'k) local_rate_limit \<Rightarrow> bool" where
  "quota_state gov rate level rps pick l \<longleftrightarrow>
     quota_law gov rate level \<and> (\<exists>d. pick l = Some d \<and> rate d = rps)"

definition quota_cost ::
  "('d, 'k) governor_api \<Rightarrow> nat \<Rightarrow> (('d, 'k) local_rate_limit \<Rightarrow> id option \<Rightarrow> bool) \<Rightarrow>
     nat \<times> id option \<Rightarrow> ('d, 'k) local_rate_limit \<Rightarrow> nat" where
  "quota_cost gov rps own q l =
     (if own l (snd q) \<and> is_ok (fst (timed_check gov q l)) then quota_period rps else 0)"

lemma quota_elapse:
  assumes "quota_law gov rate level"
  shows "rate (gov_elapse gov t d) = rate d" "level (gov_elapse gov t d) \<le> level d + t"
  using assms by (simp_all add: quota_law_def)

lemma quota_check:
  assumes "quota_law gov rate level"
  shows "rate (snd (gov_check gov d)) = rate d"
    "level (snd (gov_check gov d)) + (if fst (gov_check gov d) then quota_period (rate d) else 0) \<le> level d"
  using assms by (simp_all add: quota_law_def)

text \<open>One request, after some time, is paid for by the limiter that was asked.\<close>

lemma quota_step:
  assumes st: "quota_state gov rate level rps pick l"
    and step: "\<And>d. pick l = Some d \<Longrightarrow>
      (if own l (snd q) \<and> is_ok (fst (timed_check gov q l))
       then fst (gov_check gov (gov_elapse gov (fst q) d))
         \<and> pick (timed_step gov q l) = Some (snd (gov_check gov (gov_elapse gov (fst q) d)))
       else pick (timed_step gov q l) \<in>
         {Some (gov_elapse gov (fst q) d), Some (snd (gov_check gov (gov_elapse gov (fst q) d)))})"
  shows "quota_state gov rate level rps pick (timed_step gov q l)"
    and "quota_cost gov rps own q l + level_of level (pick (timed_step gov q l))
      \<le> level_of level (pick l) + fst q"
proof -
  from st obtain d where law: "quota_law gov rate level" and d: "pick l = Some d" "rate d = rps"
    by (auto simp: quota_state_def)
  let ?e = "gov_elapse gov (fst q) d"
  have e: "rate ?e = rps" "level ?e \<le> level d + fst q"
    using quota_elapse [OF law] d by simp_all
  note c = quota_check [OF law, of ?e]
  show "quota_state gov rate level rps pick (timed_step gov q l)"
    using step [OF d(1)] e c law by (auto simp: quota_state_def split: if_splits)
  show "quota_cost gov rps own q l + level_of level (pick (timed_step gov q l))
      \<le> level_of level (pick l) + fst q"
    using step [OF d(1)] e c d by (auto simp: quota_cost_def level_of_def split: if_splits)
qed

definition override_own :: "nat \<Rightarrow> ('d, 'k) local_rate_limit \<Rightarrow> id option \<Rightarrow> bool" where
  "override_own n l i \<longleftrightarrow> Option.bind i (lrl_overrides l) = Some n"

lemma override_step:
  assumes "override_limiter n l = Some d"
  shows "if override_own n l (snd q) \<and> is_ok (fst (timed_check gov q l))
    then fst (gov_check gov (gov_elapse gov (fst q) d))
      \<and> override_limiter n (timed_step gov q l) = Some (snd (gov_check gov (gov_elapse gov (fst q) d)))
    else override_limiter n (timed_step gov q l) \<in>
      {Some (gov_elapse gov (fst q) d), Some (snd (gov_check gov (gov_elapse gov (fst q) d)))}"
  using rate_limit_check_override [of n "rate_limit_elapse gov (fst q) l" "gov_elapse gov (fst q) d" "snd q" gov]
    assms
  by (auto simp: timed_check_def timed_step_def override_own_def split: if_splits)

lemma total_step:
  assumes "total_limiter l = Some d"
  shows "if True \<and> is_ok (fst (timed_check gov q l))
    then fst (gov_check gov (gov_elapse gov (fst q) d))
      \<and> total_limiter (timed_step gov q l) = Some (snd (gov_check gov (gov_elapse gov (fst q) d)))
    else total_limiter (timed_step gov q l) \<in>
      {Some (gov_elapse gov (fst q) d), Some (snd (gov_check gov (gov_elapse gov (fst q) d)))}"
  using rate_limit_check_total [of "rate_limit_elapse gov (fst q) l" "gov_elapse gov (fst q) d" gov "snd q"]
    assms
  by (simp add: timed_check_def timed_step_def)

lemmas override_paid = quota_step [where pick = "override_limiter n" and own = "override_own n" for n,
    OF _ override_step]

lemmas total_paid = quota_step [where pick = total_limiter and own = "\<lambda>_ _. True", OF _ total_step]

interpretation override_quota: metered "timed_step gov"
  "quota_state gov rate level rps (override_limiter n)" "\<lambda>_. True"
  "quota_cost gov rps (override_own n)" "\<lambda>q _. fst q" "\<lambda>l. level_of level (override_limiter n l)"
  for gov rate level rps n
  by unfold_locales (simp_all add: override_paid)

interpretation total_quota: metered "timed_step gov"
  "quota_state gov rate level rps total_limiter" "\<lambda>_. True"
  "quota_cost gov rps (\<lambda>_ _. True)" "\<lambda>q _. fst q" "\<lambda>l. level_of level (total_limiter l)"
  for gov rate level rps
  by unfold_locales (simp_all add: total_paid)

lemma timed_check_overrides [simp]: "lrl_overrides (timed_step gov q l) = lrl_overrides l"
  by (simp add: timed_check_def timed_step_def)

definition elapsed_ns :: "(nat \<times> id option) list \<Rightarrow> nat" where
  "elapsed_ns qs = sum_list (map fst qs)"

lemma run_sum_elapsed_ns: "run_sum step (\<lambda>q _. fst q) qs l = elapsed_ns qs"
  by (induction qs arbitrary: l) (simp_all add: elapsed_ns_def)

text \<open>How many of a run's requests were admitted, of those that are a limiter's own.\<close>

definition admitted_own ::
  "('d, 'k) governor_api \<Rightarrow> (('d, 'k) local_rate_limit \<Rightarrow> id option \<Rightarrow> bool) \<Rightarrow>
     (nat \<times> id option) list \<Rightarrow> ('d, 'k) local_rate_limit \<Rightarrow> nat" where
  "admitted_own gov own qs l =
     length (filter (\<lambda>(q, r). own l (snd q) \<and> is_ok r) (zip qs (rate_limit_run gov qs l)))"

lemma run_sum_cost:
  assumes "\<And>q l. own (timed_step gov q l) = own l"
  shows "run_sum (timed_step gov) (quota_cost gov rps own) qs l = quota_period rps * admitted_own gov own qs l"
proof (induction qs arbitrary: l)
  case (Cons q qs)
  obtain r l' where c: "timed_check gov q l = (r, l')" by force
  then have l': "timed_step gov q l = l'" by (simp add: timed_step_def)
  with assms [of q l] have "own l' = own l" by simp
  with Cons.IH [of l'] c l' show ?case by (simp add: quota_cost_def admitted_own_def)
qed (simp add: admitted_own_def)

text \<open>Over any stretch of requests, those that a server admits, whoever sends them, take no more than
  what its total limit holds at the start and what time refills since.\<close>

theorem total_limit_bounds_admitted:
  assumes law: "quota_law gov rate level" and d: "total_limiter l = Some d"
  shows "quota_period (rate d) * admitted_own gov (\<lambda>_ _. True) qs l \<le> level d + elapsed_ns qs"
proof -
  have "quota_state gov rate level (rate d) total_limiter l"
    using assms by (simp add: quota_state_def)
  from total_quota.run_pays [OF this, of qs] d show ?thesis
    by (simp add: run_sum_cost run_sum_elapsed_ns level_of_def list_all_iff)
qed

text \<open>C22: The identities named in one override share its limiter. Over any stretch of requests,
  the ones that all these identities together have admitted, at one quota period each, take no
  more than the limiter's level at the start and the time that goes by. So from a fresh
  limiter of rate \<open>rps\<close>, they are at most the rate at once and one more for each period
  since.\<close>

theorem override_limit_is_shared:
  assumes law: "quota_law gov rate level" and d: "override_limiter n l = Some d"
  shows "quota_period (rate d) * admitted_own gov (override_own n) qs l \<le> level d + elapsed_ns qs
    \<and> (d = gov_direct gov rps \<longrightarrow>
      quota_period rps * admitted_own gov (override_own n) qs l \<le> rps * quota_period rps + elapsed_ns qs)"
proof -
  have "override_own n (timed_step gov q l) = override_own n l" for q and l :: "('a, 'b) local_rate_limit"
    by (simp add: override_own_def fun_eq_iff)
  note sum = run_sum_cost [where own = "override_own n", OF this]
  have "quota_state gov rate level (rate d) (override_limiter n) l"
    using assms by (simp add: quota_state_def)
  from override_quota.run_pays [OF this, of qs] d
  have "quota_period (rate d) * admitted_own gov (override_own n) qs l \<le> level d + elapsed_ns qs"
    by (simp add: sum run_sum_elapsed_ns level_of_def list_all_iff)
  with law show ?thesis by (auto simp: quota_law_def)
qed

text \<open>A limiter that counts down from its rate and has no clock.\<close>

definition counting_api :: "(nat, id option \<Rightarrow> nat) governor_api" where
  "counting_api =
     \<lparr> gov_direct = (\<lambda>n. n), gov_check = (\<lambda>d. (0 < d, d - 1)),
       gov_keyed = (\<lambda>n _. n), gov_check_key = (\<lambda>k i. (0 < k i, k(i := k i - 1))),
       gov_elapse = (\<lambda>_ d. d), gov_elapse_key = (\<lambda>_ k. k) \<rparr>"

text \<open>A bucket of nanoseconds that time fills up to the rate's worth, at which the bounds are
  witnessed.\<close>

record token_bucket =
  bk_rate :: nat
  bk_level :: nat

definition new_bucket :: "nat \<Rightarrow> token_bucket" where
  "new_bucket rps = \<lparr> bk_rate = rps, bk_level = rps * quota_period rps \<rparr>"

definition bucket_check :: "token_bucket \<Rightarrow> bool \<times> token_bucket" where
  "bucket_check b =
     (if quota_period (bk_rate b) \<le> bk_level b
      then (True, b\<lparr> bk_level := bk_level b - quota_period (bk_rate b) \<rparr>) else (False, b))"

definition bucket_elapse :: "nat \<Rightarrow> token_bucket \<Rightarrow> token_bucket" where
  "bucket_elapse t b =
     b\<lparr> bk_level := min (bk_level b + t) (bk_rate b * quota_period (bk_rate b)) \<rparr>"

definition token_bucket_api :: "(token_bucket, id option \<Rightarrow> token_bucket) governor_api" where
  "token_bucket_api =
     \<lparr> gov_direct = new_bucket, gov_check = bucket_check, gov_keyed = (\<lambda>n _. new_bucket n),
       gov_check_key = (\<lambda>k i. case bucket_check (k i) of (admit, b) \<Rightarrow> (admit, k(i := b))),
       gov_elapse = bucket_elapse, gov_elapse_key = (\<lambda>t k i. bucket_elapse t (k i)) \<rparr>"

lemma token_bucket_law: "quota_law token_bucket_api bk_rate bk_level"
  by (simp add: quota_law_def token_bucket_api_def new_bucket_def bucket_check_def bucket_elapse_def)

definition bucket_limit :: "(token_bucket, id option \<Rightarrow> token_bucket) local_rate_limit" where
  "bucket_limit =
     \<lparr> lrl_meta = None, lrl_total = Some \<lparr> rl_rps = 2, rl_limiter = new_bucket 2 \<rparr>,
       lrl_per_identity = None,
       lrl_overrides = (\<lambda>i. if i = Id_Dns ''a'' \<or> i = Id_Dns ''b'' then Some 0 else None),
       lrl_override_limits = [\<lparr> rl_rps = 1, rl_limiter = new_bucket 1 \<rparr>] \<rparr>"

lemmas bucket_limit_simps = bucket_limit_def timed_check_def rate_limit_check_def check_total_def
  check_override_def check_per_identity_def rate_limit_elapse_def token_bucket_api_def bucket_check_def
  bucket_elapse_def new_bucket_def quota_period_def Let_def

theorem total_limit_bounds_admitted_witness:
  "500000000 * admitted_own token_bucket_api (\<lambda>_ _. True) [(0, None), (0, None), (0, None), (500000000, None)]
       bucket_limit \<le> 1000000000 + 500000000
   \<and> rate_limit_run token_bucket_api [(0, None), (0, None), (0, None), (500000000, None)] bucket_limit
     = [Inr (), Inr (), Inl (RateLimitError_Total 2), Inr ()]"
proof
  let ?qs = "[(0, None), (0, None), (0, None), (500000000, None)]"
  have "total_limiter bucket_limit = Some (new_bucket 2)"
    by (simp add: bucket_limit_def total_limiter_def)
  from total_limit_bounds_admitted [OF token_bucket_law this, of ?qs]
  show "500000000 * admitted_own token_bucket_api (\<lambda>_ _. True) ?qs bucket_limit \<le> 1000000000 + 500000000"
    by (simp add: new_bucket_def quota_period_def elapsed_ns_def)
  show "rate_limit_run token_bucket_api ?qs bucket_limit
     = [Inr (), Inr (), Inl (RateLimitError_Total 2), Inr ()]"
    by (simp add: bucket_limit_simps)
qed

theorem override_limit_is_shared_witness:
  "1000000000 * admitted_own token_bucket_api (override_own 0)
       [(0, Some (Id_Dns ''a'')), (0, Some (Id_Dns ''b'')), (1000000000, Some (Id_Dns ''b''))]
       bucket_limit \<le> 1000000000 + 1000000000
   \<and> rate_limit_run token_bucket_api
       [(0, Some (Id_Dns ''a'')), (0, Some (Id_Dns ''b'')), (1000000000, Some (Id_Dns ''b''))] bucket_limit
     = [Inr (), Inl (RateLimitError_Override 1), Inr ()]"
proof
  let ?qs = "[(0, Some (Id_Dns ''a'')), (0, Some (Id_Dns ''b'')), (1000000000, Some (Id_Dns ''b''))]"
  have "override_limiter 0 bucket_limit = Some (gov_direct token_bucket_api 1)"
    by (simp add: bucket_limit_def override_limiter_def token_bucket_api_def)
  from override_limit_is_shared [OF token_bucket_law this, of ?qs 1]
  show "1000000000 * admitted_own token_bucket_api (override_own 0) ?qs bucket_limit \<le> 1000000000 + 1000000000"
    by (simp add: quota_period_def elapsed_ns_def)
  show "rate_limit_run token_bucket_api ?qs bucket_limit = [Inr (), Inl (RateLimitError_Override 1), Inr ()]"
    by (simp add: bucket_limit_simps)
qed

end
