(* ===== verification/Server_Policy_Proto.thy ===== *)
theory Server_Policy_Proto
  imports Server_Policy
begin

text \<open>
  The conversion of the policy controller's \<open>Server\<close> message into a server policy: the
  \<open>proto\<close> modules of \<open>linkerd/proxy/server-policy/src\<close>. What the conversions
  ask of other crates is the record \<open>policy_api\<close>. The conversion of a failure ratio may
  panic by its \<open>expect\<close>, so the conversions above it return an \<open>outcome\<close>.
\<close>

record ('re, 'h, 'pnet, 'net, 'sch, 'dur) policy_api =
  pa_http :: "('re, 'h) http_api"
  pa_proto :: "'re proto_api"
  pa_net :: "'net ipnet_api"
  pa_net_try_from :: "'pnet \<Rightarrow> ('net, string) result"
  pa_scheme_try_from :: "'sch \<Rightarrow> (string, string) result"
  pa_status_valid :: "nat \<Rightarrow> bool"
  pa_bernoulli :: "nat \<Rightarrow> nat \<Rightarrow> (unit, string) result"
  pa_header_name_parse :: "string \<Rightarrow> (header_name, string) result"
  pa_header_value_from_bytes :: "string \<Rightarrow> (header_value, string) result"
  pa_url_parse :: "string \<Rightarrow> string option"
  pa_duration_try_from :: "'dur \<Rightarrow> (duration, string) result"

section \<open>Metadata\<close>

datatype invalid_meta = InvalidMeta_Missing | InvalidMeta_Name | InvalidMeta_Kind | InvalidMeta_Group

type_synonym labels = "string \<Rightarrow> string option"

definition meta_try_new_with_default ::
  "labels \<Rightarrow> string \<Rightarrow> string \<Rightarrow> (meta, invalid_meta) result" where
  "meta_try_new_with_default labels default_group default_kind =
     (case labels ''name'' of
        None \<Rightarrow> Inl InvalidMeta_Name
      | Some name \<Rightarrow>
          (let grp = (case labels ''group'' of Some g \<Rightarrow> g | None \<Rightarrow> default_group)
           in case labels ''kind'' of
                Some kind \<Rightarrow>
                  (if grp = [] \<and> kind = ''default'' then Inr (Meta_Default name)
                   else Inr (Meta_Resource grp kind name))
              | None \<Rightarrow>
                  (case splitn2 (CHR '':'') name of
                     (kind, Some n) \<Rightarrow>
                       (if kind = ''default'' then Inr (Meta_Default n)
                        else Inr (Meta_Resource grp kind n))
                   | (n, None) \<Rightarrow> Inr (Meta_Resource grp default_kind n))))"

datatype proto_meta_kind = ProtoMeta_Default string | ProtoMeta_Resource string string string

definition meta_try_from :: "proto_meta_kind option \<Rightarrow> (meta, invalid_meta) result" where
  "meta_try_from pb =
     bind_result (ok_or InvalidMeta_Missing pb) (\<lambda>k. case k of
        ProtoMeta_Default name \<Rightarrow> Inr (Meta_Default name)
      | ProtoMeta_Resource grp kind name \<Rightarrow> Inr (Meta_Resource grp kind name))"

section \<open>Authorizations\<close>

datatype invalid_authz =
    InvalidAuthz_MissingNetworks
  | InvalidAuthz_MissingNetwork
  | InvalidAuthz_MissingAuthentications
  | InvalidAuthz_Network string
  | InvalidAuthz_Meta invalid_meta

datatype proto_clients =
    Clients_Unauthenticated
  | Clients_Identities "string list" "string list list"

datatype proto_permit = Permit_Unauthenticated | Permit_MeshTls "proto_clients option"

record 'pnet proto_authz =
  paz_labels :: labels
  paz_authentication :: "proto_permit option option"
  paz_networks :: "('pnet option \<times> 'pnet list) list"
  paz_metadata :: "proto_meta_kind option option"

definition network_try_from ::
  "('pnet \<Rightarrow> ('net, string) result) \<Rightarrow> 'pnet option \<times> 'pnet list \<Rightarrow> ('net network, invalid_authz) result"
  where
  "network_try_from conv n =
     bind_result (ok_or InvalidAuthz_MissingNetwork (fst n)) (\<lambda>pn.
     bind_result (map_err InvalidAuthz_Network (conv pn)) (\<lambda>net.
     bind_result (map_err InvalidAuthz_Network (collect_results (map conv (snd n)))) (\<lambda>except.
     Inr \<lparr> nw_net = net, nw_except = except \<rparr>)))"

definition authentication_try_from ::
  "proto_permit option option \<Rightarrow> (authentication, invalid_authz) result" where
  "authentication_try_from authn =
     bind_result (ok_or InvalidAuthz_MissingAuthentications authn) (\<lambda>permit.
     bind_result (ok_or InvalidAuthz_MissingAuthentications permit) (\<lambda>p. case p of
        Permit_Unauthenticated \<Rightarrow> Inr Unauthenticated
      | Permit_MeshTls clients \<Rightarrow>
          bind_result (ok_or InvalidAuthz_MissingAuthentications clients) (\<lambda>c. case c of
             Clients_Unauthenticated \<Rightarrow> Inr TlsUnauthenticated
           | Clients_Identities ids sfxs \<Rightarrow>
               Inr (TlsAuthenticated (set ids) (map suffix_from sfxs)))))"

definition authorization_try_from ::
  "('pnet \<Rightarrow> ('net, string) result) \<Rightarrow> 'pnet proto_authz \<Rightarrow> ('net authorization, invalid_authz) result"
  where
  "authorization_try_from conv az =
     (if paz_networks az = [] then Inl InvalidAuthz_MissingNetworks
      else
        bind_result (collect_results (map (network_try_from conv) (paz_networks az))) (\<lambda>networks.
        bind_result (authentication_try_from (paz_authentication az)) (\<lambda>authn.
        bind_result (map_err InvalidAuthz_Meta
            (case paz_metadata az of
               Some m \<Rightarrow> meta_try_from m
             | None \<Rightarrow> meta_try_new_with_default (paz_labels az) ''policy.linkerd.io''
                 ''serverauthorization'')) (\<lambda>meta.
        Inr \<lparr> az_networks = networks, az_authentication = authn, az_meta = meta \<rparr>))))"

definition mk_authorizations ::
  "('pnet \<Rightarrow> ('net, string) result) \<Rightarrow> 'pnet proto_authz list \<Rightarrow> 'net authorization list \<Rightarrow>
     ('net authorization list, invalid_authz) result" where
  "mk_authorizations conv authzs parent_authzs =
     collect_results (map (authorization_try_from conv) authzs @ map Inr parent_authzs)"

section \<open>Rate limits\<close>

record proto_rate_limit_override =
  pov_limit :: "nat option"
  pov_clients :: "string list option"

record proto_local_rate_limit =
  plrl_metadata :: "proto_meta_kind option option"
  plrl_total :: "nat option"
  plrl_identity :: "nat option"
  plrl_overrides :: "proto_rate_limit_override list"

definition default_proto_rate_limit :: proto_local_rate_limit where
  "default_proto_rate_limit =
     \<lparr> plrl_metadata = None, plrl_total = None, plrl_identity = None, plrl_overrides = [] \<rparr>"

text \<open>\<open>NonZeroU32::new\<close>.\<close>

definition non_zero :: "nat \<Rightarrow> nat option" where
  "non_zero n = (if n = 0 then None else Some n)"

text \<open>The limiters of the overrides with a limit, in order, and the pairs of an identity and the
  position of its limiter that are collected into the map: the last pair of an identity
  wins.\<close>

definition override_limits ::
  "('d, 'k) governor_api \<Rightarrow> proto_rate_limit_override list \<Rightarrow> ('d rate_limit \<times> string list) list" where
  "override_limits gov ovrs =
     List.map_filter (\<lambda>ovr. map_option
       (\<lambda>rps. (\<lparr> rl_rps = rps, rl_limiter = gov_direct gov rps \<rparr>, concat (option_list (pov_clients ovr))))
       (Option.bind (pov_limit ovr) non_zero)) ovrs"

definition override_pairs ::
  "(string \<Rightarrow> string option) \<Rightarrow> ('d rate_limit \<times> string list) list \<Rightarrow> (id \<times> nat) list" where
  "override_pairs url_parse lims =
     concat (map (\<lambda>(n, lim, names). map (\<lambda>i. (i, n)) (List.map_filter (id_from_str url_parse) names))
       (enumerate 0 lims))"

definition local_rate_limit_try_from ::
  "('d, 'k) governor_api \<Rightarrow> (string \<Rightarrow> string option) \<Rightarrow> proto_local_rate_limit \<Rightarrow>
     (('d, 'k) local_rate_limit, invalid_meta) result" where
  "local_rate_limit_try_from gov url_parse p =
     bind_result (transpose_opt (map_option meta_try_from (plrl_metadata p))) (\<lambda>meta.
     let lims = override_limits gov (plrl_overrides p)
     in Inr \<lparr> lrl_meta = meta,
        lrl_total = map_option (\<lambda>rps. \<lparr> rl_rps = rps, rl_limiter = gov_direct gov rps \<rparr>)
          (Option.bind (plrl_total p) non_zero),
        lrl_per_identity = map_option (\<lambda>rps. \<lparr> rl_rps = rps, rl_limiter = gov_keyed gov rps \<rparr>)
          (Option.bind (plrl_identity p) non_zero),
        lrl_overrides = map_of (rev (override_pairs url_parse lims)),
        lrl_override_limits = map fst lims \<rparr>)"

section \<open>HTTP routes\<close>

datatype invalid_http_route =
    InvalidHttpRoute_HostMatch invalid_host_match
  | InvalidHttpRoute_RouteMatch invalid_route_match
  | InvalidHttpRoute_RequestHeaderModifier invalid_modify_header
  | InvalidHttpRoute_Redirect "string invalid_request_redirect"
  | InvalidHttpRoute_ErrorResponder "string invalid_failure_response"
  | InvalidHttpRoute_Authz invalid_authz
  | InvalidHttpRoute_Meta invalid_meta

datatype 'sch proto_http_filter =
    ProtoHttpFilter_RequestHeaderModifier proto_header_modifier
  | ProtoHttpFilter_Redirect "'sch proto_request_redirect"
  | ProtoHttpFilter_FailureInjector proto_failure_injector

record 'sch proto_http_rule =
  phr_matches :: "proto_http_route_match list"
  phr_filters :: "'sch proto_http_filter option list"

record ('pnet, 'sch) proto_http_route =
  pht_hosts :: "proto_host_match option list"
  pht_authorizations :: "'pnet proto_authz list"
  pht_rules :: "'sch proto_http_rule list"
  pht_metadata :: "proto_meta_kind option option"

definition http_filter_try_from ::
  "('re, 'h, 'pnet, 'net, 'sch, 'dur) policy_api \<Rightarrow> 'sch proto_http_filter option \<Rightarrow>
     (http_filter, invalid_http_route) result outcome" where
  "http_filter_try_from pa f =
     (case f of
        Some (ProtoHttpFilter_RequestHeaderModifier rhm) \<Rightarrow>
          Returns (bind_result (map_err InvalidHttpRoute_RequestHeaderModifier
              (modify_header_try_from (pa_header_name_parse pa) (pa_header_value_from_bytes pa) rhm))
            (\<lambda>x. Inr (HttpFilter_RequestHeaders x)))
      | Some (ProtoHttpFilter_Redirect rr) \<Rightarrow>
          Returns (bind_result (map_err InvalidHttpRoute_Redirect
              (redirect_try_from (pa_http pa) (pa_scheme_try_from pa) (pa_status_valid pa) rr))
            (\<lambda>x. Inr (HttpFilter_Redirect x)))
      | Some (ProtoHttpFilter_FailureInjector rsp) \<Rightarrow>
          bind_both (map_err_both InvalidHttpRoute_ErrorResponder
              (inject_failure_try_from (pa_status_valid pa) (pa_bernoulli pa) rsp))
            (\<lambda>x. Returns (Inr (HttpFilter_InjectFailure x)))
      | None \<Rightarrow>
          Returns (Inr (HttpFilter_InternalError ''server policy configured with unknown filter'')))"

definition http_try_rule ::
  "('re, 'h, 'pnet, 'net, 'sch, 'dur) policy_api \<Rightarrow> 'net authorization list \<Rightarrow> meta \<Rightarrow>
     'sch proto_http_rule \<Rightarrow>
     (('re http_match_request, ('net, http_filter) route_policy) rule, invalid_http_route) result outcome"
  where
  "http_try_rule pa authorizations meta r =
     bind_both (Returns (map_err InvalidHttpRoute_RouteMatch
         (collect_results (map (match_request_try_from (pa_proto pa)) (phr_matches r))))) (\<lambda>matches.
     bind_both (collect_both (http_filter_try_from pa) (phr_filters r)) (\<lambda>filters.
     Returns (Inr \<lparr> rule_matches = matches,
       rule_policy = \<lparr> rp_meta = meta, rp_authorizations = authorizations, rp_filters = filters \<rparr> \<rparr>)))"

definition http_try_route ::
  "('re, 'h, 'pnet, 'net, 'sch, 'dur) policy_api \<Rightarrow> 'net authorization list \<Rightarrow>
     ('pnet, 'sch) proto_http_route \<Rightarrow> (('re, 'net) http_route, invalid_http_route) result outcome" where
  "http_try_route pa server_authorizations r =
     bind_both (Returns (map_err InvalidHttpRoute_HostMatch
         (collect_results (map match_host_try_from (pht_hosts r))))) (\<lambda>hosts.
     bind_both (Returns (map_err InvalidHttpRoute_Authz
         (mk_authorizations (pa_net_try_from pa) (pht_authorizations r) server_authorizations))) (\<lambda>authzs.
     bind_both (Returns (map_err InvalidHttpRoute_Meta
         (bind_result (ok_or InvalidMeta_Missing (pht_metadata r)) meta_try_from))) (\<lambda>meta.
     bind_both (collect_both (http_try_rule pa authzs meta) (pht_rules r)) (\<lambda>rules.
     Returns (Inr \<lparr> route_hosts = hosts, route_rules = rules \<rparr>)))))"

section \<open>gRPC routes\<close>

datatype invalid_grpc_route =
    InvalidGrpcRoute_HostMatch invalid_host_match
  | InvalidGrpcRoute_RouteMatch invalid_grpc_route_match
  | InvalidGrpcRoute_RequestHeaderModifier invalid_modify_header
  | InvalidGrpcRoute_ErrorResponder "string invalid_grpc_failure"
  | InvalidGrpcRoute_Authz invalid_authz
  | InvalidGrpcRoute_Meta invalid_meta

datatype proto_grpc_filter =
    ProtoGrpcFilter_FailureInjector proto_grpc_failure_injector
  | ProtoGrpcFilter_RequestHeaderModifier proto_header_modifier

record proto_grpc_rule =
  pgr_matches :: "(proto_grpc_rpc_match option \<times> (string \<times> proto_value option) list) list"
  pgr_filters :: "proto_grpc_filter option list"

record 'pnet proto_grpc_route =
  pgt_hosts :: "proto_host_match option list"
  pgt_authorizations :: "'pnet proto_authz list"
  pgt_rules :: "proto_grpc_rule list"
  pgt_metadata :: "proto_meta_kind option option"

definition grpc_filter_try_from ::
  "('re, 'h, 'pnet, 'net, 'sch, 'dur) policy_api \<Rightarrow> proto_grpc_filter option \<Rightarrow>
     (grpc_filter, invalid_grpc_route) result outcome" where
  "grpc_filter_try_from pa f =
     (case f of
        Some (ProtoGrpcFilter_FailureInjector rsp) \<Rightarrow>
          bind_both (map_err_both InvalidGrpcRoute_ErrorResponder
              (grpc_inject_failure_try_from (pa_bernoulli pa) rsp))
            (\<lambda>x. Returns (Inr (GrpcFilter_InjectFailure x)))
      | Some (ProtoGrpcFilter_RequestHeaderModifier rhm) \<Rightarrow>
          Returns (bind_result (map_err InvalidGrpcRoute_RequestHeaderModifier
              (modify_header_try_from (pa_header_name_parse pa) (pa_header_value_from_bytes pa) rhm))
            (\<lambda>x. Inr (GrpcFilter_RequestHeaders x)))
      | None \<Rightarrow>
          Returns (Inr (GrpcFilter_InternalError ''server policy configured with unknown filter'')))"

definition grpc_try_rule ::
  "('re, 'h, 'pnet, 'net, 'sch, 'dur) policy_api \<Rightarrow> 'net authorization list \<Rightarrow> meta \<Rightarrow>
     proto_grpc_rule \<Rightarrow>
     (('re grpc_match_route, ('net, grpc_filter) route_policy) rule, invalid_grpc_route) result outcome"
  where
  "grpc_try_rule pa authorizations meta r =
     bind_both (Returns (map_err InvalidGrpcRoute_RouteMatch
         (collect_results (map (match_grpc_try_from (pa_proto pa)) (pgr_matches r))))) (\<lambda>matches.
     bind_both (collect_both (grpc_filter_try_from pa) (pgr_filters r)) (\<lambda>filters.
     Returns (Inr \<lparr> rule_matches = matches,
       rule_policy = \<lparr> rp_meta = meta, rp_authorizations = authorizations, rp_filters = filters \<rparr> \<rparr>)))"

definition grpc_try_route ::
  "('re, 'h, 'pnet, 'net, 'sch, 'dur) policy_api \<Rightarrow> 'net authorization list \<Rightarrow>
     'pnet proto_grpc_route \<Rightarrow> (('re, 'net) grpc_route, invalid_grpc_route) result outcome" where
  "grpc_try_route pa server_authorizations r =
     bind_both (Returns (map_err InvalidGrpcRoute_HostMatch
         (collect_results (map match_host_try_from (pgt_hosts r))))) (\<lambda>hosts.
     bind_both (Returns (map_err InvalidGrpcRoute_Authz
         (mk_authorizations (pa_net_try_from pa) (pgt_authorizations r) server_authorizations))) (\<lambda>authzs.
     bind_both (Returns (map_err InvalidGrpcRoute_Meta
         (bind_result (ok_or InvalidMeta_Missing (pgt_metadata r)) meta_try_from))) (\<lambda>meta.
     bind_both (collect_both (grpc_try_rule pa authzs meta) (pgt_rules r)) (\<lambda>rules.
     Returns (Inr \<lparr> route_hosts = hosts, route_rules = rules \<rparr>)))))"

section \<open>Servers\<close>

datatype invalid_server_error =
    InvalidServer_MissingDetectTimeout
  | InvalidServer_InvalidTimeout string
  | InvalidServer_MissingProxyProtocol
  | InvalidServer_Meta invalid_meta
  | InvalidServer_Authz invalid_authz
  | InvalidServer_GrpcRoute invalid_grpc_route
  | InvalidServer_HttpRoute invalid_http_route

datatype ('pnet, 'sch, 'dur) proto_protocol =
    ProtoProtocol_Detect "'dur option" "('pnet, 'sch) proto_http_route list"
      "proto_local_rate_limit option"
  | ProtoProtocol_Http1 "('pnet, 'sch) proto_http_route list" "proto_local_rate_limit option"
  | ProtoProtocol_Http2 "('pnet, 'sch) proto_http_route list" "proto_local_rate_limit option"
  | ProtoProtocol_Grpc "'pnet proto_grpc_route list"
  | ProtoProtocol_Tls
  | ProtoProtocol_Opaque

record ('pnet, 'sch, 'dur) proto_server =
  psv_protocol :: "('pnet, 'sch, 'dur) proto_protocol option option"
  psv_authorizations :: "'pnet proto_authz list"
  psv_labels :: labels

definition mk_http_routes ::
  "('re, 'h, 'pnet, 'net, 'sch, 'dur) policy_api \<Rightarrow> ('pnet, 'sch) proto_http_route list \<Rightarrow>
     'net authorization list \<Rightarrow> (('re, 'net) http_route list, invalid_http_route) result outcome" where
  "mk_http_routes pa routes server_authzs =
     (if routes = [] then Returns (Inr [http_default server_authzs])
      else collect_both (http_try_route pa server_authzs) routes)"

definition mk_grpc_routes ::
  "('re, 'h, 'pnet, 'net, 'sch, 'dur) policy_api \<Rightarrow> 'pnet proto_grpc_route list \<Rightarrow>
     'net authorization list \<Rightarrow> (('re, 'net) grpc_route list, invalid_grpc_route) result outcome" where
  "mk_grpc_routes pa routes server_authzs =
     (if routes = [] then Returns (Inr [grpc_default server_authzs])
      else collect_both (grpc_try_route pa server_authzs) routes)"

definition localhost_authorization :: "'net ipnet_api \<Rightarrow> 'net authorization" where
  "localhost_authorization napi =
     \<lparr> az_networks = [network_from (net_of_addr napi ipv4_localhost),
                      network_from (net_of_addr napi ipv6_localhost)],
       az_authentication = Unauthenticated, az_meta = Meta_Default ''localhost'' \<rparr>"

definition proto_rate_limit_of :: "('pnet, 'sch, 'dur) proto_protocol \<Rightarrow> proto_local_rate_limit option" where
  "proto_rate_limit_of kind =
     (case kind of
        ProtoProtocol_Detect _ _ l \<Rightarrow>
          Some (case l of Some x \<Rightarrow> x | None \<Rightarrow> default_proto_rate_limit)
      | ProtoProtocol_Http1 _ l \<Rightarrow>
          Some (case l of Some x \<Rightarrow> x | None \<Rightarrow> default_proto_rate_limit)
      | ProtoProtocol_Http2 _ l \<Rightarrow>
          Some (case l of Some x \<Rightarrow> x | None \<Rightarrow> default_proto_rate_limit)
      | _ \<Rightarrow> None)"

definition protocol_try_from ::
  "('re, 'h, 'pnet, 'net, 'sch, 'dur) policy_api \<Rightarrow> 'net authorization list \<Rightarrow>
     ('pnet, 'sch, 'dur) proto_protocol \<Rightarrow> (('re, 'net) protocol, invalid_server_error) result outcome" where
  "protocol_try_from pa authorizations kind =
     (case kind of
        ProtoProtocol_Detect timeout http_routes _ \<Rightarrow>
          bind_both (map_err_both InvalidServer_HttpRoute
              (mk_http_routes pa http_routes authorizations)) (\<lambda>http.
          bind_both (Returns (bind_result (ok_or InvalidServer_MissingDetectTimeout timeout)
              (\<lambda>t. map_err InvalidServer_InvalidTimeout (pa_duration_try_from pa t)))) (\<lambda>t.
          Returns (Inr (Detect http t authorizations))))
      | ProtoProtocol_Http1 routes _ \<Rightarrow>
          bind_both (map_err_both InvalidServer_HttpRoute (mk_http_routes pa routes authorizations))
            (\<lambda>rs. Returns (Inr (Http1 rs)))
      | ProtoProtocol_Http2 routes _ \<Rightarrow>
          bind_both (map_err_both InvalidServer_HttpRoute (mk_http_routes pa routes authorizations))
            (\<lambda>rs. Returns (Inr (Http2 rs)))
      | ProtoProtocol_Grpc routes \<Rightarrow>
          bind_both (map_err_both InvalidServer_GrpcRoute (mk_grpc_routes pa routes authorizations))
            (\<lambda>rs. Returns (Inr (Grpc rs)))
      | ProtoProtocol_Tls \<Rightarrow> Returns (Inr (Tls authorizations))
      | ProtoProtocol_Opaque \<Rightarrow> Returns (Inr (Opaque authorizations)))"

definition server_policy_try_from ::
  "('re, 'h, 'pnet, 'net, 'sch, 'dur) policy_api \<Rightarrow> ('d, 'k) governor_api \<Rightarrow>
     ('pnet, 'sch, 'dur) proto_server \<Rightarrow>
     (('re, 'net, 'd, 'k) server_policy, invalid_server_error) result outcome" where
  "server_policy_try_from pa gov proto =
     bind_both (Returns (ok_or InvalidServer_MissingProxyProtocol
         (Option.bind (psv_protocol proto) (\<lambda>kind. kind)))) (\<lambda>kind.
     bind_both (Returns (case proto_rate_limit_of kind of
           Some l \<Rightarrow> map_err InvalidServer_Meta (local_rate_limit_try_from gov (pa_url_parse pa) l)
         | None \<Rightarrow> Inr default_rate_limit)) (\<lambda>local_rate_limit.
     bind_both (Returns (map_err InvalidServer_Authz
         (mk_authorizations (pa_net_try_from pa) (psv_authorizations proto)
            [localhost_authorization (pa_net pa)]))) (\<lambda>authorizations.
     bind_both (protocol_try_from pa authorizations kind) (\<lambda>protocol.
     bind_both (Returns (map_err InvalidServer_Meta
         (meta_try_new_with_default (psv_labels proto) ''policy.linkerd.io'' ''server''))) (\<lambda>meta.
     Returns (Inr \<lparr> sp_protocol = protocol, sp_meta = meta,
       sp_local_rate_limit = local_rate_limit \<rparr>))))))"

section \<open>Authorizations of an accepted server\<close>

definition route_authorizations ::
  "('m, ('net, 'f) route_policy) route list \<Rightarrow> 'net authorization list list" where
  "route_authorizations rts =
     concat (map (\<lambda>rt. map (\<lambda>rl. rp_authorizations (rule_policy rl)) (route_rules rt)) rts)"

text \<open>The lists of authorizations by which a policy decides on a connection or a request.\<close>

fun protocol_authorizations :: "('re, 'net) protocol \<Rightarrow> 'net authorization list list" where
  "protocol_authorizations (Detect http _ tcp) = tcp # route_authorizations http"
| "protocol_authorizations (Http1 rts) = route_authorizations rts"
| "protocol_authorizations (Http2 rts) = route_authorizations rts"
| "protocol_authorizations (Grpc rts) = route_authorizations rts"
| "protocol_authorizations (Tls azs) = [azs]"
| "protocol_authorizations (Opaque azs) = [azs]"

lemma mk_authorizations_parents:
  assumes "mk_authorizations conv azs parents = Inr zs"
  shows "set parents \<subseteq> set zs"
proof
  fix a
  assume "a \<in> set parents"
  then have "Inr a \<in> set (map (authorization_try_from conv) azs @ map Inr parents)" by simp
  also have "map (authorization_try_from conv) azs @ map Inr parents = map Inr zs"
    using assms unfolding mk_authorizations_def collect_results_Inr_iff .
  finally show "a \<in> set zs" by auto
qed

lemma http_try_route_authorizations:
  assumes "http_try_route pa azs r = Returns (Inr rt)" and "rl \<in> set (route_rules rt)"
  shows "set azs \<subseteq> set (rp_authorizations (rule_policy rl))"
proof -
  from assms(1) obtain as meta where
    "mk_authorizations (pa_net_try_from pa) (pht_authorizations r) azs = Inr as"
    and rules: "collect_both (http_try_rule pa as meta) (pht_rules r) = Returns (Inr (route_rules rt))"
    by (auto simp: http_try_route_def bind_both_Ok_iff)
  from this(1) have "set azs \<subseteq> set as" by (rule mk_authorizations_parents)
  moreover from collect_both_in [OF rules assms(2)] have "rp_authorizations (rule_policy rl) = as"
    by (auto simp: http_try_rule_def bind_both_Ok_iff)
  ultimately show ?thesis by simp
qed

lemma grpc_try_route_authorizations:
  assumes "grpc_try_route pa azs r = Returns (Inr rt)" and "rl \<in> set (route_rules rt)"
  shows "set azs \<subseteq> set (rp_authorizations (rule_policy rl))"
proof -
  from assms(1) obtain as meta where
    "mk_authorizations (pa_net_try_from pa) (pgt_authorizations r) azs = Inr as"
    and rules: "collect_both (grpc_try_rule pa as meta) (pgt_rules r) = Returns (Inr (route_rules rt))"
    by (auto simp: grpc_try_route_def bind_both_Ok_iff)
  from this(1) have "set azs \<subseteq> set as" by (rule mk_authorizations_parents)
  moreover from collect_both_in [OF rules assms(2)] have "rp_authorizations (rule_policy rl) = as"
    by (auto simp: grpc_try_rule_def bind_both_Ok_iff)
  ultimately show ?thesis by simp
qed

lemma mk_http_routes_authorizations:
  assumes "mk_http_routes pa rs azs = Returns (Inr rts)" and "as \<in> set (route_authorizations rts)"
  shows "set azs \<subseteq> set as"
proof (cases "rs = []")
  case True
  with assms show ?thesis
    by (auto simp: mk_http_routes_def http_default_def route_authorizations_def)
next
  case False
  with assms(1) have c: "collect_both (http_try_route pa azs) rs = Returns (Inr rts)"
    by (simp add: mk_http_routes_def)
  from assms(2) obtain rt rl where "rt \<in> set rts" "rl \<in> set (route_rules rt)"
    and as: "as = rp_authorizations (rule_policy rl)"
    by (auto simp: route_authorizations_def)
  with collect_both_in [OF c] http_try_route_authorizations show ?thesis by blast
qed

lemma mk_grpc_routes_authorizations:
  assumes "mk_grpc_routes pa rs azs = Returns (Inr rts)" and "as \<in> set (route_authorizations rts)"
  shows "set azs \<subseteq> set as"
proof (cases "rs = []")
  case True
  with assms show ?thesis
    by (auto simp: mk_grpc_routes_def grpc_default_def route_authorizations_def)
next
  case False
  with assms(1) have c: "collect_both (grpc_try_route pa azs) rs = Returns (Inr rts)"
    by (simp add: mk_grpc_routes_def)
  from assms(2) obtain rt rl where "rt \<in> set rts" "rl \<in> set (route_rules rt)"
    and as: "as = rp_authorizations (rule_policy rl)"
    by (auto simp: route_authorizations_def)
  with collect_both_in [OF c] grpc_try_route_authorizations show ?thesis by blast
qed

lemma protocol_try_from_authorizations:
  assumes "protocol_try_from pa azs kind = Returns (Inr p)" and "as \<in> set (protocol_authorizations p)"
  shows "set azs \<subseteq> set as"
  using assms
  by (cases kind)
    (auto simp: protocol_try_from_def bind_both_Ok_iff
      dest: mk_http_routes_authorizations mk_grpc_routes_authorizations)

lemma server_policy_try_from_localhost:
  assumes "server_policy_try_from pa gov proto = Returns (Inr sp)"
    and "as \<in> set (protocol_authorizations (sp_protocol sp))"
  shows "localhost_authorization (pa_net pa) \<in> set as"
proof -
  from assms(1) obtain kind azs where
    azs: "mk_authorizations (pa_net_try_from pa) (psv_authorizations proto)
      [localhost_authorization (pa_net pa)] = Inr azs"
    and p: "protocol_try_from pa azs kind = Returns (Inr (sp_protocol sp))"
    by (auto simp: server_policy_try_from_def bind_both_Ok_iff)
  from mk_authorizations_parents [OF azs] protocol_try_from_authorizations [OF p assms(2)]
  show ?thesis by auto
qed

section \<open>Rate limits of an accepted server\<close>

lemma override_limits_rps:
  "lim \<in> set (map fst (override_limits gov ovrs)) \<Longrightarrow> 0 < rl_rps lim"
  by (auto simp: override_limits_def set_map_filter_iff non_zero_def bind_eq_Some_conv
      split: if_splits)

lemma override_pairs_range:
  "(i, n) \<in> set (override_pairs url_parse lims) \<Longrightarrow> n < length lims"
  by (auto simp: override_pairs_def in_set_enumerate_eq)

text \<open>A rate limit accepted from the controller is well formed: its rates are nonzero, a rate
  of zero is no limit at all, and every identity's override is in the table of
  limiters.\<close>

theorem local_rate_limit_try_from_wf:
  assumes "local_rate_limit_try_from gov url_parse p = Inr l"
  shows "overrides_wf l
    \<and> (\<forall>lim\<in>set (lrl_override_limits l). 0 < rl_rps lim)
    \<and> (lrl_total l = None \<longleftrightarrow> plrl_total p = None \<or> plrl_total p = Some 0)
    \<and> (\<forall>lim. lrl_total l = Some lim \<longrightarrow> plrl_total p = Some (rl_rps lim) \<and> 0 < rl_rps lim)
    \<and> (\<forall>lim. lrl_per_identity l = Some lim \<longrightarrow> plrl_identity p = Some (rl_rps lim) \<and> 0 < rl_rps lim)"
proof -
  let ?lims = "override_limits gov (plrl_overrides p)"
  from assms have l: "lrl_overrides l = map_of (rev (override_pairs url_parse ?lims))"
    "lrl_override_limits l = map fst ?lims"
    "lrl_total l = map_option (\<lambda>rps. \<lparr> rl_rps = rps, rl_limiter = gov_direct gov rps \<rparr>)
       (Option.bind (plrl_total p) non_zero)"
    "lrl_per_identity l = map_option (\<lambda>rps. \<lparr> rl_rps = rps, rl_limiter = gov_keyed gov rps \<rparr>)
       (Option.bind (plrl_identity p) non_zero)"
    by (auto simp: local_rate_limit_try_from_def bind_result_Inr_iff Let_def)
  have "overrides_wf l"
    by (auto simp: overrides_wf_def l dest!: map_of_SomeD override_pairs_range)
  moreover have "\<forall>lim\<in>set (lrl_override_limits l). 0 < rl_rps lim"
    using override_limits_rps by (auto simp: l)
  ultimately show ?thesis
    by (cases "plrl_total p"; cases "plrl_identity p") (auto simp: l(3,4) non_zero_def)
qed

theorem local_rate_limit_try_from_wf_witness:
  "\<exists>l. local_rate_limit_try_from counting_api (\<lambda>_. None)
      \<lparr> plrl_metadata = None, plrl_total = Some 5, plrl_identity = Some 0,
        plrl_overrides = [\<lparr> pov_limit = Some 2, pov_clients = Some [''a'', ''b''] \<rparr>] \<rparr> = Inr l
    \<and> overrides_wf l \<and> lrl_overrides l (Id_Dns ''b'') = Some 0 \<and> lrl_per_identity l = None"
proof -
  let ?p = "\<lparr> plrl_metadata = None, plrl_total = Some 5, plrl_identity = Some 0,
        plrl_overrides = [\<lparr> pov_limit = Some 2, pov_clients = Some [''a'', ''b''] \<rparr>] \<rparr>"
  obtain l where l: "local_rate_limit_try_from counting_api (\<lambda>_. None) ?p = Inr l"
    by (auto simp: local_rate_limit_try_from_def transpose_opt_def Let_def)
  moreover have "lrl_overrides (projr (local_rate_limit_try_from counting_api (\<lambda>_. None) ?p)) (Id_Dns ''b'')
      = Some 0 \<and> lrl_per_identity (projr (local_rate_limit_try_from counting_api (\<lambda>_. None) ?p)) = None"
    by code_simp
  ultimately show ?thesis using local_rate_limit_try_from_wf [OF l] by auto
qed

end
