(* ===== verification/Inbound_Policy.thy ===== *)
theory Inbound_Policy
  imports Server_Policy_Proto
begin

text \<open>
  The enforcement of server policies on inbound traffic, \<open>linkerd/app/inbound/src/policy\<close>:
  the decision on one authorization and the connection-level check of the fused path
  (\<open>policy.rs\<close>), the TCP middleware (\<open>tcp.rs\<close>), the HTTP middleware (\<open>http.rs\<close>), the default
  policies (\<open>defaults.rs\<close>) and the store of policies by port (\<open>store.rs\<close>).

  Counters are modelled by the sequence of increments (\<open>authz_metric\<close>); log events are
  left out. A call of the HTTP middleware reads one value of the policy's watch.
\<close>

section \<open>Authorizations\<close>

fun is_tls_authorized :: "conditional_server_tls \<Rightarrow> authentication \<Rightarrow> bool" where
  "is_tls_authorized tls Unauthenticated = True"
| "is_tls_authorized tls TlsUnauthenticated =
     (case tls of Conditional_Some (Tls_Established _ _) \<Rightarrow> True | _ \<Rightarrow> False)"
| "is_tls_authorized tls (TlsAuthenticated identities sfxs) =
     (case tls of
        Conditional_Some (Tls_Established (Some i) _) \<Rightarrow>
          (case i of
             Id_Uri _ \<Rightarrow> id_to_str i \<in> identities
           | Id_Dns _ \<Rightarrow>
               id_to_str i \<in> identities \<or> list_ex (\<lambda>s. suffix_contains s (id_to_str i)) sfxs)
      | _ \<Rightarrow> False)"

record connection =
  cn_dst :: "ip_addr \<times> nat"
  cn_client :: "ip_addr \<times> nat"
  cn_tls :: conditional_server_tls

definition is_authorized :: "'net ipnet_api \<Rightarrow> 'net authorization \<Rightarrow> connection \<Rightarrow> bool" where
  "is_authorized napi authz cn =
     (if \<not> list_ex (\<lambda>n. network_contains napi n (fst (cn_client cn))) (az_networks authz) then False
      else is_tls_authorized (cn_tls cn) (az_authentication authz))"

section \<open>Connections\<close>

record ('re, 'net) server_permit =
  spm_dst :: "ip_addr \<times> nat"
  spm_protocol :: "('re, 'net) protocol"
  spm_authz :: meta
  spm_server :: "meta \<times> nat"

definition server_permit_new ::
  "ip_addr \<times> nat \<Rightarrow> ('re, 'net, 'd, 'k) server_policy \<Rightarrow> 'net authorization \<Rightarrow> ('re, 'net) server_permit"
  where
  "server_permit_new dst server authz =
     \<lparr> spm_dst = dst, spm_protocol = sp_protocol server, spm_authz = az_meta authz,
       spm_server = (sp_meta server, snd dst) \<rparr>"

text \<open>The error \<open>ServerUnauthorized\<close> holds the metadata of the server.\<close>

definition check_authorized ::
  "'net ipnet_api \<Rightarrow> ('re, 'net, 'd, 'k) server_policy \<Rightarrow> connection \<Rightarrow>
     (('re, 'net) server_permit, meta) result" where
  "check_authorized napi server cn =
     (case (case sp_protocol server of
              Detect _ _ authzs \<Rightarrow> List.find (\<lambda>a. is_authorized napi a cn) authzs
            | Tls authzs \<Rightarrow> List.find (\<lambda>a. is_authorized napi a cn) authzs
            | Opaque authzs \<Rightarrow> List.find (\<lambda>a. is_authorized napi a cn) authzs
            | _ \<Rightarrow> None) of
        Some authz \<Rightarrow> Inr (server_permit_new (cn_dst cn) server authz)
      | None \<Rightarrow> Inl (sp_meta server))"

definition dmesh_connection_authorized ::
  "'net ipnet_api \<Rightarrow> ('re, 'net, 'd, 'k) server_policy \<Rightarrow> connection \<Rightarrow> bool" where
  "dmesh_connection_authorized napi server cn =
     (let any = list_ex (\<lambda>a. is_authorized napi a cn)
      in case sp_protocol server of
           Detect _ _ tcp_authorizations \<Rightarrow> any tcp_authorizations
         | Opaque authzs \<Rightarrow> any authzs
         | Tls authzs \<Rightarrow> any authzs
         | Http1 routes \<Rightarrow>
             list_ex (\<lambda>rl. any (rp_authorizations (rule_policy rl))) (concat (map route_rules routes))
         | Http2 routes \<Rightarrow>
             list_ex (\<lambda>rl. any (rp_authorizations (rule_policy rl))) (concat (map route_rules routes))
         | Grpc routes \<Rightarrow>
             list_ex (\<lambda>rl. any (rp_authorizations (rule_policy rl))) (concat (map route_rules routes)))"

datatype ('re, 'net) tcp_metric =
    TcpMetric_Allow "('re, 'net) server_permit"
  | TcpMetric_Deny meta
  | TcpMetric_Terminate meta

text \<open>The middleware of a connection: authorized, with the policy that admitted it, or refused.\<close>

datatype 'p tcp_policy = TcpPolicy_Authorized 'p | TcpPolicy_Unauthorized meta

definition tcp_new_service ::
  "'net ipnet_api \<Rightarrow> ('re, 'net, 'd, 'k) server_policy \<Rightarrow> connection \<Rightarrow>
     ('re, 'net) server_permit tcp_policy \<times> ('re, 'net) tcp_metric list" where
  "tcp_new_service napi server cn =
     (case check_authorized napi server cn of
        Inr permit \<Rightarrow> (TcpPolicy_Authorized permit, [TcpMetric_Allow permit])
      | Inl deny \<Rightarrow> (TcpPolicy_Unauthorized deny, [TcpMetric_Deny (sp_meta server)]))"

definition tcp_poll_ready ::
  "(unit, 'e) result poll \<Rightarrow> ('e \<Rightarrow> 'err) \<Rightarrow> (meta \<Rightarrow> 'err) \<Rightarrow> 'p tcp_policy \<Rightarrow> (unit, 'err) result poll"
  where
  "tcp_poll_ready inner into denied s =
     (case s of
        TcpPolicy_Authorized _ \<Rightarrow>
          (case inner of Pending \<Rightarrow> Pending | Ready r \<Rightarrow> Ready (map_err into r))
      | TcpPolicy_Unauthorized deny \<Rightarrow> Ready (Inl (denied deny)))"

text \<open>What the future of an admitted connection waits for: the end of the inner future, and
  changes of the policy. When the sender of the watch is dropped there are no more changes.\<close>

datatype ('p, 'e) tcp_event = TcpEvent_Inner "(unit, 'e) result" | TcpEvent_Changed 'p

datatype 'e tcp_result = TcpResult_Running | TcpResult_Inner "(unit, 'e) result" | TcpResult_Denied meta

fun tcp_session ::
  "'net ipnet_api \<Rightarrow> connection \<Rightarrow> (('re, 'net, 'd, 'k) server_policy, 'e) tcp_event list \<Rightarrow>
     'e tcp_result \<times> ('re, 'net) tcp_metric list" where
  "tcp_session napi cn [] = (TcpResult_Running, [])"
| "tcp_session napi cn (TcpEvent_Inner r # es) = (TcpResult_Inner r, [])"
| "tcp_session napi cn (TcpEvent_Changed p # es) =
     (case check_authorized napi p cn of
        Inl denied \<Rightarrow> (TcpResult_Denied denied, [TcpMetric_Terminate (sp_meta p)])
      | Inr _ \<Rightarrow> tcp_session napi cn es)"

definition tcp_call ::
  "'net ipnet_api \<Rightarrow> connection \<Rightarrow> 'p tcp_policy \<Rightarrow>
     (('re, 'net, 'd, 'k) server_policy, 'e) tcp_event list \<Rightarrow>
     ('e tcp_result \<times> ('re, 'net) tcp_metric list) outcome" where
  "tcp_call napi cn s es =
     (case s of
        TcpPolicy_Authorized _ \<Rightarrow> Returns (tcp_session napi cn es)
      | TcpPolicy_Unauthorized _ \<Rightarrow> Panics ''poll_ready must be called'')"

section \<open>Requests\<close>

datatype ('re, 'net) routes =
    Routes_Http "('re, 'net) http_route list"
  | Routes_Grpc "('re, 'net) grpc_route list"

definition policy_routes :: "('re, 'net, 'd, 'k) server_policy \<Rightarrow> ('re, 'net) routes option" where
  "policy_routes server =
     (case sp_protocol server of
        Detect http _ _ \<Rightarrow> Some (Routes_Http http)
      | Http1 http \<Rightarrow> Some (Routes_Http http)
      | Http2 http \<Rightarrow> Some (Routes_Http http)
      | Grpc grpc \<Rightarrow> Some (Routes_Grpc grpc)
      | _ \<Rightarrow> None)"

record http_route_permit =
  hrp_dst :: "ip_addr \<times> nat"
  hrp_server :: "meta \<times> nat"
  hrp_route :: meta
  hrp_authz :: meta

datatype permit_variant = PermitVariant_Grpc | PermitVariant_Http

datatype http_policy_error =
    HttpRouteNotFound
  | HttpRouteUnauthorized
  | HttpRouteInjectedFailure nat string
  | GrpcRouteInjectedFailure nat string
  | HttpRouteRedirect nat uri
  | HttpRouteInvalidRedirect invalid_redirect
  | HttpInvalidPolicy string
  | HttpRateLimited rate_limit_error

datatype http_metric =
    HttpMetric_Allow http_route_permit
  | HttpMetric_Deny "meta \<times> nat" meta
  | HttpMetric_RouteNotFound "meta \<times> nat"
  | HttpMetric_RateLimit "meta \<times> nat" "meta option" string

definition server_label :: "('re, 'net, 'd, 'k) server_policy \<Rightarrow> connection \<Rightarrow> meta \<times> nat" where
  "server_label server cn = (sp_meta server, snd (cn_dst cn))"

fun rate_limit_scope :: "rate_limit_error \<Rightarrow> string" where
  "rate_limit_scope (RateLimitError_Total _) = ''total''"
| "rate_limit_scope (RateLimitError_PerIdentity _) = ''identity''"
| "rate_limit_scope (RateLimitError_Override _) = ''identity''"

definition http_authorize ::
  "'net ipnet_api \<Rightarrow> ('m, 'h, 's) match_trait \<Rightarrow> ('re, 'net, 'd, 'k) server_policy \<Rightarrow> connection \<Rightarrow>
     ('m, ('net, 'f) route_policy) route list \<Rightarrow> 'h request \<Rightarrow>
     (http_route_permit \<times> 's route_match \<times> ('net, 'f) route_policy, http_policy_error) result
       \<times> http_metric list" where
  "http_authorize napi mt server cn rts req =
     (case find mt rts req of
        None \<Rightarrow> (Inl HttpRouteNotFound, [HttpMetric_RouteNotFound (server_label server cn)])
      | Some (m, route) \<Rightarrow>
          (case List.find (\<lambda>a. is_authorized napi a cn) (rp_authorizations route) of
             None \<Rightarrow>
               (Inl HttpRouteUnauthorized, [HttpMetric_Deny (server_label server cn) (rp_meta route)])
           | Some authz \<Rightarrow>
               (let permit = \<lparr> hrp_dst = cn_dst cn, hrp_server = server_label server cn,
                     hrp_route = rp_meta route, hrp_authz = az_meta authz \<rparr>
                in (Inr (permit, m, route), [HttpMetric_Allow permit]))))"

fun apply_http_filters ::
  "('re, 'h) http_api \<Rightarrow> (distribution \<Rightarrow> 'g \<Rightarrow> bool \<times> 'g) \<Rightarrow> request_match route_match \<Rightarrow>
     http_filter list \<Rightarrow> 'h request \<Rightarrow> 'g \<Rightarrow> (('h request, http_policy_error) result \<times> 'g) outcome" where
  "apply_http_filters api sample m [] req g = Returns (Inr req, g)"
| "apply_http_filters api sample m (HttpFilter_InjectFailure fail # fs) req g =
     (case inject_failure_apply sample fail g of
        (Some rsp, g') \<Rightarrow>
          Returns (Inl (HttpRouteInjectedFailure (fr_status rsp) (fr_message rsp)), g')
      | (None, g') \<Rightarrow> apply_http_filters api sample m fs req g')"
| "apply_http_filters api sample m (HttpFilter_Redirect redir # fs) req g =
     bind_outcome (redirect_apply api redir (req_uri req) m) (\<lambda>r. case r of
        Inr (Some rd) \<Rightarrow> Returns (Inl (HttpRouteRedirect (rd_status rd) (rd_location rd)), g)
      | Inl invalid \<Rightarrow> Returns (Inl (HttpRouteInvalidRedirect invalid), g)
      | Inr None \<Rightarrow> apply_http_filters api sample m fs req g)"
| "apply_http_filters api sample m (HttpFilter_RequestHeaders rh # fs) req g =
     apply_http_filters api sample m fs
       (req\<lparr> req_headers := modify_header_apply api rh (req_headers req) \<rparr>) g"
| "apply_http_filters api sample m (HttpFilter_InternalError msg # fs) req g =
     Returns (Inl (HttpInvalidPolicy msg), g)"

fun apply_grpc_filters ::
  "('re, 'h) http_api \<Rightarrow> (distribution \<Rightarrow> 'g \<Rightarrow> bool \<times> 'g) \<Rightarrow> grpc_filter list \<Rightarrow> 'h request \<Rightarrow> 'g \<Rightarrow>
     ('h request, http_policy_error) result \<times> 'g" where
  "apply_grpc_filters api sample [] req g = (Inr req, g)"
| "apply_grpc_filters api sample (GrpcFilter_InjectFailure fail # fs) req g =
     (case inject_failure_apply sample fail g of
        (Some rsp, g') \<Rightarrow> (Inl (GrpcRouteInjectedFailure (gfr_code rsp) (gfr_message rsp)), g')
      | (None, g') \<Rightarrow> apply_grpc_filters api sample fs req g')"
| "apply_grpc_filters api sample (GrpcFilter_RequestHeaders rh # fs) req g =
     apply_grpc_filters api sample fs
       (req\<lparr> req_headers := modify_header_apply api rh (req_headers req) \<rparr>) g"
| "apply_grpc_filters api sample (GrpcFilter_InternalError msg # fs) req g =
     (Inl (HttpInvalidPolicy msg), g)"

definition http_check_rate_limit ::
  "('d, 'k) governor_api \<Rightarrow> ('re, 'net, 'd, 'k) server_policy \<Rightarrow> connection \<Rightarrow>
     (unit, http_policy_error) result \<times> ('re, 'net, 'd, 'k) server_policy \<times> http_metric list" where
  "http_check_rate_limit gov server cn =
     (case rate_limit_check gov (client_id (cn_tls cn)) (sp_local_rate_limit server) of
        (r, l) \<Rightarrow>
          (map_err HttpRateLimited r, server\<lparr> sp_local_rate_limit := l \<rparr>,
           (case r of
              Inr _ \<Rightarrow> []
            | Inl e \<Rightarrow> [HttpMetric_RateLimit (server_label server cn) (lrl_meta (sp_local_rate_limit server))
                (rate_limit_scope e)])))"

text \<open>A call of the middleware: either an error, or the request is handed to the inner
  service with the permit. The policy's limiters, the random generator and the counters change
  on the way.\<close>

record ('re, 'net, 'd, 'k, 'g) http_state =
  hs_policy :: "('re, 'net, 'd, 'k) server_policy"
  hs_rng :: 'g
  hs_metrics :: "http_metric list"

datatype 'h forwarded = Forwarded http_route_permit permit_variant "'h request"

definition http_finish ::
  "('d, 'k) governor_api \<Rightarrow> connection \<Rightarrow> http_route_permit \<Rightarrow> permit_variant \<Rightarrow> 'h request \<Rightarrow>
     ('re, 'net, 'd, 'k, 'g) http_state \<Rightarrow>
     ('h forwarded, http_policy_error) result \<times> ('re, 'net, 'd, 'k, 'g) http_state" where
  "http_finish gov cn permit variant req st =
     (case http_check_rate_limit gov (hs_policy st) cn of
        (r, server, ms) \<Rightarrow>
          (map_sum (\<lambda>e. e) (\<lambda>_. Forwarded permit variant req) r,
           st\<lparr> hs_policy := server, hs_metrics := hs_metrics st @ ms \<rparr>))"

definition http_policy_call ::
  "('re, 'h) http_api \<Rightarrow> 'net ipnet_api \<Rightarrow> ('d, 'k) governor_api \<Rightarrow>
     (distribution \<Rightarrow> 'g \<Rightarrow> bool \<times> 'g) \<Rightarrow> connection \<Rightarrow> 'h request \<Rightarrow>
     ('re, 'net, 'd, 'k, 'g) http_state \<Rightarrow>
     (('h forwarded, http_policy_error) result \<times> ('re, 'net, 'd, 'k, 'g) http_state) outcome" where
  "http_policy_call api napi gov sample cn req st =
     (case policy_routes (hs_policy st) of
        None \<Rightarrow>
          Returns (Inl HttpRouteNotFound,
            st\<lparr> hs_metrics := hs_metrics st @ [HttpMetric_RouteNotFound (server_label (hs_policy st) cn)] \<rparr>)
      | Some (Routes_Http rts) \<Rightarrow>
          (case http_authorize napi (http_match_trait api) (hs_policy st) cn rts req of
             (Inl e, ms) \<Rightarrow> Returns (Inl e, st\<lparr> hs_metrics := hs_metrics st @ ms \<rparr>)
           | (Inr (permit, m, route), ms) \<Rightarrow>
               bind_outcome (apply_http_filters api sample m (rp_filters route) req (hs_rng st))
                 (\<lambda>(r, g). let st' = st\<lparr> hs_metrics := hs_metrics st @ ms, hs_rng := g \<rparr>
                   in Returns (case r of
                        Inl e \<Rightarrow> (Inl e, st')
                      | Inr req' \<Rightarrow> http_finish gov cn permit PermitVariant_Http req' st')))
      | Some (Routes_Grpc rts) \<Rightarrow>
          (case http_authorize napi (grpc_match_trait api) (hs_policy st) cn rts req of
             (Inl e, ms) \<Rightarrow> Returns (Inl e, st\<lparr> hs_metrics := hs_metrics st @ ms \<rparr>)
           | (Inr (permit, m, route), ms) \<Rightarrow>
               (case apply_grpc_filters api sample (rp_filters route) req (hs_rng st) of
                  (r, g) \<Rightarrow>
                    (let st' = st\<lparr> hs_metrics := hs_metrics st @ ms, hs_rng := g \<rparr>
                     in Returns (case r of
                          Inl e \<Rightarrow> (Inl e, st')
                        | Inr req' \<Rightarrow> http_finish gov cn permit PermitVariant_Grpc req' st')))))"

section \<open>Default policies\<close>

definition all_nets :: "'net ipnet_api \<Rightarrow> 'net list" where
  "all_nets napi = [net_all_v4 napi, net_all_v6 napi]"

definition authenticated :: authentication where
  "authenticated = TlsAuthenticated {} [suffix_from []]"

definition mk_default ::
  "string \<Rightarrow> 'net list \<Rightarrow> authentication \<Rightarrow> duration \<Rightarrow> ('re, 'net, 'd, 'k) server_policy" where
  "mk_default name nets authn timeout =
     (let authorizations = [\<lparr> az_networks = map network_from nets, az_authentication = authn,
            az_meta = Meta_Default name \<rparr>]
      in \<lparr> sp_protocol = Detect [http_default authorizations] timeout authorizations,
           sp_meta = Meta_Default name, sp_local_rate_limit = default_rate_limit \<rparr>)"

definition all_authenticated :: "'net ipnet_api \<Rightarrow> duration \<Rightarrow> ('re, 'net, 'd, 'k) server_policy" where
  "all_authenticated napi timeout = mk_default ''all-authenticated'' (all_nets napi) authenticated timeout"

definition all_unauthenticated :: "'net ipnet_api \<Rightarrow> duration \<Rightarrow> ('re, 'net, 'd, 'k) server_policy" where
  "all_unauthenticated napi timeout =
     mk_default ''all-unauthenticated'' (all_nets napi) Unauthenticated timeout"

definition cluster_authenticated :: "'net list \<Rightarrow> duration \<Rightarrow> ('re, 'net, 'd, 'k) server_policy" where
  "cluster_authenticated nets timeout = mk_default ''cluster-authenticated'' nets authenticated timeout"

definition cluster_unauthenticated :: "'net list \<Rightarrow> duration \<Rightarrow> ('re, 'net, 'd, 'k) server_policy" where
  "cluster_unauthenticated nets timeout =
     mk_default ''cluster-unauthenticated'' nets Unauthenticated timeout"

definition audit_policy :: "'net ipnet_api \<Rightarrow> duration \<Rightarrow> ('re, 'net, 'd, 'k) server_policy" where
  "audit_policy napi timeout = mk_default ''audit'' (all_nets napi) Unauthenticated timeout"

definition all_mtls_unauthenticated ::
  "'net ipnet_api \<Rightarrow> duration \<Rightarrow> ('re, 'net, 'd, 'k) server_policy" where
  "all_mtls_unauthenticated napi timeout =
     mk_default ''all-tls-unauthenticated'' (all_nets napi) TlsUnauthenticated timeout"

datatype 'p default_policy = DefaultPolicy_Allow 'p | DefaultPolicy_Deny

fun default_server_policy ::
  "('re, 'net, 'd, 'k) server_policy default_policy \<Rightarrow> ('re, 'net, 'd, 'k) server_policy" where
  "default_server_policy (DefaultPolicy_Allow p) = p"
| "default_server_policy DefaultPolicy_Deny =
     \<lparr> sp_protocol = Opaque [], sp_meta = Meta_Default ''deny'',
       sp_local_rate_limit = default_rate_limit \<rparr>"

section \<open>The store\<close>

definition make_opaque ::
  "('re, 'net, 'd, 'k) server_policy default_policy \<Rightarrow>
     ('re, 'net, 'd, 'k) server_policy default_policy outcome" where
  "make_opaque d =
     (case d of
        DefaultPolicy_Allow policy \<Rightarrow>
          (case sp_protocol policy of
             Detect _ _ tcp_authorizations \<Rightarrow>
               Returns (DefaultPolicy_Allow (policy\<lparr> sp_protocol := Opaque tcp_authorizations \<rparr>))
           | Opaque authzs \<Rightarrow> Returns (DefaultPolicy_Allow (policy\<lparr> sp_protocol := Opaque authzs \<rparr>))
           | _ \<Rightarrow> Panics ''default policy must have been configured to detect prior to marking it opaque'')
      | DefaultPolicy_Deny \<Rightarrow> Returns DefaultPolicy_Deny)"

text \<open>A set of ports is a list of inclusive ranges. A cached watch is the value it holds: the
  initial policy, until the controller's updates replace it. Whether a discovery API is
  configured is all that \<open>get_policy\<close> asks of it.\<close>

definition ports_contains :: "(nat \<times> nat) list \<Rightarrow> nat \<Rightarrow> bool" where
  "ports_contains ranges port = list_ex (\<lambda>(lo, hi). lo \<le> port \<and> port \<le> hi) ranges"

record 'p store =
  st_cache :: "nat \<Rightarrow> 'p option"
  st_default :: 'p
  st_opaque_ports :: "(nat \<times> nat) list"
  st_opaque_default :: 'p
  st_discover :: bool

definition spawn_fixed ::
  "('re, 'net, 'd, 'k) server_policy default_policy \<Rightarrow>
     (nat \<times> ('re, 'net, 'd, 'k) server_policy) list \<Rightarrow> (nat \<times> nat) list \<Rightarrow>
     ('re, 'net, 'd, 'k) server_policy store outcome" where
  "spawn_fixed d ports opaque_ports =
     bind_outcome (make_opaque d) (\<lambda>od.
     let opaque_default = default_server_policy od;
         opaque_rxs = concat (map (\<lambda>(lo, hi). map (\<lambda>p. (p, opaque_default)) [lo..<Suc hi]) opaque_ports)
     in Returns \<lparr> st_cache = map_of (rev (opaque_rxs @ ports)), st_default = default_server_policy d,
          st_opaque_ports = opaque_ports, st_opaque_default = opaque_default, st_discover = False \<rparr>)"

definition spawn_discover ::
  "('re, 'net, 'd, 'k) server_policy default_policy \<Rightarrow> nat list \<Rightarrow> (nat \<times> nat) list \<Rightarrow>
     ('re, 'net, 'd, 'k) server_policy store outcome" where
  "spawn_discover d ports opaque_ports =
     bind_outcome (make_opaque d) (\<lambda>od.
     let init = (\<lambda>port. default_server_policy (if ports_contains opaque_ports port then od else d))
     in Returns \<lparr> st_cache = map_of (rev (map (\<lambda>p. (p, init p)) ports)),
          st_default = default_server_policy d, st_opaque_ports = opaque_ports,
          st_opaque_default = default_server_policy od, st_discover = True \<rparr>)"

definition get_policy :: "nat \<Rightarrow> 'p store \<Rightarrow> 'p \<times> 'p store" where
  "get_policy port s =
     (case st_cache s port of
        Some p \<Rightarrow> (p, s)
      | None \<Rightarrow>
          (let p = (if st_discover s
                    then (if ports_contains (st_opaque_ports s) port then st_opaque_default s
                          else st_default s)
                    else st_default s)
           in (p, s\<lparr> st_cache := (st_cache s)(port := Some p) \<rparr>)))"

section \<open>Admission of requests\<close>

lemma list_find_None: "List.find P xs = None \<longleftrightarrow> \<not> list_ex P xs"
  by (induction xs) auto

lemma list_find_Some: "List.find P xs = Some x \<Longrightarrow> x \<in> set xs \<and> P x"
  by (induction xs) (auto split: if_splits)

lemma http_authorize_Ok_iff:
  "fst (http_authorize napi mt server cn rts req) = Inr (permit, m, route) \<longleftrightarrow>
     find mt rts req = Some (m, route) \<and>
     (\<exists>a. List.find (\<lambda>a. is_authorized napi a cn) (rp_authorizations route) = Some a \<and>
        permit = \<lparr> hrp_dst = cn_dst cn, hrp_server = server_label server cn,
          hrp_route = rp_meta route, hrp_authz = az_meta a \<rparr>)"
  by (auto simp: http_authorize_def Let_def split: option.splits)

lemma http_authorize_Err_iff:
  "fst (http_authorize napi mt server cn rts req) = Inl e \<longleftrightarrow>
     (find mt rts req = None \<and> e = HttpRouteNotFound) \<or>
     (\<exists>m route. find mt rts req = Some (m, route) \<and> e = HttpRouteUnauthorized \<and>
        \<not> list_ex (\<lambda>a. is_authorized napi a cn) (rp_authorizations route))"
  unfolding list_find_None [symmetric]
  by (auto simp: http_authorize_def Let_def split: option.splits)

lemma http_finish_Ok_iff:
  "http_finish gov cn permit variant req st = (Inr f, st') \<longleftrightarrow>
     f = Forwarded permit variant req \<and>
     is_ok (fst (rate_limit_check gov (client_id (cn_tls cn)) (sp_local_rate_limit (hs_policy st)))) \<and>
     st' = snd (http_finish gov cn permit variant req st)"
  by (cases "rate_limit_check gov (client_id (cn_tls cn)) (sp_local_rate_limit (hs_policy st))")
    (auto simp: http_finish_def http_check_rate_limit_def split: sum.splits elim: is_ok.elims)

lemma http_finish_Err:
  "http_finish gov cn permit variant req st = (Inl e, st') \<Longrightarrow> \<exists>l. e = HttpRateLimited l"
  by (cases "rate_limit_check gov (client_id (cn_tls cn)) (sp_local_rate_limit (hs_policy st))")
    (auto simp: http_finish_def http_check_rate_limit_def map_err_def split: sum.splits)

lemma found_route_authorizations:
  assumes "find mt rts req = Some (m, route)"
  shows "rp_authorizations route \<in> set (route_authorizations rts)"
proof -
  from assms obtain rt rl where rt: "rt \<in> set rts" and rl: "rl \<in> set (route_rules rt)"
    and fr: "find_rule mt req rl = Some (rtm_route m, route)"
    by (rule find_SomeE)
  from fr have "route = rule_policy rl" by (cases rule: find_rule_SomeE) simp_all
  with rt rl show ?thesis by (auto simp: route_authorizations_def)
qed

lemma policy_routes_authorizations:
  "policy_routes server = Some (Routes_Http rts) \<Longrightarrow>
     set (route_authorizations rts) \<subseteq> set (protocol_authorizations (sp_protocol server))"
  "policy_routes server = Some (Routes_Grpc grts) \<Longrightarrow>
     set (route_authorizations grts) \<subseteq> set (protocol_authorizations (sp_protocol server))"
  by (cases "sp_protocol server"; auto simp: policy_routes_def)+

text \<open>The filters refuse a request with an error of their own.\<close>

fun is_filter_error :: "http_policy_error \<Rightarrow> bool" where
  "is_filter_error HttpRouteNotFound = False"
| "is_filter_error HttpRouteUnauthorized = False"
| "is_filter_error (HttpRateLimited _) = False"
| "is_filter_error _ = True"

lemma apply_http_filters_error:
  "apply_http_filters api sample m fs req g = Returns (Inl e, g') \<Longrightarrow> is_filter_error e"
proof (induction api sample m fs req g rule: apply_http_filters.induct)
  case (3 api sample m redir fs req g)
  from "3.prems" obtain r where r: "redirect_apply api redir (req_uri req) m = Returns r"
    by (auto simp: bind_outcome_Returns_iff)
  show ?case
  proof (cases r)
    case (Inl i)
    with r "3.prems" show ?thesis by auto
  next
    case (Inr ord)
    with r "3.prems" "3.IH" show ?thesis by (cases ord) auto
  qed
qed (auto split: prod.splits option.splits)

lemma apply_grpc_filters_error:
  "apply_grpc_filters api sample fs req g = (Inl e, g') \<Longrightarrow> is_filter_error e"
  by (induction api sample fs req g rule: apply_grpc_filters.induct)
    (auto split: prod.splits option.splits)

lemma http_authorize_cases:
  assumes az: "http_authorize napi mt server cn rts req = (az, ms)"
  obtains (not_found) "az = Inl HttpRouteNotFound"
    | (unauthorized) m route where "az = Inl HttpRouteUnauthorized" "find mt rts req = Some (m, route)"
        "\<not> list_ex (\<lambda>a. is_authorized napi a cn) (rp_authorizations route)"
    | (ok) permit m route a where "az = Inr (permit, m, route)" "find mt rts req = Some (m, route)"
        "a \<in> set (rp_authorizations route)" "is_authorized napi a cn" "hrp_authz permit = az_meta a"
proof (cases az)
  case (Inl e)
  with az have "fst (http_authorize napi mt server cn rts req) = Inl e" by simp
  then show ?thesis
    unfolding http_authorize_Err_iff using Inl not_found unauthorized by blast
next
  case (Inr pmr)
  obtain permit m route where pmr: "pmr = (permit, m, route)" by (cases pmr)
  with az Inr have "fst (http_authorize napi mt server cn rts req) = Inr (permit, m, route)" by simp
  then obtain a where f: "find mt rts req = Some (m, route)"
    and a: "List.find (\<lambda>a. is_authorized napi a cn) (rp_authorizations route) = Some a"
    and p: "hrp_authz permit = az_meta a"
    unfolding http_authorize_Ok_iff by auto
  with ok [of permit m route] Inr pmr list_find_Some [OF a] show ?thesis by blast
qed

text \<open>The authorizations of the route that is selected for a request.\<close>

definition matched_authorizations ::
  "('re, 'h) http_api \<Rightarrow> ('re, 'net, 'd, 'k) server_policy \<Rightarrow> 'h request \<Rightarrow>
     'net authorization list option" where
  "matched_authorizations api server req =
     (case policy_routes server of
        None \<Rightarrow> None
      | Some (Routes_Http rts) \<Rightarrow>
          map_option (\<lambda>(m, route). rp_authorizations route) (find (http_match_trait api) rts req)
      | Some (Routes_Grpc rts) \<Rightarrow>
          map_option (\<lambda>(m, route). rp_authorizations route) (find (grpc_match_trait api) rts req))"

lemma matched_authorizations_in:
  assumes "matched_authorizations api server req = Some azs"
  shows "azs \<in> set (protocol_authorizations (sp_protocol server))"
proof (cases "policy_routes server")
  case None
  with assms show ?thesis by (simp add: matched_authorizations_def)
next
  case (Some rs)
  show ?thesis
  proof (cases rs)
    case (Routes_Http rts)
    with assms Some obtain m route where "find (http_match_trait api) rts req = Some (m, route)"
      "azs = rp_authorizations route"
      by (auto simp: matched_authorizations_def)
    with found_route_authorizations policy_routes_authorizations(1) Some Routes_Http
    show ?thesis by blast
  next
    case (Routes_Grpc rts)
    with assms Some obtain m route where "find (grpc_match_trait api) rts req = Some (m, route)"
      "azs = rp_authorizations route"
      by (auto simp: matched_authorizations_def)
    with found_route_authorizations policy_routes_authorizations(2) Some Routes_Grpc
    show ?thesis by blast
  qed
qed

text \<open>The ways a call ends.\<close>

lemma http_policy_call_cases:
  assumes call: "http_policy_call api napi gov sample cn req st = Returns (r, st')"
  obtains (not_found) "r = Inl HttpRouteNotFound" "hs_policy st' = hs_policy st"
    | (unauthorized) azs where "r = Inl HttpRouteUnauthorized" "hs_policy st' = hs_policy st"
        "matched_authorizations api (hs_policy st) req = Some azs"
        "\<not> list_ex (\<lambda>a. is_authorized napi a cn) azs"
    | (filtered) e where "r = Inl e" "is_filter_error e" "hs_policy st' = hs_policy st"
    | (finished) azs a permit variant req' st1 where
        "http_finish gov cn permit variant req' st1 = (r, st')" "hs_policy st1 = hs_policy st"
        "matched_authorizations api (hs_policy st) req = Some azs"
        "a \<in> set azs" "is_authorized napi a cn" "hrp_authz permit = az_meta a"
proof (cases "policy_routes (hs_policy st)")
  case None
  with call not_found show ?thesis by (auto simp: http_policy_call_def)
next
  case (Some rs)
  show ?thesis
  proof (cases rs)
    case (Routes_Http rts)
    obtain az ms where az: "http_authorize napi (http_match_trait api) (hs_policy st) cn rts req = (az, ms)"
      by force
    note call' = call [unfolded http_policy_call_def Some Routes_Http, simplified, unfolded az]
    note ma = matched_authorizations_def [of api "hs_policy st" req, unfolded Some Routes_Http, simplified]
    from az show ?thesis
    proof (cases rule: http_authorize_cases)
      case (ok permit m route a)
      with call' obtain fr g where
        fr: "apply_http_filters api sample m (rp_filters route) req (hs_rng st) = Returns (fr, g)"
        by (auto simp: bind_outcome_Returns_iff)
      show ?thesis
      proof (cases fr)
        case (Inl e)
        with call' ok fr have r: "r = Inl e" "hs_policy st' = hs_policy st" by (auto simp: Let_def)
        from Inl fr have "is_filter_error e" by (simp add: apply_http_filters_error)
        with r show ?thesis by (intro filtered)
      next
        case (Inr req')
        with call' ok fr have "http_finish gov cn permit PermitVariant_Http req'
            (st\<lparr> hs_metrics := hs_metrics st @ ms, hs_rng := g \<rparr>) = (r, st')"
          by (auto simp: Let_def)
        with ok ma finished show ?thesis by simp
      qed
    qed (use call' ma not_found unauthorized in auto)
  next
    case (Routes_Grpc rts)
    obtain az ms where az: "http_authorize napi (grpc_match_trait api) (hs_policy st) cn rts req = (az, ms)"
      by force
    note call' = call [unfolded http_policy_call_def Some Routes_Grpc, simplified, unfolded az]
    note ma = matched_authorizations_def [of api "hs_policy st" req, unfolded Some Routes_Grpc, simplified]
    from az show ?thesis
    proof (cases rule: http_authorize_cases)
      case (ok permit m route a)
      obtain fr g where fr: "apply_grpc_filters api sample (rp_filters route) req (hs_rng st) = (fr, g)"
        by force
      show ?thesis
      proof (cases fr)
        case (Inl e)
        with call' ok fr have r: "r = Inl e" "hs_policy st' = hs_policy st" by (auto simp: Let_def)
        from Inl fr have "is_filter_error e" by (simp add: apply_grpc_filters_error)
        with r show ?thesis by (intro filtered)
      next
        case (Inr req')
        with call' ok fr have "http_finish gov cn permit PermitVariant_Grpc req'
            (st\<lparr> hs_metrics := hs_metrics st @ ms, hs_rng := g \<rparr>) = (r, st')"
          by (auto simp: Let_def)
        with ok ma finished show ?thesis by simp
      qed
    qed (use call' ma not_found unauthorized in auto)
  qed
qed

end
