(* ===== verification/Inbound_Properties.thy ===== *)
theory Inbound_Properties
  imports Inbound_Policy
begin

text \<open>
  Properties of the enforcement of server policies on inbound connections and requests: what
  a forwarded request was admitted by, what a refused one leaves alone, how a connection
  follows changes of its policy, what the controller's, the default and the invalid policies
  admit, and how the connection-level check of the fused path relates to the checks
  of the normal one.
\<close>

section \<open>Requests\<close>

text \<open>C1: An HTTP request reaches the application only if the most specific route of the policy
  that matches it carries an authorization that covers the client, and the server's rate
  limits admit it. The permit names that authorization.\<close>

theorem forwarded_request_is_authorized:
  assumes "http_policy_call api napi gov sample cn req st =
    Returns (Inr (Forwarded permit variant req'), st')"
  shows "(\<exists>azs a. matched_authorizations api (hs_policy st) req = Some azs \<and> a \<in> set azs
      \<and> is_authorized napi a cn \<and> hrp_authz permit = az_meta a)
    \<and> is_ok (fst (rate_limit_check gov (client_id (cn_tls cn)) (sp_local_rate_limit (hs_policy st))))"
  using assms
proof (cases rule: http_policy_call_cases)
  case (finished azs a permit' variant' req'' st1)
  from finished(1) [unfolded http_finish_Ok_iff] finished(2) show ?thesis
    using finished by auto
qed simp_all

text \<open>A request that is refused for want of a route or of an authorization, or by a filter, leaves the
  server's rate limiters as they were: clients that are not admitted cannot use up the
  limits of those that are.\<close>

theorem refused_request_keeps_limits:
  assumes "http_policy_call api napi gov sample cn req st = Returns (Inl e, st')"
    and "\<nexists>l. e = HttpRateLimited l"
  shows "sp_local_rate_limit (hs_policy st') = sp_local_rate_limit (hs_policy st)"
  using assms(1)
proof (cases rule: http_policy_call_cases)
  case (finished azs a permit variant req' st1)
  from http_finish_Err [OF finished(1)] assms(2) show ?thesis by blast
qed simp_all

definition sample_connection :: "ip_addr \<Rightarrow> connection" where
  "sample_connection ip =
     \<lparr> cn_dst = (Ipv4 7, 8), cn_client = (ip, 9),
       cn_tls = Conditional_None NoTls_NoClientHello \<rparr>"

definition sample_state ::
  "(string, ip_addr \<times> nat, nat, id option \<Rightarrow> nat) server_policy \<Rightarrow>
     (string, ip_addr \<times> nat, nat, id option \<Rightarrow> nat, unit) http_state" where
  "sample_state p = \<lparr> hs_policy = p, hs_rng = (), hs_metrics = [] \<rparr>"

definition never :: "distribution \<Rightarrow> unit \<Rightarrow> bool \<times> unit" where
  "never d g = (False, ())"

definition sample_permit :: http_route_permit where
  "sample_permit = \<lparr> hrp_dst = (Ipv4 7, 8), hrp_server = (Meta_Default ''all-unauthenticated'', 8),
     hrp_route = Meta_Default ''default'', hrp_authz = Meta_Default ''all-unauthenticated'' \<rparr>"

lemma sample_call_forwards:
  "http_policy_call fun_headers_api prefix_net_api counting_api never
     (sample_connection (Ipv4 5)) (sample_request ''/foo'')
     (sample_state (all_unauthenticated prefix_net_api 10))
   = Returns (Inr (Forwarded sample_permit PermitVariant_Http (sample_request ''/foo'')),
       (sample_state (all_unauthenticated prefix_net_api 10))\<lparr> hs_metrics := [HttpMetric_Allow sample_permit] \<rparr>)"
  by (simp add: http_policy_call_def policy_routes_def all_unauthenticated_def mk_default_def
      sample_state_def http_authorize_def find_def find_route_def find_host_def find_rule_def
      http_default_def List.map_filter_def http_match_trait_def default_request_match_def
      is_authorized_def network_contains_def network_from_def all_nets_def prefix_net_api_def
      sample_connection_def server_label_def sample_permit_def http_finish_def
      http_check_rate_limit_def rate_limit_check_def check_total_def default_rate_limit_def
      check_per_identity_def Let_def best_single)

theorem forwarded_request_is_authorized_witness:
  "\<exists>azs a. matched_authorizations fun_headers_api (all_unauthenticated prefix_net_api 10 ::
        (string, ip_addr \<times> nat, nat, id option \<Rightarrow> nat) server_policy) (sample_request ''/foo'') = Some azs
     \<and> a \<in> set azs \<and> is_authorized prefix_net_api a (sample_connection (Ipv4 5))
     \<and> az_meta a = Meta_Default ''all-unauthenticated''"
  using forwarded_request_is_authorized [OF sample_call_forwards]
  by (auto simp: sample_permit_def sample_state_def)

text \<open>A policy with one opaque rule: no request has a route.\<close>

definition counting_limit :: "(nat, id option \<Rightarrow> nat) local_rate_limit" where
  "counting_limit = default_rate_limit\<lparr> lrl_total := Some \<lparr> rl_rps = 3, rl_limiter = 3 \<rparr> \<rparr>"

theorem refused_request_keeps_limits_witness:
  "\<exists>st'. http_policy_call fun_headers_api prefix_net_api counting_api never
      (sample_connection (Ipv4 5)) (sample_request ''/foo'')
      (sample_state (default_server_policy DefaultPolicy_Deny\<lparr> sp_local_rate_limit := counting_limit \<rparr>))
      = Returns (Inl HttpRouteNotFound, st')
    \<and> sp_local_rate_limit (hs_policy st') = counting_limit"
proof -
  let ?st = "sample_state (default_server_policy DefaultPolicy_Deny\<lparr> sp_local_rate_limit := counting_limit \<rparr>)"
  have call: "http_policy_call fun_headers_api prefix_net_api counting_api never
      (sample_connection (Ipv4 5)) (sample_request ''/foo'') ?st
      = Returns (Inl HttpRouteNotFound,
          ?st\<lparr> hs_metrics := [HttpMetric_RouteNotFound (Meta_Default ''deny'', 8)] \<rparr>)"
    by (simp add: http_policy_call_def policy_routes_def sample_state_def server_label_def
        sample_connection_def)
  from call refused_request_keeps_limits [OF call] show ?thesis by (simp add: sample_state_def)
qed

section \<open>Connections\<close>

text \<open>C8: An open connection is terminated with the server's denial exactly when a change of the
  policy is the first one under which the client has no authorization, and nothing ended
  the connection before. Every change before it still authorized the client.\<close>

theorem connection_terminated_iff:
  "fst (tcp_session napi cn es) = TcpResult_Denied m \<longleftrightarrow>
     (\<exists>pre p post. es = map TcpEvent_Changed pre @ TcpEvent_Changed p # post
        \<and> (\<forall>q\<in>set pre. is_ok (check_authorized napi q cn))
        \<and> check_authorized napi p cn = Inl m)"
proof (induction es)
  case (Cons e es)
  show ?case
  proof (cases e)
    case (TcpEvent_Inner r)
    then show ?thesis by (auto simp: Cons_eq_append_conv)
  next
    case (TcpEvent_Changed q)
    show ?thesis
    proof (cases "check_authorized napi q cn")
      case (Inl d)
      then have "is_ok (check_authorized napi q cn) = False" by simp
      with TcpEvent_Changed Inl show ?thesis
        by (auto simp: Cons_eq_append_conv Cons_eq_map_conv) (metis append_Nil list.simps(8) empty_iff empty_set)+
    next
      case (Inr permit)
      then have ok: "is_ok (check_authorized napi q cn)" by simp
      show ?thesis (is "_ \<longleftrightarrow> ?rhs")
      proof -
        have "?rhs \<longleftrightarrow> (\<exists>pre p post. es = map TcpEvent_Changed pre @ TcpEvent_Changed p # post
            \<and> (\<forall>q\<in>set pre. is_ok (check_authorized napi q cn)) \<and> check_authorized napi p cn = Inl m)"
          (is "_ \<longleftrightarrow> ?rest")
        proof
          assume ?rhs
          then obtain pre p post where "e # es = map TcpEvent_Changed pre @ TcpEvent_Changed p # post"
            "\<forall>q\<in>set pre. is_ok (check_authorized napi q cn)" "check_authorized napi p cn = Inl m"
            by blast
          with Inr TcpEvent_Changed show ?rest by (cases pre) auto
        next
          assume ?rest
          then obtain pre p post where "es = map TcpEvent_Changed pre @ TcpEvent_Changed p # post"
            "\<forall>q\<in>set pre. is_ok (check_authorized napi q cn)" "check_authorized napi p cn = Inl m"
            by blast
          with ok TcpEvent_Changed show ?rhs
            by (intro exI [of _ "q # pre"] exI [of _ p] exI [of _ post]) simp
        qed
        with Cons.IH TcpEvent_Changed Inr show ?thesis by simp
      qed
    qed
  qed
qed simp

lemma check_authorized_simps:
  "sp_protocol p = Opaque azs \<Longrightarrow> is_ok (check_authorized napi p cn) = list_ex (\<lambda>a. is_authorized napi a cn) azs"
  "sp_protocol p = Tls azs \<Longrightarrow> is_ok (check_authorized napi p cn) = list_ex (\<lambda>a. is_authorized napi a cn) azs"
  "sp_protocol p = Detect rts t azs \<Longrightarrow>
     is_ok (check_authorized napi p cn) = list_ex (\<lambda>a. is_authorized napi a cn) azs"
  by (auto simp: check_authorized_def list_find_None split: option.splits
      dest: list_find_Some simp: list_ex_iff)

theorem connection_terminated_iff_witness:
  "fst (tcp_session prefix_net_api (sample_connection (Ipv4 5))
     [TcpEvent_Changed (all_unauthenticated prefix_net_api 10 ::
        (string, ip_addr \<times> nat, nat, id option \<Rightarrow> nat) server_policy),
      TcpEvent_Changed (default_server_policy DefaultPolicy_Deny),
      TcpEvent_Inner (Inr () :: (unit, string) result)])
   = TcpResult_Denied (Meta_Default ''deny'')"
proof -
  have "is_ok (check_authorized prefix_net_api (all_unauthenticated prefix_net_api 10 ::
      (string, ip_addr \<times> nat, nat, id option \<Rightarrow> nat) server_policy) (sample_connection (Ipv4 5)))"
    by (simp add: all_unauthenticated_def mk_default_def Let_def check_authorized_def is_authorized_def
        network_contains_def network_from_def all_nets_def prefix_net_api_def sample_connection_def)
  moreover have "check_authorized prefix_net_api (default_server_policy DefaultPolicy_Deny ::
      (string, ip_addr \<times> nat, nat, id option \<Rightarrow> nat) server_policy) (sample_connection (Ipv4 5))
      = Inl (Meta_Default ''deny'')"
    by (simp add: check_authorized_def)
  ultimately show ?thesis
    unfolding connection_terminated_iff
    by (intro exI [of _ "[all_unauthenticated prefix_net_api 10]"]
        exI [of _ "default_server_policy DefaultPolicy_Deny"] exI) auto
qed

section \<open>Policies of the controller\<close>

lemma localhost_is_authorized:
  assumes "ipnet_laws napi" and "fst (cn_client cn) = ipv4_localhost \<or> fst (cn_client cn) = ipv6_localhost"
  shows "is_authorized napi (localhost_authorization napi) cn"
  using assms
  by (auto simp: is_authorized_def localhost_authorization_def network_contains_def network_from_def
      ipnet_laws_def)

text \<open>C11: Under every policy accepted from the controller, a client at \<open>127.0.0.1\<close> or \<open>::1\<close> is
  authorized. On a server that is not HTTP-only, that is one with an opaque or TLS protocol or
  with protocol detection, the check of its connection passes; and on every server none of its
  requests is refused as unauthorized. It may still be refused for another reason.\<close>

theorem localhost_always_authorized:
  assumes sp: "server_policy_try_from pa gov proto = Returns (Inr sp)"
    and laws: "ipnet_laws (pa_net pa)"
    and local: "fst (cn_client cn) = ipv4_localhost \<or> fst (cn_client cn) = ipv6_localhost"
  shows "(policy_routes sp = None \<or> (\<exists>rts t azs. sp_protocol sp = Detect rts t azs) \<longrightarrow>
            is_ok (check_authorized (pa_net pa) sp cn))
    \<and> (\<forall>st req st'. hs_policy st = sp \<longrightarrow>
         http_policy_call api (pa_net pa) gov sample cn req st \<noteq> Returns (Inl HttpRouteUnauthorized, st'))"
proof -
  have az: "list_ex (\<lambda>a. is_authorized (pa_net pa) a cn) azs"
    if "azs \<in> set (protocol_authorizations (sp_protocol sp))" for azs
    using server_policy_try_from_localhost [OF sp that] localhost_is_authorized [OF laws local]
    by (auto simp: list_ex_iff)
  have "is_ok (check_authorized (pa_net pa) sp cn)"
    if "policy_routes sp = None \<or> (\<exists>rts t azs. sp_protocol sp = Detect rts t azs)"
    using that az by (cases "sp_protocol sp") (auto simp: policy_routes_def check_authorized_simps)
  moreover have "http_policy_call api (pa_net pa) gov sample cn req st \<noteq> Returns (Inl HttpRouteUnauthorized, st')"
    if "hs_policy st = sp" for st req st'
  proof
    assume "http_policy_call api (pa_net pa) gov sample cn req st = Returns (Inl HttpRouteUnauthorized, st')"
    then show False
    proof (cases rule: http_policy_call_cases)
      case (unauthorized azs)
      with az matched_authorizations_in that show ?thesis by blast
    next
      case (finished azs a permit variant req' st1)
      from http_finish_Err [OF finished(1)] show ?thesis by auto
    qed auto
  qed
  ultimately show ?thesis by blast
qed

text \<open>C25: When the controller's message is invalid, the policy that replaces it refuses every request
  as unauthorized: the filter that would report an internal error is on a route with no
  authorization, so it is never reached. Connections are refused too.\<close>

theorem invalid_policy_refuses:
  "http_policy_call api napi gov sample cn req (st\<lparr> hs_policy := invalid_server timeout \<rparr>) =
     Returns (Inl HttpRouteUnauthorized,
       st\<lparr> hs_policy := invalid_server timeout,
          hs_metrics := hs_metrics st @
            [HttpMetric_Deny (Meta_Default ''invalid'', snd (cn_dst cn)) (Meta_Default ''invalid'')] \<rparr>)
   \<and> check_authorized napi (invalid_server timeout :: ('re, 'net, 'd, 'k) server_policy) cn
     = Inl (Meta_Default ''invalid'')"
  by (simp add: http_policy_call_def policy_routes_def invalid_server_def http_authorize_def find_def
      find_route_def find_host_def find_rule_def List.map_filter_def http_match_trait_def
      match_request_def default_match_request_def server_label_def check_authorized_def Let_def)

text \<open>Other crates that accept everything, and a message for a server with one authorization.\<close>

definition sample_policy_api ::
  "(string, header_name \<Rightarrow> header_value list, ip_addr \<times> nat, ip_addr \<times> nat, string, nat) policy_api" where
  "sample_policy_api =
     \<lparr> pa_http = fun_headers_api,
       pa_proto = \<lparr> regex_parse = Inr, header_name_from_bytes = Inr, header_value_try_from = Inr,
         method_try_from = Inr \<rparr>,
       pa_net = prefix_net_api, pa_net_try_from = Inr, pa_scheme_try_from = Inr,
       pa_status_valid = (\<lambda>s. 100 \<le> s), pa_bernoulli = (\<lambda>n d. if n \<le> d then Inr () else Inl ''ratio''),
       pa_header_name_parse = Inr, pa_header_value_from_bytes = Inr, pa_url_parse = (\<lambda>_. None),
       pa_duration_try_from = Inr \<rparr>"

definition sample_server :: "(ip_addr \<times> nat, string, nat) proto_server" where
  "sample_server =
     \<lparr> psv_protocol = Some (Some (ProtoProtocol_Detect (Some 10) [] None)),
       psv_authorizations = [\<lparr> paz_labels = (\<lambda>_. None),
         paz_authentication = Some (Some (Permit_MeshTls (Some Clients_Unauthenticated))),
         paz_networks = [(Some (Ipv4 0, 0), [])],
         paz_metadata = Some (Some (ProtoMeta_Default ''mesh'')) \<rparr>],
       psv_labels = (\<lambda>k. if k = ''name'' then Some ''web'' else None) \<rparr>"

definition sample_policy :: "(string, ip_addr \<times> nat, nat, id option \<Rightarrow> nat) server_policy" where
  "sample_policy =
     (let azs = [\<lparr> az_networks = [network_from (Ipv4 0, 0)], az_authentication = TlsUnauthenticated,
                   az_meta = Meta_Default ''mesh'' \<rparr>, localhost_authorization prefix_net_api]
      in \<lparr> sp_protocol = Detect [http_default azs] 10 azs,
           sp_meta = Meta_Resource ''policy.linkerd.io'' ''server'' ''web'',
           sp_local_rate_limit = default_rate_limit \<rparr>)"

lemma sample_server_accepted:
  "server_policy_try_from sample_policy_api counting_api sample_server = Returns (Inr sample_policy)"
  by (simp add: server_policy_try_from_def sample_server_def sample_policy_api_def sample_policy_def
      proto_rate_limit_of_def local_rate_limit_try_from_def default_proto_rate_limit_def
      transpose_opt_def override_limits_def override_pairs_def List.map_filter_def default_rate_limit_def
      mk_authorizations_def authorization_try_from_def network_try_from_def network_from_def
      authentication_try_from_def meta_try_from_def protocol_try_from_def mk_http_routes_def
      map_err_both_def meta_try_new_with_default_def splitn2_def Let_def)

theorem localhost_always_authorized_witness:
  "is_ok (check_authorized prefix_net_api sample_policy (sample_connection ipv4_localhost))
   \<and> \<not> is_ok (check_authorized prefix_net_api sample_policy (sample_connection (Ipv4 5)))"
proof
  have "pa_net sample_policy_api = prefix_net_api" by (simp add: sample_policy_api_def)
  then show "is_ok (check_authorized prefix_net_api sample_policy (sample_connection ipv4_localhost))"
    using localhost_always_authorized [OF sample_server_accepted, of "sample_connection ipv4_localhost"]
      prefix_net_api_laws
    by (auto simp: sample_connection_def sample_policy_def Let_def)
  show "\<not> is_ok (check_authorized prefix_net_api sample_policy (sample_connection (Ipv4 5)))"
    by (simp add: sample_policy_def Let_def check_authorized_def is_authorized_def sample_connection_def
        network_contains_def network_from_def localhost_authorization_def ipv4_localhost_def
        ipv6_localhost_def prefix_net_api_def)
qed

section \<open>The fused path\<close>

text \<open>C24: The connection-level check of the fused path agrees with the TCP middleware on the
  protocols that the middleware decides, and on the HTTP and gRPC ones it admits every client that
  the HTTP middleware forwards a request of.\<close>

theorem dmesh_admits:
  "(is_ok (check_authorized napi server cn) \<longrightarrow> dmesh_connection_authorized napi server cn)
   \<and> ((policy_routes server = None \<or> (\<exists>rts t azs. sp_protocol server = Detect rts t azs)) \<longrightarrow>
        dmesh_connection_authorized napi server cn = is_ok (check_authorized napi server cn))
   \<and> ((\<exists>req st permit variant req' st'. hs_policy st = server \<and>
          http_policy_call api napi gov sample cn req st = Returns (Inr (Forwarded permit variant req'), st'))
        \<and> (\<nexists>rts t azs. sp_protocol server = Detect rts t azs) \<longrightarrow>
      dmesh_connection_authorized napi server cn)"
proof (intro conjI impI)
  show eq: "dmesh_connection_authorized napi server cn = is_ok (check_authorized napi server cn)"
    if "policy_routes server = None \<or> (\<exists>rts t azs. sp_protocol server = Detect rts t azs)"
    using that
    by (cases "sp_protocol server")
      (auto simp: policy_routes_def check_authorized_simps dmesh_connection_authorized_def Let_def)
  show "dmesh_connection_authorized napi server cn" if "is_ok (check_authorized napi server cn)"
    using that eq by (cases "sp_protocol server") (auto simp: policy_routes_def check_authorized_def)
  show "dmesh_connection_authorized napi server cn"
    if fwd: "(\<exists>req st permit variant req' st'. hs_policy st = server \<and>
          http_policy_call api napi gov sample cn req st = Returns (Inr (Forwarded permit variant req'), st'))
        \<and> (\<nexists>rts t azs. sp_protocol server = Detect rts t azs)"
  proof -
    from fwd obtain req st permit variant req' st' where server: "hs_policy st = server"
      and call: "http_policy_call api napi gov sample cn req st = Returns (Inr (Forwarded permit variant req'), st')"
      by blast
    from call obtain azs a where ma: "matched_authorizations api server req = Some azs"
      and a: "a \<in> set azs" "is_authorized napi a cn"
    proof (cases rule: http_policy_call_cases)
      case (finished azs a)
      then show ?thesis using that server by blast
    qed simp_all
    have "azs \<in> set (protocol_authorizations (sp_protocol server))"
      by (rule matched_authorizations_in [OF ma])
    with a fwd ma show ?thesis
      by (cases "sp_protocol server")
        (auto simp: dmesh_connection_authorized_def Let_def list_ex_iff route_authorizations_def
           matched_authorizations_def policy_routes_def)
  qed
qed

theorem dmesh_admits_witness:
  "dmesh_connection_authorized prefix_net_api sample_policy (sample_connection ipv4_localhost)
   \<and> \<not> dmesh_connection_authorized prefix_net_api sample_policy (sample_connection (Ipv4 5))"
proof -
  have d: "\<exists>rts t azs. sp_protocol sample_policy = Detect rts t azs"
    by (simp add: sample_policy_def Let_def)
  have "is_ok (check_authorized prefix_net_api sample_policy (sample_connection ipv4_localhost))"
    "\<not> is_ok (check_authorized prefix_net_api sample_policy (sample_connection (Ipv4 5)))"
    by (simp_all add: sample_policy_def Let_def check_authorized_def is_authorized_def
        sample_connection_def network_contains_def network_from_def localhost_authorization_def
        ipv4_localhost_def ipv6_localhost_def prefix_net_api_def)
  with d show ?thesis
    using dmesh_admits [of prefix_net_api sample_policy] by metis
qed

text \<open>On a server with protocol detection the check of the fused path looks at the connection's
  authorizations only. Where they do not admit a client that a route authorizes, the normal path
  forwards the client's HTTP requests, and the fused one refuses it.\<close>

lemma dmesh_ignores_routes_of_detect:
  assumes "is_authorized napi a cn" and "\<not> list_ex (\<lambda>a. is_authorized napi a cn) azs"
    and sp: "sp = \<lparr> sp_protocol = Detect [http_default [a]] t azs, sp_meta = m,
      sp_local_rate_limit = default_rate_limit \<rparr>"
  shows "\<exists>st'. http_policy_call api napi gov sample cn req (st\<lparr> hs_policy := sp \<rparr>)
      = Returns (Inr (Forwarded \<lparr> hrp_dst = cn_dst cn, hrp_server = (m, snd (cn_dst cn)),
          hrp_route = Meta_Default ''default'', hrp_authz = az_meta a \<rparr> PermitVariant_Http req), st')"
    and "\<not> dmesh_connection_authorized napi sp cn"
  using assms(1,2) unfolding sp
  by (simp_all add: http_policy_call_def policy_routes_def http_authorize_def find_def find_route_def
      find_host_def find_rule_def http_default_def List.map_filter_def http_match_trait_def
      server_label_def http_finish_def http_check_rate_limit_def rate_limit_check_def check_total_def
      default_rate_limit_def check_per_identity_def dmesh_connection_authorized_def Let_def)

section \<open>Default policies and the store\<close>

lemma all_nets_contain:
  assumes "ipnet_laws napi"
  shows "list_ex (\<lambda>n. network_contains napi n ip) (map network_from (all_nets napi))"
  using assms by (cases ip) (auto simp: ipnet_laws_def all_nets_def network_contains_def network_from_def)

lemma mk_default_check:
  "is_ok (check_authorized napi (mk_default name nets authn t) cn) \<longleftrightarrow>
     list_ex (\<lambda>n. network_contains napi n (fst (cn_client cn))) (map network_from nets)
     \<and> is_tls_authorized (cn_tls cn) authn"
  by (simp add: mk_default_def Let_def check_authorized_def is_authorized_def)

text \<open>What the default policies admit: everyone, with or without TLS; every client with TLS; every
  client with an authenticated identity that is a DNS name, whereas one whose identity
  is a URI is refused; and with the denying default no one.\<close>

theorem default_policies_admit:
  assumes "ipnet_laws napi"
  shows "is_ok (check_authorized napi (all_unauthenticated napi t :: ('re, 'net, 'd, 'k) server_policy) cn)
    \<and> (is_ok (check_authorized napi (all_mtls_unauthenticated napi t :: ('re, 'net, 'd, 'k) server_policy) cn)
         \<longleftrightarrow> (\<exists>i p. cn_tls cn = Conditional_Some (Tls_Established i p)))
    \<and> (is_ok (check_authorized napi (all_authenticated napi t :: ('re, 'net, 'd, 'k) server_policy) cn)
         \<longleftrightarrow> (\<exists>n. client_id (cn_tls cn) = Some (Id_Dns n)))
    \<and> \<not> is_ok (check_authorized napi (default_server_policy DefaultPolicy_Deny :: ('re, 'net, 'd, 'k) server_policy) cn)"
proof -
  have "is_tls_authorized tls authenticated \<longleftrightarrow> (\<exists>n. client_id tls = Some (Id_Dns n))" for tls
    by (cases tls rule: client_id.cases)
      (auto simp: authenticated_def suffix_from_def suffix_contains_def split: option.splits id.splits)
  moreover have "is_tls_authorized tls TlsUnauthenticated \<longleftrightarrow>
      (\<exists>i p. tls = Conditional_Some (Tls_Established i p))" for tls
    by (auto split: conditional.splits server_tls.splits)
  moreover have "\<not> is_ok (check_authorized napi
      (default_server_policy DefaultPolicy_Deny :: ('re, 'net, 'd, 'k) server_policy) cn)"
    by (simp add: check_authorized_def)
  ultimately show ?thesis
    using all_nets_contain [OF assms]
    by (simp add: all_unauthenticated_def all_mtls_unauthenticated_def all_authenticated_def
        mk_default_check del: is_tls_authorized.simps(2) default_server_policy.simps)
qed

theorem default_policies_admit_witness:
  "\<not> is_ok (check_authorized prefix_net_api
      (all_authenticated prefix_net_api 10 :: (string, ip_addr \<times> nat, nat, id option \<Rightarrow> nat) server_policy)
      (sample_connection (Ipv4 5)\<lparr> cn_tls := Conditional_Some (Tls_Established (Some (Id_Uri ''spiffe://a/b'')) None) \<rparr>))
   \<and> is_ok (check_authorized prefix_net_api
      (all_authenticated prefix_net_api 10 :: (string, ip_addr \<times> nat, nat, id option \<Rightarrow> nat) server_policy)
      (sample_connection (Ipv4 5)\<lparr> cn_tls := Conditional_Some (Tls_Established (Some (Id_Dns ''web.ns'')) None) \<rparr>))"
proof -
  let ?cn = "\<lambda>i. sample_connection (Ipv4 5)\<lparr> cn_tls := Conditional_Some (Tls_Established (Some i) None) \<rparr>"
  have "is_ok (check_authorized prefix_net_api
      (all_authenticated prefix_net_api 10 :: (string, ip_addr \<times> nat, nat, id option \<Rightarrow> nat) server_policy) (?cn i))
      \<longleftrightarrow> (\<exists>n. client_id (cn_tls (?cn i)) = Some (Id_Dns n))" for i
    using default_policies_admit [OF prefix_net_api_laws] by blast
  then show ?thesis by simp
qed

text \<open>Marking the default policy opaque turns protocol detection off and nothing else: it
  admits the same connections. It fails only on a default that is neither a detecting nor an opaque
  policy, which none of the predefined defaults is.\<close>

theorem make_opaque_same_connections:
  assumes "make_opaque d = Returns od"
  shows "is_ok (check_authorized napi (default_server_policy od) cn)
      = is_ok (check_authorized napi (default_server_policy d) cn)
    \<and> policy_routes (default_server_policy od) = None
    \<and> make_opaque od = Returns od"
proof (cases d)
  case (DefaultPolicy_Allow p)
  with assms show ?thesis
    by (cases "sp_protocol p")
      (auto simp: make_opaque_def policy_routes_def check_authorized_simps)
next
  case DefaultPolicy_Deny
  with assms show ?thesis by (auto simp: make_opaque_def policy_routes_def)
qed

theorem make_opaque_same_connections_witness:
  "\<exists>od. make_opaque (DefaultPolicy_Allow (all_authenticated prefix_net_api 10 ::
        (string, ip_addr \<times> nat, nat, id option \<Rightarrow> nat) server_policy)) = Returns od
     \<and> policy_routes (default_server_policy od) = None"
proof -
  obtain od where "make_opaque (DefaultPolicy_Allow (all_authenticated prefix_net_api 10 ::
        (string, ip_addr \<times> nat, nat, id option \<Rightarrow> nat) server_policy)) = Returns od"
    by (simp add: make_opaque_def all_authenticated_def mk_default_def Let_def)
  with make_opaque_same_connections [OF this] show ?thesis by blast
qed

lemma map_of_const: "map_of (map (\<lambda>p. (p, f p)) ps) k = (if k \<in> set ps then Some (f k) else None)"
  by (induction ps) auto

lemma map_of_all_const:
  assumes "\<forall>x\<in>set xs. snd x = v"
  shows "map_of xs k = (if k \<in> fst ` set xs then Some v else None)"
  using assms by (induction xs) auto

lemma get_policy_again: "get_policy port (snd (get_policy port s)) = get_policy port s"
  by (simp add: get_policy_def Let_def split: option.splits)

lemma spawn_discover_policy:
  assumes "make_opaque d = Returns od" and "spawn_discover d ports opaque_ports = Returns s"
  shows "fst (get_policy port s) = default_server_policy (if ports_contains opaque_ports port then od else d)"
proof -
  from assms have s: "s = \<lparr> st_cache = map_of (map (\<lambda>p. (p, default_server_policy
        (if ports_contains opaque_ports p then od else d))) (rev ports)),
      st_default = default_server_policy d, st_opaque_ports = opaque_ports,
      st_opaque_default = default_server_policy od, st_discover = True \<rparr>"
    by (simp add: spawn_discover_def Let_def rev_map)
  show ?thesis unfolding s by (simp add: get_policy_def map_of_const Let_def)
qed

lemma opaque_ports_keys:
  "fst ` set (concat (map (\<lambda>(lo, hi). map (\<lambda>p. (p, v)) [lo..<Suc hi]) ranges)) =
     {p. ports_contains ranges p}"
proof (induction ranges)
  case (Cons r ranges)
  have "fst ` set (map (\<lambda>p. (p, v)) [fst r..<Suc (snd r)]) = {p. fst r \<le> p \<and> p \<le> snd r}"
    by (auto simp: image_iff)
  with Cons show ?case
    by (cases r) (auto simp: image_Un ports_contains_def simp del: upt_Suc)
qed (simp add: ports_contains_def)

lemma spawn_fixed_policy:
  assumes "make_opaque d = Returns od" and "spawn_fixed d fixed opaque_ports = Returns s"
  shows "fst (get_policy port s) =
    (case map_of (rev fixed) port of
       Some p \<Rightarrow> p
     | None \<Rightarrow> default_server_policy (if ports_contains opaque_ports port then od else d))"
proof -
  let ?rxs = "concat (map (\<lambda>(lo, hi). map (\<lambda>p. (p, default_server_policy od)) [lo..<Suc hi]) opaque_ports)"
  have "map_of (rev ?rxs) port =
      (if port \<in> fst ` set (rev ?rxs) then Some (default_server_policy od) else None)"
    by (rule map_of_all_const) auto
  moreover have "port \<in> fst ` set (rev ?rxs) \<longleftrightarrow> ports_contains opaque_ports port"
    using opaque_ports_keys [of "default_server_policy od" opaque_ports] by (simp del: upt_Suc)
  ultimately have rxs: "map_of (rev ?rxs) port =
      (if ports_contains opaque_ports port then Some (default_server_policy od) else None)" by simp
  from assms have s: "st_cache s = map_of (rev fixed @ rev ?rxs)" "st_discover s = False"
    "st_default s = default_server_policy d"
    by (auto simp: spawn_fixed_def Let_def)
  show ?thesis
    by (simp add: get_policy_def s map_add_def rxs Let_def del: upt_Suc split: option.splits)
qed

text \<open>The policy a port starts with. With discovery it is the default, or the opaque default
  for a port marked opaque, on the first request for the port and on every later one until
  the controller replaces it. With fixed policies a port's own policy comes first, then the
  opaque default if the port is marked opaque, then the default.\<close>

theorem store_initial_policy:
  assumes "make_opaque d = Returns od"
  shows "(spawn_discover d ports opaque_ports = Returns s \<longrightarrow>
      fst (get_policy port s) = default_server_policy (if ports_contains opaque_ports port then od else d))
    \<and> (spawn_fixed d fixed opaque_ports = Returns s \<longrightarrow>
      fst (get_policy port s) =
        (case map_of (rev fixed) port of
           Some p \<Rightarrow> p
         | None \<Rightarrow> default_server_policy (if ports_contains opaque_ports port then od else d)))
    \<and> get_policy port (snd (get_policy port s)) = get_policy port s"
  using spawn_discover_policy [OF assms] spawn_fixed_policy [OF assms] get_policy_again by blast

theorem store_initial_policy_witness:
  "\<exists>s. spawn_fixed (DefaultPolicy_Allow (all_authenticated prefix_net_api 10))
        [(8, all_unauthenticated prefix_net_api 10)] [(5, 9)] = Returns s
     \<and> fst (get_policy 8 s) = (all_unauthenticated prefix_net_api 10 ::
         (string, ip_addr \<times> nat, nat, id option \<Rightarrow> nat) server_policy)
     \<and> policy_routes (fst (get_policy 9 s)) = None"
proof -
  let ?d = "DefaultPolicy_Allow (all_authenticated prefix_net_api 10 ::
    (string, ip_addr \<times> nat, nat, id option \<Rightarrow> nat) server_policy)"
  obtain od where od: "make_opaque ?d = Returns od" "policy_routes (default_server_policy od) = None"
    by (simp add: make_opaque_def all_authenticated_def mk_default_def Let_def policy_routes_def)
  then obtain s where s: "spawn_fixed ?d [(8, all_unauthenticated prefix_net_api 10)] [(5, 9)] = Returns s"
    by (simp add: spawn_fixed_def Let_def)
  from store_initial_policy [OF od(1), of _ "[(5, 9)]" s 8] store_initial_policy [OF od(1), of _ "[(5, 9)]" s 9]
    s od(2)
  show ?thesis by (auto simp: ports_contains_def)
qed

end
