(* ===== verification/Gate.thy ===== *)
theory Gate
  imports Rust_Prelude
begin

text \<open>
  The gate of \<open>linkerd/stack/src/gate.rs\<close>: a watch channel whose sender opens, limits or
  shuts the gate, and the middleware that is ready only when the gate lets it. A world has the
  channel's value and version, the semaphores that \<open>limit\<close> has made (by number), whether
  the sender is still there and the gates, clones of one another that share the channel. Each
  poll, call and change of state is one step.

  Semaphores are those of the async runtime: their operations are a parameter. What is documented
  of them is in terms of the permits that are free: one that is acquired leaves one fewer, a
  dropped permit comes back, a forgotten one does not, and a closed semaphore gives none.
\<close>

section \<open>Semaphores\<close>

datatype sem_poll = SemAcquired | SemClosed | SemPending

record 'sem semaphore_api =
  sem_new :: "nat \<Rightarrow> 'sem"
  sem_try_acquire :: "'sem \<Rightarrow> bool \<times> 'sem"
  sem_poll_acquire :: "'sem \<Rightarrow> sem_poll \<times> 'sem"
  sem_release :: "'sem \<Rightarrow> 'sem"
  sem_close :: "'sem \<Rightarrow> 'sem"

definition semaphore_laws :: "'sem semaphore_api \<Rightarrow> ('sem \<Rightarrow> nat) \<Rightarrow> ('sem \<Rightarrow> bool) \<Rightarrow> bool" where
  "semaphore_laws api free closed \<longleftrightarrow>
     (\<forall>n. free (sem_new api n) = n \<and> \<not> closed (sem_new api n)) \<and>
     (\<forall>s. free s = free (snd (sem_try_acquire api s)) + (if fst (sem_try_acquire api s) then 1 else 0)
        \<and> closed (snd (sem_try_acquire api s)) = closed s) \<and>
     (\<forall>s. free s = free (snd (sem_poll_acquire api s))
            + (if fst (sem_poll_acquire api s) = SemAcquired then 1 else 0)
        \<and> closed (snd (sem_poll_acquire api s)) = closed s) \<and>
     (\<forall>s. closed s \<longrightarrow> \<not> fst (sem_try_acquire api s) \<and> fst (sem_poll_acquire api s) = SemClosed) \<and>
     (\<forall>s. free (sem_release api s) = free s + 1 \<and> closed (sem_release api s) = closed s) \<and>
     (\<forall>s. free (sem_close api s) = free s \<and> closed (sem_close api s))"

text \<open>An instance: a count and whether the semaphore is closed.\<close>

definition counting_semaphore :: "(nat \<times> bool) semaphore_api" where
  "counting_semaphore =
    \<lparr> sem_new = (\<lambda>n. (n, False)),
      sem_try_acquire = (\<lambda>(n, c). if \<not> c \<and> 0 < n then (True, (n - 1, c)) else (False, (n, c))),
      sem_poll_acquire = (\<lambda>(n, c). if c then (SemClosed, (n, c))
         else if 0 < n then (SemAcquired, (n - 1, c)) else (SemPending, (n, c))),
      sem_release = (\<lambda>(n, c). (n + 1, c)),
      sem_close = (\<lambda>(n, c). (n, True)) \<rparr>"

lemma counting_semaphore_laws: "semaphore_laws counting_semaphore fst snd"
  by (auto simp: semaphore_laws_def counting_semaphore_def split: prod.splits)

section \<open>Channel and gates\<close>

datatype gate_state = Gate_Open | Gate_Limited nat | Gate_Shut

text \<open>The future of \<open>Rx::opened\<close>: not polled yet, waiting for a permit, waiting for the
  state to change from the version it has seen, or pending for ever.\<close>

datatype acquire = Acq_start | Acq_sem nat nat | Acq_changed nat | Acq_never

record gate =
  g_acquire :: "acquire option"
  g_permit :: "nat option poll"

record 'sem gate_world =
  gw_state :: gate_state
  gw_version :: nat
  gw_tx :: bool
  gw_sems :: "'sem list"
  gw_gates :: "gate option list"

datatype closed = Closed

definition gate_new :: gate where
  "gate_new = \<lparr> g_acquire = None, g_permit = Pending \<rparr>"

definition gate_channel :: "'sem gate_world" where
  "gate_channel = \<lparr> gw_state = Gate_Open, gw_version = 0, gw_tx = True, gw_sems = [],
     gw_gates = [Some gate_new] \<rparr>"

text \<open>The channel is closed when every receiver is dropped.\<close>

definition tx_is_closed :: "'sem gate_world \<Rightarrow> bool" where
  "tx_is_closed w \<longleftrightarrow> list_all (\<lambda>g. g = None) (gw_gates w)"

definition close_limited :: "'sem semaphore_api \<Rightarrow> gate_state \<Rightarrow> 'sem list \<Rightarrow> 'sem list" where
  "close_limited api old sems = (case old of
     Gate_Limited k \<Rightarrow> sems[k := sem_close api (sems ! k)] | _ \<Rightarrow> sems)"

definition tx_send_replace :: "'sem semaphore_api \<Rightarrow> gate_state \<Rightarrow> 'sem gate_world \<Rightarrow> 'sem gate_world" where
  "tx_send_replace api s w = w\<lparr> gw_state := s, gw_version := gw_version w + 1,
     gw_sems := close_limited api (gw_state w) (gw_sems w) \<rparr>"

definition tx_open :: "'sem semaphore_api \<Rightarrow> 'sem gate_world \<Rightarrow> ('sem gate_world, closed) result" where
  "tx_open api w = (if tx_is_closed w then Err Closed else Ok (tx_send_replace api Gate_Open w))"

definition tx_limit ::
  "'sem semaphore_api \<Rightarrow> nat \<Rightarrow> 'sem gate_world \<Rightarrow> (nat \<times> 'sem gate_world, closed) result" where
  "tx_limit api permits w =
    (if tx_is_closed w then Err Closed
     else let sem = length (gw_sems w);
              w' = tx_send_replace api (Gate_Limited sem) w
          in Ok (sem, w'\<lparr> gw_sems := gw_sems w' @ [sem_new api permits] \<rparr>))"

definition tx_shut :: "'sem semaphore_api \<Rightarrow> 'sem gate_world \<Rightarrow> ('sem gate_world, closed) result" where
  "tx_shut api w = (if tx_is_closed w then Err Closed else Ok (tx_send_replace api Gate_Shut w))"

section \<open>Readiness\<close>

text \<open>The top of the loop of \<open>opened\<close>: it reads the state and either returns or waits.\<close>

definition opened_top ::
  "'sem semaphore_api \<Rightarrow> 'sem gate_world \<Rightarrow> (nat option poll \<times> acquire) \<times> 'sem gate_world" where
  "opened_top api w = (case gw_state w of
     Gate_Open \<Rightarrow> ((Ready None, Acq_start), w)
   | Gate_Shut \<Rightarrow> ((Pending, Acq_changed (gw_version w)), w)
   | Gate_Limited k \<Rightarrow>
       (case sem_poll_acquire api (gw_sems w ! k) of (r, s) \<Rightarrow>
          ((case r of SemAcquired \<Rightarrow> (Ready (Some k), Acq_start)
            | SemClosed \<Rightarrow> (Pending, Acq_changed (gw_version w))
            | SemPending \<Rightarrow> (Pending, Acq_sem k (gw_version w))),
           w\<lparr> gw_sems := (gw_sems w)[k := s] \<rparr>)))"

text \<open>Waiting for a change: a new version goes round the loop, a dropped sender means for ever.\<close>

definition opened_changed ::
  "'sem semaphore_api \<Rightarrow> nat \<Rightarrow> 'sem gate_world \<Rightarrow> (nat option poll \<times> acquire) \<times> 'sem gate_world" where
  "opened_changed api seen w =
    (if gw_version w \<noteq> seen then opened_top api w
     else if \<not> gw_tx w then ((Pending, Acq_never), w)
     else ((Pending, Acq_changed seen), w))"

fun opened_poll ::
  "'sem semaphore_api \<Rightarrow> acquire \<Rightarrow> 'sem gate_world \<Rightarrow> (nat option poll \<times> acquire) \<times> 'sem gate_world" where
  "opened_poll api Acq_start w = opened_top api w"
| "opened_poll api (Acq_changed seen) w = opened_changed api seen w"
| "opened_poll api Acq_never w = ((Pending, Acq_never), w)"
| "opened_poll api (Acq_sem k seen) w =
    (case sem_poll_acquire api (gw_sems w ! k) of (r, s) \<Rightarrow>
       let w' = w\<lparr> gw_sems := (gw_sems w)[k := s] \<rparr> in
       (case r of SemAcquired \<Rightarrow> ((Ready (Some k), Acq_start), w')
        | SemPending \<Rightarrow> ((Pending, Acq_sem k seen), w')
        | SemClosed \<Rightarrow> opened_changed api seen w'))"

definition poll_future ::
  "'sem semaphore_api \<Rightarrow> acquire \<Rightarrow> gate \<Rightarrow> 'sem gate_world \<Rightarrow> nat option poll \<times> gate \<times> 'sem gate_world" where
  "poll_future api a g w = (case opened_poll api a w of
     ((Pending, a'), w') \<Rightarrow> (Pending, g\<lparr> g_acquire := Some a' \<rparr>, w')
   | ((Ready p, a'), w') \<Rightarrow> (Ready p, g\<lparr> g_acquire := None \<rparr>, w'))"

definition poll_acquire ::
  "'sem semaphore_api \<Rightarrow> gate \<Rightarrow> 'sem gate_world \<Rightarrow> nat option poll \<times> gate \<times> 'sem gate_world" where
  "poll_acquire api g w = (case g_acquire g of
     Some a \<Rightarrow> poll_future api a g w
   | None \<Rightarrow>
       (case gw_state w of
          Gate_Open \<Rightarrow> (Ready None, g, w)
        | Gate_Limited k \<Rightarrow>
            (case sem_try_acquire api (gw_sems w ! k) of (ok, s) \<Rightarrow>
               let w' = w\<lparr> gw_sems := (gw_sems w)[k := s] \<rparr> in
               if ok then (Ready (Some k), g, w') else poll_future api Acq_start g w')
        | Gate_Shut \<Rightarrow> poll_future api Acq_start g w))"

text \<open>A permit that is dropped goes back to its semaphore.\<close>

definition drop_permit :: "'sem semaphore_api \<Rightarrow> nat option \<Rightarrow> 'sem gate_world \<Rightarrow> 'sem gate_world" where
  "drop_permit api p w = (case p of
     None \<Rightarrow> w | Some k \<Rightarrow> w\<lparr> gw_sems := (gw_sems w)[k := sem_release api (gw_sems w ! k)] \<rparr>)"

definition drop_held :: "'sem semaphore_api \<Rightarrow> gate \<Rightarrow> 'sem gate_world \<Rightarrow> 'sem gate_world" where
  "drop_held api g w = (case g_permit g of Ready p \<Rightarrow> drop_permit api p w | Pending \<Rightarrow> w)"

definition gate_poll_ready ::
  "'sem semaphore_api \<Rightarrow> ('e + unit) poll \<Rightarrow> gate \<Rightarrow> 'sem gate_world
     \<Rightarrow> ('e + unit) poll \<times> gate \<times> 'sem gate_world" where
  "gate_poll_ready api inner g w =
    (let w = drop_held api g w; g = g\<lparr> g_permit := Pending \<rparr> in
     case poll_acquire api g w of
       (Pending, g, w) \<Rightarrow> (Pending, g, w)
     | (Ready permit, g, w) \<Rightarrow>
         (case inner of
            Ready (Inr _) \<Rightarrow> (Ready (Inr ()), g\<lparr> g_permit := Ready permit \<rparr>, w)
          | r \<Rightarrow> (r, g, drop_permit api permit w)))"

definition gate_call :: "gate \<Rightarrow> (nat option \<times> gate) outcome" where
  "gate_call g = (case g_permit g of
     Pending \<Rightarrow> Panics ''poll_ready must be called first''
   | Ready p \<Rightarrow> Returns (p, g\<lparr> g_permit := Pending \<rparr>))"

section \<open>Runs\<close>

datatype 'e gate_event =
    Ev_Open
  | Ev_Limit nat
  | Ev_Shut
  | Ev_DropTx
  | Ev_Clone nat
  | Ev_Drop nat
  | Ev_PollReady nat "('e + unit) poll"
  | Ev_Call nat

datatype 'e gate_output =
    Out_None
  | Out_Closed
  | Out_Limited nat
  | Out_Polled "('e + unit) poll"
  | Out_Called "nat option"
  | Out_Panic

definition with_gate :: "'sem gate_world \<Rightarrow> nat \<Rightarrow> gate option" where
  "with_gate w i = (if i < length (gw_gates w) then gw_gates w ! i else None)"

definition set_gate :: "nat \<Rightarrow> gate option \<Rightarrow> 'sem gate_world \<Rightarrow> 'sem gate_world" where
  "set_gate i g w = w\<lparr> gw_gates := (gw_gates w)[i := g] \<rparr>"

fun gate_step ::
  "'sem semaphore_api \<Rightarrow> 'e gate_event \<Rightarrow> 'sem gate_world \<Rightarrow> 'sem gate_world \<times> 'e gate_output" where
  "gate_step api Ev_Open w = (if gw_tx w then
     case tx_open api w of Inl _ \<Rightarrow> (w, Out_Closed) | Inr w' \<Rightarrow> (w', Out_None) else (w, Out_None))"
| "gate_step api (Ev_Limit n) w = (if gw_tx w then
     case tx_limit api n w of Inl _ \<Rightarrow> (w, Out_Closed) | Inr (k, w') \<Rightarrow> (w', Out_Limited k) else (w, Out_None))"
| "gate_step api Ev_Shut w = (if gw_tx w then
     case tx_shut api w of Inl _ \<Rightarrow> (w, Out_Closed) | Inr w' \<Rightarrow> (w', Out_None) else (w, Out_None))"
| "gate_step api Ev_DropTx w = (w\<lparr> gw_tx := False \<rparr>, Out_None)"
| "gate_step api (Ev_Clone i) w = (case with_gate w i of None \<Rightarrow> (w, Out_None)
     | Some g \<Rightarrow> (w\<lparr> gw_gates := gw_gates w @ [Some gate_new] \<rparr>, Out_None))"
| "gate_step api (Ev_Drop i) w = (case with_gate w i of None \<Rightarrow> (w, Out_None)
     | Some g \<Rightarrow> (set_gate i None (drop_held api g w), Out_None))"
| "gate_step api (Ev_PollReady i inner) w = (case with_gate w i of None \<Rightarrow> (w, Out_None)
     | Some g \<Rightarrow> (case gate_poll_ready api inner g w of
          (r, g', w') \<Rightarrow> (set_gate i (Some g') w', Out_Polled r)))"
| "gate_step api (Ev_Call i) w = (case with_gate w i of None \<Rightarrow> (w, Out_None)
     | Some g \<Rightarrow> (case gate_call g of
          Panics _ \<Rightarrow> (w, Out_Panic)
        | Returns (p, g') \<Rightarrow> (set_gate i (Some g') w, Out_Called p)))"

text \<open>The worlds that can be reached, with the events that led there and what they returned.\<close>

inductive gate_reach :: "'sem semaphore_api \<Rightarrow> ('e gate_event \<times> 'e gate_output) list \<Rightarrow> 'sem gate_world \<Rightarrow> bool"
  for api where
  Reach_channel: "gate_reach api [] gate_channel"
| Reach_step: "gate_reach api tr w \<Longrightarrow>
    gate_reach api (tr @ [(ev, snd (gate_step api ev w))]) (fst (gate_step api ev w))"

text \<open>The permits a semaphore was made with, and the calls that were admitted on it.\<close>

definition permits_of :: "('e gate_event \<times> 'e gate_output) list \<Rightarrow> nat \<Rightarrow> nat" where
  "permits_of tr k = sum_list (map (\<lambda>x. case x of (Ev_Limit n, Out_Limited j) \<Rightarrow> if j = k then n else 0 | _ \<Rightarrow> 0) tr)"

definition admitted :: "('e gate_event \<times> 'e gate_output) list \<Rightarrow> nat \<Rightarrow> nat" where
  "admitted tr k = length (filter (\<lambda>x. snd x = Out_Called (Some k)) tr)"

section \<open>Conservation of permits\<close>

definition holds :: "gate \<Rightarrow> nat \<Rightarrow> nat" where
  "holds g k = (if g_permit g = Ready (Some k) then 1 else 0)"

definition held :: "gate option list \<Rightarrow> nat \<Rightarrow> nat" where
  "held gs k = sum_list (map (\<lambda>g. case g of None \<Rightarrow> 0 | Some g \<Rightarrow> holds g k) gs)"

definition free_of :: "('sem \<Rightarrow> nat) \<Rightarrow> 'sem list \<Rightarrow> nat \<Rightarrow> nat" where
  "free_of free sems k = (if k < length sems then free (sems ! k) else 0)"

fun acquire_wf :: "nat \<Rightarrow> acquire \<Rightarrow> bool" where
  "acquire_wf n (Acq_sem k _) = (k < n)"
| "acquire_wf n _ = True"

definition gate_wf :: "nat \<Rightarrow> gate \<Rightarrow> bool" where
  "gate_wf n g \<longleftrightarrow> (case g_acquire g of None \<Rightarrow> True | Some a \<Rightarrow> acquire_wf n a) \<and>
     (\<forall>k. g_permit g = Ready (Some k) \<longrightarrow> k < n)"

definition state_wf :: "nat \<Rightarrow> gate_state \<Rightarrow> bool" where
  "state_wf n s \<longleftrightarrow> (\<forall>k. s = Gate_Limited k \<longrightarrow> k < n)"

text \<open>Only the semaphores change while a gate is polled, and a permit leaves one of them exactly
  when the poll returns it.\<close>

definition only_sems :: "'sem gate_world \<Rightarrow> 'sem gate_world \<Rightarrow> bool" where
  "only_sems w w' \<longleftrightarrow> gw_state w' = gw_state w \<and> gw_version w' = gw_version w \<and>
     gw_tx w' = gw_tx w \<and> gw_gates w' = gw_gates w \<and> length (gw_sems w') = length (gw_sems w)"

definition takes :: "('sem \<Rightarrow> nat) \<Rightarrow> 'sem gate_world \<Rightarrow> nat option poll \<Rightarrow> 'sem gate_world \<Rightarrow> bool" where
  "takes free w p w' \<longleftrightarrow> only_sems w w' \<and>
     (\<forall>k. p = Ready (Some k) \<longrightarrow> k < length (gw_sems w)) \<and>
     (\<forall>k. free_of free (gw_sems w) k =
        free_of free (gw_sems w') k + (if p = Ready (Some k) then 1 else 0))"

lemma takes_refl: "takes free w Pending w" "takes free w (Ready None) w"
  by (simp_all add: takes_def only_sems_def)

lemma takes_trans: "takes free w Pending w' \<Longrightarrow> takes free w' p w'' \<Longrightarrow> takes free w p w''"
  by (simp add: takes_def only_sems_def)

lemma takes_acquired:
  "k < length (gw_sems w) \<Longrightarrow> free (gw_sems w ! k) = free s + 1
     \<Longrightarrow> takes free w (Ready (Some k)) (w\<lparr> gw_sems := (gw_sems w)[k := s] \<rparr>)"
  by (simp add: takes_def only_sems_def free_of_def nth_list_update)

lemma takes_pending:
  "k < length (gw_sems w) \<Longrightarrow> free (gw_sems w ! k) = free s
     \<Longrightarrow> takes free w Pending (w\<lparr> gw_sems := (gw_sems w)[k := s] \<rparr>)"
  by (simp add: takes_def only_sems_def free_of_def nth_list_update)

lemma poll_acquire_free:
  "semaphore_laws api free closed \<Longrightarrow>
     free s = free (snd (sem_poll_acquire api s)) + (if fst (sem_poll_acquire api s) = SemAcquired then 1 else 0)"
  unfolding semaphore_laws_def by blast

lemma try_acquire_free:
  "semaphore_laws api free closed \<Longrightarrow>
     free s = free (snd (sem_try_acquire api s)) + (if fst (sem_try_acquire api s) then 1 else 0)"
  unfolding semaphore_laws_def by blast

lemma takes_polled:
  assumes "semaphore_laws api free closed" "k < length (gw_sems w)"
    "sem_poll_acquire api (gw_sems w ! k) = (r, s)"
  shows "takes free w (if r = SemAcquired then Ready (Some k) else Pending)
    (w\<lparr> gw_sems := (gw_sems w)[k := s] \<rparr>)"
  using takes_acquired [OF assms(2), of free s] takes_pending [OF assms(2), of free s]
    poll_acquire_free [OF assms(1), of "gw_sems w ! k"] by (simp add: assms(3) split: if_splits)

lemma opened_top_takes:
  assumes laws: "semaphore_laws api free closed" and wf: "state_wf (length (gw_sems w)) (gw_state w)"
    and eq: "opened_top api w = ((p, a), w')"
  shows "takes free w p w' \<and> acquire_wf (length (gw_sems w)) a"
proof (cases "gw_state w")
  case (Gate_Limited k)
  obtain r s where rs: "sem_poll_acquire api (gw_sems w ! k) = (r, s)" by (cases "sem_poll_acquire api (gw_sems w ! k)")
  have k: "k < length (gw_sems w)" using wf Gate_Limited by (simp add: state_wf_def)
  have t: "takes free w (if r = SemAcquired then Ready (Some k) else Pending) (w\<lparr> gw_sems := (gw_sems w)[k := s] \<rparr>)"
    using laws k rs by (rule takes_polled)
  show ?thesis
  proof (cases r)
    case SemAcquired
    then have "p = Ready (Some k)" "a = Acq_start" "w' = w\<lparr> gw_sems := (gw_sems w)[k := s] \<rparr>"
      using eq by (simp_all add: opened_top_def Gate_Limited rs)
    then show ?thesis using t SemAcquired by simp
  next
    case SemClosed
    then have "p = Pending" "a = Acq_changed (gw_version w)" "w' = w\<lparr> gw_sems := (gw_sems w)[k := s] \<rparr>"
      using eq by (simp_all add: opened_top_def Gate_Limited rs)
    then show ?thesis using t SemClosed by simp
  next
    case SemPending
    then have "p = Pending" "a = Acq_sem k (gw_version w)" "w' = w\<lparr> gw_sems := (gw_sems w)[k := s] \<rparr>"
      using eq by (simp_all add: opened_top_def Gate_Limited rs)
    then show ?thesis using t SemPending k by simp
  qed
qed (use eq in \<open>auto simp: opened_top_def takes_refl\<close>)

lemma opened_changed_takes:
  assumes "semaphore_laws api free closed" "state_wf (length (gw_sems w)) (gw_state w)"
    and "opened_changed api seen w = ((p, a), w')"
  shows "takes free w p w' \<and> acquire_wf (length (gw_sems w)) a"
  using assms opened_top_takes [of api free closed w p a w']
  by (auto simp: opened_changed_def takes_refl split: if_splits)

lemma opened_poll_takes:
  assumes laws: "semaphore_laws api free closed" and wf: "state_wf (length (gw_sems w)) (gw_state w)"
    and a: "acquire_wf (length (gw_sems w)) a" and eq: "opened_poll api a w = ((p, a'), w')"
  shows "takes free w p w' \<and> acquire_wf (length (gw_sems w)) a'"
proof (cases a)
  case (Acq_sem k seen)
  obtain r s where rs: "sem_poll_acquire api (gw_sems w ! k) = (r, s)" by (cases "sem_poll_acquire api (gw_sems w ! k)")
  have k: "k < length (gw_sems w)" using a Acq_sem by simp
  let ?w = "w\<lparr> gw_sems := (gw_sems w)[k := s] \<rparr>"
  have f: "free (gw_sems w ! k) = free s + (if r = SemAcquired then 1 else 0)"
    using poll_acquire_free [OF laws, of "gw_sems w ! k"] by (simp add: rs)
  show ?thesis
  proof (cases r)
    case SemClosed
    have "takes free w Pending ?w" using f k SemClosed by (intro takes_pending) simp_all
    moreover have "takes free ?w p w' \<and> acquire_wf (length (gw_sems ?w)) a'"
      using opened_changed_takes [OF laws, of ?w seen p a' w'] wf eq SemClosed by (simp add: Acq_sem rs Let_def)
    ultimately show ?thesis using takes_trans [of free w ?w p w'] by simp
  qed (use eq f k in \<open>auto simp: Acq_sem rs Let_def takes_acquired takes_pending\<close>)
qed (use eq opened_top_takes [OF laws wf] opened_changed_takes [OF laws wf] in \<open>auto simp: takes_refl\<close>)

lemma poll_future_takes:
  assumes laws: "semaphore_laws api free closed" and wf: "state_wf (length (gw_sems w)) (gw_state w)"
    and a: "acquire_wf (length (gw_sems w)) a" and g: "g_permit g = Pending"
    and eq: "poll_future api a g w = (p, g', w')"
  shows "takes free w p w' \<and> gate_wf (length (gw_sems w)) g' \<and> g_permit g' = Pending"
proof -
  obtain p1 a1 w1 where o: "opened_poll api a w = ((p1, a1), w1)" by (cases "opened_poll api a w") auto
  show ?thesis using opened_poll_takes [OF laws wf a o] eq g
    by (cases p1) (auto simp: poll_future_def o gate_wf_def)
qed

lemma poll_acquire_takes:
  assumes laws: "semaphore_laws api free closed" and wf: "state_wf (length (gw_sems w)) (gw_state w)"
    and g: "gate_wf (length (gw_sems w)) g" "g_permit g = Pending"
    and eq: "poll_acquire api g w = (p, g', w')"
  shows "takes free w p w' \<and> gate_wf (length (gw_sems w)) g' \<and> g_permit g' = Pending"
proof (cases "g_acquire g")
  case (Some a)
  then show ?thesis using poll_future_takes [OF laws wf _ g(2), of a p g' w'] g(1) eq
    by (simp add: poll_acquire_def gate_wf_def)
next
  case None
  have start: "poll_future api Acq_start g v = (p, g', w') \<Longrightarrow> state_wf (length (gw_sems v)) (gw_state v)
      \<Longrightarrow> takes free v p w' \<and> gate_wf (length (gw_sems v)) g' \<and> g_permit g' = Pending" for v
    using poll_future_takes [OF laws _ _ g(2), of v Acq_start p g' w'] by simp
  show ?thesis
  proof (cases "gw_state w")
    case (Gate_Limited k)
    obtain ok s where rs: "sem_try_acquire api (gw_sems w ! k) = (ok, s)" by (cases "sem_try_acquire api (gw_sems w ! k)")
    have k: "k < length (gw_sems w)" using wf Gate_Limited by (simp add: state_wf_def)
    let ?w = "w\<lparr> gw_sems := (gw_sems w)[k := s] \<rparr>"
    have f: "free (gw_sems w ! k) = free s + (if ok then 1 else 0)"
      using try_acquire_free [OF laws, of "gw_sems w ! k"] by (simp add: rs)
    show ?thesis
    proof (cases ok)
      case True
      then show ?thesis using f k eq g
        by (auto simp: poll_acquire_def None Gate_Limited rs Let_def takes_acquired)
    next
      case False
      have "takes free w Pending ?w" using f k False by (intro takes_pending) simp_all
      moreover have "takes free ?w p w' \<and> gate_wf (length (gw_sems ?w)) g' \<and> g_permit g' = Pending"
        using start [of ?w] wf eq False by (simp add: poll_acquire_def None Gate_Limited rs Let_def)
      ultimately show ?thesis using takes_trans [of free w ?w p w'] by simp
    qed
  qed (use start [of w] wf eq g None in \<open>auto simp: poll_acquire_def takes_refl\<close>)
qed

lemma release_free: "semaphore_laws api free closed \<Longrightarrow> free (sem_release api s) = free s + 1"
  unfolding semaphore_laws_def by blast

lemma close_free: "semaphore_laws api free closed \<Longrightarrow> free (sem_close api s) = free s"
  unfolding semaphore_laws_def by blast

lemma new_free: "semaphore_laws api free closed \<Longrightarrow> free (sem_new api n) = n"
  unfolding semaphore_laws_def by blast

lemma drop_permit_free:
  assumes "semaphore_laws api free closed" "\<forall>k. p = Some k \<longrightarrow> k < length (gw_sems w)"
  shows "only_sems w (drop_permit api p w) \<and>
    (\<forall>k. free_of free (gw_sems (drop_permit api p w)) k =
       free_of free (gw_sems w) k + (if p = Some k then 1 else 0))"
  using assms
  by (cases p) (auto simp: drop_permit_def only_sems_def free_of_def nth_list_update release_free [OF assms(1)])

lemma drop_held_free:
  assumes "semaphore_laws api free closed" "gate_wf (length (gw_sems w)) g"
  shows "only_sems w (drop_held api g w) \<and>
    (\<forall>k. free_of free (gw_sems (drop_held api g w)) k = free_of free (gw_sems w) k + holds g k)"
  using assms(2) drop_permit_free [OF assms(1), of "case g_permit g of Ready p \<Rightarrow> p | Pending \<Rightarrow> None" w]
  by (cases "g_permit g") (auto simp: drop_held_def gate_wf_def holds_def only_sems_def)

lemma gate_poll_ready_conserves:
  assumes laws: "semaphore_laws api free closed" and wf: "state_wf (length (gw_sems w)) (gw_state w)"
    and g: "gate_wf (length (gw_sems w)) g" and eq: "gate_poll_ready api inner g w = (r, g', w')"
  shows "only_sems w w' \<and> gate_wf (length (gw_sems w)) g' \<and>
    (\<forall>k. free_of free (gw_sems w') k + holds g' k = free_of free (gw_sems w) k + holds g k)"
proof -
  define w1 where "w1 = drop_held api g w"
  define g1 where "g1 = g\<lparr> g_permit := Pending \<rparr>"
  obtain p g2 w2 where pa: "poll_acquire api g1 w1 = (p, g2, w2)" by (cases "poll_acquire api g1 w1")
  have w1: "only_sems w w1" "\<And>k. free_of free (gw_sems w1) k = free_of free (gw_sems w) k + holds g k"
    using drop_held_free [OF laws g] by (simp_all add: w1_def)
  have n: "length (gw_sems w1) = length (gw_sems w)" "gw_state w1 = gw_state w" using w1(1) by (simp_all add: only_sems_def)
  have "gate_wf (length (gw_sems w1)) g1" "g_permit g1 = Pending" using g n by (simp_all add: g1_def gate_wf_def)
  with poll_acquire_takes [OF laws _ _ _ pa] wf n
  have t: "takes free w1 p w2" "gate_wf (length (gw_sems w)) g2" "g_permit g2 = Pending" by simp_all
  have w2: "only_sems w w2" using w1(1) t(1) by (simp add: takes_def only_sems_def)
  show ?thesis
  proof (cases p)
    case Pending
    then have "g' = g2" "w' = w2" using eq pa by (simp_all add: gate_poll_ready_def Let_def w1_def [symmetric] g1_def [symmetric])
    then show ?thesis using w1(2) w2 t Pending by (simp add: takes_def holds_def)
  next
    case (Ready q)
    have q: "\<forall>k. q = Some k \<longrightarrow> k < length (gw_sems w2)" using t(1) Ready by (simp add: takes_def only_sems_def)
    have f: "free_of free (gw_sems w) k + holds g k = free_of free (gw_sems w2) k + (if q = Some k then 1 else 0)" for k
      using t(1) w1(2) Ready by (simp add: takes_def)
    show ?thesis
    proof (cases "inner = Ready (Inr ())")
      case True
      then have "g' = g2\<lparr> g_permit := Ready q \<rparr>" "w' = w2"
        using eq pa Ready by (simp_all add: gate_poll_ready_def Let_def w1_def [symmetric] g1_def [symmetric])
      then show ?thesis using f w2 t(2) q by (simp add: holds_def gate_wf_def only_sems_def)
    next
      case False
      then have "g' = g2" "w' = drop_permit api q w2"
        using eq pa Ready by (auto simp: gate_poll_ready_def Let_def w1_def [symmetric] g1_def [symmetric] split: poll.splits sum.splits)
      then show ?thesis using f w2 t(2,3) drop_permit_free [OF laws q] by (simp add: holds_def only_sems_def)
    qed
  qed
qed

lemma held_update:
  "i < length gs \<Longrightarrow>
     held (gs[i := g]) k + (case gs ! i of None \<Rightarrow> 0 | Some h \<Rightarrow> holds h k) =
     held gs k + (case g of None \<Rightarrow> 0 | Some h \<Rightarrow> holds h k)"
proof (induction gs arbitrary: i)
  case (Cons a gs)
  then show ?case by (cases i) (auto simp: held_def)
qed simp

lemma held_append [simp]: "held (gs @ hs) k = held gs k + held hs k"
  by (simp add: held_def)

lemma with_gate_Some: "with_gate w i = Some g \<Longrightarrow> i < length (gw_gates w) \<and> gw_gates w ! i = Some g"
  by (simp add: with_gate_def split: if_splits)

text \<open>The invariant: of the permits a semaphore was made with, some are free, some are held by
  gates and the rest have been used by a call.\<close>

definition world_wf :: "'sem gate_world \<Rightarrow> bool" where
  "world_wf w \<longleftrightarrow> state_wf (length (gw_sems w)) (gw_state w) \<and>
     (\<forall>g. Some g \<in> set (gw_gates w) \<longrightarrow> gate_wf (length (gw_sems w)) g)"

definition outstanding :: "('sem \<Rightarrow> nat) \<Rightarrow> 'sem gate_world \<Rightarrow> nat \<Rightarrow> nat" where
  "outstanding free w k = free_of free (gw_sems w) k + held (gw_gates w) k"

definition used :: "'e gate_output \<Rightarrow> nat \<Rightarrow> nat" where
  "used out k = (if out = Out_Called (Some k) then 1 else 0)"

definition made :: "'e gate_event \<times> 'e gate_output \<Rightarrow> nat \<Rightarrow> nat" where
  "made x k = (case x of (Ev_Limit n, Out_Limited j) \<Rightarrow> if j = k then n else 0 | _ \<Rightarrow> 0)"

lemma gate_wf_mono: "gate_wf n g \<Longrightarrow> n \<le> m \<Longrightarrow> gate_wf m g"
proof -
  assume "gate_wf n g" "n \<le> m"
  moreover have "acquire_wf n a \<Longrightarrow> acquire_wf m a" for a using \<open>n \<le> m\<close> by (cases a) simp_all
  ultimately show ?thesis by (auto simp: gate_wf_def split: option.splits)
qed

lemma send_replace_conserves:
  assumes laws: "semaphore_laws api free closed" and wf: "world_wf w"
  shows "gw_gates (tx_send_replace api s w) = gw_gates w \<and>
    length (gw_sems (tx_send_replace api s w)) = length (gw_sems w) \<and>
    gw_state (tx_send_replace api s w) = s \<and>
    (\<forall>k. free_of free (gw_sems (tx_send_replace api s w)) k = free_of free (gw_sems w) k)"
  using wf by (cases "gw_state w") (auto simp: tx_send_replace_def close_limited_def free_of_def
      world_wf_def state_wf_def nth_list_update close_free [OF laws])

definition conserves ::
  "('sem \<Rightarrow> nat) \<Rightarrow> 'sem gate_world \<Rightarrow> 'e gate_event \<Rightarrow> 'sem gate_world \<times> 'e gate_output \<Rightarrow> bool" where
  "conserves free w ev res \<longleftrightarrow> world_wf (fst res) \<and>
     (\<forall>k. outstanding free (fst res) k + used (snd res) k = outstanding free w k + made (ev, snd res) k)"

lemma conserves_same: "world_wf w \<Longrightarrow> out = Out_None \<or> out = Out_Closed \<or> out = Out_Panic \<Longrightarrow> conserves free w ev (w, out)"
  by (cases ev) (auto simp: conserves_def used_def made_def)

lemma send_step_conserves:
  assumes laws: "semaphore_laws api free closed" and wf: "world_wf w"
    and s: "s \<in> {Gate_Open, Gate_Shut}" and ev: "\<And>n. ev \<noteq> Ev_Limit n"
  shows "conserves free w ev (tx_send_replace api s w, Out_None)"
  using send_replace_conserves [OF laws wf, of s] wf s
  by (auto simp: conserves_def world_wf_def outstanding_def used_def made_def state_wf_def split: gate_event.splits)

lemma limit_step_conserves:
  assumes laws: "semaphore_laws api free closed" and wf: "world_wf w" and lim: "tx_limit api n w = Ok (k, w')"
  shows "conserves free w (Ev_Limit n) (w', Out_Limited k)"
proof -
  let ?k = "length (gw_sems w)"
  let ?w = "tx_send_replace api (Gate_Limited ?k) w"
  have k: "k = ?k" "w' = ?w\<lparr> gw_sems := gw_sems ?w @ [sem_new api n] \<rparr>"
    using lim by (auto simp: tx_limit_def Let_def split: if_splits)
  note sr = send_replace_conserves [OF laws wf, of "Gate_Limited ?k"]
  have fresh: "held (gw_gates w) ?k = 0"
  proof -
    have "(case g of None \<Rightarrow> 0 | Some h \<Rightarrow> holds h ?k) = 0" if "g \<in> set (gw_gates w)" for g
      using wf that by (cases g) (auto simp: world_wf_def gate_wf_def holds_def)
    then show ?thesis by (simp add: held_def)
  qed
  have "free_of free (gw_sems w') j = free_of free (gw_sems w) j + (if j = ?k then n else 0)" for j
  proof -
    have "free_of free (gw_sems ?w) j = free_of free (gw_sems w) j" "length (gw_sems ?w) = ?k" using sr by simp_all
    then show ?thesis using new_free [OF laws, of n] by (auto simp: k(2) free_of_def nth_append split: if_splits)
  qed
  moreover have "world_wf w'"
    using wf sr gate_wf_mono by (auto simp: world_wf_def k(2) state_wf_def)
  ultimately show ?thesis using sr
    by (auto simp: conserves_def outstanding_def used_def made_def k)
qed

lemma set_gate_conserves:
  assumes wf: "world_wf w" and i: "with_gate w i = Some g" and o: "only_sems w w'"
    and g': "\<And>h. g' = Some h \<Longrightarrow> gate_wf (length (gw_sems w)) h"
  shows "world_wf (set_gate i g' w') \<and>
    (\<forall>k. held (gw_gates (set_gate i g' w')) k + holds g k =
       held (gw_gates w) k + (case g' of None \<Rightarrow> 0 | Some h \<Rightarrow> holds h k))"
  using held_update [of i "gw_gates w" g'] with_gate_Some [OF i] wf o g'
  by (auto simp: world_wf_def set_gate_def only_sems_def dest!: set_update_subset_insert [THEN subsetD])

lemma gate_step_conserves:
  fixes ev :: "'e gate_event"
  assumes laws: "semaphore_laws api free closed" and wf: "world_wf w"
  shows "conserves free w ev (gate_step api ev w)"
proof (cases ev)
  case (Ev_Limit n)
  then show ?thesis using limit_step_conserves [OF laws wf] wf
    by (auto simp: conserves_same split: sum.splits)
next
  case (Ev_Clone i)
  then show ?thesis using wf
    by (auto simp: conserves_def world_wf_def outstanding_def used_def made_def held_def holds_def gate_wf_def gate_new_def
        split: option.splits)
next
  case (Ev_Drop i)
  show ?thesis
  proof (cases "with_gate w i")
    case (Some g)
    have g: "gate_wf (length (gw_sems w)) g"
      using with_gate_Some [OF Some] wf by (auto simp: world_wf_def dest: nth_mem)
    have "world_wf (set_gate i None (drop_held api g w)) \<and>
      (\<forall>k. held (gw_gates (set_gate i None (drop_held api g w))) k + holds g k = held (gw_gates w) k)"
      using set_gate_conserves [OF wf Some, of "drop_held api g w" None] drop_held_free [OF laws g] by simp
    then show ?thesis using drop_held_free [OF laws g] Some
      by (auto simp: Ev_Drop conserves_def outstanding_def used_def made_def set_gate_def) (metis add.assoc add.commute)
  qed (use wf Ev_Drop in \<open>simp add: conserves_same\<close>)
next
  case (Ev_PollReady i inner)
  show ?thesis
  proof (cases "with_gate w i")
    case (Some g)
    obtain r g' w' where pr: "gate_poll_ready api inner g w = (r, g', w')" by (cases "gate_poll_ready api inner g w")
    have g: "gate_wf (length (gw_sems w)) g"
      using with_gate_Some [OF Some] wf by (auto simp: world_wf_def dest: nth_mem)
    have c: "only_sems w w'" "gate_wf (length (gw_sems w)) g'"
      "\<And>k. free_of free (gw_sems w') k + holds g' k = free_of free (gw_sems w) k + holds g k"
      using gate_poll_ready_conserves [OF laws _ g pr] wf by (simp_all add: world_wf_def)
    have h: "world_wf (set_gate i (Some g') w')"
      "\<And>k. held (gw_gates (set_gate i (Some g') w')) k + holds g k = held (gw_gates w) k + holds g' k"
      using set_gate_conserves [OF wf Some c(1), of "Some g'"] c(2) by simp_all
    have "outstanding free (set_gate i (Some g') w') k = outstanding free w k" for k
      using c(3) [of k] h(2) [of k] by (simp add: outstanding_def set_gate_def)
    then show ?thesis using h(1) Some by (simp add: Ev_PollReady pr conserves_def used_def made_def)
  qed (use wf Ev_PollReady in \<open>simp add: conserves_same\<close>)
next
  case (Ev_Call i)
  show ?thesis
  proof (cases "with_gate w i")
    case (Some g)
    have g: "gate_wf (length (gw_sems w)) g"
      using with_gate_Some [OF Some] wf by (auto simp: world_wf_def dest: nth_mem)
    show ?thesis
    proof (cases "g_permit g")
      case Pending
      then show ?thesis using wf Some by (simp add: Ev_Call gate_call_def conserves_same)
    next
      case (Ready p)
      have h: "world_wf (set_gate i (Some (g\<lparr> g_permit := Pending \<rparr>)) w)"
        "\<And>k. held (gw_gates (set_gate i (Some (g\<lparr> g_permit := Pending \<rparr>)) w)) k + holds g k = held (gw_gates w) k"
        using set_gate_conserves [OF wf Some, of w "Some (g\<lparr> g_permit := Pending \<rparr>)"] g
        by (simp_all add: only_sems_def gate_wf_def holds_def)
      have "outstanding free (set_gate i (Some (g\<lparr> g_permit := Pending \<rparr>)) w) k + used (Out_Called p :: 'e gate_output) k =
          outstanding free w k" for k
        using h(2) [of k] Ready by (simp add: outstanding_def set_gate_def used_def holds_def split: if_splits)
      then show ?thesis using h(1) Some Ready by (simp add: Ev_Call gate_call_def conserves_def made_def)
    qed
  qed (use wf Ev_Call in \<open>simp add: conserves_same\<close>)
next
  case Ev_Open
  then show ?thesis using send_step_conserves [OF laws wf, of Gate_Open ev] wf
    by (simp add: tx_open_def conserves_same)
next
  case Ev_Shut
  then show ?thesis using send_step_conserves [OF laws wf, of Gate_Shut ev] wf
    by (simp add: tx_shut_def conserves_same)
next
  case Ev_DropTx
  then show ?thesis using wf by (simp add: conserves_def world_wf_def outstanding_def used_def made_def)
qed

text \<open>Every reachable world.\<close>

lemma permits_of_snoc: "permits_of (tr @ [x]) k = permits_of tr k + made x k"
  by (simp add: permits_of_def made_def)

lemma admitted_snoc: "admitted (tr @ [(ev, out)]) k = admitted tr k + used out k"
  by (simp add: admitted_def used_def)

lemma gate_reach_conserves:
  assumes laws: "semaphore_laws api free closed"
  shows "gate_reach api tr w \<Longrightarrow> world_wf w \<and> (\<forall>k. outstanding free w k + admitted tr k = permits_of tr k)"
proof (induction rule: gate_reach.induct)
  case Reach_channel
  then show ?case
    by (simp add: gate_channel_def world_wf_def state_wf_def gate_wf_def gate_new_def outstanding_def
        free_of_def held_def holds_def admitted_def permits_of_def)
next
  case (Reach_step tr w ev)
  then have "conserves free w ev (gate_step api ev w)" by (intro gate_step_conserves [OF laws]) simp
  then show ?case using Reach_step.IH
    by (simp add: conserves_def permits_of_snoc admitted_snoc) (metis (no_types, lifting) add.assoc add.commute)
qed

text \<open>However often gates are cloned, polled, called and dropped, and however the sender changes
  the state, the calls made on the permits of a semaphore are at most the permits it was made with.\<close>

lemma permit_calls_at_most:
  assumes "semaphore_laws api free closed" "gate_reach api tr w"
  shows "admitted tr k \<le> permits_of tr k"
  using gate_reach_conserves [OF assms, THEN conjunct2, THEN spec, of k] by simp

fun gate_run ::
  "'sem semaphore_api \<Rightarrow> 'e gate_event list \<Rightarrow> 'sem gate_world
     \<Rightarrow> ('e gate_event \<times> 'e gate_output) list \<times> 'sem gate_world" where
  "gate_run api [] w = ([], w)"
| "gate_run api (ev # evs) w =
    (let r = gate_step api ev w; rs = gate_run api evs (fst r) in ((ev, snd r) # fst rs, snd rs))"

lemma gate_reach_run:
  "gate_reach api tr w \<Longrightarrow> gate_reach api (tr @ fst (gate_run api evs w)) (snd (gate_run api evs w))"
proof (induction evs arbitrary: tr w)
  case (Cons ev evs)
  from Cons.IH [OF Reach_step [OF Cons.prems, of ev]] show ?case by (simp add: Let_def)
qed simp

definition sample_gate_events :: "unit gate_event list" where
  "sample_gate_events =
     [Ev_Shut, Ev_Clone 0, Ev_PollReady 0 (Ready (Inr ())), Ev_Limit 1, Ev_PollReady 1 (Ready (Inr ())),
      Ev_PollReady 0 (Ready (Inr ())), Ev_Call 1, Ev_PollReady 1 (Ready (Inr ()))]"

lemma gate_step_length:
  assumes laws: "semaphore_laws api free closed" and wf: "world_wf w"
  shows "length (gw_sems (fst (gate_step api ev w))) =
    length (gw_sems w) + (case snd (gate_step api ev w) of Out_Limited _ \<Rightarrow> 1 | _ \<Rightarrow> 0)"
proof -
  have sr: "length (gw_sems (tx_send_replace api s w)) = length (gw_sems w)" for s
    using send_replace_conserves [OF laws wf] by simp
  have g: "with_gate w i = Some g \<Longrightarrow> gate_wf (length (gw_sems w)) g" for i g
    using with_gate_Some wf by (fastforce simp: world_wf_def dest: nth_mem)
  have pr: "length (gw_sems w') = length (gw_sems w)"
    if "with_gate w i = Some g" "gate_poll_ready api inner g w = (r, g', w')" for i g r g' w' inner
    using gate_poll_ready_conserves [OF laws _ g [OF that(1)] that(2)] wf by (simp add: world_wf_def only_sems_def)
  have dh: "with_gate w i = Some g \<Longrightarrow> length (gw_sems (drop_held api g w)) = length (gw_sems w)" for i g
    using drop_held_free [OF laws g] by (simp add: only_sems_def)
  show ?thesis
    by (cases ev) (auto simp: tx_open_def tx_shut_def tx_limit_def Let_def sr set_gate_def pr dh
        split: option.splits prod.splits outcome.splits)
qed

text \<open>Semaphores that have not been made have no permits.\<close>

lemma gate_reach_fresh:
  assumes laws: "semaphore_laws api free closed"
  shows "gate_reach api tr w \<Longrightarrow> length (gw_sems w) \<le> k \<Longrightarrow> permits_of tr k = 0"
proof (induction rule: gate_reach.induct)
  case (Reach_step tr w ev)
  have wf: "world_wf w" using gate_reach_conserves [OF laws Reach_step.hyps] by simp
  note len = gate_step_length [OF laws wf, of ev]
  have "made (ev, snd (gate_step api ev w)) k = 0"
  proof (cases ev)
    case (Ev_Limit n)
    then show ?thesis using Reach_step.prems len
      by (auto simp: made_def tx_limit_def Let_def split: if_splits)
  qed (simp_all add: made_def)
  moreover have "length (gw_sems w) \<le> k" using Reach_step.prems len by simp
  ultimately show ?case using Reach_step.IH by (simp add: permits_of_snoc)
qed (simp add: permits_of_def)

text \<open>The events of the gates, and what they leave alone.\<close>

fun is_client :: "'e gate_event \<Rightarrow> bool" where
  "is_client (Ev_Clone _) = True"
| "is_client (Ev_Drop _) = True"
| "is_client (Ev_PollReady _ _) = True"
| "is_client (Ev_Call _) = True"
| "is_client _ = False"

lemma client_step_state:
  assumes laws: "semaphore_laws api free closed" and wf: "world_wf w" and ev: "is_client ev"
  shows "gw_state (fst (gate_step api ev w)) = gw_state w \<and> gw_tx (fst (gate_step api ev w)) = gw_tx w \<and>
    made (ev, out) k = 0"
proof -
  have g: "with_gate w i = Some g \<Longrightarrow> gate_wf (length (gw_sems w)) g" for i g
    using with_gate_Some wf by (fastforce simp: world_wf_def dest: nth_mem)
  have pr: "gw_state w' = gw_state w \<and> gw_tx w' = gw_tx w"
    if "with_gate w i = Some g" "gate_poll_ready api inner g w = (r, g', w')" for i g r g' w' inner
    using gate_poll_ready_conserves [OF laws _ g [OF that(1)] that(2)] wf by (simp add: world_wf_def only_sems_def)
  have dh: "with_gate w i = Some g \<Longrightarrow> gw_state (drop_held api g w) = gw_state w \<and> gw_tx (drop_held api g w) = gw_tx w" for i g
    using drop_held_free [OF laws g] by (simp add: only_sems_def)
  show ?thesis using ev
    by (cases ev) (auto simp: made_def set_gate_def pr dh split: option.splits prod.splits outcome.splits)
qed

section \<open>Waking up\<close>

text \<open>Every semaphore but the one of the current state is closed, and no waiting gate has seen a
  version that is still to come.\<close>

fun acquire_fresh :: "'sem gate_world \<Rightarrow> acquire \<Rightarrow> bool" where
  "acquire_fresh w (Acq_sem k seen) = (seen \<le> gw_version w)"
| "acquire_fresh w (Acq_changed seen) = (seen \<le> gw_version w)"
| "acquire_fresh w Acq_never = (\<not> gw_tx w)"
| "acquire_fresh w Acq_start = True"

definition keeps_closed :: "('sem \<Rightarrow> bool) \<Rightarrow> 'sem gate_world \<Rightarrow> 'sem gate_world \<Rightarrow> bool" where
  "keeps_closed closed w w' \<longleftrightarrow> gw_version w' = gw_version w \<and> gw_tx w' = gw_tx w \<and>
     gw_state w' = gw_state w \<and> gw_gates w' = gw_gates w \<and> length (gw_sems w') = length (gw_sems w) \<and>
     (\<forall>k < length (gw_sems w). closed (gw_sems w' ! k) = closed (gw_sems w ! k))"

lemma keeps_closed_refl: "keeps_closed closed w w"
  by (simp add: keeps_closed_def)

lemma keeps_closed_trans:
  "keeps_closed closed w w' \<Longrightarrow> keeps_closed closed w' w'' \<Longrightarrow> keeps_closed closed w w''"
  by (simp add: keeps_closed_def)

lemma keeps_closed_update:
  "closed s = closed (gw_sems w ! k) \<Longrightarrow> keeps_closed closed w (w\<lparr> gw_sems := (gw_sems w)[k := s] \<rparr>)"
  by (cases "k < length (gw_sems w)") (auto simp: keeps_closed_def nth_list_update list_update_beyond)

lemma acquire_closed:
  assumes "semaphore_laws api free closed"
  shows "closed (snd (sem_poll_acquire api s)) = closed s"
    "closed (snd (sem_try_acquire api s)) = closed s"
    "closed (sem_release api s) = closed s"
    "closed (sem_close api s)"
    "closed s \<Longrightarrow> fst (sem_poll_acquire api s) = SemClosed"
  using assms unfolding semaphore_laws_def by blast+

lemma opened_top_keeps:
  assumes laws: "semaphore_laws api free closed" and eq: "opened_top api w = ((p, a), w')"
  shows "keeps_closed closed w w' \<and> acquire_fresh w a"
proof (cases "gw_state w")
  case (Gate_Limited k)
  obtain r s where rs: "sem_poll_acquire api (gw_sems w ! k) = (r, s)" by (cases "sem_poll_acquire api (gw_sems w ! k)")
  have "closed s = closed (gw_sems w ! k)" using acquire_closed(1) [OF laws, of "gw_sems w ! k"] by (simp add: rs)
  then have "keeps_closed closed w (w\<lparr> gw_sems := (gw_sems w)[k := s] \<rparr>)" by (rule keeps_closed_update)
  moreover have "w' = w\<lparr> gw_sems := (gw_sems w)[k := s] \<rparr>" "acquire_fresh w a"
    using eq by (auto simp: opened_top_def Gate_Limited rs split: sem_poll.splits)
  ultimately show ?thesis by simp
qed (use eq in \<open>auto simp: opened_top_def keeps_closed_refl\<close>)

lemma opened_changed_keeps:
  assumes laws: "semaphore_laws api free closed" and eq: "opened_changed api seen w = ((p, a), w')"
    and seen: "seen \<le> gw_version w"
  shows "keeps_closed closed w w' \<and> acquire_fresh w a"
  using opened_top_keeps [OF laws, of w p a w'] eq seen
  by (auto simp: opened_changed_def keeps_closed_refl split: if_splits)

lemma opened_poll_keeps:
  assumes laws: "semaphore_laws api free closed" and eq: "opened_poll api a w = ((p, a'), w')"
    and a: "acquire_fresh w a"
  shows "keeps_closed closed w w' \<and> acquire_fresh w a'"
proof (cases a)
  case (Acq_sem k seen)
  obtain r s where rs: "sem_poll_acquire api (gw_sems w ! k) = (r, s)" by (cases "sem_poll_acquire api (gw_sems w ! k)")
  let ?w = "w\<lparr> gw_sems := (gw_sems w)[k := s] \<rparr>"
  have "closed s = closed (gw_sems w ! k)" using acquire_closed(1) [OF laws, of "gw_sems w ! k"] by (simp add: rs)
  then have k: "keeps_closed closed w ?w" by (rule keeps_closed_update)
  have seen: "seen \<le> gw_version w" using a Acq_sem by simp
  show ?thesis
  proof (cases r)
    case SemClosed
    then have "keeps_closed closed ?w w' \<and> acquire_fresh ?w a'"
      using opened_changed_keeps [OF laws, of seen ?w p a' w'] eq seen by (simp add: Acq_sem rs Let_def)
    then show ?thesis using keeps_closed_trans [OF k, of w'] by (cases a') simp_all
  qed (use eq k seen in \<open>auto simp: Acq_sem rs Let_def\<close>)
qed (use eq a opened_top_keeps [OF laws] opened_changed_keeps [OF laws] in \<open>auto simp: keeps_closed_refl\<close>)

definition gate_fresh :: "'sem gate_world \<Rightarrow> gate \<Rightarrow> bool" where
  "gate_fresh w g \<longleftrightarrow> (case g_acquire g of None \<Rightarrow> True | Some a \<Rightarrow> acquire_fresh w a)"

lemma acquire_fresh_cong:
  "keeps_closed closed w w' \<Longrightarrow> acquire_fresh w' a = acquire_fresh w a"
  by (cases a) (simp_all add: keeps_closed_def)

lemma poll_future_keeps:
  assumes laws: "semaphore_laws api free closed" and eq: "poll_future api a g w = (p, g', w')"
    and a: "acquire_fresh w a"
  shows "keeps_closed closed w w' \<and> gate_fresh w g'"
proof -
  obtain p1 a1 w1 where o: "opened_poll api a w = ((p1, a1), w1)" by (cases "opened_poll api a w") auto
  show ?thesis using opened_poll_keeps [OF laws o a] eq
    by (cases p1) (auto simp: poll_future_def o gate_fresh_def)
qed

lemma poll_acquire_keeps:
  assumes laws: "semaphore_laws api free closed" and eq: "poll_acquire api g w = (p, g', w')"
    and g: "gate_fresh w g"
  shows "keeps_closed closed w w' \<and> gate_fresh w g'"
proof (cases "g_acquire g")
  case (Some a)
  then show ?thesis using poll_future_keeps [OF laws, of a g w p g' w'] g eq
    by (simp add: poll_acquire_def gate_fresh_def)
next
  case None
  show ?thesis
  proof (cases "gw_state w")
    case (Gate_Limited k)
    obtain ok s where rs: "sem_try_acquire api (gw_sems w ! k) = (ok, s)" by (cases "sem_try_acquire api (gw_sems w ! k)")
    let ?w = "w\<lparr> gw_sems := (gw_sems w)[k := s] \<rparr>"
    have "closed s = closed (gw_sems w ! k)" using acquire_closed(2) [OF laws, of "gw_sems w ! k"] by (simp add: rs)
    then have k: "keeps_closed closed w ?w" by (rule keeps_closed_update)
    show ?thesis
    proof (cases ok)
      case True
      then show ?thesis using k eq g by (auto simp: poll_acquire_def None Gate_Limited rs Let_def)
    next
      case False
      then have "keeps_closed closed ?w w' \<and> gate_fresh ?w g'"
        using poll_future_keeps [OF laws, of Acq_start g ?w p g' w'] eq
        by (simp add: poll_acquire_def None Gate_Limited rs Let_def)
      then show ?thesis using keeps_closed_trans [OF k, of w'] acquire_fresh_cong [OF k]
        by (auto simp: gate_fresh_def split: option.splits)
    qed
  qed (use poll_future_keeps [OF laws, of Acq_start g w p g' w'] eq g None in
      \<open>auto simp: poll_acquire_def keeps_closed_refl\<close>)
qed

lemma drop_permit_keeps: "semaphore_laws api free closed \<Longrightarrow> keeps_closed closed w (drop_permit api p w)"
  by (cases p) (simp_all add: drop_permit_def keeps_closed_refl keeps_closed_update acquire_closed(3))

lemma drop_held_keeps: "semaphore_laws api free closed \<Longrightarrow> keeps_closed closed w (drop_held api g w)"
  by (simp add: drop_held_def drop_permit_keeps keeps_closed_refl split: poll.split)

lemma gate_poll_ready_keeps:
  assumes laws: "semaphore_laws api free closed" and eq: "gate_poll_ready api inner g w = (r, g', w')"
    and g: "gate_fresh w g"
  shows "keeps_closed closed w w' \<and> gate_fresh w g'"
proof -
  define w1 where "w1 = drop_held api g w"
  define g1 where "g1 = g\<lparr> g_permit := Pending \<rparr>"
  obtain p g2 w2 where pa: "poll_acquire api g1 w1 = (p, g2, w2)" by (cases "poll_acquire api g1 w1")
  have w1: "keeps_closed closed w w1" using drop_held_keeps [OF laws] by (simp add: w1_def)
  have "gate_fresh w1 g1" using g acquire_fresh_cong [OF w1] by (simp add: g1_def gate_fresh_def split: option.splits)
  with poll_acquire_keeps [OF laws pa] have w2: "keeps_closed closed w w2" "gate_fresh w g2"
    using keeps_closed_trans [OF w1] acquire_fresh_cong [OF w1] by (auto simp: gate_fresh_def split: option.splits)
  have "w' = w2 \<or> (\<exists>q. w' = drop_permit api q w2)" "g_acquire g' = g_acquire g2"
    using eq pa by (auto simp: gate_poll_ready_def Let_def w1_def [symmetric] g1_def [symmetric] split: poll.splits sum.splits)
  then show ?thesis using w2 keeps_closed_trans [OF w2(1) drop_permit_keeps [OF laws]] by (auto simp: gate_fresh_def)
qed

definition wake_inv :: "('sem \<Rightarrow> bool) \<Rightarrow> 'sem gate_world \<Rightarrow> bool" where
  "wake_inv closed w \<longleftrightarrow>
     (\<forall>k < length (gw_sems w). closed (gw_sems w ! k) \<or> gw_state w = Gate_Limited k) \<and>
     (\<forall>g. Some g \<in> set (gw_gates w) \<longrightarrow> gate_fresh w g)"

lemma acquire_fresh_mono:
  "acquire_fresh w a \<Longrightarrow> gw_version w \<le> gw_version w' \<Longrightarrow> gw_tx w' \<longrightarrow> gw_tx w \<Longrightarrow> acquire_fresh w' a"
  by (cases a) auto

lemma gate_fresh_mono:
  "gate_fresh w g \<Longrightarrow> gw_version w \<le> gw_version w' \<Longrightarrow> gw_tx w' \<longrightarrow> gw_tx w \<Longrightarrow> gate_fresh w' g"
  by (auto simp: gate_fresh_def split: option.splits intro: acquire_fresh_mono)

lemma wake_inv_set_gate:
  assumes inv: "wake_inv closed w" and k: "keeps_closed closed w w'"
    and g: "\<And>h. g' = Some h \<Longrightarrow> gate_fresh w h"
  shows "wake_inv closed (set_gate i g' w')"
proof -
  have "gate_fresh (set_gate i g' w') h" if "gate_fresh w h" for h
    using gate_fresh_mono [OF that, of "set_gate i g' w'"] k by (simp add: set_gate_def keeps_closed_def)
  then show ?thesis using inv k g
    by (auto simp: wake_inv_def keeps_closed_def set_gate_def dest!: set_update_subset_insert [THEN subsetD])
qed

lemma send_replace_closes:
  assumes laws: "semaphore_laws api free closed" and inv: "wake_inv closed w"
    and k: "k < length (gw_sems w)"
  shows "closed (gw_sems (tx_send_replace api s w) ! k)"
proof (cases "gw_state w = Gate_Limited k")
  case True
  then show ?thesis using k acquire_closed(4) [OF laws] by (simp add: tx_send_replace_def close_limited_def)
next
  case False
  then have "closed (gw_sems w ! k)" using inv k by (auto simp: wake_inv_def)
  then show ?thesis using False k acquire_closed(4) [OF laws]
    by (cases "gw_state w") (auto simp: tx_send_replace_def close_limited_def nth_list_update)
qed

lemma send_replace_wake:
  assumes "semaphore_laws api free closed" "wake_inv closed w"
  shows "wake_inv closed (tx_send_replace api s w)"
proof -
  let ?w = "tx_send_replace api s w"
  have f: "gw_gates ?w = gw_gates w" "gw_version w \<le> gw_version ?w" "gw_tx ?w = gw_tx w"
    "length (gw_sems ?w) = length (gw_sems w)"
    by (simp_all add: tx_send_replace_def close_limited_def split: gate_state.splits)
  have "gate_fresh ?w g" if "Some g \<in> set (gw_gates ?w)" for g
    using assms(2) that f gate_fresh_mono [of w g ?w] by (simp add: wake_inv_def)
  then show ?thesis using send_replace_closes [OF assms] f(4) by (simp add: wake_inv_def)
qed

lemma limit_wake:
  assumes laws: "semaphore_laws api free closed" and inv: "wake_inv closed w" and lim: "tx_limit api n w = Ok (k, w')"
  shows "wake_inv closed w'"
proof -
  let ?w = "tx_send_replace api (Gate_Limited (length (gw_sems w))) w"
  have w': "w' = ?w\<lparr> gw_sems := gw_sems ?w @ [sem_new api n] \<rparr>"
    using lim by (auto simp: tx_limit_def Let_def split: if_splits)
  have len: "length (gw_sems ?w) = length (gw_sems w)"
    by (simp add: tx_send_replace_def close_limited_def split: gate_state.splits)
  have st: "gw_state ?w = Gate_Limited (length (gw_sems w))" by (simp add: tx_send_replace_def)
  have "gate_fresh w' g" if "gate_fresh ?w g" for g
    using gate_fresh_mono [OF that, of w'] by (simp add: w')
  then show ?thesis
    using send_replace_wake [OF laws inv, of "Gate_Limited (length (gw_sems w))"] send_replace_closes [OF laws inv] len st
    by (auto simp: wake_inv_def w' nth_append)
qed

lemma gate_step_wake:
  assumes laws: "semaphore_laws api free closed" and inv: "wake_inv closed w"
  shows "wake_inv closed (fst (gate_step api ev w))"
proof (cases ev)
  case (Ev_Limit n)
  then show ?thesis using limit_wake [OF laws inv] inv by (auto split: sum.splits)
next
  case (Ev_Clone i)
  let ?w = "w\<lparr> gw_gates := gw_gates w @ [Some gate_new] \<rparr>"
  have "gate_fresh ?w g" if "gate_fresh w g" for g using gate_fresh_mono [OF that, of ?w] by simp
  moreover have "gate_fresh ?w gate_new" by (simp add: gate_fresh_def gate_new_def)
  ultimately have "wake_inv closed ?w" using inv by (auto simp: wake_inv_def)
  then show ?thesis using inv by (simp add: Ev_Clone split: option.splits)
next
  case (Ev_Drop i)
  have "wake_inv closed (set_gate i None (drop_held api g w))" for g
    using wake_inv_set_gate [OF inv drop_held_keeps [OF laws, of w g], of None i] by simp
  then show ?thesis using inv by (simp add: Ev_Drop split: option.splits)
next
  case (Ev_PollReady i inner)
  show ?thesis
  proof (cases "with_gate w i")
    case (Some g)
    obtain r g' w' where pr: "gate_poll_ready api inner g w = (r, g', w')" by (cases "gate_poll_ready api inner g w")
    have "gate_fresh w g" using inv with_gate_Some [OF Some] by (auto simp: wake_inv_def dest: nth_mem)
    then show ?thesis using wake_inv_set_gate [OF inv, of w' "Some g'"] gate_poll_ready_keeps [OF laws pr] Some
      by (simp add: Ev_PollReady pr)
  qed (use inv Ev_PollReady in simp)
next
  case (Ev_Call i)
  show ?thesis
  proof (cases "with_gate w i")
    case (Some g)
    have "gate_fresh w g" using inv with_gate_Some [OF Some] by (auto simp: wake_inv_def dest: nth_mem)
    then have "gate_fresh w (g\<lparr> g_permit := Pending \<rparr>)" by (simp add: gate_fresh_def)
    then show ?thesis using wake_inv_set_gate [OF inv keeps_closed_refl, of "Some (g\<lparr> g_permit := Pending \<rparr>)"] inv Some
      by (simp add: Ev_Call gate_call_def split: poll.split)
  qed (use inv Ev_Call in simp)
next
  case Ev_Open
  then show ?thesis using send_replace_wake [OF laws inv] inv by (simp add: tx_open_def)
next
  case Ev_Shut
  then show ?thesis using send_replace_wake [OF laws inv] inv by (simp add: tx_shut_def)
next
  case Ev_DropTx
  have "gate_fresh (w\<lparr> gw_tx := False \<rparr>) g" if "gate_fresh w g" for g
    using gate_fresh_mono [OF that, of "w\<lparr> gw_tx := False \<rparr>"] by simp
  then show ?thesis using inv by (simp add: Ev_DropTx wake_inv_def)
qed

lemma gate_reach_wake:
  assumes laws: "semaphore_laws api free closed"
  shows "gate_reach api tr w \<Longrightarrow> wake_inv closed w"
proof (induction rule: gate_reach.induct)
  case Reach_channel
  then show ?case by (simp add: wake_inv_def gate_channel_def gate_fresh_def gate_new_def)
next
  case (Reach_step tr w ev)
  then show ?case by (intro gate_step_wake [OF laws])
qed

lemma poll_open:
  "gw_state w = Gate_Open \<Longrightarrow> opened_top api w = ((Ready None, Acq_start), w)"
  by (simp add: opened_top_def)

lemma poll_acquire_open:
  assumes laws: "semaphore_laws api free closed" and st: "gw_state w = Gate_Open"
    and cl: "\<forall>k < length (gw_sems w). closed (gw_sems w ! k)"
    and g: "case g_acquire g of None \<Rightarrow> True | Some Acq_never \<Rightarrow> False | Some Acq_start \<Rightarrow> True
       | Some (Acq_changed seen) \<Rightarrow> seen < gw_version w
       | Some (Acq_sem k seen) \<Rightarrow> seen < gw_version w \<and> k < length (gw_sems w)"
  shows "fst (poll_acquire api g w) = Ready None"
proof (cases "g_acquire g")
  case None
  then show ?thesis using st by (simp add: poll_acquire_def)
next
  case (Some a)
  show ?thesis
  proof (cases a)
    case (Acq_sem k seen)
    obtain r s where rs: "sem_poll_acquire api (gw_sems w ! k) = (r, s)" by (cases "sem_poll_acquire api (gw_sems w ! k)")
    have "r = SemClosed"
      using acquire_closed(5) [OF laws, of "gw_sems w ! k"] cl g Some Acq_sem by (simp add: rs)
    then show ?thesis using st g Some Acq_sem
      by (simp add: poll_acquire_def poll_future_def rs Let_def opened_changed_def poll_open)
  qed (use Some g st in \<open>simp_all add: poll_acquire_def poll_future_def opened_changed_def poll_open\<close>)
qed

text \<open>C30: Opening the gate wakes every gate up: in any reachable world, whatever a gate was waiting
  for (a permit of a semaphore, a change of state, nothing yet), after \<open>open\<close> its
  next poll is ready as soon as the inner service is.\<close>

theorem open_wakes_gates:
  assumes laws: "semaphore_laws api free closed" and reach: "gate_reach api tr w" and tx: "gw_tx w"
    and i: "with_gate w i = Some g" and op: "tx_open api w = Ok w'"
  shows "fst (gate_poll_ready api (Ready (Inr ())) g w') = Ready (Inr ())"
proof -
  have inv: "wake_inv closed w" and wf: "world_wf w"
    using gate_reach_wake [OF laws reach] gate_reach_conserves [OF laws reach] by simp_all
  have w': "w' = tx_send_replace api Gate_Open w" using op by (auto simp: tx_open_def split: if_splits)
  have len: "length (gw_sems w') = length (gw_sems w)" "gw_version w' = gw_version w + 1" "gw_state w' = Gate_Open"
    by (simp_all add: w' tx_send_replace_def close_limited_def split: gate_state.splits)
  have in_set: "Some g \<in> set (gw_gates w)" using with_gate_Some [OF i] by (auto dest: nth_mem)
  then have g: "gate_fresh w g" "gate_wf (length (gw_sems w)) g"
    using inv wf by (simp_all add: wake_inv_def world_wf_def)
  define v where "v = drop_held api g w'"
  have v: "keeps_closed closed w' v" unfolding v_def by (rule drop_held_keeps [OF laws])
  have "fst (poll_acquire api (g\<lparr> g_permit := Pending \<rparr>) v) = Ready None"
  proof (rule poll_acquire_open [OF laws])
    show "gw_state v = Gate_Open" using v len by (simp add: keeps_closed_def)
    show "\<forall>k < length (gw_sems v). closed (gw_sems v ! k)"
      using v len send_replace_closes [OF laws inv, of _ Gate_Open] by (simp add: keeps_closed_def w')
  qed (use g tx v len in \<open>auto simp: keeps_closed_def gate_fresh_def gate_wf_def split: option.splits acquire.splits\<close>)
  then obtain g2 w2 where "poll_acquire api (g\<lparr> g_permit := Pending \<rparr>) v = (Ready None, g2, w2)"
    by (cases "poll_acquire api (g\<lparr> g_permit := Pending \<rparr>) v") simp
  then show ?thesis by (simp add: gate_poll_ready_def Let_def v_def)
qed

theorem open_wakes_gates_witness:
  "fst (gate_poll_ready counting_semaphore (Ready (Inr ()) :: (unit + unit) poll)
     (the (with_gate (snd (gate_run counting_semaphore sample_gate_events gate_channel)) 0))
     (tx_send_replace counting_semaphore Gate_Open
        (snd (gate_run counting_semaphore sample_gate_events gate_channel)))) = Ready (Inr ())"
proof (rule open_wakes_gates [OF counting_semaphore_laws gate_reach_run [OF Reach_channel]])
  let ?w = "snd (gate_run counting_semaphore sample_gate_events gate_channel)"
  show "gw_tx ?w" by code_simp
  have "with_gate ?w 0 \<noteq> None" by code_simp
  then show "with_gate ?w 0 = Some (the (with_gate ?w 0))" by simp
  have "\<not> tx_is_closed ?w" by code_simp
  then show "tx_open counting_semaphore ?w = Ok (tx_send_replace counting_semaphore Gate_Open ?w)"
    by (simp add: tx_open_def)
qed

section \<open>Admission\<close>

text \<open>A gate that has been polled ready is called without a look at the state: what a change of
  the state cannot take back is the readiness that gates already have. So the requests of all gates
  together, with or without a permit, are paid for by the gates that are ready and the permits
  that are free.\<close>

definition is_ready :: "gate option \<Rightarrow> bool" where
  "is_ready g = (case g of None \<Rightarrow> False | Some g \<Rightarrow> g_permit g \<noteq> Pending)"

definition ready_gates :: "'sem gate_world \<Rightarrow> nat" where
  "ready_gates w = length (filter is_ready (gw_gates w))"

fun called :: "'e gate_output \<Rightarrow> nat" where
  "called (Out_Called _) = 1"
| "called _ = 0"

definition calls :: "('e gate_event \<times> 'e gate_output) list \<Rightarrow> nat" where
  "calls tr = sum_list (map (\<lambda>x. called (snd x)) tr)"

fun granted :: "'e gate_event \<times> 'e gate_output \<Rightarrow> nat" where
  "granted (Ev_Limit n, Out_Limited _) = n"
| "granted _ = 0"

definition grants :: "('e gate_event \<times> 'e gate_output) list \<Rightarrow> nat" where
  "grants tr = sum_list (map granted tr)"

definition free_now :: "('sem \<Rightarrow> nat) \<Rightarrow> 'sem gate_world \<Rightarrow> nat" where
  "free_now free w = (case gw_state w of Gate_Limited k \<Rightarrow> free_of free (gw_sems w) k | _ \<Rightarrow> 0)"

definition restricted :: "'sem semaphore_api \<Rightarrow> ('sem \<Rightarrow> nat) \<Rightarrow> ('sem \<Rightarrow> bool) \<Rightarrow> 'sem gate_world \<Rightarrow> bool" where
  "restricted api free closed w \<longleftrightarrow>
     semaphore_laws api free closed \<and> world_wf w \<and> wake_inv closed w \<and> gw_state w \<noteq> Gate_Open"

text \<open>Unless the gate is open, a poll returns nothing but a permit of the current semaphore.\<close>

definition current :: "'sem gate_world \<Rightarrow> nat option poll \<Rightarrow> bool" where
  "current w p = (case p of Pending \<Rightarrow> True | Ready None \<Rightarrow> gw_state w = Gate_Open
     | Ready (Some k) \<Rightarrow> gw_state w = Gate_Limited k)"

lemma current_sems [simp]: "current (w\<lparr> gw_sems := sems \<rparr>) p = current w p"
  by (simp add: current_def split: poll.split option.split)

lemma current_simps [simp]:
  "current w Pending" "current w (Ready None) \<longleftrightarrow> gw_state w = Gate_Open"
  "current w (Ready (Some k)) \<longleftrightarrow> gw_state w = Gate_Limited k"
  by (simp_all add: current_def)

lemma opened_top_current: "opened_top api w = ((p, a), w') \<Longrightarrow> current w p"
  by (auto simp: opened_top_def current_def split: gate_state.splits prod.splits sem_poll.splits)

lemma opened_changed_current: "opened_changed api seen w = ((p, a), w') \<Longrightarrow> current w p"
  using opened_top_current by (fastforce simp: opened_changed_def current_def split: if_splits)

lemma opened_poll_current:
  assumes laws: "semaphore_laws api free closed" and a: "acquire_wf (length (gw_sems w)) a"
    and open': "\<And>k. k < length (gw_sems w) \<Longrightarrow> closed (gw_sems w ! k) \<or> gw_state w = Gate_Limited k"
    and eq: "opened_poll api a w = ((p, a'), w')"
  shows "current w p"
proof (cases a)
  case (Acq_sem k seen)
  obtain r s where rs: "sem_poll_acquire api (gw_sems w ! k) = (r, s)" by (cases "sem_poll_acquire api (gw_sems w ! k)")
  show ?thesis
  proof (cases r)
    case SemAcquired
    then have "\<not> closed (gw_sems w ! k)" using acquire_closed(5) [OF laws, of "gw_sems w ! k"] by (auto simp: rs)
    then have "gw_state w = Gate_Limited k" using open' [of k] a Acq_sem by simp
    then show ?thesis using eq SemAcquired by (auto simp: Acq_sem rs Let_def current_def)
  next
    case SemClosed
    then have "opened_changed api seen (w\<lparr> gw_sems := (gw_sems w)[k := s] \<rparr>) = ((p, a'), w')"
      using eq by (simp add: Acq_sem rs Let_def)
    from opened_changed_current [OF this] show ?thesis by simp
  next
    case SemPending
    then show ?thesis using eq by (auto simp: Acq_sem rs Let_def current_def)
  qed
qed (use eq opened_top_current opened_changed_current in \<open>auto simp: current_def\<close>)

lemma poll_future_current:
  assumes laws: "semaphore_laws api free closed" and a: "acquire_wf (length (gw_sems w)) a"
    and open': "\<And>k. k < length (gw_sems w) \<Longrightarrow> closed (gw_sems w ! k) \<or> gw_state w = Gate_Limited k"
    and eq: "poll_future api a g w = (p, g', w')"
  shows "current w p"
proof -
  obtain p1 a1 w1 where o: "opened_poll api a w = ((p1, a1), w1)" by (cases "opened_poll api a w") auto
  show ?thesis using opened_poll_current [OF laws a open' o] eq
    by (cases p1) (auto simp: poll_future_def o current_def)
qed

lemma poll_acquire_current:
  assumes laws: "semaphore_laws api free closed" and g: "gate_wf (length (gw_sems w)) g"
    and open': "\<And>k. k < length (gw_sems w) \<Longrightarrow> closed (gw_sems w ! k) \<or> gw_state w = Gate_Limited k"
    and eq: "poll_acquire api g w = (p, g', w')"
  shows "current w p"
proof (cases "g_acquire g")
  case (Some a)
  then show ?thesis using poll_future_current [OF laws _ open', of a g p g' w'] g eq
    by (simp add: poll_acquire_def gate_wf_def)
next
  case None
  show ?thesis
  proof (cases "gw_state w")
    case (Gate_Limited k)
    obtain ok s where rs: "sem_try_acquire api (gw_sems w ! k) = (ok, s)" by (cases "sem_try_acquire api (gw_sems w ! k)")
    let ?w = "w\<lparr> gw_sems := (gw_sems w)[k := s] \<rparr>"
    have "closed s = closed (gw_sems w ! k)" using acquire_closed(2) [OF laws, of "gw_sems w ! k"] by (simp add: rs)
    then have "j < length (gw_sems ?w) \<Longrightarrow> closed (gw_sems ?w ! j) \<or> gw_state ?w = Gate_Limited j" for j
      using open' [of j] by (cases "j = k") auto
    then have "poll_future api Acq_start g ?w = (p, g', w') \<Longrightarrow> current ?w p"
      using poll_future_current [OF laws, of ?w Acq_start g p g' w'] by simp
    then show ?thesis using eq Gate_Limited
      by (auto simp: poll_acquire_def None rs Let_def split: if_splits)
  qed (use poll_future_current [OF laws _ open', of Acq_start g p g' w'] eq None in
      \<open>auto simp: poll_acquire_def current_def\<close>)
qed

lemma ready_gates_set:
  assumes "i < length gs"
  shows "length (filter is_ready (gs[i := g])) + (if is_ready (gs ! i) then 1 else 0) =
    length (filter is_ready gs) + (if is_ready g then 1 else 0)"
  using assms
proof (induction gs arbitrary: i)
  case (Cons h gs)
  then show ?case by (cases i) auto
qed simp

lemma free_now_gates [simp]:
  "free_now free (w\<lparr> gw_gates := gs \<rparr>) = free_now free w" "free_now free (w\<lparr> gw_tx := b \<rparr>) = free_now free w"
  by (simp_all add: free_now_def split: gate_state.split)

lemma free_now_drop:
  assumes "semaphore_laws api free closed" "gate_wf (length (gw_sems w)) g"
  shows "free_now free (drop_held api g w) \<le> free_now free w + (if is_ready (Some g) then 1 else 0)"
  using drop_held_free [OF assms]
  by (auto simp: free_now_def only_sems_def holds_def is_ready_def split: gate_state.splits)

text \<open>A poll pays for the readiness it returns.\<close>

lemma gate_poll_ready_pays:
  assumes res: "restricted api free closed w" and g: "gate_wf (length (gw_sems w)) g" "gate_fresh w g"
    and eq: "gate_poll_ready api inner g w = (r, g', w')"
  shows "free_now free w' + (if is_ready (Some g') then 1 else 0) \<le>
    free_now free w + (if is_ready (Some g) then 1 else 0)"
proof -
  have laws: "semaphore_laws api free closed" and wf: "world_wf w" and inv: "wake_inv closed w"
    and st: "gw_state w \<noteq> Gate_Open"
    using res by (simp_all add: restricted_def)
  define w1 where "w1 = drop_held api g w"
  define g1 where "g1 = g\<lparr> g_permit := Pending \<rparr>"
  obtain p g2 w2 where pa: "poll_acquire api g1 w1 = (p, g2, w2)" by (cases "poll_acquire api g1 w1")
  have k1: "keeps_closed closed w w1" unfolding w1_def by (rule drop_held_keeps [OF laws])
  have g1: "gate_wf (length (gw_sems w1)) g1" "g_permit g1 = Pending"
    using g k1 by (simp_all add: g1_def gate_wf_def keeps_closed_def)
  have wf1: "state_wf (length (gw_sems w1)) (gw_state w1)"
    using wf k1 by (simp add: world_wf_def keeps_closed_def)
  have t: "takes free w1 p w2" "g_permit g2 = Pending"
    using poll_acquire_takes [OF laws wf1 g1 pa] by simp_all
  have "k < length (gw_sems w1) \<Longrightarrow> closed (gw_sems w1 ! k) \<or> gw_state w1 = Gate_Limited k" for k
    using inv k1 by (simp add: wake_inv_def keeps_closed_def)
  from poll_acquire_current [OF laws g1(1) this pa] have cur: "current w1 p" by blast
  have st1: "gw_state w1 \<noteq> Gate_Open" using st k1 by (simp add: keeps_closed_def)
  have f1: "free_now free w1 \<le> free_now free w + (if is_ready (Some g) then 1 else 0)"
    unfolding w1_def by (rule free_now_drop [OF laws g(1)])
  have f2: "free_now free w2 + (if p = Pending then 0 else 1) = free_now free w1"
  proof (cases p)
    case Pending
    then show ?thesis using t(1) by (simp add: takes_def only_sems_def free_now_def split: gate_state.split)
  next
    case (Ready q)
    then obtain k where "q = Some k" "gw_state w1 = Gate_Limited k" using cur st1 by (cases q) simp_all
    then show ?thesis using t(1) Ready by (simp add: takes_def only_sems_def free_now_def)
  qed
  show ?thesis
  proof (cases p)
    case Pending
    then have "g' = g2" "w' = w2"
      using eq pa by (simp_all add: gate_poll_ready_def Let_def w1_def [symmetric] g1_def [symmetric])
    then show ?thesis using f1 f2 t(2) Pending by (simp add: is_ready_def)
  next
    case (Ready q)
    have q: "\<forall>k. q = Some k \<longrightarrow> k < length (gw_sems w2)" using t(1) Ready by (simp add: takes_def only_sems_def)
    have "free_now free (drop_permit api q w2) \<le> free_now free w2 + 1"
      using drop_permit_free [OF laws q] by (auto simp: free_now_def only_sems_def split: gate_state.splits)
    moreover have "(w' = w2 \<or> (w' = drop_permit api q w2 \<and> g' = g2))"
      using eq pa Ready
      by (auto simp: gate_poll_ready_def Let_def w1_def [symmetric] g1_def [symmetric] split: poll.splits sum.splits)
    ultimately show ?thesis using f1 f2 t(2) Ready by (auto simp: is_ready_def)
  qed
qed

definition admission_level :: "('sem \<Rightarrow> nat) \<Rightarrow> 'sem gate_world \<Rightarrow> nat" where
  "admission_level free w = ready_gates w + free_now free w"

lemma gate_step_pays:
  fixes ev :: "'e gate_event"
  assumes res: "restricted api free closed w" and ev: "ev \<noteq> Ev_Open"
  shows "called (snd (gate_step api ev w)) + admission_level free (fst (gate_step api ev w)) \<le>
    admission_level free w + granted (ev, snd (gate_step api ev w))"
proof -
  have laws: "semaphore_laws api free closed" and wf: "world_wf w" and inv: "wake_inv closed w"
    using res by (simp_all add: restricted_def)
  have gate: "gate_wf (length (gw_sems w)) g" "gate_fresh w g" "i < length (gw_gates w)" "gw_gates w ! i = Some g"
    if "with_gate w i = Some g" for i g
    using with_gate_Some [OF that] wf inv by (auto simp: world_wf_def wake_inv_def dest!: nth_mem)
  show ?thesis
  proof (cases ev)
    case (Ev_Limit n)
    let ?s = "tx_send_replace api (Gate_Limited (length (gw_sems w))) w"
    have "length (gw_sems ?s) = length (gw_sems w)" "gw_gates ?s = gw_gates w"
      using send_replace_conserves [OF laws wf] by simp_all
    then have "admission_level free (?s\<lparr> gw_sems := gw_sems ?s @ [sem_new api n] \<rparr>) = ready_gates w + n"
      using new_free [OF laws, of n]
      by (simp add: admission_level_def ready_gates_def free_now_def free_of_def nth_append tx_send_replace_def)
    then show ?thesis
      by (cases "gw_tx w"; cases "tx_is_closed w") (simp_all add: Ev_Limit tx_limit_def Let_def admission_level_def)
  next
    case Ev_Shut
    then show ?thesis
      by (cases "gw_tx w"; cases "tx_is_closed w") (simp_all add: tx_shut_def tx_send_replace_def admission_level_def ready_gates_def free_now_def)
  next
    case (Ev_Drop i)
    show ?thesis
    proof (cases "with_gate w i")
      case (Some g)
      have "gw_gates (drop_held api g w) = gw_gates w" using drop_held_keeps [OF laws] by (simp add: keeps_closed_def)
      then show ?thesis
        using Some free_now_drop [OF laws gate(1) [OF Some]] ready_gates_set [OF gate(3) [OF Some], of None] gate(4) [OF Some]
        by (simp add: Ev_Drop admission_level_def ready_gates_def set_gate_def is_ready_def split: if_splits)
    qed (simp add: Ev_Drop)
  next
    case (Ev_PollReady i inner)
    show ?thesis
    proof (cases "with_gate w i")
      case (Some g)
      obtain r g' w' where pr: "gate_poll_ready api inner g w = (r, g', w')" by (cases "gate_poll_ready api inner g w")
      have "gw_gates w' = gw_gates w" using gate_poll_ready_keeps [OF laws pr gate(2) [OF Some]] by (simp add: keeps_closed_def)
      then show ?thesis
        using Some gate_poll_ready_pays [OF res gate(1,2) [OF Some] pr] ready_gates_set [OF gate(3) [OF Some], of "Some g'"]
          gate(4) [OF Some]
        by (simp add: Ev_PollReady pr admission_level_def ready_gates_def set_gate_def)
    qed (simp add: Ev_PollReady)
  next
    case (Ev_Call i)
    show ?thesis
    proof (cases "with_gate w i")
      case (Some g)
      then show ?thesis
        using ready_gates_set [OF gate(3) [OF Some], of "Some (g\<lparr> g_permit := Pending \<rparr>)"] gate(4) [OF Some]
        by (cases "g_permit g")
          (simp_all add: Ev_Call gate_call_def admission_level_def ready_gates_def set_gate_def is_ready_def)
    qed (simp add: Ev_Call)
  qed (use ev in \<open>auto simp: admission_level_def ready_gates_def is_ready_def gate_new_def
        split: option.split\<close>)
qed

lemma gate_step_restricted:
  assumes "restricted api free closed w" "ev \<noteq> Ev_Open"
  shows "restricted api free closed (fst (gate_step api ev w))"
proof -
  have laws: "semaphore_laws api free closed" and wf: "world_wf w" and inv: "wake_inv closed w"
    and st: "gw_state w \<noteq> Gate_Open"
    using assms(1) by (simp_all add: restricted_def)
  have "gw_state (fst (gate_step api ev w)) \<noteq> Gate_Open"
  proof (cases "is_client ev")
    case True
    then show ?thesis using client_step_state [OF laws wf] st by metis
  next
    case False
    then show ?thesis using st assms(2)
      by (cases ev; cases "gw_tx w"; cases "tx_is_closed w")
        (simp_all add: tx_limit_def tx_shut_def tx_send_replace_def Let_def)
  qed
  then show ?thesis
    using gate_step_conserves [OF laws wf, of ev] gate_step_wake [OF laws inv, of ev] laws
    by (simp add: restricted_def conserves_def)
qed

interpretation admission: metered "\<lambda>ev w. fst (gate_step api ev w)" "restricted api free closed" "\<lambda>ev. ev \<noteq> Ev_Open"
  "\<lambda>ev w. called (snd (gate_step api ev w))" "\<lambda>ev w. granted (ev, snd (gate_step api ev w))" "admission_level free"
  for api free closed
  by unfold_locales (auto intro: gate_step_restricted gate_step_pays)

lemma gate_run_fold:
  "snd (gate_run api evs w) = fold (\<lambda>ev w. fst (gate_step api ev w)) evs w"
  "calls (fst (gate_run api evs w)) =
     run_sum (\<lambda>ev w. fst (gate_step api ev w)) (\<lambda>ev w. called (snd (gate_step api ev w))) evs w"
  "grants (fst (gate_run api evs w)) =
     run_sum (\<lambda>ev w. fst (gate_step api ev w)) (\<lambda>ev w. granted (ev, snd (gate_step api ev w))) evs w"
  by (induction evs arbitrary: w) (simp_all add: Let_def calls_def grants_def)

lemma gate_run_calls:
  assumes "restricted api free closed w" "Ev_Open \<notin> set evs"
  shows "calls (fst (gate_run api evs w)) \<le> ready_gates w + free_now free w + grants (fst (gate_run api evs w))"
proof -
  have "list_all (\<lambda>ev. ev \<noteq> Ev_Open) evs" using assms(2) by (auto simp: list_all_iff)
  from admission.run_pays [OF assms(1) this] show ?thesis
    by (simp add: gate_run_fold admission_level_def)
qed

lemma gate_run_restricted:
  assumes "restricted api free closed w" "Ev_Open \<notin> set evs"
  shows "restricted api free closed (snd (gate_run api evs w))"
proof -
  have "list_all (\<lambda>ev. ev \<noteq> Ev_Open) evs" using assms(2) by (auto simp: list_all_iff)
  from admission.run_good [OF assms(1) this] show ?thesis by (simp add: gate_run_fold)
qed

lemma gate_reach_restricted:
  "semaphore_laws api free closed \<Longrightarrow> gate_reach api tr w \<Longrightarrow> gw_state w \<noteq> Gate_Open \<Longrightarrow> restricted api free closed w"
  using gate_reach_conserves gate_reach_wake by (fastforce simp: restricted_def)

lemma gate_run_append:
  "gate_run api (evs @ evs') w =
    (fst (gate_run api evs w) @ fst (gate_run api evs' (snd (gate_run api evs w))),
     snd (gate_run api evs' (snd (gate_run api evs w))))"
  by (induction evs arbitrary: w) (simp_all add: Let_def)

text \<open>While the gate is shut no poll is ready.\<close>

lemma shut_not_ready:
  assumes res: "restricted api free closed w" and st: "gw_state w = Gate_Shut" and g: "with_gate w i = Some g"
  shows "fst (gate_poll_ready api inner g w) = Pending"
proof -
  have laws: "semaphore_laws api free closed" and wf: "world_wf w" and inv: "wake_inv closed w"
    using res by (simp_all add: restricted_def)
  define w1 where "w1 = drop_held api g w"
  have k1: "keeps_closed closed w w1" unfolding w1_def by (rule drop_held_keeps [OF laws])
  obtain p g2 w2 where pa: "poll_acquire api (g\<lparr> g_permit := Pending \<rparr>) w1 = (p, g2, w2)"
    by (cases "poll_acquire api (g\<lparr> g_permit := Pending \<rparr>) w1")
  have "gate_wf (length (gw_sems w1)) (g\<lparr> g_permit := Pending \<rparr>)"
    using with_gate_Some [OF g] wf k1 by (auto simp: world_wf_def gate_wf_def keeps_closed_def dest!: nth_mem)
  moreover have "k < length (gw_sems w1) \<Longrightarrow> closed (gw_sems w1 ! k) \<or> gw_state w1 = Gate_Limited k" for k
    using inv k1 by (simp add: wake_inv_def keeps_closed_def)
  ultimately have "current w1 p" using poll_acquire_current [OF laws _ _ pa] by blast
  moreover have "gw_state w1 = Gate_Shut" using st k1 by (simp add: keeps_closed_def)
  ultimately have "p = Pending" by (cases p rule: poll.exhaust) (auto simp: current_def split: option.splits)
  then show ?thesis using pa by (simp add: gate_poll_ready_def Let_def w1_def)
qed

lemma client_run_grants: "\<forall>ev \<in> set evs. is_client ev \<Longrightarrow> grants (fst (gate_run api evs w)) = 0"
proof (induction evs arbitrary: w)
  case (Cons ev evs)
  then show ?case by (cases ev) (simp_all add: Let_def grants_def)
qed (simp add: grants_def)

text \<open>C12: After a limit of \<open>n\<close>, however the gates are cloned, polled, called and dropped until
  the next change of the state, the calls that all gates together let through, on a permit of the semaphore or
  not, are at most \<open>n\<close> and one for each gate that had been polled ready before
  the limit: when no gate was ready then, at most \<open>n\<close>.\<close>

theorem limited_gate_admits_at_most:
  assumes laws: "semaphore_laws api free closed" and reach: "gate_reach api tr w"
    and limit: "gate_step api (Ev_Limit n) w = (w', Out_Limited k)"
    and evs: "\<forall>ev \<in> set evs. is_client ev"
  shows "calls (fst (gate_run api evs w')) \<le> n + ready_gates w"
proof -
  have wf: "world_wf w" and inv: "wake_inv closed w"
    using gate_reach_conserves [OF laws reach] gate_reach_wake [OF laws reach] by simp_all
  have lim: "tx_limit api n w = Ok (k, w')"
    using limit by (auto split: if_splits sum.splits)
  let ?s = "tx_send_replace api (Gate_Limited (length (gw_sems w))) w"
  have s: "length (gw_sems ?s) = length (gw_sems w)" "gw_gates ?s = gw_gates w" "gw_state ?s = Gate_Limited (length (gw_sems w))"
    using send_replace_conserves [OF laws wf] by simp_all
  have w': "w' = ?s\<lparr> gw_sems := gw_sems ?s @ [sem_new api n] \<rparr>"
    using lim by (auto simp: tx_limit_def Let_def split: if_splits)
  have "world_wf w'" by (rule conjunct1 [OF limit_step_conserves [OF laws wf lim, unfolded conserves_def fst_conv]])
  then have res: "restricted api free closed w'"
    using laws limit_wake [OF laws inv lim] s(3) by (simp add: restricted_def w')
  have "free_now free w' = n" "ready_gates w' = ready_gates w"
    using s new_free [OF laws, of n] by (simp_all add: w' free_now_def free_of_def nth_append ready_gates_def)
  moreover have "Ev_Open \<notin> set evs" using evs by auto
  ultimately show ?thesis
    using gate_run_calls [OF res] client_run_grants [OF evs, of api w'] by fastforce
qed

text \<open>A limit of one on two gates, of which the first had been polled ready while the gate was open.\<close>

definition ready_then_limited :: "(nat \<times> bool) gate_world \<times> unit gate_event list" where
  "ready_then_limited =
    (snd (gate_run counting_semaphore [Ev_Clone 0, Ev_PollReady 0 (Ready (Inr ()) :: (unit + unit) poll)] gate_channel),
     [Ev_PollReady 1 (Ready (Inr ())), Ev_Call 0, Ev_Call 1, Ev_PollReady 0 (Ready (Inr ())), Ev_Call 0])"

lemma ready_then_limited_reach: "\<exists>tr :: (unit gate_event \<times> unit gate_output) list.
    gate_reach counting_semaphore tr (fst ready_then_limited)"
  unfolding ready_then_limited_def fst_conv using gate_reach_run [OF Reach_channel] by blast

theorem limited_gate_admits_at_most_witness:
  "case gate_step counting_semaphore (Ev_Limit 1 :: unit gate_event) (fst ready_then_limited) of (w', out) \<Rightarrow>
     calls (fst (gate_run counting_semaphore (snd ready_then_limited) w')) \<le> 1 + ready_gates (fst ready_then_limited) \<and>
     calls (fst (gate_run counting_semaphore (snd ready_then_limited) w')) = 2 \<and>
     ready_gates (fst ready_then_limited) = 1"
proof -
  obtain w' out where lim: "gate_step counting_semaphore (Ev_Limit 1 :: unit gate_event) (fst ready_then_limited) = (w', out)"
    by (cases "gate_step counting_semaphore (Ev_Limit 1 :: unit gate_event) (fst ready_then_limited)")
  have "snd (gate_step counting_semaphore (Ev_Limit 1 :: unit gate_event) (fst ready_then_limited)) = Out_Limited 0"
    by code_simp
  then have out: "out = Out_Limited 0" by (simp only: lim snd_conv)
  have evs: "\<forall>ev \<in> set (snd ready_then_limited). is_client ev" by (simp add: ready_then_limited_def)
  obtain tr :: "(unit gate_event \<times> unit gate_output) list" where "gate_reach counting_semaphore tr (fst ready_then_limited)"
    using ready_then_limited_reach by blast
  from limited_gate_admits_at_most [OF counting_semaphore_laws this lim [unfolded out] evs]
  have "calls (fst (gate_run counting_semaphore (snd ready_then_limited) w')) \<le> 1 + ready_gates (fst ready_then_limited)" .
  moreover have "calls (fst (gate_run counting_semaphore (snd ready_then_limited)
      (fst (gate_step counting_semaphore (Ev_Limit 1 :: unit gate_event) (fst ready_then_limited))))) = 2"
    by code_simp
  then have "calls (fst (gate_run counting_semaphore (snd ready_then_limited) w')) = 2" by (simp only: lim fst_conv)
  moreover have "ready_gates (fst ready_then_limited) = 1" by code_simp
  ultimately show ?thesis by (simp only: lim prod.case simp_thms)
qed

text \<open>A gate that was polled ready while it was open is called while it is shut.\<close>

lemma ready_gate_called_while_shut:
  "map snd (fst (gate_run counting_semaphore [Ev_PollReady 0 (Ready (Inr ()) :: (unit + unit) poll), Ev_Shut, Ev_Call 0]
     gate_channel)) = [Out_Polled (Ready (Inr ())), Out_None, Out_Called None]"
  by code_simp

end
