(* ===== verification/F64.thy ===== *)
theory F64
  imports Complex_Main "HOL-Library.Log_Nat" Rust_Prelude
begin

text \<open>
  The part of Rust's \<open>f64\<close> that the proxy computes with: IEEE 754 binary64 with rounding to
  nearest, ties to even. A finite number is its exact rational value; the two zeros are one value,
  since nothing modelled here observes the sign of a zero. Every operation computes the exact
  result and rounds it once (\<open>f64_round\<close>), to a multiple of the unit in the last place at its
  exponent (52 fraction bits, subnormals below \<open>2^-1022\<close>, overflow to an infinity).

  The lemmas give the error of a rounding, that integers below \<open>2^53\<close> are exact, and
  that comparing two rounded quotients decides the comparison of the exact quotients as
  long as their denominators are small enough.
\<close>

section \<open>Values and rounding\<close>

datatype f64 = F64 rat | F64_inf bool | F64_nan

definition round_even :: "rat \<Rightarrow> int" where
  "round_even r = (let n = \<lfloor>r\<rfloor>; d = r - of_int n in
     if d < 1 / 2 then n else if 1 / 2 < d then n + 1 else if even n then n else n + 1)"

text \<open>The exponent of a positive number: the greatest power of two that is not above it.\<close>

definition f64_exponent :: "rat \<Rightarrow> int" where
  "f64_exponent r = (if 1 \<le> r then bitlen \<lfloor>r\<rfloor> - 1 else - bitlen (\<lceil>1 / r\<rceil> - 1))"

definition f64_ulp :: "rat \<Rightarrow> rat" where
  "f64_ulp r = 2 powi (max (f64_exponent r - 52) (- 1074))"

definition round_pos :: "rat \<Rightarrow> rat" where
  "round_pos r = of_int (round_even (r / f64_ulp r)) * f64_ulp r"

definition f64_round :: "rat \<Rightarrow> f64" where
  "f64_round r = (if r = 0 then F64 0
     else let m = round_pos \<bar>r\<bar> in
       if 2 ^ 1024 \<le> m then F64_inf (r < 0) else F64 (if r < 0 then - m else m))"

section \<open>Operations\<close>

definition f64_of_nat :: "nat \<Rightarrow> f64" where
  "f64_of_nat n = f64_round (of_nat n)"

fun f64_is_neg :: "f64 \<Rightarrow> bool" where
  "f64_is_neg (F64 r) = (r < 0)"
| "f64_is_neg (F64_inf s) = s"
| "f64_is_neg F64_nan = False"

fun f64_mul :: "f64 \<Rightarrow> f64 \<Rightarrow> f64" where
  "f64_mul (F64 a) (F64 b) = f64_round (a * b)"
| "f64_mul F64_nan y = F64_nan"
| "f64_mul x F64_nan = F64_nan"
| "f64_mul x y = (if x = F64 0 \<or> y = F64 0 then F64_nan else F64_inf (f64_is_neg x \<noteq> f64_is_neg y))"

fun f64_div :: "f64 \<Rightarrow> f64 \<Rightarrow> f64" where
  "f64_div (F64 a) (F64 b) =
     (if b = 0 then if a = 0 then F64_nan else F64_inf (a < 0) else f64_round (a / b))"
| "f64_div (F64_inf s) (F64 b) = F64_inf (s \<noteq> (b < 0))"
| "f64_div (F64 a) (F64_inf s) = F64 0"
| "f64_div x y = F64_nan"

fun f64_add :: "f64 \<Rightarrow> f64 \<Rightarrow> f64" where
  "f64_add (F64 a) (F64 b) = f64_round (a + b)"
| "f64_add (F64_inf s) (F64 b) = F64_inf s"
| "f64_add (F64 a) (F64_inf s) = F64_inf s"
| "f64_add (F64_inf s) (F64_inf t) = (if s = t then F64_inf s else F64_nan)"
| "f64_add x y = F64_nan"

fun f64_neg :: "f64 \<Rightarrow> f64" where
  "f64_neg (F64 a) = F64 (- a)"
| "f64_neg (F64_inf s) = F64_inf (\<not> s)"
| "f64_neg F64_nan = F64_nan"

definition f64_sub :: "f64 \<Rightarrow> f64 \<Rightarrow> f64" where
  "f64_sub x y = f64_add x (f64_neg y)"

fun f64_lt :: "f64 \<Rightarrow> f64 \<Rightarrow> bool" where
  "f64_lt (F64 a) (F64 b) = (a < b)"
| "f64_lt (F64 a) (F64_inf s) = (\<not> s)"
| "f64_lt (F64_inf s) (F64 b) = s"
| "f64_lt (F64_inf s) (F64_inf t) = (s \<and> \<not> t)"
| "f64_lt x y = False"

definition f64_eq :: "f64 \<Rightarrow> f64 \<Rightarrow> bool" where
  "f64_eq x y \<longleftrightarrow> x = y \<and> x \<noteq> F64_nan"

definition f64_le :: "f64 \<Rightarrow> f64 \<Rightarrow> bool" where
  "f64_le x y \<longleftrightarrow> f64_lt x y \<or> f64_eq x y"

fun f64_is_finite :: "f64 \<Rightarrow> bool" where
  "f64_is_finite (F64 r) = True"
| "f64_is_finite x = False"

fun f64_is_infinite :: "f64 \<Rightarrow> bool" where
  "f64_is_infinite (F64_inf s) = True"
| "f64_is_infinite x = False"

text \<open>\<open>f64::max\<close> ignores a NaN.\<close>

definition f64_max :: "f64 \<Rightarrow> f64 \<Rightarrow> f64" where
  "f64_max x y = (if x = F64_nan then y else if y = F64_nan then x else if f64_lt x y then y else x)"

text \<open>\<open>f64::clamp\<close> keeps a NaN; \<open>f64::round\<close> rounds half away from zero; \<open>as u32\<close> and
  \<open>as u64\<close> truncate, saturate and send a NaN to zero.\<close>

definition f64_clamp :: "f64 \<Rightarrow> f64 \<Rightarrow> f64 \<Rightarrow> f64" where
  "f64_clamp lo hi x = (if f64_lt x lo then lo else if f64_lt hi x then hi else x)"

fun f64_round_half_away :: "f64 \<Rightarrow> f64" where
  "f64_round_half_away (F64 r) =
     F64 (if 0 \<le> r then of_int \<lfloor>r + 1 / 2\<rfloor> else - of_int \<lfloor>1 / 2 - r\<rfloor>)"
| "f64_round_half_away x = x"

fun f64_as_uint :: "nat \<Rightarrow> f64 \<Rightarrow> nat" where
  "f64_as_uint bound (F64 r) = min bound (nat \<lfloor>r\<rfloor>)"
| "f64_as_uint bound (F64_inf s) = (if s then 0 else bound)"
| "f64_as_uint bound F64_nan = 0"

section \<open>The error of a rounding\<close>

lemma round_even_error: "\<bar>of_int (round_even r) - r\<bar> \<le> 1 / 2"
proof -
  have "of_int \<lfloor>r\<rfloor> \<le> r" "r < of_int \<lfloor>r\<rfloor> + 1" by linarith+
  then show ?thesis by (simp add: round_even_def Let_def abs_le_iff)
qed

lemma round_even_of_int [simp]: "round_even (of_int n) = n"
  by (simp add: round_even_def)

lemma round_even_nonneg: "0 \<le> r \<Longrightarrow> 0 \<le> round_even r"
  by (simp add: round_even_def Let_def)

lemma bitlen_power_le: "0 < n \<Longrightarrow> 2 powi (bitlen n - 1) \<le> (of_int n :: rat)"
proof -
  assume "0 < n"
  then have "2 ^ nat (bitlen n - 1) \<le> n" using bitlen_bounds [of n] by simp
  then have "(of_int (2 ^ nat (bitlen n - 1)) :: rat) \<le> of_int n" by (simp only: of_int_le_iff)
  then show ?thesis using bitlen_nonneg [of n] \<open>0 < n\<close>
    by (cases "bitlen n") (auto simp: power_int_def bitlen_eq_zero_iff)
qed

lemma bitlen_power_gt: "0 \<le> n \<Longrightarrow> (of_int n :: rat) < 2 powi (bitlen n)"
proof -
  assume "0 \<le> n"
  then have "n < 2 ^ nat (bitlen n)"
    using bitlen_bounds [of n] by (cases "n = 0") auto
  then have "(of_int n :: rat) < of_int (2 ^ nat (bitlen n))" by (simp only: of_int_less_iff)
  then show ?thesis using bitlen_nonneg [of n] by (simp add: power_int_def)
qed

lemma f64_exponent_le: "0 < r \<Longrightarrow> 2 powi (f64_exponent r) \<le> r"
proof (cases "1 \<le> r")
  case True
  then have "2 powi (bitlen \<lfloor>r\<rfloor> - 1) \<le> (of_int \<lfloor>r\<rfloor> :: rat)" by (intro bitlen_power_le) simp
  then have "2 powi (bitlen \<lfloor>r\<rfloor> - 1) \<le> r" using of_int_floor_le [of r] by (rule order_trans)
  with True show ?thesis by (simp add: f64_exponent_def)
next
  case False
  assume "0 < r"
  define n where "n = \<lceil>1 / r\<rceil> - 1"
  have "0 < 1 / r" using \<open>0 < r\<close> by simp
  then have n: "0 \<le> n" unfolding n_def by linarith
  have "1 / r \<le> of_int (n + 1)" unfolding n_def by simp
  also have "of_int (n + 1) \<le> (2 powi (bitlen n) :: rat)"
  proof -
    have "n < 2 ^ nat (bitlen n)" using bitlen_bounds [of n] n by (cases "n = 0") auto
    then have "(of_int (n + 1) :: rat) \<le> of_int (2 ^ nat (bitlen n))" by (simp only: of_int_le_iff)
    then show ?thesis using bitlen_nonneg [of n] by (simp add: power_int_def)
  qed
  finally have "1 / r \<le> 2 powi (bitlen n)" by simp
  then have "1 / 2 powi (bitlen n) \<le> r" using \<open>0 < r\<close> by (simp add: field_simps)
  with False show ?thesis by (simp add: f64_exponent_def n_def power_int_minus divide_inverse)
qed

lemma f64_ulp_pos [simp]: "0 < f64_ulp r"
  by (simp add: f64_ulp_def)

lemma f64_ulp_le: "0 < r \<Longrightarrow> f64_ulp r \<le> max (r / 2 ^ 52) (1 / 2 ^ 1074)"
proof -
  assume r: "0 < r"
  have "2 powi (f64_exponent r - 52) = (2 powi (f64_exponent r) / 2 ^ 52 :: rat)"
    by (simp add: power_int_diff)
  also have "\<dots> \<le> r / 2 ^ 52" using f64_exponent_le [OF r] by (simp add: divide_right_mono)
  finally have "2 powi (f64_exponent r - 52) \<le> r / 2 ^ 52" .
  moreover have "(2 powi (- 1074) :: rat) = 1 / 2 ^ 1074"
    by (simp only: power_int_minus power_int_numeral divide_inverse mult_1)
  ultimately show ?thesis
    by (cases "f64_exponent r - 52 \<le> - 1074") (auto simp: f64_ulp_def max_def)
qed

lemma round_pos_error: "\<bar>round_pos r - r\<bar> \<le> f64_ulp r / 2"
proof -
  let ?u = "f64_ulp r"
  have "round_pos r - r = (of_int (round_even (r / ?u)) - r / ?u) * ?u"
    using f64_ulp_pos [of r] by (simp add: round_pos_def left_diff_distrib less_le)
  then have "\<bar>round_pos r - r\<bar> = \<bar>of_int (round_even (r / ?u)) - r / ?u\<bar> * ?u"
    using f64_ulp_pos [of r] by (simp only: abs_mult abs_of_pos)
  also have "\<dots> \<le> 1 / 2 * ?u"
    using round_even_error [of "r / ?u"] f64_ulp_pos [of r]
    by (intro mult_right_mono) (simp_all only: less_imp_le)
  finally show ?thesis by simp
qed

lemma round_pos_nonneg: "0 \<le> r \<Longrightarrow> 0 \<le> round_pos r"
  using round_even_nonneg [of "r / f64_ulp r"] f64_ulp_pos [of r] by (simp add: round_pos_def less_imp_le)

lemma f64_round_error:
  assumes "0 \<le> r" "r \<le> 2 ^ 1000"
  obtains m where "f64_round r = F64 m" "0 \<le> m" "\<bar>m - r\<bar> \<le> max (r / 2 ^ 53) (1 / 2 ^ 1075)"
proof (cases "r = 0")
  case True
  then show thesis using that [of 0] by (simp add: f64_round_def)
next
  case False
  then have r: "0 < r" using assms(1) by simp
  have e: "\<bar>round_pos r - r\<bar> \<le> max (r / 2 ^ 53) (1 / 2 ^ 1075)"
  proof -
    have "f64_ulp r / 2 \<le> max (r / 2 ^ 52) (1 / 2 ^ 1074) / 2"
      using f64_ulp_le [OF r] by (rule divide_right_mono) simp
    also have "\<dots> = max (r / 2 ^ 53) (1 / 2 ^ 1075)" by (simp add: max_def)
    finally show ?thesis using round_pos_error [of r] by linarith
  qed
  moreover have "max (r / 2 ^ 53) (1 / 2 ^ 1075) \<le> 2 ^ 1000"
    using assms by (simp add: field_simps)
  ultimately have "round_pos r \<le> 2 ^ 1000 + 2 ^ 1000" using assms(2) by linarith
  also have "\<dots> < (2 ^ 1024 :: rat)" by simp
  finally have "f64_round r = F64 (round_pos r)" using r by (simp add: f64_round_def Let_def)
  then show thesis using round_pos_nonneg [OF assms(1)] e by (rule that)
qed

lemma f64_of_nat_exact: "n < 2 ^ 53 \<Longrightarrow> f64_of_nat n = F64 (of_nat n)"
proof (cases "n = 0")
  case False
  assume n: "n < 2 ^ 53"
  let ?r = "of_nat n :: rat"
  have "0 < ?r" "1 \<le> ?r" using False by simp_all
  have "\<lfloor>?r\<rfloor> = int n" by simp
  then have "f64_exponent ?r = bitlen (int n) - 1" using \<open>1 \<le> ?r\<close> by (simp add: f64_exponent_def)
  moreover have "bitlen (int n) \<le> int 53"
    using n by (simp only: less_power_nat_iff_bitlen)
  moreover have "1 \<le> bitlen (int n)" using False by (simp only: bitlen_ge_iff_power) simp
  moreover define k where "k = nat (53 - bitlen (int n))"
  ultimately have k: "f64_ulp ?r = 2 powi (- int k)" by (simp add: f64_ulp_def)
  then have "?r / f64_ulp ?r = of_int (int n * 2 ^ k)"
    by (simp add: power_int_minus divide_inverse)
  then have "round_pos ?r = of_int (int n * 2 ^ k) * f64_ulp ?r"
    by (simp only: round_pos_def round_even_of_int)
  also have "\<dots> = ?r" by (simp add: k power_int_minus)
  finally have "round_pos ?r = ?r" .
  moreover have "?r < 2 ^ 1024"
  proof -
    have "?r < of_nat (2 ^ 53)" using n by (simp only: of_nat_less_iff)
    also have "\<dots> = 2 ^ 53" by (simp only: of_nat_power of_nat_numeral)
    also have "\<dots> < (2 ^ 1024 :: rat)" by (rule power_strict_increasing) simp_all
    finally show ?thesis .
  qed
  ultimately show ?thesis using False
    by (simp only: f64_of_nat_def f64_round_def Let_def abs_of_nat not_le [symmetric]) simp
qed (simp only: f64_of_nat_def f64_round_def of_nat_0 refl if_True)

text \<open>Comparing two rounded ratios of counts decides the comparison of the ratios.\<close>

lemma f64_ratio_near:
  assumes "a \<le> b" "0 < b" "b < 2 ^ 53"
  obtains m where "f64_div (f64_of_nat a) (f64_of_nat b) = F64 m" "0 \<le> m"
    "\<bar>m - of_nat a / of_nat b\<bar> \<le> 1 / 2 ^ 53"
proof -
  let ?q = "of_nat a / of_nat b :: rat"
  have q: "0 \<le> ?q" "?q \<le> 1" using assms by simp_all
  then have "?q \<le> 2 ^ 1000" by (rule_tac order_trans [of _ 1]) simp_all
  from q(1) this obtain m where m: "f64_round ?q = F64 m" "0 \<le> m"
    "\<bar>m - ?q\<bar> \<le> max (?q / 2 ^ 53) (1 / 2 ^ 1075)" by (rule f64_round_error)
  have "max (?q / 2 ^ 53) (1 / 2 ^ 1075) \<le> (1 / 2 ^ 53 :: rat)"
    using q by (simp add: divide_right_mono)
  with m(3) have "\<bar>m - ?q\<bar> \<le> 1 / 2 ^ 53" by linarith
  then show thesis using m(1,2) assms by (intro that) (simp_all add: f64_of_nat_exact)
qed

lemma near_less:
  fixes m n p q e :: rat
  shows "\<bar>m - p\<bar> \<le> e \<Longrightarrow> \<bar>n - q\<bar> \<le> e \<Longrightarrow> 2 * e < q - p \<Longrightarrow> m < n"
  by linarith

lemma f64_ratio_less_iff:
  assumes a: "a \<le> b" "0 < b" and c: "c \<le> d" "0 < d" and bd: "b * d < 2 ^ 52"
  shows "f64_lt (f64_div (f64_of_nat a) (f64_of_nat b)) (f64_div (f64_of_nat c) (f64_of_nat d))
    \<longleftrightarrow> a * d < c * b"
proof -
  have "b \<le> b * d" "d \<le> b * d" using a c by simp_all
  moreover have "(2 :: nat) ^ 52 < 2 ^ 53" by (rule power_strict_increasing) simp_all
  ultimately have lt: "b < 2 ^ 53" "d < 2 ^ 53" using bd by (blast intro: le_less_trans less_trans)+
  obtain m where m: "f64_div (f64_of_nat a) (f64_of_nat b) = F64 m" "0 \<le> m"
    "\<bar>m - of_nat a / of_nat b\<bar> \<le> 1 / 2 ^ 53" using a lt(1) by (rule f64_ratio_near)
  obtain n where n: "f64_div (f64_of_nat c) (f64_of_nat d) = F64 n" "0 \<le> n"
    "\<bar>n - of_nat c / of_nat d\<bar> \<le> 1 / 2 ^ 53" using c lt(2) by (rule f64_ratio_near)
  let ?p = "of_nat a / of_nat b :: rat" and ?q = "of_nat c / of_nat d :: rat"
  have diff: "?q - ?p = (of_int (int (c * b) - int (a * d)) :: rat) / of_nat (b * d)"
    "?p - ?q = (of_int (int (a * d) - int (c * b)) :: rat) / of_nat (b * d)"
    using a c by (simp_all add: field_simps)
  have gap: "2 * (1 / 2 ^ 53) < (1 :: rat) / of_nat (b * d)"
  proof -
    have "(of_nat (b * d) :: rat) < of_nat (2 ^ 52)" using bd by (simp only: of_nat_less_iff)
    then show ?thesis using a c by (simp add: frac_less2)
  qed
  show ?thesis
  proof (cases "a * d < c * b")
    case True
    then have "(1 :: rat) \<le> of_int (int (c * b) - int (a * d))" by (simp only: of_int_1_le_iff)
    then have "1 / of_nat (b * d) \<le> ?q - ?p" unfolding diff(1) by (intro divide_right_mono) simp_all
    with gap have "m < n" by (intro near_less [OF m(3) n(3)]) (rule less_le_trans)
    then show ?thesis using True by (simp add: m(1) n(1))
  next
    case False
    show ?thesis
    proof (cases "a * d = c * b")
      case True
      then have "?p = ?q" using a c by (simp add: field_simps) (metis of_nat_mult)
      then have "f64_div (f64_of_nat a) (f64_of_nat b) = f64_div (f64_of_nat c) (f64_of_nat d)"
        using a c lt by (simp add: f64_of_nat_exact)
      then show ?thesis using True by (simp add: n(1))
    next
      case ne: False
      then have "(1 :: rat) \<le> of_int (int (a * d) - int (c * b))"
        using False by (simp only: of_int_1_le_iff)
      then have "1 / of_nat (b * d) \<le> ?p - ?q"
        unfolding diff(2) by (intro divide_right_mono) simp_all
      with gap have "n < m" by (intro near_less [OF n(3) m(3)]) (rule less_le_trans)
      then show ?thesis using False by (simp add: m(1) n(1))
    qed
  qed
qed

text \<open>Scaling a rounded ratio \<open>a / b\<close> back by \<open>b\<close> and rounding to an integer gives
  \<open>a\<close> again.\<close>

lemma floor_near: "\<bar>x - of_nat a\<bar> \<le> 1 / 4 \<Longrightarrow> \<lfloor>x + 1 / 2\<rfloor> = int a" for x :: rat
  by (rule floor_unique) (simp_all only: of_int_of_nat_eq)

lemma f64_ratio_scale_back:
  assumes ab: "a \<le> b" "0 < b" and b: "b \<le> 10000" and bound: "a \<le> bound"
  shows "f64_as_uint bound (f64_round_half_away
    (f64_mul (f64_div (f64_of_nat a) (f64_of_nat b)) (f64_of_nat b))) = a"
proof -
  have b53: "b < 2 ^ 53" using b by simp
  obtain m where m: "f64_div (f64_of_nat a) (f64_of_nat b) = F64 m" "0 \<le> m"
    "\<bar>m - of_nat a / of_nat b\<bar> \<le> 1 / 2 ^ 53" using ab b53 by (rule f64_ratio_near)
  have b': "(of_nat b :: rat) \<le> 10000" "0 < (of_nat b :: rat)" using b ab by simp_all
  define x where "x = m * of_nat b"
  have "x - of_nat a = (m - of_nat a / of_nat b) * of_nat b"
    using b'(2) by (simp add: x_def left_diff_distrib)
  then have "\<bar>x - of_nat a\<bar> = \<bar>m - of_nat a / of_nat b\<bar> * of_nat b" by (simp add: abs_mult)
  also have "\<dots> \<le> 1 / 2 ^ 53 * 10000" using m(3) b' by (intro mult_mono) simp_all
  also have "\<dots> \<le> 1 / 8" by simp
  finally have x: "\<bar>x - of_nat a\<bar> \<le> 1 / 8" .
  have "(of_nat a :: rat) \<le> 10000" using ab b by simp
  then have xb: "0 \<le> x" "x \<le> 10001" using x m(2) by (simp add: x_def, linarith)
  then have "x \<le> 2 ^ 1000" by (rule_tac order_trans [of _ 10001]) simp_all
  from xb(1) this obtain y where y: "f64_round x = F64 y" "0 \<le> y"
    "\<bar>y - x\<bar> \<le> max (x / 2 ^ 53) (1 / 2 ^ 1075)" by (rule f64_round_error)
  have "max (x / 2 ^ 53) (1 / 2 ^ 1075) \<le> 1 / 8" using xb by simp
  with y(3) x have "\<bar>y - of_nat a\<bar> \<le> 1 / 4" by linarith
  then have "\<lfloor>y + 1 / 2\<rfloor> = int a" by (rule floor_near)
  then have "f64_round_half_away (f64_round x) = F64 (of_nat a)" using y(1,2) by simp
  then show ?thesis using bound by (simp only: m(1), simp add: f64_of_nat_exact [OF b53] x_def)
qed

text \<open>A coarse bound that is enough to bound products of a few factors.\<close>

lemma f64_round_le:
  assumes "0 \<le> r" "r \<le> 2 ^ 1000"
  obtains m where "f64_round r = F64 m" "0 \<le> m" "m \<le> r + r / 2 ^ 53 + 1 / 2 ^ 1075"
proof (rule f64_round_error [OF assms])
  fix m
  assume "f64_round r = F64 m" "0 \<le> m" and e: "\<bar>m - r\<bar> \<le> max (r / 2 ^ 53) (1 / 2 ^ 1075)"
  moreover have "max (r / 2 ^ 53) (1 / 2 ^ 1075) \<le> r / 2 ^ 53 + 1 / 2 ^ 1075"
    using assms(1) by (intro max.boundedI) simp_all
  then have "m \<le> r + r / 2 ^ 53 + 1 / 2 ^ 1075" using e by linarith
  ultimately show thesis by (intro that)
qed

end
