(* ===== verification/Exp_Backoff.thy ===== *)
theory Exp_Backoff
  imports F64
begin

text \<open>
  The jittered exponential backoff of \<open>linkerd/exp-backoff/src/lib.rs\<close>: the checked
  constructor, the base delay of an iteration, the jitter and the stream that sleeps between
  items. A \<open>Duration\<close> has at most \<open>2^64 - 1\<close> seconds; \<open>checked_mul\<close> and
  \<open>Duration::new\<close> observe that bound. The random factor is an argument: the generator
  returns a number in \<open>[0, 1)\<close>. Debug assertions are not modelled.
\<close>

section \<open>Configuration\<close>

record exponential_backoff =
  eb_min :: duration
  eb_max :: duration
  eb_jitter :: f64

datatype invalid_backoff = InvalidBackoff string

definition backoff_try_new ::
  "duration \<Rightarrow> duration \<Rightarrow> f64 \<Rightarrow> (exponential_backoff, invalid_backoff) result" where
  "backoff_try_new lo hi jitter =
    (if hi < lo then Err (InvalidBackoff ''maximum must not be less than minimum'')
     else if hi = 0 then Err (InvalidBackoff ''maximum must be non-zero'')
     else if f64_lt jitter (F64 0) then Err (InvalidBackoff ''jitter must not be negative'')
     else if f64_lt (F64 100) jitter
       then Err (InvalidBackoff ''jitter must not be greater than 100'')
     else if \<not> f64_is_finite jitter then Err (InvalidBackoff ''jitter must be finite'')
     else Ok \<lparr> eb_min = lo, eb_max = hi, eb_jitter = jitter \<rparr>)"

definition nanos_per_sec :: nat where
  "nanos_per_sec = 10 ^ 9"

definition duration_max :: duration where
  "duration_max = (2 ^ 64 - 1) * nanos_per_sec + (nanos_per_sec - 1)"

definition duration_checked_mul :: "duration \<Rightarrow> nat \<Rightarrow> duration option" where
  "duration_checked_mul d n = (if d * n \<le> duration_max then Some (d * n) else None)"

definition duration_new :: "nat \<Rightarrow> nat \<Rightarrow> duration outcome" where
  "duration_new secs nanos =
    (if u64_max < secs + nanos div nanos_per_sec then Panics ''overflow in Duration::new''
     else Returns (secs * nanos_per_sec + nanos))"

definition backoff_base :: "exponential_backoff \<Rightarrow> nat \<Rightarrow> duration" where
  "backoff_base b iterations =
    min (case duration_checked_mul (eb_min b) (min u32_max (2 ^ iterations)) of
           Some d \<Rightarrow> d | None \<Rightarrow> eb_max b)
        (eb_max b)"

definition backoff_jitter :: "exponential_backoff \<Rightarrow> duration \<Rightarrow> f64 \<Rightarrow> duration outcome" where
  "backoff_jitter b base jitter_factor =
    (if f64_eq (eb_jitter b) (F64 0) then Returns 0
     else let rand_jitter = f64_mul jitter_factor (eb_jitter b);
              secs = f64_mul (f64_of_nat (base div nanos_per_sec)) rand_jitter;
              nanos = f64_mul (f64_of_nat (base mod nanos_per_sec)) rand_jitter;
              remaining = eb_max b - base
          in bind_outcome (duration_new (f64_as_uint u64_max secs) (f64_as_uint u32_max nanos))
               (\<lambda>d. Returns (min d remaining)))"

section \<open>The stream\<close>

record backoff_stream =
  bs_backoff :: exponential_backoff
  bs_iterations :: nat
  bs_sleeping :: bool
  bs_sleep :: instant
  bs_duration :: duration

definition new_backoff_stream :: "exponential_backoff \<Rightarrow> instant \<Rightarrow> backoff_stream" where
  "new_backoff_stream b now =
    \<lparr> bs_backoff = b, bs_iterations = 0, bs_sleeping = False, bs_sleep = now, bs_duration = 0 \<rparr>"

text \<open>One poll at time \<open>now\<close> with the next value of the generator. The loop of the code goes
  round again after it has armed the timer.\<close>

function backoff_poll_next ::
  "instant \<Rightarrow> f64 \<Rightarrow> backoff_stream \<Rightarrow> (unit option poll \<times> backoff_stream) outcome" where
  "backoff_poll_next now rng st =
    (if bs_sleeping st then
       if now < bs_sleep st then Returns (Pending, st)
       else Returns (Ready (Some ()),
         st\<lparr> bs_sleeping := False, bs_iterations := bs_iterations st + 1 \<rparr>)
     else if bs_iterations st = u32_max then Returns (Ready None, st)
     else let base = backoff_base (bs_backoff st) (bs_iterations st) in
       bind_outcome (backoff_jitter (bs_backoff st) base rng) (\<lambda>j.
         backoff_poll_next now rng
           (st\<lparr> bs_duration := base + j, bs_sleep := now + (base + j), bs_sleeping := True \<rparr>)))"
  by pat_completeness auto

termination
  by (relation "measure (\<lambda>(now, rng, st). if bs_sleeping st then 0 else 1)") auto

declare backoff_poll_next.simps [simp del]

section \<open>Bounds\<close>

definition backoff_wf :: "exponential_backoff \<Rightarrow> bool" where
  "backoff_wf b \<longleftrightarrow> eb_min b \<le> eb_max b \<and> 0 < eb_max b \<and>
     (case eb_jitter b of F64 j \<Rightarrow> 0 \<le> j \<and> j \<le> 100 | _ \<Rightarrow> False)"

lemma backoff_try_new_wf: "backoff_try_new lo hi j = Ok b \<Longrightarrow> backoff_wf b"
  by (cases j) (auto simp: backoff_try_new_def backoff_wf_def split: if_splits)

lemma backoff_try_new_Ok_iff:
  "(\<exists>b. backoff_try_new lo hi j = Ok b) \<longleftrightarrow>
     lo \<le> hi \<and> 0 < hi \<and> (\<exists>r. j = F64 r \<and> 0 \<le> r \<and> r \<le> 100)"
  by (cases j) (auto simp: backoff_try_new_def)

lemma backoff_base_le_max: "backoff_base b i \<le> eb_max b"
  by (simp add: backoff_base_def)

lemma saturating_pow_ge: "1 \<le> min u32_max (2 ^ i)"
  by (simp add: u32_max_def)

lemma backoff_base_ge_min:
  assumes "eb_min b \<le> eb_max b"
  shows "eb_min b \<le> backoff_base b i"
proof (cases "duration_checked_mul (eb_min b) (min u32_max (2 ^ i))")
  case (Some d)
  then have "d = eb_min b * min u32_max (2 ^ i)"
    by (simp add: duration_checked_mul_def split: if_splits)
  moreover have "eb_min b * 1 \<le> eb_min b * min u32_max (2 ^ i)"
    using saturating_pow_ge by (rule mult_le_mono2)
  ultimately show ?thesis using Some assms by (simp add: backoff_base_def)
qed (use assms in \<open>simp add: backoff_base_def\<close>)

text \<open>As long as the maximum is a \<open>Duration\<close>, the base delay doubles until it reaches the
  maximum; from the 32nd iteration on the factor stays at \<open>u32::MAX\<close>.\<close>

lemma backoff_base_eq:
  "eb_max b \<le> duration_max \<Longrightarrow>
     backoff_base b i = min (eb_min b * (if i < 32 then 2 ^ i else u32_max)) (eb_max b)"
proof -
  assume m: "eb_max b \<le> duration_max"
  have "min u32_max (2 ^ i) = (if i < 32 then 2 ^ i else u32_max)"
  proof (cases "i < 32")
    case True
    then have "(2 :: nat) ^ i \<le> 2 ^ 31" by (intro power_increasing) simp_all
    then show ?thesis using True by (simp add: u32_max_def)
  next
    case False
    then have "(2 :: nat) ^ 32 \<le> 2 ^ i" by (intro power_increasing) simp_all
    then show ?thesis using False by (simp add: u32_max_def)
  qed
  then show ?thesis using m by (simp add: backoff_base_def duration_checked_mul_def)
qed

lemma backoff_base_mono:
  assumes "eb_max b \<le> duration_max" "i \<le> j"
  shows "backoff_base b i \<le> backoff_base b j"
proof -
  have "(2 :: nat) ^ i \<le> 2 ^ j" using assms(2) by (intro power_increasing) simp_all
  moreover have "(2 :: nat) ^ i \<le> 2 ^ 31" if "i < 32"
    using that by (intro power_increasing) simp_all
  ultimately have "(if i < 32 then 2 ^ i else u32_max) \<le> (if j < 32 then 2 ^ j else u32_max)"
    using assms(2) by (auto simp: u32_max_def)
  then have "eb_min b * (if i < 32 then 2 ^ i else u32_max)
      \<le> eb_min b * (if j < 32 then 2 ^ j else u32_max)" by (rule mult_le_mono2)
  then show ?thesis using assms(1) by (simp only: backoff_base_eq min.mono order_refl)
qed

text \<open>The random part is at most 100 times the base, so no delay below \<open>2^48\<close> seconds
  can overflow, and the sum is cut off at the maximum.\<close>

definition unit_factor :: "f64 \<Rightarrow> bool" where
  "unit_factor x \<longleftrightarrow> (case x of F64 f \<Rightarrow> 0 \<le> f \<and> f < 1 | _ \<Rightarrow> False)"

lemma rand_jitter_bound:
  assumes "unit_factor x" "0 \<le> j" "j \<le> c" "c \<le> 2 ^ 10"
  obtains r where "f64_mul x (F64 j) = F64 r" "0 \<le> r" "r \<le> c + 1 / 2 ^ 40"
proof -
  obtain f where x: "x = F64 f" "0 \<le> f" "f < 1"
    using assms(1) by (cases x) (auto simp: unit_factor_def)
  have "f * j \<le> 1 * c" using x assms by (intro mult_mono) simp_all
  then have fj: "0 \<le> f * j" "f * j \<le> c" using x assms by simp_all
  then have "f * j \<le> 2 ^ 1000" using assms(4) by (rule_tac order_trans [of _ "2 ^ 10"]) simp_all
  from fj(1) this obtain r where r: "f64_round (f * j) = F64 r" "0 \<le> r"
    "r \<le> f * j + f * j / 2 ^ 53 + 1 / 2 ^ 1075" by (rule f64_round_le)
  have "f * j / 2 ^ 53 \<le> 2 ^ 10 / 2 ^ 53" using fj(2) assms(4) by (intro divide_right_mono) simp_all
  moreover have "(2 ^ 10 / 2 ^ 53 + 1 / 2 ^ 1075 :: rat) \<le> 1 / 2 ^ 40" by simp
  ultimately have "r \<le> c + 1 / 2 ^ 40" using r(3) fj(2) by linarith
  then show thesis using r x by (intro that) simp_all
qed

lemma scaled_bound:
  assumes "n < 2 ^ 48" "0 \<le> r" "of_nat n * r \<le> c" "c \<le> 2 ^ 100"
  obtains m where "f64_mul (f64_of_nat n) (F64 r) = F64 m" "0 \<le> m"
    "m \<le> c + c / 2 ^ 53 + 1 / 2 ^ 1075"
proof -
  have n: "f64_of_nat n = F64 (of_nat n)" using assms(1) by (intro f64_of_nat_exact) simp
  have nr: "0 \<le> of_nat n * r" using assms(2) by simp
  have "of_nat n * r \<le> 2 ^ 1000" using assms(3,4) by (rule_tac order_trans [of _ "2 ^ 100"]) simp_all
  with nr obtain m where m: "f64_round (of_nat n * r) = F64 m" "0 \<le> m"
    "m \<le> of_nat n * r + of_nat n * r / 2 ^ 53 + 1 / 2 ^ 1075" by (rule f64_round_le)
  have "of_nat n * r / 2 ^ 53 \<le> c / 2 ^ 53" using assms(3) by (intro divide_right_mono) simp_all
  then have "m \<le> c + c / 2 ^ 53 + 1 / 2 ^ 1075" using m(3) assms(3) by linarith
  then show thesis using m n by (intro that) simp_all
qed

lemma backoff_jitter_Returns:
  assumes b: "backoff_wf b" "base \<le> eb_max b" "eb_max b < 2 ^ 48 * nanos_per_sec"
    and x: "unit_factor x"
  obtains j where "backoff_jitter b base x = Returns j" "base + j \<le> eb_max b"
proof -
  obtain jit where jit: "eb_jitter b = F64 jit" "0 \<le> jit" "jit \<le> 100"
    using b(1) by (cases "eb_jitter b") (auto simp: backoff_wf_def)
  obtain r where r: "f64_mul x (F64 jit) = F64 r" "0 \<le> r" "r \<le> 100 + 1 / 2 ^ 40"
    using x jit(2,3) by (rule rand_jitter_bound) simp
  have s: "base div nanos_per_sec < 2 ^ 48"
    using b(2,3) by (simp add: nanos_per_sec_def less_mult_imp_div_less)
  have "of_nat (base div nanos_per_sec) * r \<le> 2 ^ 48 * 2 ^ 7"
  proof (intro mult_mono)
    have "(of_nat (base div nanos_per_sec) :: rat) < of_nat (2 ^ 48)" using s by (simp only: of_nat_less_iff)
    then show "(of_nat (base div nanos_per_sec) :: rat) \<le> 2 ^ 48" by simp
    have "100 + 1 / 2 ^ 40 \<le> (2 ^ 7 :: rat)" by simp
    then show "r \<le> 2 ^ 7" using r(3) by linarith
  qed (use r(2) in simp_all)
  with s r(2) obtain m where m: "f64_mul (f64_of_nat (base div nanos_per_sec)) (F64 r) = F64 m"
    "0 \<le> m" "m \<le> 2 ^ 48 * 2 ^ 7 + 2 ^ 48 * 2 ^ 7 / 2 ^ 53 + 1 / 2 ^ 1075"
    by (rule scaled_bound) simp
  have "2 ^ 48 * 2 ^ 7 + 2 ^ 48 * 2 ^ 7 / 2 ^ 53 + 1 / 2 ^ 1075 \<le> (2 ^ 56 :: rat)" by simp
  with m(3) have "m \<le> of_int (2 ^ 56)" by simp
  then have "\<lfloor>m\<rfloor> \<le> 2 ^ 56" using floor_mono [of m "of_int (2 ^ 56)"] by (simp only: floor_of_int)
  then have "nat \<lfloor>m\<rfloor> \<le> 2 ^ 56" by (simp only: nat_le_iff of_nat_power of_nat_numeral)
  then have secs: "f64_as_uint u64_max (F64 m) \<le> 2 ^ 56" by (simp only: f64_as_uint.simps min.coboundedI2)
  have "f64_as_uint u32_max n \<le> u32_max" for n by (cases n) simp_all
  then have "f64_as_uint u32_max n div nanos_per_sec \<le> u32_max div nanos_per_sec" for n
    by (rule div_le_mono)
  moreover have "u32_max div nanos_per_sec = 4" by (simp add: u32_max_def nanos_per_sec_def)
  ultimately have nanos: "f64_as_uint u32_max n div nanos_per_sec \<le> 4" for n by simp
  have no_overflow: "\<not> u64_max < f64_as_uint u64_max (F64 m) + f64_as_uint u32_max n div nanos_per_sec" for n
    using secs nanos [of n] by (simp add: u64_max_def)
  then obtain d where d: "duration_new (f64_as_uint u64_max (F64 m))
      (f64_as_uint u32_max (f64_mul (f64_of_nat (base mod nanos_per_sec)) (F64 r))) = Returns d"
    by (simp only: duration_new_def if_False outcome.inject)
  have "backoff_jitter b base x =
      Returns (if f64_eq (F64 jit) (F64 0) then 0 else min d (eb_max b - base))"
    by (simp only: backoff_jitter_def jit(1) r(1) m(1) Let_def d bind_outcome_simps split: if_split)
      simp
  then show thesis using b(2) by (intro that) (auto simp: min_def)
qed

text \<open>A base of whole seconds, no more of them than half the inverse of the jitter ratio, never
  gets any jitter: the seconds are scaled and truncated on their own.\<close>

lemma whole_seconds_jitter:
  assumes jit: "eb_jitter b = F64 jit" "0 \<le> jit" "jit \<le> 100"
    and n: "n < 2 ^ 30" "of_nat n * jit \<le> 1 / 2" and x: "unit_factor x"
  shows "backoff_jitter b (n * nanos_per_sec) x = Returns 0"
proof -
  have "jit \<le> 2 ^ 10" using jit(3) by simp
  with x jit(2) order_refl obtain r
    where r: "f64_mul x (F64 jit) = F64 r" "0 \<le> r" "r \<le> jit + 1 / 2 ^ 40"
    by (rule rand_jitter_bound)
  have "(of_nat n :: rat) < of_nat (2 ^ 30)" using n(1) by (simp only: of_nat_less_iff)
  then have n': "(of_nat n :: rat) \<le> 2 ^ 30" by simp
  have "of_nat n * r \<le> of_nat n * jit + of_nat n * (1 / 2 ^ 40)"
    using r(3) by (simp only: distrib_left [symmetric]) (rule mult_left_mono, simp_all)
  also have "of_nat n * (1 / 2 ^ 40) \<le> 2 ^ 30 * (1 / 2 ^ 40 :: rat)" using n' by (rule mult_right_mono) simp
  finally have "of_nat n * r \<le> 1 / 2 + 2 ^ 30 * (1 / 2 ^ 40)" using n(2) by simp
  then have nr: "of_nat n * r \<le> 3 / 4" by simp
  have "n < 2 ^ 48" using n(1) by (rule less_trans) (rule power_strict_increasing, simp_all)
  from this r(2) nr obtain m where m: "f64_mul (f64_of_nat n) (F64 r) = F64 m" "0 \<le> m"
    "m \<le> 3 / 4 + 3 / 4 / 2 ^ 53 + 1 / 2 ^ 1075" by (rule scaled_bound) simp
  have "3 / 4 + 3 / 4 / 2 ^ 53 + 1 / 2 ^ 1075 < (1 :: rat)" by simp
  with m(3) have "m < 1" by (rule le_less_trans)
  with m(2) have "\<lfloor>m\<rfloor> = 0" by (intro floor_unique) simp_all
  then have secs: "f64_as_uint u64_max (F64 m) = 0" by simp
  have z: "f64_mul (f64_of_nat 0) (F64 r) = F64 0" by (simp add: f64_of_nat_def f64_round_def)
  have "n * nanos_per_sec div nanos_per_sec = n" "n * nanos_per_sec mod nanos_per_sec = 0"
    by (simp_all add: nanos_per_sec_def)
  then show ?thesis
    by (simp only: backoff_jitter_def jit(1) r(1) m(1) z Let_def secs)
      (simp add: duration_new_def)
qed

section \<open>Polling the stream\<close>

text \<open>The stream's backoff is valid and a pending sleep ends no later than the maximum after the
  last poll.\<close>

definition stream_wf :: "instant \<Rightarrow> backoff_stream \<Rightarrow> bool" where
  "stream_wf now st \<longleftrightarrow> backoff_wf (bs_backoff st) \<and>
     eb_max (bs_backoff st) < 2 ^ 48 * nanos_per_sec \<and> bs_iterations st \<le> u32_max \<and>
     (bs_sleeping st \<longrightarrow> bs_iterations st < u32_max \<and>
        bs_duration st \<in> {eb_min (bs_backoff st) .. eb_max (bs_backoff st)} \<and>
        bs_sleep st \<le> now + eb_max (bs_backoff st))"

lemma stream_wf_new:
  "backoff_wf b \<Longrightarrow> eb_max b < 2 ^ 48 * nanos_per_sec \<Longrightarrow> stream_wf now (new_backoff_stream b now)"
  by (simp add: stream_wf_def new_backoff_stream_def)

lemma poll_sleeping:
  "bs_sleeping st \<Longrightarrow> backoff_poll_next now rng st =
     (if now < bs_sleep st then Returns (Pending, st)
      else Returns (Ready (Some ()),
        st\<lparr> bs_sleeping := False, bs_iterations := bs_iterations st + 1 \<rparr>))"
  by (subst backoff_poll_next.simps) simp

lemma poll_start:
  assumes wf: "stream_wf t st" and st: "\<not> bs_sleeping st" "bs_iterations st < u32_max"
    and x: "unit_factor x"
  obtains d where "eb_min (bs_backoff st) \<le> d" "d \<le> eb_max (bs_backoff st)"
    "backoff_poll_next now x st = backoff_poll_next now x
       (st\<lparr> bs_duration := d, bs_sleep := now + d, bs_sleeping := True \<rparr>)"
proof -
  let ?b = "bs_backoff st" and ?base = "backoff_base (bs_backoff st) (bs_iterations st)"
  have b: "backoff_wf ?b" "eb_max ?b < 2 ^ 48 * nanos_per_sec" using wf by (simp_all add: stream_wf_def)
  obtain j where j: "backoff_jitter ?b ?base x = Returns j" "?base + j \<le> eb_max ?b"
    using b(1) backoff_base_le_max b(2) x by (rule backoff_jitter_Returns)
  have "eb_min ?b \<le> ?base" using b(1) by (intro backoff_base_ge_min) (simp add: backoff_wf_def)
  then have "eb_min ?b \<le> ?base + j" by simp
  moreover have "backoff_poll_next now x st = backoff_poll_next now x
      (st\<lparr> bs_duration := ?base + j, bs_sleep := now + (?base + j), bs_sleeping := True \<rparr>)"
    using st by (subst backoff_poll_next.simps) (simp add: j(1) Let_def)
  ultimately show thesis using j(2) by (intro that)
qed

lemma poll_sleeping_wf:
  assumes "bs_sleeping s" "stream_wf now s"
  shows "\<exists>r st'. backoff_poll_next now x s = Returns (r, st') \<and> stream_wf now st' \<and>
    bs_backoff st' = bs_backoff s \<and> (r = Ready (Some ()) \<or> bs_sleeping st')"
  using assms by (cases "now < bs_sleep s") (auto simp: poll_sleeping stream_wf_def)

text \<open>No poll panics, and every sleep it arms lasts between the minimum and the maximum.\<close>

lemma poll_preserves_wf:
  assumes wf: "stream_wf t st" and t: "t \<le> now" and x: "unit_factor x"
  shows "\<exists>r st'. backoff_poll_next now x st = Returns (r, st') \<and> stream_wf now st' \<and>
    bs_backoff st' = bs_backoff st \<and> (bs_iterations st < u32_max \<longrightarrow> r = Ready (Some ()) \<or> bs_sleeping st')"
proof (cases "bs_sleeping st")
  case True
  then have "stream_wf now st" using wf t by (auto simp: stream_wf_def)
  then show ?thesis using poll_sleeping_wf [OF True] by blast
next
  case False
  show ?thesis
  proof (cases "bs_iterations st = u32_max")
    case True
    then have "backoff_poll_next now x st = Returns (Ready None, st)"
      using False by (subst backoff_poll_next.simps) simp
    moreover have "stream_wf now st" using wf False by (simp add: stream_wf_def)
    ultimately show ?thesis using True by simp
  next
    case it: False
    then have it: "bs_iterations st < u32_max" using wf by (simp add: stream_wf_def)
    obtain d where d: "eb_min (bs_backoff st) \<le> d" "d \<le> eb_max (bs_backoff st)"
      "backoff_poll_next now x st = backoff_poll_next now x
         (st\<lparr> bs_duration := d, bs_sleep := now + d, bs_sleeping := True \<rparr>)" (is "_ = backoff_poll_next _ _ ?s")
      using wf False it x by (rule poll_start)
    have "stream_wf now ?s" using wf it d(1,2) by (simp add: stream_wf_def)
    then show ?thesis using poll_sleeping_wf [of ?s now x] it by (simp add: d(3))
  qed
qed

text \<open>C28: The delays of an accepted backoff. A poll of a stream that is not sleeping and has
  not used up its \<open>u32::MAX\<close> iterations arms one sleep, whatever the generator returns: it lasts at least the
  base of the iteration, which is the minimum doubled once per iteration (by \<open>u32::MAX\<close> at most)
  and cut off at the maximum, at most the maximum, and exactly the base when there is no jitter. Until the
  sleep is over every poll is pending and changes nothing; from then on a poll yields and
  starts the next iteration.\<close>

theorem backoff_yields:
  assumes new: "backoff_try_new lo hi jit = Ok (bs_backoff st)" and hi: "hi < 2 ^ 48 * nanos_per_sec"
    and st: "\<not> bs_sleeping st" "bs_iterations st < u32_max" and x: "unit_factor x"
  shows "\<exists>d st'. min (lo * (if bs_iterations st < 32 then 2 ^ bs_iterations st else u32_max)) hi \<le> d \<and> d \<le> hi \<and>
    (jit = F64 0 \<longrightarrow> d = min (lo * (if bs_iterations st < 32 then 2 ^ bs_iterations st else u32_max)) hi) \<and>
    bs_duration st' = d \<and> backoff_poll_next now x st = backoff_poll_next now x st' \<and>
    (\<forall>later y. backoff_poll_next later y st' =
       (if later < now + d then Returns (Pending, st')
        else Returns (Ready (Some ()), st'\<lparr> bs_sleeping := False, bs_iterations := bs_iterations st + 1 \<rparr>)))"
proof -
  let ?b = "bs_backoff st" and ?base = "backoff_base (bs_backoff st) (bs_iterations st)"
  have "?b = \<lparr> eb_min = lo, eb_max = hi, eb_jitter = jit \<rparr>"
    using new by (simp add: backoff_try_new_def split: if_splits)
  then have b: "eb_min ?b = lo" "eb_max ?b = hi" "eb_jitter ?b = jit" "backoff_wf ?b"
    using backoff_try_new_wf [OF new] by simp_all
  have "2 ^ 48 * nanos_per_sec \<le> duration_max" by (simp add: duration_max_def nanos_per_sec_def)
  then have base: "?base = min (lo * (if bs_iterations st < 32 then 2 ^ bs_iterations st else u32_max)) hi"
    using hi b backoff_base_eq [of ?b "bs_iterations st"] by simp
  obtain j where j: "backoff_jitter ?b ?base x = Returns j" "?base + j \<le> eb_max ?b"
    using b(4) backoff_base_le_max hi [folded b(2)] x by (rule backoff_jitter_Returns)
  let ?st' = "st\<lparr> bs_duration := ?base + j, bs_sleep := now + (?base + j), bs_sleeping := True \<rparr>"
  have "backoff_poll_next now x st = backoff_poll_next now x ?st'"
    using st by (subst backoff_poll_next.simps) (simp add: j(1) Let_def)
  moreover have "j = 0" if "jit = F64 0"
  proof -
    have "f64_eq (eb_jitter ?b) (F64 0)" using that by (simp add: b(3) f64_eq_def)
    then show ?thesis using j(1) by (simp only: backoff_jitter_def if_True outcome.inject)
  qed
  moreover have "?base \<le> ?base + j" "?base + j \<le> hi" using j(2) b(2) by simp_all
  moreover have "backoff_poll_next later y ?st' =
      (if later < now + (?base + j) then Returns (Pending, ?st')
       else Returns (Ready (Some ()), ?st'\<lparr> bs_sleeping := False, bs_iterations := bs_iterations st + 1 \<rparr>))" for later y
    by (subst poll_sleeping) simp_all
  moreover have "bs_duration ?st' = ?base + j" by simp
  ultimately show ?thesis unfolding base [symmetric] by (metis add_0_right)
qed

definition sample_backoff :: exponential_backoff where
  "sample_backoff = \<lparr> eb_min = 3, eb_max = 8, eb_jitter = F64 (1 / 2) \<rparr>"

lemma sample_stream_wf: "stream_wf 0 (new_backoff_stream sample_backoff 0)"
  by (rule stream_wf_new) (simp_all add: sample_backoff_def backoff_wf_def nanos_per_sec_def)

theorem backoff_yields_witness:
  "\<exists>d st'. 6 \<le> d \<and> d \<le> 8 \<and>
    (\<forall>later y. backoff_poll_next later y st' =
       (if later < 20 + d then Returns (Pending, st')
        else Returns (Ready (Some ()), st'\<lparr> bs_sleeping := False, bs_iterations := 2 \<rparr>)))"
proof -
  let ?st = "(new_backoff_stream sample_backoff 0)\<lparr> bs_iterations := 1 \<rparr>"
  have "backoff_try_new 3 8 (F64 (1 / 2)) = Ok (bs_backoff ?st)"
    by (simp add: backoff_try_new_def new_backoff_stream_def sample_backoff_def)
  moreover have "(8 :: nat) < 2 ^ 48 * nanos_per_sec" "bs_iterations ?st < u32_max" "\<not> bs_sleeping ?st" "unit_factor (F64 (1 / 4))"
    by (simp_all add: nanos_per_sec_def u32_max_def new_backoff_stream_def unit_factor_def)
  ultimately obtain d st' where "min (3 * (if bs_iterations ?st < 32 then 2 ^ bs_iterations ?st else u32_max)) 8 \<le> d" "d \<le> 8"
    "\<forall>later y. backoff_poll_next later y st' =
       (if later < 20 + d then Returns (Pending, st')
        else Returns (Ready (Some ()), st'\<lparr> bs_sleeping := False, bs_iterations := bs_iterations ?st + 1 \<rparr>))"
    using backoff_yields [of 3 8 "F64 (1 / 2)" ?st "F64 (1 / 4)" 20] by blast
  then show ?thesis by (intro exI [of _ d] exI [of _ st']) (simp add: new_backoff_stream_def numeral_2_eq_2)
qed

text \<open>C29: When the base delay is a whole number of seconds whose product with the configured jitter ratio
  is at most one half, no jitter is ever added: clients that back off together stay together.
  The documentation of the method promises a uniform duration on \<open>[0, base * jitter]\<close>.\<close>

theorem whole_seconds_no_jitter:
  assumes "backoff_try_new lo hi (F64 jit) = Ok b" "n < 2 ^ 30" "of_nat n * jit \<le> 1 / 2"
    and "unit_factor x"
  shows "backoff_jitter b (n * nanos_per_sec) x = Returns 0"
proof -
  have "eb_jitter b = F64 jit" "0 \<le> jit" "jit \<le> 100"
    using assms(1) by (auto simp: backoff_try_new_def split: if_splits)
  then show ?thesis using assms(2-4) by (rule whole_seconds_jitter)
qed

theorem whole_seconds_no_jitter_witness:
  "backoff_jitter \<lparr> eb_min = nanos_per_sec, eb_max = 60 * nanos_per_sec, eb_jitter = F64 (1 / 10) \<rparr>
     (4 * nanos_per_sec) (F64 (9 / 10)) = Returns 0"
  by (rule whole_seconds_no_jitter [where lo = nanos_per_sec and hi = "60 * nanos_per_sec" and jit = "1 / 10"])
    (simp_all add: backoff_try_new_def nanos_per_sec_def unit_factor_def)

end
