(* ===== verification/Success_Rate.thy ===== *)
theory Success_Rate
  imports F64
begin

text \<open>
  The success-rate window of the unified circuit breaker
  (\<open>linkerd/app/outbound/src/http/breaker/success_rate.rs\<close>) and the threshold in basis
  points that it is compared with (\<open>SuccessRateThreshold\<close> of
  \<open>linkerd/proxy/client-policy/src/lib.rs\<close>).

  The window is a ring of ten buckets. Its specification is a log of the slice each sample fell
  into, where slices are numbered from the instant the window was made or reset; the ring refines
  the log (\<open>record_refines\<close>), so that the totals it reports are those of the last ten slices.
  Counters saturate at \<open>u32::MAX\<close>, conversions of 128-bit numbers wrap at 64 bits.
\<close>

section \<open>The ring of buckets\<close>

definition BUCKETS :: nat where
  "BUCKETS = 10"

definition MIN_WINDOW :: duration where
  "MIN_WINDOW = 10 * 10 ^ 6"

record bucket =
  b_successes :: nat
  b_total :: nat

definition bucket_clear :: bucket where
  "bucket_clear = \<lparr> b_successes = 0, b_total = 0 \<rparr>"

record success_rate_window =
  w_buckets :: "bucket list"
  w_bucket_width :: duration
  w_current :: nat
  w_last_roll :: instant

definition window_new :: "duration \<Rightarrow> instant \<Rightarrow> success_rate_window" where
  "window_new window now =
    \<lparr> w_buckets = replicate BUCKETS bucket_clear,
      w_bucket_width = max window MIN_WINDOW div BUCKETS,
      w_current = 0, w_last_roll = now \<rparr>"

text \<open>The loop over \<open>1..=steps\<close> that clears the buckets the ring moves onto.\<close>

definition clear_steps :: "nat \<Rightarrow> nat \<Rightarrow> bucket list \<Rightarrow> bucket list" where
  "clear_steps current steps bs =
     foldl (\<lambda>bs i. bs[(current + i) mod BUCKETS := bucket_clear]) bs [1..<steps + 1]"

definition window_roll :: "instant \<Rightarrow> success_rate_window \<Rightarrow> success_rate_window" where
  "window_roll now w =
    (let elapsed = now - w_last_roll w;
         width = max (w_bucket_width w) 1;
         steps = (elapsed div width) mod 2 ^ 64
     in if steps = 0 then w
        else w\<lparr> w_buckets := (if BUCKETS \<le> steps then map (\<lambda>_. bucket_clear) (w_buckets w)
                              else clear_steps (w_current w) steps (w_buckets w)),
                w_current := ((w_current w + steps) mod 2 ^ 64) mod BUCKETS,
                w_last_roll := w_last_roll w + (elapsed - (elapsed mod width) mod 2 ^ 64) \<rparr>)"

definition bucket_add :: "bool \<Rightarrow> bucket \<Rightarrow> bucket" where
  "bucket_add success b =
    \<lparr> b_successes = (if success then min u32_max (b_successes b + 1) else b_successes b),
      b_total = min u32_max (b_total b + 1) \<rparr>"

definition window_record :: "bool \<Rightarrow> instant \<Rightarrow> success_rate_window \<Rightarrow> success_rate_window" where
  "window_record success now w =
    (let w = window_roll now w in
     w\<lparr> w_buckets := (w_buckets w)[w_current w := bucket_add success (w_buckets w ! w_current w)] \<rparr>)"

definition window_totals :: "success_rate_window \<Rightarrow> nat \<times> nat" where
  "window_totals w = foldl (\<lambda>(s, t) b. (s + b_successes b, t + b_total b)) (0, 0) (w_buckets w)"

definition ratio_and_total :: "success_rate_window \<Rightarrow> f64 option \<times> nat" where
  "ratio_and_total w = (let (successes, n) = window_totals w in
     (if n \<noteq> 0 then Some (f64_div (f64_of_nat successes) (f64_of_nat n)) else None, n))"

definition window_ratio :: "success_rate_window \<Rightarrow> f64 option" where
  "window_ratio w = fst (ratio_and_total w)"

definition window_should_trip :: "nat \<Rightarrow> f64 \<Rightarrow> success_rate_window \<Rightarrow> bool" where
  "window_should_trip min_requests threshold w = (case ratio_and_total w of
     (Some r, n) \<Rightarrow> min_requests \<le> n \<and> f64_lt r threshold
   | (None, n) \<Rightarrow> False)"

definition window_reset :: "instant \<Rightarrow> success_rate_window \<Rightarrow> success_rate_window" where
  "window_reset now w = w\<lparr> w_buckets := map (\<lambda>_. bucket_clear) (w_buckets w),
     w_current := 0, w_last_roll := now \<rparr>"

section \<open>The threshold in basis points\<close>

definition threshold_from_fraction :: "f64 \<Rightarrow> nat" where
  "threshold_from_fraction f =
     f64_as_uint u32_max (f64_round_half_away (f64_mul (f64_clamp (F64 0) (F64 1) f) (F64 10000)))"

definition threshold_as_fraction :: "nat \<Rightarrow> f64" where
  "threshold_as_fraction t = f64_div (f64_of_nat t) (F64 10000)"

definition threshold_is_zero :: "nat \<Rightarrow> bool" where
  "threshold_is_zero t \<longleftrightarrow> t = 0"

section \<open>Slices\<close>

text \<open>The specification: the current slice and, for every sample, its slice and whether it was a
  success. A sample never falls into a slice before the current one, even when its instant
  does.\<close>

record window_log =
  l_slice :: nat
  l_samples :: "(nat \<times> bool) list"

definition log_record :: "instant \<Rightarrow> duration \<Rightarrow> bool \<Rightarrow> instant \<Rightarrow> window_log \<Rightarrow> window_log" where
  "log_record start width success now l =
    (let k = max (l_slice l) ((now - start) div width) in
     \<lparr> l_slice = k, l_samples = (k, success) # l_samples l \<rparr>)"

definition log_new :: window_log where
  "log_new = \<lparr> l_slice = 0, l_samples = [] \<rparr>"

definition tally :: "(nat \<times> bool) list \<Rightarrow> int \<Rightarrow> bucket" where
  "tally samples j =
    \<lparr> b_successes = min u32_max (length (filter (\<lambda>(k, ok). int k = j \<and> ok) samples)),
      b_total = min u32_max (length (filter (\<lambda>(k, ok). int k = j) samples)) \<rparr>"

text \<open>The ring holds the tally of slice \<open>k - d\<close> at \<open>d\<close> places behind the current
  bucket.\<close>

definition ring_index :: "nat \<Rightarrow> nat \<Rightarrow> nat" where
  "ring_index k d = (k + 10 - d) mod 10"

definition window_rel :: "instant \<Rightarrow> duration \<Rightarrow> success_rate_window \<Rightarrow> window_log \<Rightarrow> bool" where
  "window_rel start width w l \<longleftrightarrow>
     0 < width \<and> w_bucket_width w = width \<and> length (w_buckets w) = 10 \<and>
     w_current w = l_slice l mod 10 \<and> w_last_roll w = start + l_slice l * width \<and>
     (\<forall>(k, ok) \<in> set (l_samples l). k \<le> l_slice l) \<and>
     (\<forall>d<10. w_buckets w ! ring_index (l_slice l) d = tally (l_samples l) (int (l_slice l) - int d))"

lemma ring_index_lt [simp]: "ring_index k d < 10"
  by (simp add: ring_index_def)

lemma ring_index_0 [simp]: "ring_index k 0 = k mod 10"
  by (simp add: ring_index_def)

lemma ring_index_eq: "d < 10 \<Longrightarrow> ring_index k d = (if d \<le> k mod 10 then k mod 10 - d else k mod 10 + 10 - d)"
proof -
  assume d: "d < 10"
  have "k + 10 - d = k + (10 - d)" using d by simp
  then have "(k + 10 - d) mod 10 = (k mod 10 + (10 - d)) mod 10" by (simp only: mod_add_left_eq)
  also have "\<dots> = (if d \<le> k mod 10 then k mod 10 - d else k mod 10 + 10 - d)"
  proof (cases "d \<le> k mod 10")
    case True
    then have "k mod 10 + (10 - d) = (k mod 10 - d) + 10" using d by simp
    then have "(k mod 10 + (10 - d)) mod 10 = (k mod 10 - d) mod 10" by (simp only: mod_add_self2)
    also have "\<dots> = k mod 10 - d" by (rule mod_less) (simp add: less_imp_diff_less)
    finally show ?thesis using True by simp
  qed (use d in simp)
  finally show ?thesis by (simp add: ring_index_def)
qed

lemma ring_index_inj: "d < 10 \<Longrightarrow> e < 10 \<Longrightarrow> ring_index k d = ring_index k e \<Longrightarrow> d = e"
  using mod_less_divisor [of 10 k] by (simp add: ring_index_eq split: if_splits)

lemma ring_index_surj: "i < 10 \<Longrightarrow> \<exists>d<10. ring_index k d = i"
proof -
  assume i: "i < 10"
  let ?d = "if i \<le> k mod 10 then k mod 10 - i else k mod 10 + 10 - i"
  have "?d < 10" using i mod_less_divisor [of 10 k] by auto
  moreover have "ring_index k ?d = i"
    unfolding ring_index_eq [OF \<open>?d < 10\<close>] using i mod_less_divisor [of 10 k]
    by (cases "i \<le> k mod 10") auto
  ultimately show ?thesis by blast
qed

lemma ring_index_add: "n \<le> d \<Longrightarrow> d < 10 \<Longrightarrow> ring_index (k + n) d = ring_index k (d - n)"
  unfolding ring_index_def by (rule arg_cong [where f = "\<lambda>x. x mod 10"]) arith

lemma ring_index_ahead: "d \<le> n \<Longrightarrow> d < 10 \<Longrightarrow> ring_index (k + n) d = (k + (n - d)) mod 10"
proof -
  assume "d \<le> n" "d < 10"
  then have "k + n + 10 - d = (k + (n - d)) + 10" by simp
  then show ?thesis unfolding ring_index_def by (simp only: mod_add_self2)
qed

section \<open>The ring refines the log\<close>

lemma clear_steps_nth:
  assumes "length bs = 10" "i < 10"
  shows "clear_steps c n bs ! i =
    (if \<exists>m. 1 \<le> m \<and> m \<le> n \<and> (c + m) mod 10 = i then bucket_clear else bs ! i) \<and>
    length (clear_steps c n bs) = 10"
proof (induction n)
  case 0
  then show ?case using assms by (simp add: clear_steps_def)
next
  case (Suc n)
  have step: "clear_steps c (Suc n) bs = (clear_steps c n bs)[(c + Suc n) mod 10 := bucket_clear]"
    by (simp add: clear_steps_def BUCKETS_def)
  have ex: "(\<exists>m. 1 \<le> m \<and> m \<le> Suc n \<and> (c + m) mod 10 = i) \<longleftrightarrow>
      (\<exists>m. 1 \<le> m \<and> m \<le> n \<and> (c + m) mod 10 = i) \<or> (c + Suc n) mod 10 = i"
    by (auto simp: le_Suc_eq)
  show ?case unfolding ex using Suc assms(2)
    by (auto simp only: step nth_list_update length_list_update split: if_split)
qed

lemma length_clear_steps [simp]: "length bs = 10 \<Longrightarrow> length (clear_steps c n bs) = 10"
  using clear_steps_nth [of bs 0 c n] by simp

lemma tally_beyond:
  assumes "\<forall>(k, ok) \<in> set samples. k \<le> m" "int m < j"
  shows "tally samples j = bucket_clear"
proof -
  have "filter (\<lambda>(k, ok). int k = j) samples = []" "filter (\<lambda>(k, ok). int k = j \<and> ok) samples = []"
    using assms by (auto simp: filter_empty_conv)
  then show ?thesis by (simp add: tally_def bucket_clear_def)
qed

lemma slice_advance:
  "0 < width \<Longrightarrow> max k ((now - start) div width) = k + (now - (start + k * width)) div width"
  for k now start width :: nat
proof (cases "start + k * width \<le> now")
  case True
  assume "0 < width"
  have "now - start = (now - (start + k * width)) + k * width" using True by simp
  then have "(now - start) div width = (now - (start + k * width)) div width + k"
    using \<open>0 < width\<close> by (simp only: div_mult_self1)
  then show ?thesis by simp
next
  case False
  assume "0 < width"
  have "now - start \<le> k * width" using False by simp
  then have "(now - start) div width \<le> k * width div width" by (rule div_le_mono)
  then show ?thesis using False \<open>0 < width\<close> by simp
qed

lemma rolled_buckets:
  assumes rel: "window_rel start width w l" and n: "0 < n" "n < 10" and d: "d < 10"
  shows "clear_steps (l_slice l mod 10) n (w_buckets w) ! ring_index (l_slice l + n) d =
    tally (l_samples l) (int (l_slice l + n) - int d)"
proof -
  let ?k = "l_slice l"
  have len: "length (w_buckets w) = 10"
    and older: "\<forall>(j, ok) \<in> set (l_samples l). j \<le> ?k"
    and ring: "\<And>e. e < 10 \<Longrightarrow> w_buckets w ! ring_index ?k e = tally (l_samples l) (int ?k - int e)"
    using rel by (simp_all add: window_rel_def)
  note nth = clear_steps_nth [OF len ring_index_lt, of "?k mod 10" n "?k + n" d, THEN conjunct1]
  have landed: "(?k mod 10 + m) mod 10 = ring_index (?k + n) (n - m)" if "1 \<le> m" "m \<le> n" for m
  proof -
    have "ring_index (?k + n) (n - m) = (?k + (n - (n - m))) mod 10"
      using that n by (intro ring_index_ahead) simp_all
    then show ?thesis using that by (simp add: mod_add_left_eq)
  qed
  show ?thesis
  proof (cases "d < n")
    case True
    then have "(?k mod 10 + (n - d)) mod 10 = ring_index (?k + n) d" using landed [of "n - d"] by simp
    then have "\<exists>m. 1 \<le> m \<and> m \<le> n \<and> (?k mod 10 + m) mod 10 = ring_index (?k + n) d"
      using True by (intro exI [of _ "n - d"]) simp
    moreover have "tally (l_samples l) (int (?k + n) - int d) = bucket_clear"
      using True by (intro tally_beyond [OF older]) simp
    ultimately show ?thesis by (simp only: nth if_True)
  next
    case False
    have nex: "\<not> (\<exists>m. 1 \<le> m \<and> m \<le> n \<and> (?k mod 10 + m) mod 10 = ring_index (?k + n) d)"
    proof (rule notI, elim exE conjE)
      fix m assume m: "1 \<le> m" "m \<le> n" "(?k mod 10 + m) mod 10 = ring_index (?k + n) d"
      then have "ring_index (?k + n) (n - m) = ring_index (?k + n) d" by (simp add: landed)
      then have "n - m = d" using ring_index_inj [of "n - m" d "?k + n"] d n by simp
      then show False using False m(1) n(1) by simp
    qed
    have "int ?k - int (d - n) = int (?k + n) - int d" using False by simp
    then have "w_buckets w ! ring_index (?k + n) d = tally (l_samples l) (int (?k + n) - int d)"
      using ring [of "d - n"] False d by (simp only: ring_index_add not_less)
    then show ?thesis by (simp only: nth nex if_False)
  qed
qed

lemma roll_refines:
  assumes rel: "window_rel start width w l" and now: "now < 2 ^ 63"
  shows "window_rel start width (window_roll now w)
    (l\<lparr> l_slice := max (l_slice l) ((now - start) div width) \<rparr>)"
proof -
  let ?k = "l_slice l"
  define e where "e = now - (start + ?k * width)"
  define n where "n = e div width"
  have width: "0 < width" "max width 1 = width" "w_bucket_width w = width" "w_last_roll w = start + ?k * width"
    and len: "length (w_buckets w) = 10" and cur: "w_current w = ?k mod 10"
    and older: "\<forall>(j, ok) \<in> set (l_samples l). j \<le> ?k"
    using rel by (simp_all add: window_rel_def)
  have slice: "max ?k ((now - start) div width) = ?k + n"
    unfolding n_def e_def using width(1) by (rule slice_advance)
  have big: "x mod 2 ^ 64 = x" "(c mod 10 + x) mod 2 ^ 64 = c mod 10 + x" if "x \<le> now" for x c :: nat
  proof -
    have "c mod 10 < 10" by simp
    moreover have "(2 :: nat) ^ 63 + 10 \<le> 2 ^ 64" by simp
    ultimately have "x < 2 ^ 64" "c mod 10 + x < 2 ^ 64" using that now by linarith+
    then show "x mod 2 ^ 64 = x" "(c mod 10 + x) mod 2 ^ 64 = c mod 10 + x"
      by (simp_all only: mod_less)
  qed
  have "e \<le> now" by (simp add: e_def)
  then have "n \<le> now" "e mod width \<le> now"
    using div_le_dividend [of e width] mod_less_eq_dividend [of e width] unfolding n_def by linarith+
  note n64 = big [OF this(1)] and r64 = big(1) [OF this(2)]
  have adv: "start + ?k * width + (e - e mod width) = start + (?k + n) * width"
    by (simp add: n_def minus_mod_eq_div_mult distrib_right)
  have roll: "window_roll now w = (if n = 0 then w else
      w\<lparr> w_buckets := (if 10 \<le> n then map (\<lambda>_. bucket_clear) (w_buckets w)
           else clear_steps (?k mod 10) n (w_buckets w)),
         w_current := (?k + n) mod 10, w_last_roll := start + (?k + n) * width \<rparr>)"
    by (simp only: window_roll_def Let_def width cur n64 r64 adv e_def [symmetric] n_def [symmetric]
        BUCKETS_def mod_add_left_eq)
  show ?thesis
  proof (cases "n = 0")
    case True
    then show ?thesis using rel slice roll by simp
  next
    case False
    let ?bs = "if 10 \<le> n then map (\<lambda>_. bucket_clear) (w_buckets w) else clear_steps (?k mod 10) n (w_buckets w)"
    have "?bs ! ring_index (?k + n) d = tally (l_samples l) (int (?k + n) - int d)" if "d < 10" for d
    proof (cases "10 \<le> n")
      case True
      then show ?thesis using that len tally_beyond [OF older, of "int (?k + n) - int d"] by simp
    next
      case nlt: False
      then show ?thesis using rolled_buckets [OF rel, of n d] False that by simp
    qed
    then show ?thesis using roll False len width older
      by (auto simp: window_rel_def slice)
  qed
qed

lemma tally_add:
  "bucket_add ok (tally samples (int k)) = tally ((k, ok) # samples) (int k)"
  "j \<noteq> int k \<Longrightarrow> tally ((k, ok) # samples) j = tally samples j"
  by (auto simp: bucket_add_def tally_def)

theorem record_refines:
  assumes rel: "window_rel start width w l" and now: "now < 2 ^ 63"
  shows "window_rel start width (window_record ok now w) (log_record start width ok now l)"
proof -
  define k where "k = max (l_slice l) ((now - start) div width)"
  let ?w = "window_roll now w"
  have rolled: "window_rel start width ?w (l\<lparr> l_slice := k \<rparr>)"
    unfolding k_def using rel now by (rule roll_refines)
  then have len: "length (w_buckets ?w) = 10" and cur: "w_current ?w = k mod 10"
    and ring: "\<And>d. d < 10 \<Longrightarrow> w_buckets ?w ! ring_index k d = tally (l_samples l) (int k - int d)"
    by (simp_all add: window_rel_def)
  let ?bs = "(w_buckets ?w)[k mod 10 := bucket_add ok (w_buckets ?w ! (k mod 10))]"
  have "?bs ! ring_index k d = tally ((k, ok) # l_samples l) (int k - int d)" if d: "d < 10" for d
  proof (cases "d = 0")
    case True
    then show ?thesis using ring [of 0] len by (simp add: tally_add(1))
  next
    case False
    then have "ring_index k d \<noteq> ring_index k 0" using ring_index_inj [of d 0 k] d by auto
    then show ?thesis using ring [OF d] len False by (simp add: tally_add(2))
  qed
  then show ?thesis using rolled len cur
    by (auto simp: window_rel_def window_record_def log_record_def Let_def k_def [symmetric])
qed

lemma new_refines:
  "window_rel start (max window MIN_WINDOW div BUCKETS) (window_new window start) log_new"
proof -
  have "0 < max window MIN_WINDOW div BUCKETS"
    by (simp add: MIN_WINDOW_def BUCKETS_def div_greater_zero_iff)
  then show ?thesis
    by (simp add: window_rel_def window_new_def log_new_def tally_def bucket_clear_def BUCKETS_def
        nth_replicate del: replicate.simps)
qed

lemma reset_refines:
  "window_rel start width w l \<Longrightarrow> window_rel now width (window_reset now w) log_new"
  by (simp add: window_rel_def window_reset_def log_new_def tally_def bucket_clear_def)

section \<open>Totals\<close>

lemma window_totals_sum:
  "window_totals w = (sum_list (map b_successes (w_buckets w)), sum_list (map b_total (w_buckets w)))"
proof -
  have "foldl (\<lambda>(s, t) b. (s + b_successes b, t + b_total b)) (s, t) bs =
      (s + sum_list (map b_successes bs), t + sum_list (map b_total bs))" for s t bs
    by (induction bs arbitrary: s t) simp_all
  from this [of 0 0] show ?thesis by (simp add: window_totals_def)
qed

lemma ring_sum:
  fixes f :: "bucket \<Rightarrow> nat"
  assumes "window_rel start width w l"
  shows "sum_list (map f (w_buckets w)) = (\<Sum>d<10. f (tally (l_samples l) (int (l_slice l) - int d)))"
proof -
  have bij: "bij_betw (ring_index (l_slice l)) {..<10} {..<10}"
    by (rule bij_betwI') (auto dest: ring_index_inj ring_index_surj [of _ "l_slice l"])
  have "sum_list (map f (w_buckets w)) = (\<Sum>i<10. f (w_buckets w ! i))"
    using assms by (simp add: window_rel_def sum_list_sum_nth atLeast0LessThan)
  also have "\<dots> = (\<Sum>d<10. f (w_buckets w ! ring_index (l_slice l) d))"
    by (rule sum.reindex_bij_betw [OF bij, symmetric])
  also have "\<dots> = (\<Sum>d<10. f (tally (l_samples l) (int (l_slice l) - int d)))"
    using assms by (intro sum.cong) (simp_all add: window_rel_def)
  finally show ?thesis .
qed

lemma sum_slices:
  assumes "\<forall>(j, ok) \<in> set s. j \<le> k"
  shows "(\<Sum>d<10. length (filter (\<lambda>(j, ok). int j = int k - int d \<and> P ok) s)) =
    length (filter (\<lambda>(j, ok). k < j + 10 \<and> P ok) s)"
  using assms
proof (induction s)
  case (Cons x s)
  obtain j ok where x: "x = (j, ok)" by (cases x)
  have j: "j \<le> k" using Cons.prems x by simp
  have "(\<Sum>d<(10 :: nat). if int j = int k - int d \<and> P ok then 1 else 0) =
      (\<Sum>d<10. if d = k - j then (if P ok then 1 else 0) else (0 :: nat))"
    using j by (intro sum.cong) auto
  also have "\<dots> = (if k < j + 10 \<and> P ok then 1 else 0)" using j by (subst sum.delta) auto
  finally have one: "(\<Sum>d<(10 :: nat). if int j = int k - int d \<and> P ok then 1 else 0) =
      (if k < j + 10 \<and> P ok then 1 else (0 :: nat))" .
  have "(\<Sum>d<10. length (filter (\<lambda>(j, ok). int j = int k - int d \<and> P ok) (x # s))) =
      (\<Sum>d<10. (if int j = int k - int d \<and> P ok then 1 else 0) +
        length (filter (\<lambda>(j, ok). int j = int k - int d \<and> P ok) s))"
    by (intro sum.cong) (simp_all add: x)
  also have "\<dots> = length (filter (\<lambda>(j, ok). k < j + 10 \<and> P ok) (x # s))"
    unfolding sum.distrib one using Cons by (simp add: x)
  finally show ?case .
qed simp

lemma refined_totals:
  assumes rel: "window_rel start width w l" and few: "length (l_samples l) \<le> u32_max"
  shows "window_totals w =
    (length (filter (\<lambda>(j, ok). l_slice l < j + 10 \<and> ok) (l_samples l)),
     length (filter (\<lambda>(j, ok). l_slice l < j + 10) (l_samples l)))"
proof -
  have older: "\<forall>(j, ok) \<in> set (l_samples l). j \<le> l_slice l" using rel by (simp add: window_rel_def)
  have "min u32_max (length (filter P (l_samples l))) = length (filter P (l_samples l))" for P
    using few length_filter_le [of P "l_samples l"] by linarith
  then show ?thesis
    using ring_sum [OF rel, of b_successes] ring_sum [OF rel, of b_total]
      sum_slices [OF older, of "\<lambda>ok. ok"] sum_slices [OF older, of "\<lambda>_. True"]
    by (simp add: window_totals_sum tally_def del: sum.lessThan_Suc)
qed

definition record_all :: "(instant \<times> bool) list \<Rightarrow> success_rate_window \<Rightarrow> success_rate_window" where
  "record_all samples w = foldl (\<lambda>w (now, ok). window_record ok now w) w samples"

lemma log_of_sorted:
  assumes "sorted (map fst samples)"
  shows "foldl (\<lambda>l (now, ok). log_record start width ok now l) log_new samples =
    \<lparr> l_slice = (if samples = [] then 0 else (fst (last samples) - start) div width),
      l_samples = rev (map (\<lambda>(now, ok). ((now - start) div width, ok)) samples) \<rparr>"
  using assms
proof (induction samples rule: rev_induct)
  case (snoc x xs)
  obtain now ok where x: "x = (now, ok)" by (cases x)
  have "(fst (last xs) - start) div width \<le> (now - start) div width" if "xs \<noteq> []"
    using snoc.prems that x by (intro div_le_mono diff_le_mono) (simp add: sorted_append)
  then show ?case using snoc by (simp add: x sorted_append log_record_def Let_def max_def)
qed (simp add: log_new_def)

lemma record_all_refines:
  assumes "\<forall>(now, ok) \<in> set samples. now < 2 ^ 63" "window_rel start width w l"
  shows "window_rel start width (record_all samples w)
    (foldl (\<lambda>l (now, ok). log_record start width ok now l) l samples)"
  using assms
proof (induction samples arbitrary: w l)
  case (Cons x xs)
  then show ?case by (cases x) (simp add: record_all_def record_refines)
qed (simp add: record_all_def)

text \<open>C9: After samples at non-decreasing instants, the totals the ring reports are those of the
  samples whose slice is one of the last ten, where slices are a tenth of the window wide
  and are counted from the instant the window was made: no sample older than ten slices counts
  and none of the last nine is lost, whatever the gaps between them.\<close>

theorem success_window_counts_recent:
  assumes "sorted (map fst samples)" "\<forall>(now, ok) \<in> set samples. now < 2 ^ 63"
    and "length samples \<le> u32_max" "width = max window MIN_WINDOW div BUCKETS"
    and "recent = (\<lambda>now. (fst (last samples) - start) div width < (now - start) div width + BUCKETS)"
  shows "window_totals (record_all samples (window_new window start)) =
    (length (filter (\<lambda>(now, ok). recent now \<and> ok) samples),
     length (filter (\<lambda>(now, ok). recent now) samples))"
proof (cases "samples = []")
  case True
  then show ?thesis by (simp add: record_all_def window_totals_sum window_new_def bucket_clear_def BUCKETS_def)
next
  case False
  let ?log = "\<lparr> l_slice = (fst (last samples) - start) div width,
      l_samples = rev (map (\<lambda>(now, ok). ((now - start) div width, ok)) samples) \<rparr>"
  have "window_rel start width (record_all samples (window_new window start)) ?log"
    using record_all_refines [OF assms(2) new_refines, of start window] False
    by (simp add: log_of_sorted [OF assms(1)] assms(4))
  from refined_totals [OF this] show ?thesis using assms(3)
    by (simp add: assms(5) rev_filter [symmetric] filter_map comp_def case_prod_unfold BUCKETS_def)
qed

theorem success_window_counts_recent_witness:
  "window_totals (record_all [(5, True), (7, False), (25 * 10 ^ 5, True), (11 * 10 ^ 6, False)]
     (window_new 0 0)) = (1, 2)"
  using success_window_counts_recent [of "[(5, True), (7, False), (25 * 10 ^ 5, True), (11 * 10 ^ 6, False)]",
      OF _ _ _ refl refl, where window = 0 and start = 0]
  by (simp add: u32_max_def MIN_WINDOW_def BUCKETS_def)

section \<open>The decision\<close>

text \<open>In a bucket of the window successes never exceed samples, and no counter exceeds
  \<open>u32::MAX\<close>.\<close>

definition bucket_ok :: "bucket \<Rightarrow> bool" where
  "bucket_ok b \<longleftrightarrow> b_successes b \<le> b_total b \<and> b_total b \<le> u32_max"

definition window_ok :: "success_rate_window \<Rightarrow> bool" where
  "window_ok w \<longleftrightarrow> length (w_buckets w) = 10 \<and> w_current w < 10 \<and> (\<forall>b \<in> set (w_buckets w). bucket_ok b)"

lemma bucket_ok_clear [simp]: "bucket_ok bucket_clear"
  by (simp add: bucket_ok_def bucket_clear_def)

lemma bucket_ok_add: "bucket_ok b \<Longrightarrow> bucket_ok (bucket_add ok b)"
  by (auto simp: bucket_ok_def bucket_add_def)

lemma clear_steps_ok:
  assumes "length bs = 10" "\<forall>b \<in> set bs. bucket_ok b"
  shows "\<forall>b \<in> set (clear_steps c n bs). bucket_ok b"
proof
  fix b assume "b \<in> set (clear_steps c n bs)"
  then obtain i where "i < 10" "b = clear_steps c n bs ! i" using assms(1) by (auto simp: in_set_conv_nth)
  then show "bucket_ok b" using clear_steps_nth [OF assms(1), of i c n] assms
    by (auto simp: all_set_conv_all_nth split: if_splits)
qed

lemma window_new_ok: "window_ok (window_new window now)"
  by (simp add: window_ok_def window_new_def BUCKETS_def)

lemma window_roll_ok: "window_ok w \<Longrightarrow> window_ok (window_roll now w)"
  by (auto simp: window_ok_def window_roll_def Let_def clear_steps_ok BUCKETS_def)

lemma window_record_ok: "window_ok w \<Longrightarrow> window_ok (window_record ok now w)"
  using window_roll_ok [of w now]
  by (auto simp: window_ok_def window_record_def Let_def bucket_ok_add dest!: set_update_subset_insert [THEN subsetD])

lemma window_reset_ok: "window_ok w \<Longrightarrow> window_ok (window_reset now w)"
  by (simp add: window_ok_def window_reset_def)

lemma window_totals_bound:
  assumes "window_ok w"
  shows "fst (window_totals w) \<le> snd (window_totals w)" "snd (window_totals w) \<le> 10 * u32_max"
proof -
  show "fst (window_totals w) \<le> snd (window_totals w)"
    using assms unfolding window_totals_sum fst_conv snd_conv
    by (intro sum_list_mono) (simp add: window_ok_def bucket_ok_def)
  have "sum_list (map b_total (w_buckets w)) \<le> sum_list (map (\<lambda>_. u32_max) (w_buckets w))"
    using assms by (intro sum_list_mono) (simp add: window_ok_def bucket_ok_def)
  then show "snd (window_totals w) \<le> 10 * u32_max"
    using assms by (simp add: window_totals_sum window_ok_def sum_list_triv)
qed

lemma threshold_f64: "threshold_as_fraction bp = f64_div (f64_of_nat bp) (f64_of_nat 10000)"
  by (simp add: threshold_as_fraction_def f64_of_nat_exact [of 10000])

text \<open>The floating-point comparison of the ratio with the threshold is the comparison of
  the exact numbers.\<close>

lemma should_trip_exact:
  assumes ok: "window_ok w" and bp: "bp \<le> 10000"
  shows "window_should_trip m (threshold_as_fraction bp) w \<longleftrightarrow>
    0 < snd (window_totals w) \<and> m \<le> snd (window_totals w) \<and>
    fst (window_totals w) * 10000 < bp * snd (window_totals w)"
proof -
  obtain s t where st: "window_totals w = (s, t)" by (cases "window_totals w")
  have le: "s \<le> t" "t \<le> 10 * u32_max" using window_totals_bound [OF ok] by (simp_all add: st)
  have "f64_lt (f64_div (f64_of_nat s) (f64_of_nat t)) (threshold_as_fraction bp) \<longleftrightarrow> s * 10000 < bp * t"
    if "0 < t"
  proof -
    have "t * 10000 \<le> 10 * u32_max * 10000" using le(2) by (rule mult_le_mono1)
    also have "\<dots> < 2 ^ 52" by (simp add: u32_max_def)
    finally show ?thesis unfolding threshold_f64 using le(1) that bp
      by (intro f64_ratio_less_iff) simp_all
  qed
  then show ?thesis by (simp add: window_should_trip_def ratio_and_total_def st)
qed

text \<open>The operations that can happen to a window.\<close>

datatype window_op = Op_Record bool instant | Op_Reset instant

fun window_apply :: "window_op \<Rightarrow> success_rate_window \<Rightarrow> success_rate_window" where
  "window_apply (Op_Record ok now) w = window_record ok now w"
| "window_apply (Op_Reset now) w = window_reset now w"

lemma window_run_ok: "window_ok w \<Longrightarrow> window_ok (fold window_apply ops w)"
proof (induction ops arbitrary: w)
  case (Cons op ops)
  then show ?case by (cases op) (simp_all add: window_record_ok window_reset_ok)
qed simp

text \<open>C16: Whatever was recorded, the breaker's floating-point comparison decides exactly: the
  window trips if and only if it holds at least one sample and at least the configured minimum,
  and its successes divided by its samples is below the configured number of basis points.\<close>

theorem success_rate_trip_exact:
  assumes "bp \<le> 10000"
  shows "window_should_trip m (threshold_as_fraction bp) (fold window_apply ops (window_new window now)) \<longleftrightarrow>
    (case window_totals (fold window_apply ops (window_new window now)) of
       (s, n) \<Rightarrow> 0 < n \<and> m \<le> n \<and> s * 10000 < bp * n)"
  using should_trip_exact [OF window_run_ok [OF window_new_ok] assms]
  by (simp add: case_prod_unfold)

lemma ten_buckets: "replicate 10 b = [b, b, b, b, b, b, b, b, b, b]"
  by (simp add: numeral_eq_Suc)

theorem success_rate_trip_exact_witness:
  "window_should_trip 2 (threshold_as_fraction 3334)
     (fold window_apply [Op_Record True 0, Op_Record False 0, Op_Record False 0] (window_new 0 0))"
  by (subst success_rate_trip_exact)
    (simp_all add: window_record_def window_roll_def window_new_def window_totals_def BUCKETS_def
      bucket_clear_def bucket_add_def u32_max_def Let_def ten_buckets)

text \<open>A threshold survives the trip through the fraction the engine uses: quantizing
  the fraction of a number of basis points gives the same number back.\<close>

theorem threshold_round_trip:
  assumes "bp \<le> 10000"
  shows "threshold_from_fraction (threshold_as_fraction bp) = bp"
proof -
  obtain m where m: "threshold_as_fraction bp = F64 m" "0 \<le> m" "m \<le> 1"
  proof (cases "bp = 10000")
    case True
    have "f64_round 1 = F64 1" using f64_of_nat_exact [of 1] by (simp add: f64_of_nat_def)
    then have "threshold_as_fraction bp = F64 1"
      using f64_of_nat_exact [of 10000] by (simp add: True threshold_as_fraction_def)
    then show thesis by (rule that) simp_all
  next
    case False
    obtain m where m: "threshold_as_fraction bp = F64 m" "0 \<le> m"
      "\<bar>m - of_nat bp / of_nat 10000\<bar> \<le> 1 / 2 ^ 53"
      unfolding threshold_f64 using assms by (rule f64_ratio_near [of bp 10000]) simp_all
    have "(of_nat bp :: rat) \<le> of_nat 9999" using assms False by (simp only: of_nat_le_iff)
    then have "of_nat bp / of_nat 10000 + 1 / 2 ^ 53 \<le> (1 :: rat)" by simp
    then show thesis using m by (intro that) (assumption, assumption, linarith)
  qed
  then have "f64_clamp (F64 0) (F64 1) (threshold_as_fraction bp) = threshold_as_fraction bp"
    by (simp add: f64_clamp_def)
  then show ?thesis
    using f64_ratio_scale_back [of bp 10000 u32_max] assms
    by (simp add: threshold_from_fraction_def threshold_f64 f64_of_nat_exact [of 10000] u32_max_def)
qed

theorem threshold_round_trip_witness:
  "threshold_from_fraction (threshold_as_fraction 9950) = 9950"
  by (rule threshold_round_trip) simp

section \<open>The interface of the window\<close>

text \<open>What the breaker relies on: a response adds at most one sample, a reset leaves none,
  and the window trips only on at least one sample and at least the configured minimum.\<close>

locale sample_window =
  fixes samples :: "'w \<Rightarrow> nat" and record_sample :: "bool \<Rightarrow> instant \<Rightarrow> 'w \<Rightarrow> 'w"
    and reset_samples :: "instant \<Rightarrow> 'w \<Rightarrow> 'w" and trips :: "nat \<Rightarrow> 'w \<Rightarrow> bool"
  assumes record_le: "samples (record_sample ok now w) \<le> samples w + 1"
    and reset_zero: "samples (reset_samples now w) = 0"
    and trips_min: "trips m w \<Longrightarrow> m \<le> samples w \<and> 0 < samples w"
begin

lemma samples_bound:
  "samples (fold (\<lambda>(ok, now). record_sample ok now) rs w) \<le> samples w + length rs"
proof (induction rs arbitrary: w)
  case (Cons r rs)
  obtain ok now where r: "r = (ok, now)" by (cases r)
  show ?case using Cons.IH [of "record_sample ok now w"] record_le [of ok now w] by (simp add: r)
qed simp

lemma cold_start:
  "trips m (fold (\<lambda>(ok, now). record_sample ok now) rs (reset_samples t w)) \<Longrightarrow> m \<le> length rs \<and> rs \<noteq> []"
  using samples_bound [of rs "reset_samples t w"] trips_min by (fastforce simp: reset_zero)

end

lemma sum_list_update_le:
  fixes xs :: "nat list"
  shows "i < length xs \<Longrightarrow> sum_list (xs[i := x]) + xs ! i = sum_list xs + x"
proof (induction xs arbitrary: i)
  case (Cons a xs)
  then show ?case by (cases i) simp_all
qed simp

definition window_samples :: "success_rate_window \<Rightarrow> nat" where
  "window_samples w = sum_list (map b_total (w_buckets w))"

lemma clear_one_le: "sum_list (map b_total (bs[i := bucket_clear])) \<le> sum_list (map b_total bs)"
  using sum_list_update_le [of i "map b_total bs" 0]
  by (cases "i < length bs") (simp_all add: map_update bucket_clear_def list_update_beyond)

lemma clear_steps_le: "sum_list (map b_total (clear_steps c n bs)) \<le> sum_list (map b_total bs)"
proof (induction n)
  case (Suc n)
  have "clear_steps c (Suc n) bs = (clear_steps c n bs)[(c + Suc n) mod BUCKETS := bucket_clear]"
    by (simp add: clear_steps_def)
  then show ?case using Suc clear_one_le order_trans by metis
qed (simp add: clear_steps_def)

lemma window_roll_samples: "window_samples (window_roll now w) \<le> window_samples w"
  using clear_steps_le
  by (simp add: window_samples_def window_roll_def Let_def bucket_clear_def o_def sum_list_0)

lemma window_record_samples: "window_samples (window_record ok now w) \<le> window_samples w + 1"
proof -
  let ?w = "window_roll now w"
  let ?c = "w_current ?w"
  have "window_samples (window_record ok now w) \<le> window_samples ?w + 1"
  proof (cases "?c < length (w_buckets ?w)")
    case True
    then show ?thesis
      using sum_list_update_le [of ?c "map b_total (w_buckets ?w)" "min u32_max (b_total (w_buckets ?w ! ?c) + 1)"]
      by (simp add: window_record_def window_samples_def Let_def map_update bucket_add_def)
  qed (simp add: window_record_def window_samples_def Let_def list_update_beyond)
  then show ?thesis using window_roll_samples [of now w] by simp
qed

lemma window_trips_samples:
  "window_should_trip m threshold w \<Longrightarrow> m \<le> window_samples w \<and> 0 < window_samples w"
  by (auto simp: window_should_trip_def ratio_and_total_def window_totals_sum window_samples_def split: if_splits)

lemma window_reset_samples: "window_samples (window_reset now w) = 0"
  by (simp add: window_samples_def window_reset_def bucket_clear_def o_def)

interpretation window: sample_window window_samples window_record window_reset
  "\<lambda>m. window_should_trip m threshold" for threshold
  by unfold_locales (rule window_record_samples, rule window_reset_samples, rule window_trips_samples)

text \<open>When the configured length is not a multiple of ten nanoseconds, the ring covers less than
  it.\<close>

lemma realized_window:
  "MIN_WINDOW \<le> window \<Longrightarrow> BUCKETS * w_bucket_width (window_new window now) = window - window mod BUCKETS"
  by (simp add: window_new_def max_def MIN_WINDOW_def minus_mod_eq_mult_div)

end
