(* ===== verification/Classify.thy ===== *)
theory Classify
  imports Http_Types
begin

text \<open>
  Response classification: the classifier of \<open>linkerd/app/core/src/classify.rs\<close>, the status
  ranges and gRPC codes it is configured with (\<open>linkerd/proxy/client-policy/src/http.rs\<close> and
  \<open>grpc.rs\<close>) and the response classes of a service profile
  (\<open>linkerd/service-profiles/src/http.rs\<close>). A classifier is chosen from the request
  (\<open>classify\<close>), looks at the head of the response (\<open>start\<close>) and ends at the trailers
  (\<open>eos\<close>) or at an error. gRPC status codes are the seventeen of the protocol, numbered
  in its order; reading one from an integer is the gRPC library's, a parameter.
\<close>

section \<open>gRPC codes and status ranges\<close>

datatype grpc_code =
    GOk | Cancelled | Unknown | InvalidArgument | DeadlineExceeded | NotFound | AlreadyExists
  | PermissionDenied | ResourceExhausted | FailedPrecondition | Aborted | OutOfRange
  | Unimplemented | Internal | Unavailable | DataLoss | Unauthenticated

fun code_as_u16 :: "grpc_code \<Rightarrow> nat" where
  "code_as_u16 GOk = 0"
| "code_as_u16 Cancelled = 1"
| "code_as_u16 Unknown = 2"
| "code_as_u16 InvalidArgument = 3"
| "code_as_u16 DeadlineExceeded = 4"
| "code_as_u16 NotFound = 5"
| "code_as_u16 AlreadyExists = 6"
| "code_as_u16 PermissionDenied = 7"
| "code_as_u16 ResourceExhausted = 8"
| "code_as_u16 FailedPrecondition = 9"
| "code_as_u16 Aborted = 10"
| "code_as_u16 OutOfRange = 11"
| "code_as_u16 Unimplemented = 12"
| "code_as_u16 Internal = 13"
| "code_as_u16 Unavailable = 14"
| "code_as_u16 DataLoss = 15"
| "code_as_u16 Unauthenticated = 16"

type_synonym codes = "nat list"

definition codes_contains :: "codes \<Rightarrow> grpc_code \<Rightarrow> bool" where
  "codes_contains codes c \<longleftrightarrow> code_as_u16 c \<in> set codes"

definition default_codes :: codes where
  "default_codes =
     map code_as_u16 [DataLoss, DeadlineExceeded, Internal, PermissionDenied, Unavailable, Unknown]"

type_synonym status_ranges = "(nat \<times> nat) list"

definition status_ranges_contains :: "status_ranges \<Rightarrow> nat \<Rightarrow> bool" where
  "status_ranges_contains ranges status \<longleftrightarrow>
     list_ex (\<lambda>(lo, hi). lo \<le> status \<and> status \<le> hi) ranges"

definition default_status_ranges :: status_ranges where
  "default_status_ranges = [(500, 599)]"

section \<open>Response classes of a profile\<close>

datatype response_match =
    RspAll "response_match list"
  | RspAny "response_match list"
  | RspNot response_match
  | RspStatus nat nat

fun response_is_match :: "response_match \<Rightarrow> nat \<Rightarrow> bool" where
  "response_is_match (RspStatus lo hi) status = (lo \<le> status \<and> status \<le> hi)"
| "response_is_match (RspNot m) status = (\<not> response_is_match m status)"
| "response_is_match (RspAll ms) status = list_all (\<lambda>m. response_is_match m status) ms"
| "response_is_match (RspAny ms) status = list_ex (\<lambda>m. response_is_match m status) ms"

record response_class =
  rc_is_failure :: bool
  rc_match :: response_match

section \<open>Classification\<close>

datatype rsp_class =
    Class_Http "(nat, nat) result"
  | Class_Grpc "(grpc_code, grpc_code) result"
  | Class_Error string

fun class_is_failure :: "rsp_class \<Rightarrow> bool" where
  "class_is_failure (Class_Http (Inl _)) = True"
| "class_is_failure (Class_Grpc (Inl _)) = True"
| "class_is_failure (Class_Error _) = True"
| "class_is_failure _ = False"

definition class_is_success :: "rsp_class \<Rightarrow> bool" where
  "class_is_success c \<longleftrightarrow> \<not> class_is_failure c"

datatype client_policy_class = CP_Grpc codes | CP_Http status_ranges

datatype classify_request =
    Classify_Default
  | Classify_Profile "response_class list"
  | Classify_ClientPolicy client_policy_class

datatype classify_response =
    Rsp_Http status_ranges
  | Rsp_Grpc codes
  | Rsp_Profile "response_class list"

datatype eos = Eos_Class rsp_class | Eos_GrpcOpen codes | Eos_ProfileUnmatched rsp_class

definition request_classify_from :: "response_class list \<Rightarrow> classify_request" where
  "request_classify_from classes = (if classes \<noteq> [] then Classify_Profile classes else Classify_Default)"

definition hdr_get :: "('re, 'h) http_api \<Rightarrow> 'h \<Rightarrow> header_name \<Rightarrow> header_value option" where
  "hdr_get api h n = (case hdr_get_all api h n of [] \<Rightarrow> None | v # _ \<Rightarrow> Some v)"

definition is_grpc :: "('re, 'h) http_api \<Rightarrow> 'h \<Rightarrow> bool" where
  "is_grpc api hdrs =
    (case Option.bind (hdr_get api hdrs ''content-type'') (value_to_str api) of
       None \<Rightarrow> False | Some ct \<Rightarrow> prefix ''application/grpc'' ct)"

definition header_grpc_code ::
  "('re, 'h) http_api \<Rightarrow> (nat \<Rightarrow> grpc_code) \<Rightarrow> 'h \<Rightarrow> grpc_code option" where
  "header_grpc_code api from_i32 hdrs =
     map_option from_i32
       (Option.bind (Option.bind (hdr_get api hdrs ''grpc-status'') (value_to_str api))
         (parse_uint 65535))"

definition request_classify ::
  "('re, 'h) http_api \<Rightarrow> classify_request \<Rightarrow> 'h \<Rightarrow> classify_response" where
  "request_classify api c rq = (case c of
     Classify_Profile classes \<Rightarrow> Rsp_Profile classes
   | Classify_ClientPolicy (CP_Http policy) \<Rightarrow>
       if is_grpc api rq then Rsp_Grpc default_codes else Rsp_Http policy
   | Classify_ClientPolicy (CP_Grpc policy) \<Rightarrow> Rsp_Grpc policy
   | Classify_Default \<Rightarrow>
       if is_grpc api rq then Rsp_Grpc default_codes else Rsp_Http default_status_ranges)"

definition match_class :: "nat \<Rightarrow> response_class list \<Rightarrow> rsp_class option" where
  "match_class status classes =
    (case find (\<lambda>c. response_is_match (rc_match c) status) classes of
       None \<Rightarrow> None
     | Some c \<Rightarrow> Some (Class_Http (if rc_is_failure c then Err status else Ok status)))"

definition grpc_class :: "codes \<Rightarrow> grpc_code \<Rightarrow> rsp_class" where
  "grpc_class codes c = Class_Grpc (if codes_contains codes c then Err c else Ok c)"

definition is_server_error :: "nat \<Rightarrow> bool" where
  "is_server_error status \<longleftrightarrow> 500 \<le> status \<and> status < 600"

definition classify_start ::
  "('re, 'h) http_api \<Rightarrow> (nat \<Rightarrow> grpc_code) \<Rightarrow> classify_response \<Rightarrow> nat \<Rightarrow> 'h \<Rightarrow> eos" where
  "classify_start api from_i32 r status rsp_headers = (case r of
     Rsp_Http statuses \<Rightarrow>
       Eos_Class (Class_Http (if status_ranges_contains statuses status then Err status else Ok status))
   | Rsp_Grpc codes \<Rightarrow>
       (case header_grpc_code api from_i32 rsp_headers of
          Some c \<Rightarrow> Eos_Class (grpc_class codes c)
        | None \<Rightarrow> Eos_GrpcOpen codes)
   | Rsp_Profile classes \<Rightarrow>
       (case match_class status classes of
          Some c \<Rightarrow> Eos_Class c
        | None \<Rightarrow>
            (case header_grpc_code api from_i32 rsp_headers of
               Some code \<Rightarrow> Eos_Class (grpc_class default_codes code)
             | None \<Rightarrow>
                 Eos_ProfileUnmatched
                   (Class_Http (if is_server_error status then Err status else Ok status)))))"

definition classify_eos ::
  "('re, 'h) http_api \<Rightarrow> (nat \<Rightarrow> grpc_code) \<Rightarrow> eos \<Rightarrow> 'h option \<Rightarrow> rsp_class" where
  "classify_eos api from_i32 e trailers = (case e of
     Eos_Class c \<Rightarrow> c
   | Eos_GrpcOpen codes \<Rightarrow>
       (case Option.bind trailers (header_grpc_code api from_i32) of
          None \<Rightarrow> Class_Grpc (Ok Unknown)
        | Some code \<Rightarrow> grpc_class codes code)
   | Eos_ProfileUnmatched http_class \<Rightarrow>
       (case Option.bind trailers (header_grpc_code api from_i32) of
          Some code \<Rightarrow> grpc_class default_codes code
        | None \<Rightarrow> http_class))"

text \<open>Errors: a timeout has its own name, a reset of the HTTP/2 stream is named by its
  reason, anything else is unclassified.\<close>

datatype classify_error = ResponseTimeout | H2_Reason string | Other_Error

fun h2_error :: "classify_error \<Rightarrow> string" where
  "h2_error (H2_Reason reason) = ''h2('' @ reason @ '')''"
| "h2_error _ = ''unclassified''"

definition classify_response_error :: "classify_error \<Rightarrow> rsp_class" where
  "classify_response_error err = Class_Error (if err = ResponseTimeout then ''timeout'' else h2_error err)"

definition classify_eos_error :: "classify_error \<Rightarrow> rsp_class" where
  "classify_eos_error err = Class_Error (h2_error err)"

text \<open>A whole exchange: head of the request, head of the response, trailers.\<close>

definition classify_exchange ::
  "('re, 'h) http_api \<Rightarrow> (nat \<Rightarrow> grpc_code) \<Rightarrow> classify_request \<Rightarrow> 'h \<Rightarrow> nat \<Rightarrow> 'h \<Rightarrow> 'h option \<Rightarrow> rsp_class" where
  "classify_exchange api from_i32 c rq status rsp_headers trailers =
     classify_eos api from_i32
       (classify_start api from_i32 (request_classify api c rq) status rsp_headers) trailers"

lemmas classify_defs = classify_exchange_def request_classify_def classify_start_def
  classify_eos_def grpc_class_def class_is_success_def

section \<open>What is a failure\<close>

lemma grpc_class_failure [simp]: "class_is_failure (grpc_class codes c) \<longleftrightarrow> codes_contains codes c"
  by (simp add: grpc_class_def)

lemma codes_contains_iff: "codes_contains (map code_as_u16 cs) c \<longleftrightarrow> c \<in> set cs"
proof -
  have "code_as_u16 c = code_as_u16 d \<Longrightarrow> c = d" for d by (cases c; cases d) simp_all
  then show ?thesis by (auto simp: codes_contains_def)
qed

text \<open>The status that decides a gRPC exchange: the response header's if it has one that
  parses, the trailers' otherwise.\<close>

definition exchange_code ::
  "('re, 'h) http_api \<Rightarrow> (nat \<Rightarrow> grpc_code) \<Rightarrow> 'h \<Rightarrow> 'h option \<Rightarrow> grpc_code option" where
  "exchange_code api from_i32 rsp_headers trailers =
     (case header_grpc_code api from_i32 rsp_headers of
        Some c \<Rightarrow> Some c
      | None \<Rightarrow> Option.bind trailers (header_grpc_code api from_i32))"

text \<open>An exchange under a client policy fails exactly when: for a gRPC request, the status that
  decides it is one of the six failure codes, and for any other request the HTTP status is in
  the configured ranges. A gRPC exchange that ends without a status is not a failure, whatever
  the HTTP status was.\<close>

theorem client_policy_failure_iff:
  "class_is_failure (classify_exchange api from_i32 (Classify_ClientPolicy (CP_Http ranges))
      rq status rsp_headers trailers) \<longleftrightarrow>
    (if is_grpc api rq
     then (case exchange_code api from_i32 rsp_headers trailers of
             None \<Rightarrow> False
           | Some c \<Rightarrow> c \<in> {DataLoss, DeadlineExceeded, Internal, PermissionDenied, Unavailable, Unknown})
     else status_ranges_contains ranges status)"
proof -
  have "codes_contains default_codes c \<longleftrightarrow>
      c \<in> {DataLoss, DeadlineExceeded, Internal, PermissionDenied, Unavailable, Unknown}" for c
    by (simp only: default_codes_def codes_contains_iff) simp
  then show ?thesis
    by (auto simp: classify_exchange_def request_classify_def classify_start_def classify_eos_def
        exchange_code_def split: option.split)
qed

end
