(* ===== verification/Breaker.thy ===== *)
theory Breaker
  imports Gate Exp_Backoff Success_Rate Classify
begin

text \<open>
  The two circuit breakers of the outbound proxy
  (\<open>linkerd/app/outbound/src/http/breaker/consecutive_failures.rs\<close> and \<open>unified.rs\<close>): tasks
  that receive the classes of an endpoint's responses and drive the endpoint's gate. A breaker is
  a state machine: open, shut until its backoff has elapsed, in probation until one response
  arrives, or gone. A branch of the code's \<open>select!\<close> is an event; the commands that the
  breaker gives its gate run on the model of the gate, so that a run of the system interleaves
  the breaker's events with clones, polls, calls and drops of the gates it controls.
\<close>

section \<open>The open state of the unified breaker\<close>

datatype trip_reason = ConsecutiveFailures | LowSuccessRate

record unified_breaker =
  ub_max_failures :: nat
  ub_threshold :: f64
  ub_window :: duration
  ub_backoff :: exponential_backoff
  ub_min_requests :: nat

record open_state =
  os_consecutive_failures :: nat
  os_success_rate :: "success_rate_window option"

definition open_state_new :: "bool \<Rightarrow> duration \<Rightarrow> instant \<Rightarrow> open_state" where
  "open_state_new active window now =
    \<lparr> os_consecutive_failures = 0,
      os_success_rate = (if active then Some (window_new window now) else None) \<rparr>"

definition open_state_reset :: "instant \<Rightarrow> open_state \<Rightarrow> open_state" where
  "open_state_reset now st = st\<lparr> os_consecutive_failures := 0,
     os_success_rate := map_option (window_reset now) (os_success_rate st) \<rparr>"

definition success_rate_active :: "unified_breaker \<Rightarrow> bool" where
  "success_rate_active b = f64_lt (F64 0) (ub_threshold b)"

fun is_rate_limit_signal :: "rsp_class \<Rightarrow> bool" where
  "is_rate_limit_signal (Class_Http (Inr status)) = (status = 429)"
| "is_rate_limit_signal (Class_Grpc (Inr code)) = (code = ResourceExhausted)"
| "is_rate_limit_signal _ = False"

definition ub_should_trip :: "unified_breaker \<Rightarrow> open_state \<Rightarrow> trip_reason option" where
  "ub_should_trip b st =
    (if ub_max_failures b \<noteq> 0 \<and> ub_max_failures b \<le> os_consecutive_failures st
     then Some ConsecutiveFailures
     else case os_success_rate st of
       None \<Rightarrow> None
     | Some window \<Rightarrow>
         if window_should_trip (ub_min_requests b) (ub_threshold b) window
         then Some LowSuccessRate else None)"

text \<open>What the loop of \<open>open\<close> does with one response.\<close>

definition ub_count :: "unified_breaker \<Rightarrow> rsp_class \<Rightarrow> instant \<Rightarrow> open_state \<Rightarrow> open_state" where
  "ub_count b c now st =
    (let failures = (if 0 < ub_max_failures b
           then if \<not> class_is_success c then min u64_max (os_consecutive_failures st + 1) else 0
           else os_consecutive_failures st);
         degrades = class_is_failure c \<or> is_rate_limit_signal c
     in \<lparr> os_consecutive_failures = failures,
          os_success_rate = map_option (window_record (\<not> degrades) now) (os_success_rate st) \<rparr>)"

definition ub_open_response ::
  "unified_breaker \<Rightarrow> rsp_class \<Rightarrow> instant \<Rightarrow> open_state \<Rightarrow> open_state \<times> trip_reason option" where
  "ub_open_response b c now st = (let st' = ub_count b c now st in (st', ub_should_trip b st'))"

definition is_probe_success :: "rsp_class \<Rightarrow> bool" where
  "is_probe_success c = (if is_rate_limit_signal c then False else class_is_success c)"

section \<open>State machines\<close>

datatype 'st phase =
    Ph_Open 'st
  | Ph_Shut 'st backoff_stream
  | Ph_Probation 'st backoff_stream
  | Ph_Done

datatype breaker_event =
    Be_Response rsp_class instant
  | Be_ResponsesClosed
  | Be_GateLost
  | Be_Wake instant f64

text \<open>The breaker's phase, its gate and the history of the gate.\<close>

record ('st, 'sem, 'e) system =
  s_phase :: "'st phase"
  s_gate :: "'sem gate_world"
  s_trace :: "('e gate_event \<times> 'e gate_output) list"

definition gate_do ::
  "'sem semaphore_api \<Rightarrow> 'e gate_event \<Rightarrow> ('st, 'sem, 'e) system \<Rightarrow> 'e gate_output \<times> ('st, 'sem, 'e) system" where
  "gate_do api ev s = (case gate_step api ev (s_gate s) of (w, out) \<Rightarrow>
     (out, s\<lparr> s_gate := w, s_trace := s_trace s @ [(ev, out)] \<rparr>))"

text \<open>A phase is entered with a command to the gate; when the gate is closed the task ends.\<close>

definition enter ::
  "'sem semaphore_api \<Rightarrow> 'e gate_event \<Rightarrow> 'st phase \<Rightarrow> ('st, 'sem, 'e) system \<Rightarrow> ('st, 'sem, 'e) system" where
  "enter api cmd ph s = (case gate_do api cmd s of (out, s') \<Rightarrow>
     s'\<lparr> s_phase := (if out = Out_Closed then Ph_Done else ph) \<rparr>)"

definition enter_open where
  "enter_open api st s = enter api Ev_Open (Ph_Open st) s"

definition enter_shut where
  "enter_shut api st bs s = enter api Ev_Shut (Ph_Shut st bs) s"

definition enter_probation where
  "enter_probation api st bs s = enter api (Ev_Limit 1) (Ph_Probation st bs) s"

definition done_with :: "('st, 'sem, 'e) system \<Rightarrow> ('st, 'sem, 'e) system" where
  "done_with s = s\<lparr> s_phase := Ph_Done \<rparr>"

text \<open>While shut: the backoff is polled, and an item of it, or its end, starts the probation.\<close>

definition shut_wake where
  "shut_wake api now rng st bs s = (case backoff_poll_next now rng bs of
     Panics _ \<Rightarrow> done_with s
   | Returns (Pending, bs') \<Rightarrow> s\<lparr> s_phase := Ph_Shut st bs' \<rparr>
   | Returns (Ready _, bs') \<Rightarrow> enter_probation api st bs' s)"

definition ub_step ::
  "'sem semaphore_api \<Rightarrow> unified_breaker \<Rightarrow> breaker_event \<Rightarrow> (open_state, 'sem, 'e) system \<Rightarrow> (open_state, 'sem, 'e) system" where
  "ub_step api b ev s = (case s_phase s of
     Ph_Done \<Rightarrow> s
   | Ph_Open st \<Rightarrow>
       (case ev of
          Be_Response c now \<Rightarrow>
            (case ub_open_response b c now st of
               (st', None) \<Rightarrow> s\<lparr> s_phase := Ph_Open st' \<rparr>
             | (st', Some reason) \<Rightarrow> enter_shut api st' (new_backoff_stream (ub_backoff b) now) s)
        | Be_Wake _ _ \<Rightarrow> s
        | _ \<Rightarrow> done_with s)
   | Ph_Shut st bs \<Rightarrow>
       (case ev of
          Be_Response _ _ \<Rightarrow> s
        | Be_Wake now rng \<Rightarrow> shut_wake api now rng st bs s
        | _ \<Rightarrow> done_with s)
   | Ph_Probation st bs \<Rightarrow>
       (case ev of
          Be_Response c now \<Rightarrow>
            if is_probe_success c then enter_open api (open_state_reset now st) s
            else enter_shut api st bs s
        | Be_Wake _ _ \<Rightarrow> s
        | _ \<Rightarrow> done_with s))"

definition ub_run ::
  "'sem semaphore_api \<Rightarrow> unified_breaker \<Rightarrow> instant \<Rightarrow> (open_state, 'sem, 'e) system" where
  "ub_run api b now = enter_open api (open_state_new (success_rate_active b) (ub_window b) now)
     \<lparr> s_phase = Ph_Done, s_gate = gate_channel, s_trace = [] \<rparr>"

section \<open>Consecutive failures\<close>

record consecutive_failures =
  cf_max_failures :: nat
  cf_backoff :: exponential_backoff

text \<open>One response of the loop of \<open>open\<close>: the new count, and whether it returns. The count
  is a 64-bit number that starts at zero each time the breaker opens.\<close>

definition cf_open_response :: "consecutive_failures \<Rightarrow> rsp_class \<Rightarrow> nat \<Rightarrow> nat \<times> bool" where
  "cf_open_response b c failures =
    (if class_is_success c then (0, False)
     else let failures = (failures + 1) mod 2 ^ 64 in (failures, failures = cf_max_failures b))"

definition cf_step ::
  "'sem semaphore_api \<Rightarrow> consecutive_failures \<Rightarrow> breaker_event \<Rightarrow> (nat, 'sem, 'e) system \<Rightarrow> (nat, 'sem, 'e) system" where
  "cf_step api b ev s = (case s_phase s of
     Ph_Done \<Rightarrow> s
   | Ph_Open failures \<Rightarrow>
       (case ev of
          Be_Response c now \<Rightarrow>
            (case cf_open_response b c failures of
               (n, False) \<Rightarrow> s\<lparr> s_phase := Ph_Open n \<rparr>
             | (n, True) \<Rightarrow> enter_shut api n (new_backoff_stream (cf_backoff b) now) s)
        | Be_Wake _ _ \<Rightarrow> s
        | _ \<Rightarrow> done_with s)
   | Ph_Shut n bs \<Rightarrow>
       (case ev of
          Be_Response _ _ \<Rightarrow> s
        | Be_Wake now rng \<Rightarrow> shut_wake api now rng n bs s
        | _ \<Rightarrow> done_with s)
   | Ph_Probation n bs \<Rightarrow>
       (case ev of
          Be_Response c now \<Rightarrow>
            if class_is_success c then enter_open api 0 s else enter_shut api n bs s
        | Be_Wake _ _ \<Rightarrow> s
        | _ \<Rightarrow> done_with s))"

definition cf_run :: "'sem semaphore_api \<Rightarrow> (nat, 'sem, 'e) system" where
  "cf_run api = enter_open api 0 \<lparr> s_phase = Ph_Done, s_gate = gate_channel, s_trace = [] \<rparr>"

section \<open>Runs of a breaker with its gates\<close>

datatype 'e sys_event = Sys_Breaker breaker_event | Sys_Client "'e gate_event"

definition sys_step ::
  "'sem semaphore_api \<Rightarrow> (breaker_event \<Rightarrow> ('st, 'sem, 'e) system \<Rightarrow> ('st, 'sem, 'e) system)
     \<Rightarrow> 'e sys_event \<Rightarrow> ('st, 'sem, 'e) system \<Rightarrow> ('st, 'sem, 'e) system" where
  "sys_step api step ev s = (case ev of
     Sys_Breaker be \<Rightarrow> step be s
   | Sys_Client ge \<Rightarrow> if is_client ge then snd (gate_do api ge s) else s)"

text \<open>What a step of a breaker may do: keep its phase and leave the gate alone, end, or enter a
  phase with the command that belongs to it.\<close>

fun phase_command :: "'e gate_event \<Rightarrow> 'st phase \<Rightarrow> bool" where
  "phase_command Ev_Open (Ph_Open _) = True"
| "phase_command Ev_Shut (Ph_Shut _ _) = True"
| "phase_command (Ev_Limit n) (Ph_Probation _ _) = (n = 1)"
| "phase_command _ _ = False"

fun same_phase :: "'st phase \<Rightarrow> 'st phase \<Rightarrow> bool" where
  "same_phase (Ph_Open _) (Ph_Open _) = True"
| "same_phase (Ph_Shut _ _) (Ph_Shut _ _) = True"
| "same_phase (Ph_Probation _ _) (Ph_Probation _ _) = True"
| "same_phase _ Ph_Done = True"
| "same_phase _ _ = False"

definition breaker_move ::
  "'sem semaphore_api \<Rightarrow> ('st, 'sem, 'e) system \<Rightarrow> ('st, 'sem, 'e) system \<Rightarrow> bool" where
  "breaker_move api s s' \<longleftrightarrow>
     (s_gate s' = s_gate s \<and> s_trace s' = s_trace s \<and> same_phase (s_phase s) (s_phase s')) \<or>
     (s_phase s \<noteq> Ph_Done \<and> (\<exists>cmd ph. phase_command cmd ph \<and> s' = enter api cmd ph s))"

definition gate_agrees :: "('st, 'sem, 'e) system \<Rightarrow> bool" where
  "gate_agrees s = (case s_phase s of
     Ph_Open _ \<Rightarrow> gw_state (s_gate s) = Gate_Open
   | Ph_Shut _ _ \<Rightarrow> gw_state (s_gate s) = Gate_Shut
   | Ph_Probation _ _ \<Rightarrow> (\<exists>k. gw_state (s_gate s) = Gate_Limited k \<and> permits_of (s_trace s) k = 1)
   | Ph_Done \<Rightarrow> True)"

definition sys_inv :: "'sem semaphore_api \<Rightarrow> ('st, 'sem, 'e) system \<Rightarrow> bool" where
  "sys_inv api s \<longleftrightarrow> gate_reach api (s_trace s) (s_gate s) \<and> gw_tx (s_gate s) \<and> gate_agrees s"

lemma same_phase_refl [simp]: "same_phase ph ph"
  by (cases ph) simp_all

lemma breaker_move_refl [simp]: "breaker_move api s s"
  by (simp add: breaker_move_def)

lemma gate_do_reach:
  "gate_reach api (s_trace s) (s_gate s) \<Longrightarrow> gate_do api ev s = (out, s') \<Longrightarrow>
     gate_reach api (s_trace s') (s_gate s') \<and> s_phase s' = s_phase s \<and>
     s_gate s' = fst (gate_step api ev (s_gate s)) \<and> out = snd (gate_step api ev (s_gate s)) \<and>
     s_trace s' = s_trace s @ [(ev, out)]"
  using Reach_step [of api "s_trace s" "s_gate s" ev]
  by (auto simp: gate_do_def split: prod.splits)

lemma enter_inv:
  assumes laws: "semaphore_laws api free is_closed" and reach: "gate_reach api (s_trace s) (s_gate s)"
    and tx: "gw_tx (s_gate s)" and cmd: "phase_command cmd ph"
  shows "sys_inv api (enter api cmd ph s)"
proof -
  obtain out s' where g: "gate_do api cmd s = (out, s')" by (cases "gate_do api cmd s")
  note r = gate_do_reach [OF reach g]
  have e: "enter api cmd ph s = s'\<lparr> s_phase := (if out = Out_Closed then Ph_Done else ph) \<rparr>"
    by (simp add: enter_def g)
  have tx': "gw_tx (s_gate s')" using r tx cmd
    by (cases cmd; cases ph) (auto simp: tx_open_def tx_shut_def tx_limit_def tx_send_replace_def Let_def)
  have "gate_agrees (enter api cmd ph s)" unfolding e
  proof (cases cmd)
    case (Ev_Limit n)
    have "permits_of (s_trace s) (length (gw_sems (s_gate s))) = 0"
      using gate_reach_fresh [OF laws reach] by simp
    then show "gate_agrees (s'\<lparr> s_phase := (if out = Out_Closed then Ph_Done else ph) \<rparr>)"
      using r tx cmd Ev_Limit
      by (cases ph) (auto simp: gate_agrees_def tx_limit_def tx_send_replace_def Let_def permits_of_snoc made_def)
  qed (use r tx cmd in \<open>cases ph; auto simp: gate_agrees_def tx_open_def tx_shut_def tx_send_replace_def\<close>)+
  moreover have "gate_reach api (s_trace s') (s_gate s')" using r by blast
  ultimately show ?thesis using tx' by (simp add: sys_inv_def e)
qed

lemma move_inv:
  assumes "semaphore_laws api free is_closed" "sys_inv api s" "breaker_move api s s'"
  shows "sys_inv api s'"
proof -
  have "sys_inv api s'" if "s_gate s' = s_gate s" "s_trace s' = s_trace s" "same_phase (s_phase s) (s_phase s')"
    using assms(2) that by (cases "s_phase s"; cases "s_phase s'") (auto simp: sys_inv_def gate_agrees_def)
  moreover have "sys_inv api (enter api cmd ph s)" if "phase_command cmd ph" for cmd ph
    using enter_inv [OF assms(1) _ _ that] assms(2) by (simp add: sys_inv_def)
  ultimately show ?thesis using assms(3) by (auto simp: breaker_move_def)
qed

lemma client_inv:
  assumes laws: "semaphore_laws api free is_closed" and inv: "sys_inv api s" and ev: "is_client ev"
  shows "sys_inv api (snd (gate_do api ev s))"
proof -
  obtain out s' where g: "gate_do api ev s = (out, s')" by (cases "gate_do api ev s")
  have reach: "gate_reach api (s_trace s) (s_gate s)" using inv by (simp add: sys_inv_def)
  note r = gate_do_reach [OF reach g]
  have wf: "world_wf (s_gate s)" using gate_reach_conserves [OF laws reach] by simp
  have "gw_state (s_gate s') = gw_state (s_gate s)" "gw_tx (s_gate s') = gw_tx (s_gate s)"
    "\<And>k. permits_of (s_trace s') k = permits_of (s_trace s) k"
    using client_step_state [OF laws wf ev] r by (simp_all add: permits_of_snoc)
  then show ?thesis using inv r by (simp add: g sys_inv_def gate_agrees_def split: phase.splits)
qed

definition trace_of :: "'sem semaphore_api \<Rightarrow> ('st, 'sem, 'e) system \<Rightarrow> ('st, 'sem, 'e) system \<Rightarrow> bool" where
  "trace_of api s s' \<longleftrightarrow>
     (\<exists>tr. s_trace s' = s_trace s @ tr \<and> gate_run api (map fst tr) (s_gate s) = (tr, s_gate s') \<and>
        (\<forall>n. Ev_Limit n \<in> fst ` set tr \<longrightarrow> n = 1))"

text \<open>A probation starts with a limit of one that the gate takes.\<close>

fun is_probation :: "'e gate_event \<times> 'e gate_output \<Rightarrow> bool" where
  "is_probation (Ev_Limit n, Out_Limited _) = (n = 1)"
| "is_probation _ = False"

definition probations :: "('e gate_event \<times> 'e gate_output) list \<Rightarrow> nat" where
  "probations tr = length (filter is_probation tr)"

lemma grants_probations: "\<forall>n. Ev_Limit n \<in> fst ` set tr \<longrightarrow> n = 1 \<Longrightarrow> grants tr = probations tr"
proof (induction tr)
  case (Cons x tr)
  have "granted x = (if is_probation x then 1 else 0)"
    using Cons.prems by (cases x rule: is_probation.cases) auto
  then show ?case using Cons by (auto simp: grants_def probations_def)
qed (simp add: grants_def probations_def)

lemma trace_of_refl: "s_gate s' = s_gate s \<Longrightarrow> s_trace s' = s_trace s \<Longrightarrow> trace_of api s s'"
  by (auto simp: trace_of_def intro: exI [of _ "[]"])

lemma trace_of_trans:
  assumes "trace_of api s s'" "trace_of api s' s''"
  shows "trace_of api s s''"
proof -
  obtain tr tr' where "s_trace s' = s_trace s @ tr" "gate_run api (map fst tr) (s_gate s) = (tr, s_gate s')"
    "s_trace s'' = s_trace s' @ tr'" "gate_run api (map fst tr') (s_gate s') = (tr', s_gate s'')"
    "\<forall>n. Ev_Limit n \<in> fst ` set tr \<longrightarrow> n = 1" "\<forall>n. Ev_Limit n \<in> fst ` set tr' \<longrightarrow> n = 1"
    using assms by (auto simp: trace_of_def)
  then show ?thesis
    unfolding trace_of_def by (intro exI [of _ "tr @ tr'"]) (simp add: gate_run_append image_Un)
qed

lemma gate_do_trace:
  assumes "\<forall>n. ev = Ev_Limit n \<longrightarrow> n = 1"
  shows "trace_of api s (snd (gate_do api ev s))"
  unfolding trace_of_def
  using assms by (intro exI [of _ "[(ev, snd (gate_step api ev (s_gate s)))]"]) (auto simp: gate_do_def split: prod.splits)

lemma move_trace:
  assumes "breaker_move api s s'"
  shows "trace_of api s s'"
proof -
  have "trace_of api s (enter api cmd ph s)" if "phase_command cmd ph" for cmd ph
  proof -
    have "\<forall>n. cmd = Ev_Limit n \<longrightarrow> n = 1" using that by (cases ph) auto
    from gate_do_trace [OF this, of api s] show ?thesis by (auto simp: trace_of_def enter_def split: prod.splits)
  qed
  then show ?thesis using assms by (auto simp: breaker_move_def intro: trace_of_refl)
qed

text \<open>The contract of a breaker that drives a gate: each of its steps is such a move. Any breaker
  that keeps it holds its gate in the state that belongs to its phase, and admits at most one
  request per probation.\<close>

locale circuit_breaker =
  fixes api :: "'sem semaphore_api"
    and step :: "breaker_event \<Rightarrow> ('st, 'sem, 'e) system \<Rightarrow> ('st, 'sem, 'e) system"
  assumes moves: "breaker_move api s (step ev s)"
begin

lemma step_inv: "semaphore_laws api free is_closed \<Longrightarrow> sys_inv api s \<Longrightarrow> sys_inv api (sys_step api step ev s)"
  by (cases ev) (auto simp: sys_step_def intro: move_inv [OF _ _ moves] client_inv)

lemma run_inv:
  "semaphore_laws api free is_closed \<Longrightarrow> sys_inv api s \<Longrightarrow> sys_inv api (fold (sys_step api step) evs s)"
  by (induction evs arbitrary: s) (simp_all add: step_inv)

text \<open>The gate goes through the events of the trace.\<close>

lemma step_trace: "trace_of api s (sys_step api step ev s)"
  by (cases ev) (auto simp: sys_step_def intro: move_trace [OF moves] gate_do_trace trace_of_refl)

lemma run_trace: "trace_of api s (fold (sys_step api step) evs s)"
  by (induction evs arbitrary: s) (auto intro: trace_of_trans step_trace trace_of_refl)

lemma run_admits:
  assumes laws: "semaphore_laws api free is_closed" and inv: "sys_inv api s" and shut: "s_phase s = Ph_Shut st bs"
    and s': "s' = fold (sys_step api step) evs s" and tr: "s_trace s' = s_trace s @ tr" "Ev_Open \<notin> fst ` set tr"
  shows "calls tr \<le> probations tr + ready_gates (s_gate s)"
    "case s_phase s' of
       Ph_Open _ \<Rightarrow> False
     | Ph_Shut _ _ \<Rightarrow> gw_state (s_gate s') = Gate_Shut \<and>
         (\<forall>i g inner. with_gate (s_gate s') i = Some g \<longrightarrow> fst (gate_poll_ready api inner g (s_gate s')) = Pending)
     | Ph_Probation _ _ \<Rightarrow> (\<exists>k. gw_state (s_gate s') = Gate_Limited k \<and> permits_of (s_trace s') k = 1)
     | Ph_Done \<Rightarrow> True"
proof -
  have run: "gate_run api (map fst tr) (s_gate s) = (tr, s_gate s')" and one: "\<forall>n. Ev_Limit n \<in> fst ` set tr \<longrightarrow> n = 1"
    using run_trace [of s evs] tr(1) by (auto simp: trace_of_def s')
  have open': "Ev_Open \<notin> set (map fst tr)" using tr(2) by simp
  have res: "restricted api free is_closed (s_gate s)" "gw_state (s_gate s) = Gate_Shut"
    using inv shut gate_reach_restricted [OF laws, of "s_trace s" "s_gate s"]
    by (simp_all add: sys_inv_def gate_agrees_def)
  show "calls tr \<le> probations tr + ready_gates (s_gate s)"
    using gate_run_calls [OF res(1) open'] res(2) by (simp add: run free_now_def grants_probations [OF one])
  have res': "restricted api free is_closed (s_gate s')"
    using gate_run_restricted [OF res(1) open'] by (simp add: run)
  have "sys_inv api s'" using run_inv [OF laws inv, of evs] by (simp add: s')
  then show "case s_phase s' of
       Ph_Open _ \<Rightarrow> False
     | Ph_Shut _ _ \<Rightarrow> gw_state (s_gate s') = Gate_Shut \<and>
         (\<forall>i g inner. with_gate (s_gate s') i = Some g \<longrightarrow> fst (gate_poll_ready api inner g (s_gate s')) = Pending)
     | Ph_Probation _ _ \<Rightarrow> (\<exists>k. gw_state (s_gate s') = Gate_Limited k \<and> permits_of (s_trace s') k = 1)
     | Ph_Done \<Rightarrow> True"
    using res' shut_not_ready [OF res']
    by (auto simp: sys_inv_def gate_agrees_def restricted_def split: phase.splits)
qed

end

lemma enter_move: "s_phase s \<noteq> Ph_Done \<Longrightarrow> phase_command cmd ph \<Longrightarrow> breaker_move api s (enter api cmd ph s)"
  by (auto simp: breaker_move_def)

lemma stay_move: "same_phase (s_phase s) ph \<Longrightarrow> breaker_move api s (s\<lparr> s_phase := ph \<rparr>)"
  by (simp add: breaker_move_def)

lemmas enter_defs = enter_open_def enter_shut_def enter_probation_def done_with_def

lemma shut_wake_move: "s_phase s = Ph_Shut st bs \<Longrightarrow> breaker_move api s (shut_wake api now rng st bs s)"
  by (auto simp: shut_wake_def enter_defs stay_move enter_move split: outcome.split prod.split poll.split)

lemma ub_step_move: "breaker_move api s (ub_step api b ev s)"
  by (cases "s_phase s"; cases ev)
    (auto simp: ub_step_def enter_defs stay_move enter_move shut_wake_move split: prod.split option.split)

lemma cf_step_move: "breaker_move api s (cf_step api b ev s)"
  by (cases "s_phase s"; cases ev)
    (auto simp: cf_step_def enter_defs stay_move enter_move shut_wake_move split: prod.split bool.split)

interpretation ub: circuit_breaker api "ub_step api b" for api b
  by unfold_locales (rule ub_step_move)

interpretation cf: circuit_breaker api "cf_step api b" for api b
  by unfold_locales (rule cf_step_move)

lemma start_inv:
  assumes "semaphore_laws api free is_closed"
  shows "sys_inv api (enter_open api st \<lparr> s_phase = Ph_Done, s_gate = gate_channel, s_trace = [] \<rparr>)"
  unfolding enter_open_def
  by (rule enter_inv [OF assms]) (simp_all add: Reach_channel, simp add: gate_channel_def)

text \<open>C3: From any moment when the unified breaker has its gate shut until it next opens it, whatever
  the order of responses, wake-ups, clones, polls, calls and drops: the calls that all gates
  together let through are at most one for each probation (a limit of one permit) and one for each gate
  that had been polled ready before; while the breaker waits out its backoff the gate is shut and no
  poll is ready, and while it is in probation the gate is limited by a semaphore of one permit.\<close>

theorem breaker_holds_gate:
  assumes "semaphore_laws api free is_closed"
    and "s = fold (sys_step api (ub_step api b)) evs (ub_run api b now)" "s_phase s = Ph_Shut st bs"
    and "s' = fold (sys_step api (ub_step api b)) evs' s"
    and "s_trace s' = s_trace s @ tr" "Ev_Open \<notin> fst ` set tr"
  shows "calls tr \<le> probations tr + ready_gates (s_gate s) \<and>
    (case s_phase s' of
       Ph_Open _ \<Rightarrow> False
     | Ph_Shut _ _ \<Rightarrow> gw_state (s_gate s') = Gate_Shut \<and>
         (\<forall>i g inner. with_gate (s_gate s') i = Some g \<longrightarrow> fst (gate_poll_ready api inner g (s_gate s')) = Pending)
     | Ph_Probation _ _ \<Rightarrow> (\<exists>k. gw_state (s_gate s') = Gate_Limited k \<and> permits_of (s_trace s') k = 1)
     | Ph_Done \<Rightarrow> True)"
proof -
  have inv: "sys_inv api s"
    using ub.run_inv [OF assms(1) start_inv [OF assms(1)]] by (simp add: assms(2) ub_run_def)
  then show ?thesis
    using ub.run_admits [OF assms(1) inv assms(3-6)] by simp
qed

definition sample_breaker :: unified_breaker where
  "sample_breaker = \<lparr> ub_max_failures = 2, ub_threshold = F64 0, ub_window = 0,
     ub_backoff = \<lparr> eb_min = 3, eb_max = 8, eb_jitter = F64 0 \<rparr>, ub_min_requests = 0 \<rparr>"

definition sample_events :: "unit sys_event list" where
  "sample_events = [Sys_Breaker (Be_Response (Class_Http (Inl 500)) 10),
     Sys_Breaker (Be_Response (Class_Error ''timeout'') 11), Sys_Breaker (Be_Wake 11 (F64 0)),
     Sys_Client (Ev_Clone 0), Sys_Breaker (Be_Wake 14 (F64 0)),
     Sys_Client (Ev_PollReady 0 (Ready (Inr ()))), Sys_Client (Ev_Call 0)]"

lemma poll_armed:
  "\<not> bs_sleeping st \<Longrightarrow> bs_iterations st < u32_max \<Longrightarrow> eb_jitter (bs_backoff st) = F64 0 \<Longrightarrow>
     backoff_poll_next now rng st =
       (let d = backoff_base (bs_backoff st) (bs_iterations st);
            st' = st\<lparr> bs_duration := d, bs_sleep := now + d, bs_sleeping := True \<rparr>
        in if now < now + d then Returns (Pending, st')
           else Returns (Ready (Some ()), st'\<lparr> bs_sleeping := False, bs_iterations := bs_iterations st + 1 \<rparr>))"
  by (subst backoff_poll_next.simps) (simp add: backoff_jitter_def f64_eq_def Let_def poll_sleeping)

text \<open>Two failures shut the gate, of which one clone had been polled ready; in the probation that follows the
  other clone is called on the permit, and the first one as well.\<close>

definition shut_events :: "unit sys_event list" where
  "shut_events = [Sys_Client (Ev_Clone 0), Sys_Client (Ev_PollReady 0 (Ready (Inr ()))),
     Sys_Breaker (Be_Response (Class_Http (Inl 500)) 10), Sys_Breaker (Be_Response (Class_Error ''timeout'') 11)]"

definition probe_events :: "unit sys_event list" where
  "probe_events = [Sys_Breaker (Be_Wake 11 (F64 0)), Sys_Breaker (Be_Wake 14 (F64 0)),
     Sys_Client (Ev_PollReady 1 (Ready (Inr ()))), Sys_Client (Ev_Call 1), Sys_Client (Ev_Call 0)]"

lemmas sample_run_simps = sys_step_def ub_run_def ub_step_def enter_defs enter_def gate_do_def sample_breaker_def
  tx_open_def tx_shut_def tx_limit_def tx_is_closed_def tx_send_replace_def gate_channel_def gate_new_def Let_def
  ub_open_response_def ub_count_def ub_should_trip_def class_is_success_def success_rate_active_def open_state_new_def
  shut_wake_def poll_armed poll_sleeping new_backoff_stream_def backoff_base_eq duration_max_def nanos_per_sec_def u32_max_def
  u64_max_def close_limited_def with_gate_def gate_poll_ready_def drop_held_def poll_acquire_def
  counting_semaphore_def gate_call_def set_gate_def

lemma sample_shut:
  "\<exists>st bs. s_phase (fold (sys_step counting_semaphore (ub_step counting_semaphore sample_breaker)) shut_events
     (ub_run counting_semaphore sample_breaker 0)) = Ph_Shut st bs"
  "ready_gates (s_gate (fold (sys_step counting_semaphore (ub_step counting_semaphore sample_breaker)) shut_events
     (ub_run counting_semaphore sample_breaker 0))) = 1"
  by (simp_all add: shut_events_def sample_run_simps ready_gates_def is_ready_def)

lemma sample_probe:
  "\<exists>tr. s_trace (fold (sys_step counting_semaphore (ub_step counting_semaphore sample_breaker)) (shut_events @ probe_events)
     (ub_run counting_semaphore sample_breaker 0)) =
     s_trace (fold (sys_step counting_semaphore (ub_step counting_semaphore sample_breaker)) shut_events
       (ub_run counting_semaphore sample_breaker 0)) @ tr \<and>
   Ev_Open \<notin> fst ` set tr \<and> calls tr = 2 \<and> probations tr = 1"
  by (simp add: shut_events_def probe_events_def sample_run_simps calls_def probations_def)

theorem breaker_holds_gate_witness:
  "\<exists>s s' tr st bs.
     s = fold (sys_step counting_semaphore (ub_step counting_semaphore sample_breaker)) shut_events
       (ub_run counting_semaphore sample_breaker 0) \<and> s_phase s = Ph_Shut st bs \<and>
     s' = fold (sys_step counting_semaphore (ub_step counting_semaphore sample_breaker)) probe_events s \<and>
     s_trace s' = s_trace s @ tr \<and> calls tr \<le> probations tr + ready_gates (s_gate s) \<and>
     calls tr = 2 \<and> probations tr = 1 \<and> ready_gates (s_gate s) = 1"
proof -
  define s where "s = fold (sys_step counting_semaphore (ub_step counting_semaphore sample_breaker)) shut_events
       (ub_run counting_semaphore sample_breaker 0)"
  define s' where "s' = fold (sys_step counting_semaphore (ub_step counting_semaphore sample_breaker)) probe_events s"
  obtain st bs where ph: "s_phase s = Ph_Shut st bs" using sample_shut(1) by (auto simp: s_def)
  obtain tr where tr: "s_trace s' = s_trace s @ tr" "Ev_Open \<notin> fst ` set tr" "calls tr = 2" "probations tr = 1"
    using sample_probe by (auto simp: s_def s'_def)
  have "calls tr \<le> probations tr + ready_gates (s_gate s)"
    using breaker_holds_gate [OF counting_semaphore_laws s_def ph s'_def tr(1,2)] by (rule conjunct1)
  moreover have "ready_gates (s_gate s) = 1" using sample_shut(2) by (simp add: s_def)
  ultimately show ?thesis using s_def s'_def ph tr by blast
qed

section \<open>When the breakers trip\<close>

text \<open>The count of failures in a row, as a function of the responses.\<close>

fun run_trips :: "nat \<Rightarrow> nat \<Rightarrow> bool list \<Rightarrow> bool" where
  "run_trips m n [] = False"
| "run_trips m n (failed # fs) =
    (if failed then n + 1 = m \<or> run_trips m (n + 1) fs else run_trips m 0 fs)"

lemma sublist_after_False:
  assumes "n < m"
  shows "sublist (replicate m True) (replicate n True @ False # fs) \<longleftrightarrow> sublist (replicate m True) fs"
proof -
  have no_prefix: "prefix xs (False # fs) \<Longrightarrow> set xs \<subseteq> {True} \<Longrightarrow> xs = []" for xs
    by (cases xs) auto
  have "\<not> suffix (replicate m True) (replicate n True)" "\<not> sublist (replicate m True) (replicate n True)"
    using assms by (auto dest: suffix_length_le sublist_length_le)
  moreover have "\<not> prefix (replicate m True) (False # fs)"
    using assms no_prefix [of "replicate m True"] by auto
  moreover have "xs2 = []" if "replicate m True = xs1 @ xs2" "prefix xs2 (False # fs)" for xs1 xs2
  proof (rule no_prefix [OF that(2)])
    have "set xs2 \<subseteq> set (replicate m True)" using that(1) by simp
    then show "set xs2 \<subseteq> {True}" by (auto split: if_splits)
  qed
  ultimately show ?thesis by (auto simp: sublist_append sublist_Cons_right) fastforce
qed

lemma run_trips_iff:
  "n < m \<Longrightarrow> run_trips m n fs \<longleftrightarrow> sublist (replicate m True) (replicate n True @ fs)"
proof (induction fs arbitrary: n)
  case Nil
  then show ?case by (auto dest: sublist_length_le)
next
  case (Cons f fs)
  show ?case
  proof (cases f)
    case True
    have shift: "replicate n True @ True # fs = replicate (n + 1) True @ fs"
      by (simp add: replicate_append_same [symmetric])
    show ?thesis
    proof (cases "n + 1 = m")
      case True
      moreover have "sublist (replicate (n + 1) True) (replicate (n + 1) True @ fs)"
        by (rule prefix_imp_sublist) (rule prefixI, rule refl)
      ultimately have "sublist (replicate m True) (replicate n True @ f # fs)"
        using \<open>f\<close> by (simp only: shift)
      then show ?thesis using \<open>f\<close> True by simp
    next
      case False
      then have "run_trips m n (f # fs) = sublist (replicate m True) (replicate (n + 1) True @ fs)"
        using Cons.IH [of "n + 1"] Cons.prems \<open>f\<close> by simp
      then show ?thesis using \<open>f\<close> by (simp only: shift)
    qed
  next
    case False
    then show ?thesis using Cons.IH [of 0] Cons.prems sublist_after_False by simp
  qed
qed

lemma enter_shut_phase:
  "gw_tx (s_gate s) \<Longrightarrow> \<not> tx_is_closed (s_gate s) \<Longrightarrow> s_phase (enter_shut api st bs s) = Ph_Shut st bs"
  by (simp add: enter_shut_def enter_def gate_do_def tx_shut_def)

lemma cf_shut_responses:
  "s_phase s = Ph_Shut n bs \<Longrightarrow> fold (\<lambda>(c, now). cf_step api b (Be_Response c now)) rs s = s"
proof (induction rs)
  case (Cons r rs)
  then show ?case by (cases r) (simp add: cf_step_def)
qed simp

lemma cf_open_responses:
  assumes "s_phase s = Ph_Open n" "gw_tx (s_gate s)" "\<not> tx_is_closed (s_gate s)"
    and "n < cf_max_failures b" "cf_max_failures b \<le> u64_max"
  shows "(\<exists>k. s_phase (fold (\<lambda>(c, now). cf_step api b (Be_Response c now)) rs s) = Ph_Open k) \<longleftrightarrow>
    \<not> run_trips (cf_max_failures b) n (map (\<lambda>(c, now). class_is_failure c) rs)"
  using assms
proof (induction rs arbitrary: s n)
  case (Cons r rs)
  obtain c now where r: "r = (c, now)" by (cases r)
  have wrap: "(n + 1) mod 2 ^ 64 = n + 1"
  proof (rule mod_less)
    have "n + 1 \<le> u64_max" using Cons.prems(4,5) by simp
    then show "n + 1 < 2 ^ 64" by (simp only: u64_max_def)
  qed
  show ?case
  proof (cases "class_is_success c")
    case True
    then have "cf_step api b (Be_Response c now) s = s\<lparr> s_phase := Ph_Open 0 \<rparr>"
      using Cons.prems(1) by (simp add: cf_step_def cf_open_response_def)
    then show ?thesis using Cons.IH [of "s\<lparr> s_phase := Ph_Open 0 \<rparr>" 0] Cons.prems True
      by (simp add: r class_is_success_def)
  next
    case fail: False
    show ?thesis
    proof (cases "n + 1 = cf_max_failures b")
      case True
      then have "cf_step api b (Be_Response c now) s = enter_shut api (n + 1) (new_backoff_stream (cf_backoff b) now) s"
        using Cons.prems(1) fail wrap by (simp add: cf_step_def cf_open_response_def Let_def)
      then have "s_phase (cf_step api b (Be_Response c now) s) = Ph_Shut (n + 1) (new_backoff_stream (cf_backoff b) now)"
        using enter_shut_phase [OF Cons.prems(2,3)] by simp
      from cf_shut_responses [OF this, of api b rs] this show ?thesis using True fail
        by (simp add: r class_is_success_def)
    next
      case False
      then have "cf_step api b (Be_Response c now) s = s\<lparr> s_phase := Ph_Open (n + 1) \<rparr>"
        using Cons.prems(1) fail wrap by (simp add: cf_step_def cf_open_response_def Let_def)
      then show ?thesis using Cons.IH [of "s\<lparr> s_phase := Ph_Open (n + 1) \<rparr>" "n + 1"] Cons.prems fail False
        by (simp add: r class_is_success_def)
    qed
  qed
qed simp

lemma started_open:
  "s_phase (enter_open api st \<lparr> s_phase = Ph_Done, s_gate = gate_channel, s_trace = [] \<rparr>) = Ph_Open st \<and>
   gw_tx (s_gate (enter_open api st \<lparr> s_phase = Ph_Done, s_gate = gate_channel, s_trace = [] \<rparr>)) \<and>
   \<not> tx_is_closed (s_gate (enter_open api st \<lparr> s_phase = Ph_Done, s_gate = gate_channel, s_trace = [] \<rparr>))"
  by (simp add: enter_open_def enter_def gate_do_def tx_open_def tx_is_closed_def gate_channel_def
      tx_send_replace_def close_limited_def)

text \<open>C31: The consecutive-failures breaker, from its start, is still open after a sequence of
  responses if and only if no \<open>max_failures\<close> of them in a row were failures.\<close>

theorem consecutive_failures_trip_iff:
  assumes "0 < cf_max_failures b" "cf_max_failures b \<le> u64_max"
  shows "(\<exists>n. s_phase (fold (\<lambda>(c, now). cf_step api b (Be_Response c now)) rs
       (cf_run api :: (nat, 'sem, 'e) system)) = Ph_Open n) \<longleftrightarrow>
    \<not> sublist (replicate (cf_max_failures b) True) (map (\<lambda>(c, now). class_is_failure c) rs)"
proof -
  let ?s = "cf_run api :: (nat, 'sem, 'e) system"
  have "s_phase ?s = Ph_Open 0" "gw_tx (s_gate ?s)" "\<not> tx_is_closed (s_gate ?s)"
    by (simp_all add: cf_run_def started_open)
  from cf_open_responses [OF this, of b api rs] show ?thesis using assms by (simp add: run_trips_iff)
qed

theorem consecutive_failures_trip_iff_witness:
  "\<not> (\<exists>n. s_phase (fold (\<lambda>(c, now). cf_step counting_semaphore \<lparr> cf_max_failures = 2, cf_backoff = sample_backoff \<rparr>
       (Be_Response c now))
     [(Class_Http (Inl 500), 0), (Class_Http (Inr 200), 1), (Class_Http (Inl 503), 2), (Class_Error ''timeout'', 3)]
     (cf_run counting_semaphore :: (nat, nat \<times> bool, unit) system)) = Ph_Open n)"
proof -
  have "replicate 2 True = [True, True]" by (simp add: numeral_2_eq_2)
  then show ?thesis
    by (subst consecutive_failures_trip_iff) (simp_all add: u64_max_def sublist_Cons_right)
qed

section \<open>The unified breaker without its success-rate dimension\<close>

text \<open>With a zero threshold the unified breaker counts like the consecutive one.\<close>

fun phase_rel :: "nat \<Rightarrow> open_state phase \<Rightarrow> nat phase \<Rightarrow> bool" where
  "phase_rel m (Ph_Open st) (Ph_Open n) =
    (os_consecutive_failures st = n \<and> os_success_rate st = None \<and> n < m)"
| "phase_rel m (Ph_Shut st bs) (Ph_Shut n bs') = (os_success_rate st = None \<and> bs = bs')"
| "phase_rel m (Ph_Probation st bs) (Ph_Probation n bs') = (os_success_rate st = None \<and> bs = bs')"
| "phase_rel m Ph_Done Ph_Done = True"
| "phase_rel m _ _ = False"

definition sys_rel :: "nat \<Rightarrow> (open_state, 'sem, 'e) system \<Rightarrow> (nat, 'sem, 'e) system \<Rightarrow> bool" where
  "sys_rel m s t \<longleftrightarrow> s_gate s = s_gate t \<and> s_trace s = s_trace t \<and> phase_rel m (s_phase s) (s_phase t)"

lemma enter_rel:
  "sys_rel m s t \<Longrightarrow> phase_rel m ph ph' \<Longrightarrow> sys_rel m (enter api cmd ph s) (enter api cmd ph' t)"
  by (simp add: sys_rel_def enter_def gate_do_def split: prod.split)

lemma done_rel: "sys_rel m s t \<Longrightarrow> sys_rel m (done_with s) (done_with t)"
  by (simp add: sys_rel_def done_with_def)

lemma phase_upd_rel: "sys_rel m s t \<Longrightarrow> phase_rel m ph ph' \<Longrightarrow>
    sys_rel m (s\<lparr> s_phase := ph \<rparr>) (t\<lparr> s_phase := ph' \<rparr>)"
  by (simp add: sys_rel_def)

lemma shut_wake_rel:
  "sys_rel m s t \<Longrightarrow> os_success_rate st = None \<Longrightarrow>
     sys_rel m (shut_wake api now rng st bs s) (shut_wake api now rng n bs t)"
  by (auto simp: shut_wake_def enter_probation_def enter_rel done_rel phase_upd_rel
      split: outcome.split poll.split)

lemma open_response_rel:
  assumes b: "ub_max_failures b = m" "0 < m" "m \<le> u64_max" "cf_max_failures c = m"
    and st: "os_success_rate st = None" "os_consecutive_failures st < m"
  shows "ub_open_response b cl now st =
    (\<lparr> os_consecutive_failures = fst (cf_open_response c cl (os_consecutive_failures st)), os_success_rate = None \<rparr>,
     if snd (cf_open_response c cl (os_consecutive_failures st)) then Some ConsecutiveFailures else None)"
proof -
  let ?n = "os_consecutive_failures st"
  have "?n + 1 \<le> u64_max" using b(3) st(2) by simp
  moreover have "u64_max < 2 ^ 64" by (simp add: u64_max_def)
  ultimately have "(?n + 1) mod 2 ^ 64 = ?n + 1" "min u64_max (?n + 1) = ?n + 1" by (simp_all only: mod_less min_absorb2)
  then show ?thesis using b st
    by (auto simp: ub_open_response_def ub_count_def ub_should_trip_def cf_open_response_def Let_def)
qed

lemma step_rel:
  assumes b: "ub_max_failures b = m" "0 < m" "m \<le> u64_max" "cf_max_failures c = m"
      "ub_backoff b = cf_backoff c"
    and ev: "\<And>cl now. ev = Be_Response cl now \<Longrightarrow> \<not> is_rate_limit_signal cl"
    and rel: "sys_rel m s t"
  shows "sys_rel m (ub_step api b ev s) (cf_step api c ev t)"
proof (cases "s_phase s")
  case (Ph_Open st)
  then obtain n where n: "s_phase t = Ph_Open n" "os_consecutive_failures st = n" "os_success_rate st = None" "n < m"
    using rel by (cases "s_phase t") (auto simp: sys_rel_def)
  show ?thesis
  proof (cases ev)
    case (Be_Response cl now)
    obtain k tr where k: "cf_open_response c cl n = (k, tr)" by (cases "cf_open_response c cl n")
    have km: "\<not> tr \<Longrightarrow> k < m" using k n(4) b(2,4)
      by (auto simp: cf_open_response_def Let_def split: if_splits)
    have u: "ub_open_response b cl now st =
        (\<lparr> os_consecutive_failures = k, os_success_rate = None \<rparr>, if tr then Some ConsecutiveFailures else None)"
      using open_response_rel [OF b(1-4) n(3), of cl now] n k by simp
    show ?thesis
    proof (cases tr)
      case True
      then show ?thesis using Ph_Open n u k rel b(5)
        by (simp add: ub_step_def cf_step_def Be_Response enter_shut_def enter_rel)
    next
      case False
      then show ?thesis using Ph_Open n u k rel km
        by (simp add: ub_step_def cf_step_def Be_Response phase_upd_rel)
    qed
  qed (use Ph_Open n rel in \<open>simp_all add: ub_step_def cf_step_def done_rel\<close>)
next
  case (Ph_Shut st bs)
  then obtain n where "s_phase t = Ph_Shut n bs" "os_success_rate st = None"
    using rel by (cases "s_phase t") (auto simp: sys_rel_def)
  then show ?thesis using Ph_Shut rel
    by (cases ev) (simp_all add: ub_step_def cf_step_def done_rel shut_wake_rel)
next
  case (Ph_Probation st bs)
  then obtain n where n: "s_phase t = Ph_Probation n bs" "os_success_rate st = None"
    using rel by (cases "s_phase t") (auto simp: sys_rel_def)
  show ?thesis using Ph_Probation n rel ev b(2)
    by (cases ev) (simp_all add: ub_step_def cf_step_def done_rel enter_open_def enter_shut_def enter_rel is_probe_success_def open_state_reset_def)
next
  case Ph_Done
  then have "s_phase t = Ph_Done" using rel by (cases "s_phase t") (auto simp: sys_rel_def)
  then show ?thesis using Ph_Done rel by (simp add: ub_step_def cf_step_def)
qed

definition no_rate_limit :: "'e sys_event \<Rightarrow> bool" where
  "no_rate_limit ev = (case ev of Sys_Breaker (Be_Response c now) \<Rightarrow> \<not> is_rate_limit_signal c | _ \<Rightarrow> True)"

lemma sys_step_rel:
  assumes "ub_max_failures b = m" "0 < m" "m \<le> u64_max" "cf_max_failures c = m" "ub_backoff b = cf_backoff c"
    and "no_rate_limit ev" "sys_rel m s t"
  shows "sys_rel m (sys_step api (ub_step api b) ev s) (sys_step api (cf_step api c) ev t)"
proof (cases ev)
  case (Sys_Breaker be)
  then show ?thesis using step_rel [OF assms(1-5) _ assms(7), of be api] assms(6)
    by (auto simp: sys_step_def no_rate_limit_def split: breaker_event.splits)
next
  case (Sys_Client ge)
  then show ?thesis using assms(7)
    by (simp add: sys_step_def gate_do_def sys_rel_def split: prod.split)
qed

lemma run_rel:
  assumes "ub_max_failures b = m" "0 < m" "m \<le> u64_max" "cf_max_failures c = m" "ub_backoff b = cf_backoff c"
    and "\<forall>ev \<in> set evs. no_rate_limit ev" "sys_rel m s t"
  shows "sys_rel m (fold (sys_step api (ub_step api b)) evs s) (fold (sys_step api (cf_step api c)) evs t)"
  using assms(6,7) by (induction evs arbitrary: s t) (simp_all add: sys_step_rel [OF assms(1-5)])

text \<open>C10: With its success-rate threshold at zero and a limit of failures that is not zero, the unified
  breaker drives its gate exactly like the consecutive-failures breaker with the same limit and
  backoff, as long as no response is a rate-limit signal: over any interleaving with the gates, the gate goes through the same commands
  and admits the same calls.\<close>

theorem unified_is_consecutive:
  assumes "ub_threshold b = F64 0" "0 < ub_max_failures b" "ub_max_failures b \<le> u64_max"
    and "c = \<lparr> cf_max_failures = ub_max_failures b, cf_backoff = ub_backoff b \<rparr>"
    and "\<forall>ev \<in> set evs. no_rate_limit ev"
  shows "s_trace (fold (sys_step api (ub_step api b)) evs (ub_run api b now)) =
    s_trace (fold (sys_step api (cf_step api c)) evs (cf_run api))"
proof -
  let ?st = "open_state_new (success_rate_active b) (ub_window b) now"
  let ?s = "\<lparr> s_phase = Ph_Done, s_gate = gate_channel, s_trace = [] \<rparr>"
  have "phase_rel (ub_max_failures b) (Ph_Open ?st) (Ph_Open 0)"
    using assms(1,2) by (simp add: open_state_new_def success_rate_active_def)
  then have start: "sys_rel (ub_max_failures b) (ub_run api b now) (cf_run api)"
    unfolding ub_run_def cf_run_def enter_open_def by (intro enter_rel) (simp_all add: sys_rel_def)
  have c: "cf_max_failures c = ub_max_failures b" "ub_backoff b = cf_backoff c" by (simp_all add: assms(4))
  show ?thesis
    using run_rel [OF refl assms(2,3) c assms(5) start, of api] unfolding sys_rel_def by (elim conjE)
qed

theorem unified_is_consecutive_witness:
  "s_trace (fold (sys_step counting_semaphore (ub_step counting_semaphore sample_breaker)) sample_events
      (ub_run counting_semaphore sample_breaker 0)) =
   s_trace (fold (sys_step counting_semaphore (cf_step counting_semaphore
        \<lparr> cf_max_failures = ub_max_failures sample_breaker, cf_backoff = ub_backoff sample_breaker \<rparr>)) sample_events
      (cf_run counting_semaphore))"
proof (rule unified_is_consecutive [OF _ _ _ refl])
  show "ub_threshold sample_breaker = F64 0" "0 < ub_max_failures sample_breaker"
    "ub_max_failures sample_breaker \<le> u64_max" by (simp_all add: sample_breaker_def u64_max_def)
  show "\<forall>ev \<in> set sample_events. no_rate_limit ev" by (simp add: sample_events_def no_rate_limit_def)
qed

section \<open>Recovery\<close>

lemma enter_open_phase:
  "gw_tx (s_gate s) \<Longrightarrow> \<not> tx_is_closed (s_gate s) \<Longrightarrow>
     s_phase (enter_open api st s) = Ph_Open st \<and> gw_state (s_gate (enter_open api st s)) = Gate_Open"
  by (simp add: enter_open_def enter_def gate_do_def tx_open_def tx_send_replace_def)

lemma enter_probation_phase:
  "gw_tx (s_gate s) \<Longrightarrow> \<not> tx_is_closed (s_gate s) \<Longrightarrow>
     s_phase (enter_probation api st bs s) = Ph_Probation st bs \<and>
     gw_tx (s_gate (enter_probation api st bs s)) \<and> \<not> tx_is_closed (s_gate (enter_probation api st bs s))"
  by (simp add: enter_probation_def enter_def gate_do_def tx_limit_def tx_send_replace_def tx_is_closed_def Let_def)

lemma probe_reopens:
  assumes "s_phase s = Ph_Probation st bs" "gw_tx (s_gate s)" "\<not> tx_is_closed (s_gate s)" "is_probe_success c"
  shows "s_phase (ub_step api b (Be_Response c now) s) = Ph_Open (open_state_reset now st) \<and>
    gw_state (s_gate (ub_step api b (Be_Response c now) s)) = Gate_Open"
  using enter_open_phase [OF assms(2,3)] assms(1,4) by (simp add: ub_step_def)

lemma shut_probes:
  assumes ph: "s_phase s = Ph_Shut st bs" and tx: "gw_tx (s_gate s)" "\<not> tx_is_closed (s_gate s)"
    and bs: "stream_wf t bs" "t \<le> now" "bs_iterations bs < u32_max" and x: "unit_factor x"
    and later: "now + eb_max (bs_backoff bs) \<le> later"
  obtains bs' where "s_phase (ub_step api b (Be_Wake later y) (ub_step api b (Be_Wake now x) s)) = Ph_Probation st bs'"
    "gw_tx (s_gate (ub_step api b (Be_Wake later y) (ub_step api b (Be_Wake now x) s)))"
    "\<not> tx_is_closed (s_gate (ub_step api b (Be_Wake later y) (ub_step api b (Be_Wake now x) s)))"
proof -
  obtain r bs1 where p1: "backoff_poll_next now x bs = Returns (r, bs1)" "stream_wf now bs1"
      "bs_backoff bs1 = bs_backoff bs" "r = Ready (Some ()) \<or> bs_sleeping bs1"
    using poll_preserves_wf [OF bs(1,2) x] bs(3) by blast
  show thesis
  proof (cases r)
    case (Ready v)
    then have "ub_step api b (Be_Wake now x) s = enter_probation api st bs1 s"
      using ph p1 by (simp add: ub_step_def shut_wake_def)
    then show thesis using enter_probation_phase [OF tx, of api st bs1] that [of bs1] by (simp add: ub_step_def)
  next
    case Pending
    have "bs_sleep bs1 \<le> later" using p1 later Pending by (simp add: stream_wf_def)
    then obtain bs2 where p2: "backoff_poll_next later y bs1 = Returns (Ready (Some ()), bs2)"
      using p1(4) Pending by (simp add: poll_sleeping)
    have s1: "ub_step api b (Be_Wake now x) s = s\<lparr> s_phase := Ph_Shut st bs1 \<rparr>" (is "_ = ?s1")
      using ph p1 Pending by (simp add: ub_step_def shut_wake_def)
    have "ub_step api b (Be_Wake later y) ?s1 = enter_probation api st bs2 ?s1"
      using p2 by (simp add: ub_step_def shut_wake_def)
    then show thesis using enter_probation_phase [of ?s1 api st bs2] tx s1 that [of bs2] by simp
  qed
qed

text \<open>C15: A shut breaker recovers: if its gate still has a receiver, then polling it twice, the second
  time the maximum backoff or more after the first, puts it into probation, and a response that
  is a success and no rate-limit signal opens it and its gate, with the counts cleared.\<close>

theorem breaker_recovers:
  assumes "s_phase s = Ph_Shut st bs" "gw_tx (s_gate s)" "\<not> tx_is_closed (s_gate s)"
    and "stream_wf t bs" "t \<le> now" "bs_iterations bs < u32_max" "unit_factor x"
    and "now + eb_max (bs_backoff bs) \<le> later" "class_is_success c" "\<not> is_rate_limit_signal c"
    and "s' = fold (ub_step api b) [Be_Wake now x, Be_Wake later y, Be_Response c later] s"
  shows "s_phase s' = Ph_Open (open_state_reset later st) \<and> gw_state (s_gate s') = Gate_Open"
proof (rule shut_probes [OF assms(1-8)])
  fix bs'
  let ?s = "ub_step api b (Be_Wake later y) (ub_step api b (Be_Wake now x) s)"
  assume "s_phase ?s = Ph_Probation st bs'" "gw_tx (s_gate ?s)" "\<not> tx_is_closed (s_gate ?s)"
  from probe_reopens [OF this, of c api b later] show ?thesis using assms(9-11) by (simp add: is_probe_success_def)
qed

theorem breaker_recovers_witness:
  "s_phase (fold (ub_step counting_semaphore sample_breaker)
       [Be_Wake 4 (F64 0), Be_Wake 12 (F64 0), Be_Response (Class_Http (Inr 200)) 12]
       \<lparr> s_phase = Ph_Shut (open_state_new False 0 0) (new_backoff_stream sample_backoff 0),
         s_gate = gate_channel, s_trace = ([] :: (unit gate_event \<times> unit gate_output) list) \<rparr>)
     = Ph_Open (open_state_reset 12 (open_state_new False 0 0))"
  using breaker_recovers [of "\<lparr> s_phase = Ph_Shut (open_state_new False 0 0) (new_backoff_stream sample_backoff 0),
         s_gate = gate_channel, s_trace = ([] :: (unit gate_event \<times> unit gate_output) list) \<rparr>",
      OF _ _ _ sample_stream_wf, of _ 4 "F64 0" 12 "Class_Http (Inr 200)" _ counting_semaphore sample_breaker "F64 0"]
  by (simp add: gate_channel_def tx_is_closed_def new_backoff_stream_def sample_backoff_def u32_max_def
      unit_factor_def class_is_success_def)

section \<open>First start\<close>

text \<open>A window that was just made or reset cannot trip before the configured minimum of responses
  is in it.\<close>

lemma unified_cold_start:
  assumes trip: "ub_should_trip b (fold (\<lambda>(c, now). ub_count b c now) rs (open_state_reset t st)) = Some LowSuccessRate"
  shows "ub_min_requests b \<le> length rs \<and> rs \<noteq> []"
proof -
  have window: "os_success_rate (fold (\<lambda>(c, now). ub_count b c now) rs s) =
      map_option (fold (\<lambda>(ok, now). window_record ok now)
        (map (\<lambda>(c, now). (\<not> (class_is_failure c \<or> is_rate_limit_signal c), now)) rs)) (os_success_rate s)" for s
  proof (induction rs arbitrary: s)
    case (Cons r rs)
    then show ?case by (cases r) (simp add: ub_count_def Let_def option.map_comp comp_def)
  qed (simp add: option.map_id)
  from trip obtain w where "os_success_rate st = Some w"
      "window_should_trip (ub_min_requests b) (ub_threshold b) (fold (\<lambda>(ok, now). window_record ok now)
        (map (\<lambda>(c, now). (\<not> (class_is_failure c \<or> is_rate_limit_signal c), now)) rs) (window_reset t w))"
    by (auto simp: ub_should_trip_def window open_state_reset_def split: if_splits option.splits)
  then show ?thesis using window.cold_start by fastforce
qed

text \<open>A response that the policy classifies as a failure counts towards the consecutive failures,
  whatever its status is; only a response classified as a success is ever a rate-limit
  signal.\<close>

lemma configured_failure_counts:
  "0 < ub_max_failures b \<Longrightarrow> os_consecutive_failures st < u64_max \<Longrightarrow>
     os_consecutive_failures (ub_count b (Class_Http (Err 429)) now st) = os_consecutive_failures st + 1"
  by (simp add: ub_count_def class_is_success_def Let_def)

end
