(* ===== verification/Failure_Accrual.thy ===== *)
theory Failure_Accrual
  imports Breaker
begin

text \<open>
  The failure-accrual part of a client policy (\<open>FailureAccrual\<close> and \<open>try_backoff\<close> of
  \<open>linkerd/proxy/client-policy/src/lib.rs\<close>): its conversion from the controller's message, and
  the breaker that an accepted policy makes (\<open>linkerd/app/outbound/src/http/breaker.rs\<close>).
  Converting a duration of the protocol is the protobuf library's, a parameter.
\<close>

section \<open>Messages\<close>

record 'dur proto_backoff =
  pb_min_backoff :: "'dur option"
  pb_max_backoff :: "'dur option"
  pb_jitter_ratio :: f64

record 'dur proto_unified =
  pu_success_rate_threshold :: f64
  pu_decay :: "'dur option"
  pu_min_requests :: nat
  pu_max_consecutive_failures :: nat
  pu_backoff :: "'dur proto_backoff option"

datatype 'dur proto_accrual_kind =
    PK_ConsecutiveFailures nat "'dur proto_backoff option"
  | PK_Unified "'dur proto_unified"

record 'dur proto_failure_accrual =
  pfa_kind :: "'dur proto_accrual_kind option"

section \<open>Policies\<close>

record unified =
  u_threshold :: nat
  u_window :: duration
  u_min_requests :: nat
  u_max_consecutive_failures :: nat
  u_backoff :: exponential_backoff

datatype failure_accrual = FA_Consecutive consecutive_failures | FA_Unified unified

datatype invalid_proto_backoff =
    IB_Backoff invalid_backoff
  | IB_Duration string
  | IB_Missing string

datatype invalid_failure_accrual =
    IFA_Backoff invalid_proto_backoff
  | IFA_Missing string
  | IFA_InvalidValue string
  | IFA_Window string

definition MIN_SUCCESS_RATE_WINDOW :: duration where
  "MIN_SUCCESS_RATE_WINDOW = 10 * 10 ^ 6"

definition MAX_SUCCESS_RATE_MIN_REQUESTS :: nat where
  "MAX_SUCCESS_RATE_MIN_REQUESTS = 1000000"

definition try_backoff ::
  "('dur \<Rightarrow> (duration, string) result) \<Rightarrow> 'dur proto_backoff \<Rightarrow> (exponential_backoff, invalid_proto_backoff) result" where
  "try_backoff dur p =
    bind_result (bind_result (map_err IB_Duration (transpose_opt (map_option dur (pb_min_backoff p))))
        (ok_or (IB_Missing ''min_backoff''))) (\<lambda>min.
    bind_result (bind_result (map_err IB_Duration (transpose_opt (map_option dur (pb_max_backoff p))))
        (ok_or (IB_Missing ''max_backoff''))) (\<lambda>max.
    map_err IB_Backoff (backoff_try_new min max (pb_jitter_ratio p))))"

definition required_backoff ::
  "('dur \<Rightarrow> (duration, string) result) \<Rightarrow> string \<Rightarrow> 'dur proto_backoff option
     \<Rightarrow> (exponential_backoff, invalid_failure_accrual) result" where
  "required_backoff dur missing p =
    bind_result (map_err IFA_Backoff (transpose_opt (map_option (try_backoff dur) p)))
      (ok_or (IFA_Missing missing))"

definition unified_try_from ::
  "('dur \<Rightarrow> (duration, string) result) \<Rightarrow> 'dur proto_unified \<Rightarrow> (unified, invalid_failure_accrual) result" where
  "unified_try_from dur p =
    (if \<not> (f64_le (F64 0) (pu_success_rate_threshold p) \<and> f64_le (pu_success_rate_threshold p) (F64 1))
     then Err (IFA_InvalidValue ''success rate threshold must be between 0.0 and 1.0'')
     else let threshold = threshold_from_fraction (pu_success_rate_threshold p) in
       bind_result (map_err IFA_Window (transpose_opt (map_option dur (pu_decay p)))) (\<lambda>decay.
       let window = (case decay of None \<Rightarrow> 10 * nanos_per_sec | Some d \<Rightarrow> d) in
       if \<not> threshold_is_zero threshold \<and> window < MIN_SUCCESS_RATE_WINDOW
       then Err (IFA_InvalidValue ''success rate window is below the minimum length'')
       else if MAX_SUCCESS_RATE_MIN_REQUESTS < pu_min_requests p
       then Err (IFA_InvalidValue ''success rate min_requests exceeds the supported maximum'')
       else bind_result (required_backoff dur ''unified backoff'' (pu_backoff p)) (\<lambda>backoff.
         Ok \<lparr> u_threshold = threshold, u_window = window, u_min_requests = pu_min_requests p,
              u_max_consecutive_failures = pu_max_consecutive_failures p, u_backoff = backoff \<rparr>)))"

definition failure_accrual_try_from ::
  "('dur \<Rightarrow> (duration, string) result) \<Rightarrow> 'dur proto_failure_accrual
     \<Rightarrow> (failure_accrual, invalid_failure_accrual) result" where
  "failure_accrual_try_from dur p =
    bind_result (ok_or (IFA_Missing ''kind'') (pfa_kind p)) (\<lambda>kind. case kind of
      PK_ConsecutiveFailures max_failures backoff \<Rightarrow>
        bind_result (required_backoff dur ''consecutive failures backoff'' backoff) (\<lambda>b.
          Ok (FA_Consecutive \<lparr> cf_max_failures = max_failures, cf_backoff = b \<rparr>))
    | PK_Unified u \<Rightarrow>
        bind_result (unified_try_from dur u) (\<lambda>u. Ok (FA_Unified u)))"

text \<open>The breaker that the outbound stack spawns for an endpoint.\<close>

datatype endpoint_breaker =
    No_Breaker
  | Spawn_Consecutive consecutive_failures
  | Spawn_Unified unified_breaker

definition extract_breaker :: "failure_accrual option \<Rightarrow> endpoint_breaker" where
  "extract_breaker accrual = (case accrual of
     None \<Rightarrow> No_Breaker
   | Some (FA_Consecutive cf) \<Rightarrow> Spawn_Consecutive cf
   | Some (FA_Unified u) \<Rightarrow> Spawn_Unified
       \<lparr> ub_max_failures = u_max_consecutive_failures u,
         ub_threshold = threshold_as_fraction (u_threshold u),
         ub_window = u_window u, ub_backoff = u_backoff u, ub_min_requests = u_min_requests u \<rparr>)"

section \<open>Accepted policies are sound\<close>

lemma try_backoff_wf: "try_backoff dur p = Ok b \<Longrightarrow> backoff_wf b"
  by (auto simp: try_backoff_def bind_result_Inr_iff dest: backoff_try_new_wf)

lemma required_backoff_wf: "required_backoff dur m p = Ok b \<Longrightarrow> backoff_wf b"
  by (cases p) (auto simp: required_backoff_def bind_result_Inr_iff transpose_opt_def try_backoff_wf split: sum.splits)

lemma threshold_le: "threshold_from_fraction f \<le> 10000"
proof -
  have c: "f64_clamp (F64 0) (F64 1) f = F64_nan \<or> (\<exists>r. f64_clamp (F64 0) (F64 1) f = F64 r \<and> 0 \<le> r \<and> r \<le> 1)"
    by (cases f) (auto simp: f64_clamp_def)
  then show ?thesis
  proof
    assume "f64_clamp (F64 0) (F64 1) f = F64_nan"
    then show ?thesis by (simp add: threshold_from_fraction_def)
  next
    assume "\<exists>r. f64_clamp (F64 0) (F64 1) f = F64 r \<and> 0 \<le> r \<and> r \<le> 1"
    then obtain r where r: "f64_clamp (F64 0) (F64 1) f = F64 r" "0 \<le> r" "r \<le> 1" by blast
    then have "0 \<le> r * 10000" "r * 10000 \<le> 10000" by simp_all
    then have "r * 10000 \<le> 2 ^ 1000" by (rule_tac order_trans [of _ 10000]) simp_all
    with \<open>0 \<le> r * 10000\<close> obtain m where m: "f64_round (r * 10000) = F64 m" "0 \<le> m"
      "m \<le> r * 10000 + r * 10000 / 2 ^ 53 + 1 / 2 ^ 1075" by (rule f64_round_le)
    have "r * 10000 / 2 ^ 53 \<le> 10000 / 2 ^ 53" using \<open>r * 10000 \<le> 10000\<close> by (intro divide_right_mono) simp_all
    moreover have "10000 / 2 ^ 53 + 1 / 2 ^ 1075 \<le> (1 / 4 :: rat)" by simp
    ultimately have "m \<le> 10000 + 1 / 4" using m(3) \<open>r * 10000 \<le> 10000\<close> by linarith
    then have "\<lfloor>m + 1 / 2\<rfloor> \<le> 10000" by linarith
    then have n: "nat \<lfloor>m + 1 / 2\<rfloor> \<le> 10000" by (simp only: nat_le_iff of_nat_numeral)
    have eq: "threshold_from_fraction f = min u32_max (nat \<lfloor>m + 1 / 2\<rfloor>)"
      using r(1) m(1,2) by (simp add: threshold_from_fraction_def)
    show ?thesis unfolding eq using n by (rule min.coboundedI2)
  qed
qed

definition breaker_sound :: "endpoint_breaker \<Rightarrow> bool" where
  "breaker_sound br = (case br of
     No_Breaker \<Rightarrow> True
   | Spawn_Consecutive cf \<Rightarrow> backoff_wf (cf_backoff cf)
   | Spawn_Unified b \<Rightarrow> backoff_wf (ub_backoff b) \<and> ub_min_requests b \<le> 1000000 \<and>
       (\<exists>bp \<le> 10000. ub_threshold b = threshold_as_fraction bp \<and> success_rate_active b = (0 < bp) \<and>
          (0 < bp \<longrightarrow> max (ub_window b) MIN_WINDOW = ub_window b)))"

lemma threshold_active: "bp \<le> 10000 \<Longrightarrow> f64_lt (F64 0) (threshold_as_fraction bp) \<longleftrightarrow> 0 < bp"
  using f64_ratio_less_iff [of 0 1 bp 10000] f64_of_nat_exact [of 0] f64_of_nat_exact [of 1]
  by (simp add: threshold_f64 f64_round_def)

text \<open>C32: Every failure-accrual message that is accepted makes a breaker with a valid backoff; a
  unified one compares with a whole number of basis points, is active exactly when that number
  is not zero, and then its window is long enough to be used as configured. Everything else
  is rejected before a breaker is made.\<close>

theorem accepted_accrual_is_sound:
  assumes "failure_accrual_try_from dur p = Ok fa"
  shows "breaker_sound (extract_breaker (Some fa))"
proof (cases fa)
  case (FA_Consecutive cf)
  obtain kind where kind: "pfa_kind p = Some kind"
    using assms by (auto simp: failure_accrual_try_from_def bind_result_Inr_iff)
  then have "backoff_wf (cf_backoff cf)" using assms FA_Consecutive
    by (cases kind) (auto simp: failure_accrual_try_from_def bind_result_Inr_iff dest: required_backoff_wf)
  then show ?thesis by (simp add: FA_Consecutive extract_breaker_def breaker_sound_def)
next
  case (FA_Unified u)
  obtain kind where kind: "pfa_kind p = Some kind"
    using assms by (auto simp: failure_accrual_try_from_def bind_result_Inr_iff)
  then obtain pu where "unified_try_from dur pu = Ok u"
    using assms FA_Unified by (cases kind) (auto simp: failure_accrual_try_from_def bind_result_Inr_iff)
  then have u: "u_threshold u = threshold_from_fraction (pu_success_rate_threshold pu)"
      "u_min_requests u \<le> 1000000" "backoff_wf (u_backoff u)"
      "u_threshold u \<noteq> 0 \<longrightarrow> MIN_WINDOW \<le> u_window u"
    by (auto simp: unified_try_from_def bind_result_Inr_iff Let_def threshold_is_zero_def MIN_WINDOW_def
        MIN_SUCCESS_RATE_WINDOW_def MAX_SUCCESS_RATE_MIN_REQUESTS_def dest: required_backoff_wf split: if_splits)
  have t: "u_threshold u \<le> 10000" using threshold_le by (simp add: u(1))
  have "max (u_window u) MIN_WINDOW = u_window u" if "0 < u_threshold u" using u(4) that by simp
  then show ?thesis using u(2,3) t threshold_active [OF t]
    by (auto simp: FA_Unified extract_breaker_def breaker_sound_def success_rate_active_def intro!: exI [of _ "u_threshold u"])
qed

definition sample_accrual :: "duration proto_failure_accrual" where
  "sample_accrual = \<lparr> pfa_kind = Some (PK_Unified
     \<lparr> pu_success_rate_threshold = F64 0, pu_decay = None, pu_min_requests = 20, pu_max_consecutive_failures = 7,
       pu_backoff = Some \<lparr> pb_min_backoff = Some 3, pb_max_backoff = Some 8, pb_jitter_ratio = F64 0 \<rparr> \<rparr>) \<rparr>"

theorem accepted_accrual_is_sound_witness:
  "\<exists>fa. failure_accrual_try_from Ok sample_accrual = Ok fa \<and> breaker_sound (extract_breaker (Some fa))"
proof -
  have "\<exists>fa. failure_accrual_try_from Ok sample_accrual = Ok fa"
    by (simp add: failure_accrual_try_from_def sample_accrual_def unified_try_from_def f64_le_def f64_eq_def
        threshold_from_fraction_def f64_clamp_def f64_round_def threshold_is_zero_def Let_def
        MAX_SUCCESS_RATE_MIN_REQUESTS_def required_backoff_def try_backoff_def backoff_try_new_def)
  then show ?thesis using accepted_accrual_is_sound by blast
qed

end
