(* ===== verification/Replay_Body.thy ===== *)
theory Replay_Body
  imports Rust_Prelude
begin

text \<open>
  Bodies that can be sent again: \<open>ReplayBody\<close> of \<open>linkerd/http/retry/src/replay.rs\<close> and its
  buffer (\<open>replay/buffer.rs\<close>). The wrapped body is what it will return when it is polled, one
  event per poll; after its last event it has ended. Clones share one state: whoever is polled
  first takes it and gives it back when dropped. A clone has two flags: whether it still
  has to replay the buffer and the trailers.
\<close>

section \<open>Frames and wrapped bodies\<close>

datatype 'h frame = Frame_Data string | Frame_Trailers 'h | Frame_Unknown

datatype ('h, 'e) body_event = Body_Pending | Body_Frame "'h frame" | Body_Error 'e

type_synonym ('h, 'e) body = "('h, 'e) body_event list"

fun body_poll :: "('h, 'e) body \<Rightarrow> ('h frame, 'e) result option poll \<times> ('h, 'e) body" where
  "body_poll [] = (Ready None, [])"
| "body_poll (Body_Pending # b) = (Pending, b)"
| "body_poll (Body_Frame f # b) = (Ready (Some (Inr f)), b)"
| "body_poll (Body_Error e # b) = (Ready (Some (Inl e)), b)"

text \<open>What else a body tells of itself: whether it knows that it has ended, and bounds on its size.\<close>

record ('h, 'e) body_api =
  body_is_end_stream :: "('h, 'e) body \<Rightarrow> bool"
  body_size_lower :: "('h, 'e) body \<Rightarrow> nat"
  body_size_upper :: "('h, 'e) body \<Rightarrow> nat option"

section \<open>The replay buffer\<close>

type_synonym replay = "string list"

definition replay_remaining :: "replay \<Rightarrow> nat" where
  "replay_remaining bufs = sum_list (map length bufs)"

definition replay_has_remaining :: "replay \<Rightarrow> bool" where
  "replay_has_remaining bufs \<longleftrightarrow> 0 < replay_remaining bufs"

definition replay_chunk :: "replay \<Rightarrow> string" where
  "replay_chunk bufs = (case bufs of [] \<Rightarrow> [] | b # _ \<Rightarrow> b)"

fun replay_advance :: "nat \<Rightarrow> replay \<Rightarrow> replay outcome" where
  "replay_advance amt bufs =
    (if amt = 0 then Returns bufs
     else case bufs of
       [] \<Rightarrow> Panics ''Out of bounds access''
     | b # bs \<Rightarrow> if amt < length b then Returns (drop amt b # bs) else replay_advance (amt - length b) bs)"

declare replay_advance.simps [simp del]

definition replay_copy_to_bytes :: "nat \<Rightarrow> replay \<Rightarrow> (string \<times> replay) outcome" where
  "replay_copy_to_bytes len bufs = (case bufs of
     b # bs \<Rightarrow>
       if len \<le> length b
       then Returns (take len b, if length b = len then bs else drop len b # bs)
       else if replay_remaining bufs < len then Panics ''`len` greater than remaining''
       else bind_outcome (replay_advance len bufs) (\<lambda>bufs'. Returns (take len (concat bufs), bufs'))
   | [] \<Rightarrow> if 0 < len then Panics ''`len` greater than remaining'' else Returns ([], []))"

section \<open>The shared state\<close>

record ('h, 'e) body_state =
  bd_replay :: replay
  bd_trailers :: "'h option"
  bd_rest :: "('h, 'e) body"
  bd_is_completed :: bool
  bd_max_bytes :: nat

definition bd_is_capped :: "('h, 'e) body_state \<Rightarrow> bool" where
  "bd_is_capped st \<longleftrightarrow> bd_max_bytes st = 0"

definition record_bytes :: "string \<Rightarrow> ('h, 'e) body_state \<Rightarrow> ('h, 'e) body_state" where
  "record_bytes data st =
    (let st = st\<lparr> bd_max_bytes := bd_max_bytes st - length data \<rparr> in
     if bd_is_capped st
     then if replay_has_remaining (bd_replay st) then st\<lparr> bd_replay := [] \<rparr> else st
     else st\<lparr> bd_replay := bd_replay st @ [data] \<rparr>)"

record replay_flags =
  rf_replay_body :: bool
  rf_replay_trailers :: bool

datatype ('h, 'e) out_frame = Out_Initial string | Out_Replay replay | Out_Trailers 'h

datatype 'e replay_error = Capped | Inner 'e

type_synonym ('h, 'e) replay_poll = "(('h, 'e) out_frame, 'e replay_error) result option poll"

text \<open>The end of \<open>poll_frame\<close>: the wrapped body is polled unless it has ended.\<close>

definition poll_rest :: "('h, 'e) body_state \<Rightarrow> ('h, 'e) replay_poll \<times> ('h, 'e) body_state" where
  "poll_rest st =
    (if bd_is_completed st then (Ready None, st)
     else case body_poll (bd_rest st) of (p, b) \<Rightarrow>
       let st = st\<lparr> bd_rest := b \<rparr> in
       (case p of
          Pending \<Rightarrow> (Pending, st)
        | Ready None \<Rightarrow> (Ready None, st\<lparr> bd_is_completed := True \<rparr>)
        | Ready (Some (Inl e)) \<Rightarrow> (Ready (Some (Inl (Inner e))), st)
        | Ready (Some (Inr f)) \<Rightarrow>
            (case f of
               Frame_Data data \<Rightarrow> (Ready (Some (Inr (Out_Initial data))), record_bytes data st)
             | Frame_Trailers t \<Rightarrow> (Ready (Some (Inr (Out_Trailers t))),
                 st\<lparr> bd_trailers := Some t, bd_is_completed := True \<rparr>)
             | Frame_Unknown \<Rightarrow> (Ready None, st))))"

definition poll_held ::
  "replay_flags \<Rightarrow> ('h, 'e) body_state \<Rightarrow> ('h, 'e) replay_poll \<times> replay_flags \<times> ('h, 'e) body_state" where
  "poll_held fl st =
    (if rf_replay_body fl \<and> replay_has_remaining (bd_replay st)
     then (Ready (Some (Inr (Out_Replay (bd_replay st)))), fl\<lparr> rf_replay_body := False \<rparr>, st)
     else if rf_replay_body fl \<and> bd_is_capped st then (Ready (Some (Inl Capped)), fl, st)
     else if rf_replay_trailers fl \<and> bd_trailers st \<noteq> None
     then (Ready (Some (Inr (Out_Trailers (the (bd_trailers st))))), fl\<lparr> rf_replay_trailers := False \<rparr>, st)
     else case poll_rest st of (r, st') \<Rightarrow> (r, fl\<lparr> rf_replay_trailers := False \<rparr>, st'))"

section \<open>Clones\<close>

record ('h, 'e) replay_body =
  rb_state :: "('h, 'e) body_state option"
  rb_flags :: replay_flags

record ('h, 'e) replay_shared =
  rs_body :: "('h, 'e) body_state option"
  rs_was_empty :: bool
  rs_size_lower :: nat
  rs_size_upper :: "nat option"

definition replay_try_new ::
  "('h, 'e) body_api \<Rightarrow> ('h, 'e) body \<Rightarrow> nat \<Rightarrow> (('h, 'e) replay_body \<times> ('h, 'e) replay_shared, ('h, 'e) body) result" where
  "replay_try_new api body max_bytes =
    (if max_bytes < body_size_lower api body then Err body
     else Ok (\<lparr> rb_state = Some \<lparr> bd_replay = [], bd_trailers = None, bd_rest = body, bd_is_completed = False,
                  bd_max_bytes = (max_bytes + 1) mod 2 ^ 64 \<rparr>,
                rb_flags = \<lparr> rf_replay_body = False, rf_replay_trailers = False \<rparr> \<rparr>,
              \<lparr> rs_body = None, rs_was_empty = body_is_end_stream api body,
                rs_size_lower = body_size_lower api body, rs_size_upper = body_size_upper api body \<rparr>))"

definition replay_clone :: "('h, 'e) replay_body \<Rightarrow> ('h, 'e) replay_body" where
  "replay_clone rb = \<lparr> rb_state = None, rb_flags = \<lparr> rf_replay_body = True, rf_replay_trailers = True \<rparr> \<rparr>"

definition replay_drop :: "('h, 'e) replay_body \<Rightarrow> ('h, 'e) replay_shared \<Rightarrow> ('h, 'e) replay_shared" where
  "replay_drop rb sh = (case rb_state rb of None \<Rightarrow> sh | Some st \<Rightarrow> sh\<lparr> rs_body := Some st \<rparr>)"

definition acquire_state ::
  "('h, 'e) replay_body \<Rightarrow> ('h, 'e) replay_shared \<Rightarrow> (('h, 'e) body_state \<times> ('h, 'e) replay_shared) outcome" where
  "acquire_state rb sh = (case rb_state rb of
     Some st \<Rightarrow> Returns (st, sh)
   | None \<Rightarrow> bind_outcome (expect ''missing body state'' (rs_body sh)) (\<lambda>st. Returns (st, sh\<lparr> rs_body := None \<rparr>)))"

definition replay_is_capped :: "('h, 'e) replay_body \<Rightarrow> ('h, 'e) replay_shared \<Rightarrow> bool option" where
  "replay_is_capped rb sh = (case rb_state rb of
     Some st \<Rightarrow> Some (bd_is_capped st) | None \<Rightarrow> map_option bd_is_capped (rs_body sh))"

definition replay_poll_frame ::
  "('h, 'e) replay_body \<Rightarrow> ('h, 'e) replay_shared
     \<Rightarrow> (('h, 'e) replay_poll \<times> ('h, 'e) replay_body \<times> ('h, 'e) replay_shared) outcome" where
  "replay_poll_frame rb sh = bind_outcome (acquire_state rb sh) (\<lambda>(st, sh).
     case poll_held (rb_flags rb) st of (r, fl, st') \<Rightarrow>
       Returns (r, \<lparr> rb_state = Some st', rb_flags = fl \<rparr>, sh))"

definition replay_is_end_stream ::
  "('h, 'e) body_api \<Rightarrow> ('h, 'e) replay_body \<Rightarrow> ('h, 'e) replay_shared \<Rightarrow> bool" where
  "replay_is_end_stream api rb sh =
    (if rs_was_empty sh then True
     else case rb_state rb of
       None \<Rightarrow> False
     | Some st \<Rightarrow> \<not> rf_replay_body (rb_flags rb) \<and> \<not> rf_replay_trailers (rb_flags rb)
         \<and> body_is_end_stream api (bd_rest st))"

definition replay_size_hint ::
  "('h, 'e) body_api \<Rightarrow> ('h, 'e) replay_body \<Rightarrow> ('h, 'e) replay_shared \<Rightarrow> nat \<times> nat option" where
  "replay_size_hint api rb sh = (case rb_state rb of
     None \<Rightarrow> (rs_size_lower sh, rs_size_upper sh)
   | Some st \<Rightarrow>
       (let buffered = replay_remaining (bd_replay st) in
        (buffered + body_size_lower api (bd_rest st),
         map_option (\<lambda>u. buffered + u) (body_size_upper api (bd_rest st)))))"

section \<open>The buffer is a string\<close>

lemma replay_remaining_concat: "replay_remaining bufs = length (concat bufs)"
  by (simp add: replay_remaining_def length_concat)

lemma replay_advance_refines:
  "amt \<le> length (concat bufs) \<Longrightarrow> \<exists>bufs'. replay_advance amt bufs = Returns bufs' \<and> concat bufs' = drop amt (concat bufs)"
proof (induction bufs arbitrary: amt)
  case (Cons b bs)
  then show ?case using Cons.IH [of "amt - length b"]
    by (subst replay_advance.simps) auto
qed (subst replay_advance.simps, simp)

lemma replay_copy_refines:
  "len \<le> length (concat bufs) \<Longrightarrow>
     \<exists>bufs'. replay_copy_to_bytes len bufs = Returns (take len (concat bufs), bufs') \<and> concat bufs' = drop len (concat bufs)"
  using replay_advance_refines [of len bufs]
  by (cases bufs) (auto simp: replay_copy_to_bytes_def replay_remaining_concat)

section \<open>Reading a body to its end\<close>

lemma body_poll_length: "length (snd (body_poll b)) = length b - 1"
  by (cases b rule: body_poll.cases) simp_all

lemma record_bytes_rest [simp]:
  "bd_rest (record_bytes d st) = bd_rest st" "bd_trailers (record_bytes d st) = bd_trailers st"
  "bd_is_completed (record_bytes d st) = bd_is_completed st"
  by (simp_all add: record_bytes_def Let_def)

definition poll_measure :: "replay_flags \<Rightarrow> ('h, 'e) body_state \<Rightarrow> nat" where
  "poll_measure fl st = length (bd_rest st) + (if rf_replay_body fl then 1 else 0) + (if rf_replay_trailers fl then 1 else 0)"

lemma poll_rest_length:
  "poll_rest st = (r, st') \<Longrightarrow> r \<noteq> Ready None \<Longrightarrow> length (bd_rest st') < length (bd_rest st)"
  by (cases "bd_rest st" rule: body_poll.cases)
    (auto simp: poll_rest_def Let_def split: if_splits frame.splits)

lemma poll_held_measure:
  assumes "poll_held fl st = (r, fl', st')" "r \<noteq> Ready None" "r \<noteq> Ready (Some (Inl Capped))"
  shows "poll_measure fl' st' < poll_measure fl st"
  using assms
  by (auto simp: poll_held_def poll_measure_def dest: poll_rest_length split: if_splits prod.splits)

text \<open>A reader polls until the body ends or fails; it returns the frames and the error.\<close>

function drain :: "replay_flags \<Rightarrow> ('h, 'e) body_state \<Rightarrow> ('h, 'e) out_frame list \<times> 'e replay_error option" where
  "drain fl st = (case poll_held fl st of (r, fl', st') \<Rightarrow> (case r of
     Pending \<Rightarrow> drain fl' st'
   | Ready None \<Rightarrow> ([], None)
   | Ready (Some (Inl e)) \<Rightarrow> ([], Some e)
   | Ready (Some (Inr f)) \<Rightarrow> (case drain fl' st' of (fs, e) \<Rightarrow> (f # fs, e))))"
  by pat_completeness auto

termination
  by (relation "measure (\<lambda>(fl, st). poll_measure fl st)") (auto dest!: poll_held_measure [OF sym])

declare drain.simps [simp del]

fun frame_bytes :: "('h, 'e) out_frame \<Rightarrow> string" where
  "frame_bytes (Out_Initial d) = d"
| "frame_bytes (Out_Replay bufs) = concat bufs"
| "frame_bytes (Out_Trailers _) = []"

fun frame_trailers :: "('h, 'e) out_frame \<Rightarrow> 'h list" where
  "frame_trailers (Out_Trailers t) = [t]"
| "frame_trailers _ = []"

definition data_of :: "('h, 'e) out_frame list \<Rightarrow> string" where
  "data_of fs = concat (map frame_bytes fs)"

definition trailers_of :: "('h, 'e) out_frame list \<Rightarrow> 'h list" where
  "trailers_of fs = concat (map frame_trailers fs)"

text \<open>The content of a body that has no errors and no unknown frames: its bytes and the trailers that
  end it.\<close>

fun content :: "('h, 'e) body \<Rightarrow> string \<times> 'h list" where
  "content [] = ([], [])"
| "content (Body_Frame (Frame_Data d) # b) = (d @ fst (content b), snd (content b))"
| "content (Body_Frame (Frame_Trailers t) # b) = ([], [t])"
| "content (_ # b) = content b"

fun plain :: "('h, 'e) body \<Rightarrow> bool" where
  "plain [] = True"
| "plain (Body_Frame (Frame_Data d) # b) = plain b"
| "plain (Body_Frame (Frame_Trailers t) # b) = True"
| "plain (Body_Frame Frame_Unknown # b) = False"
| "plain (Body_Pending # b) = plain b"
| "plain (Body_Error e # b) = False"

lemma data_of_simps [simp]: "data_of [] = []" "data_of (f # fs) = frame_bytes f @ data_of fs"
  by (simp_all add: data_of_def)

lemma trailers_of_simps [simp]: "trailers_of [] = []" "trailers_of (f # fs) = frame_trailers f @ trailers_of fs"
  by (simp_all add: trailers_of_def)

definition quiet :: replay_flags where
  "quiet = \<lparr> rf_replay_body = False, rf_replay_trailers = False \<rparr>"

lemma quiet_simps [simp]: "\<not> rf_replay_body quiet" "\<not> rf_replay_trailers quiet" "quiet\<lparr> rf_replay_trailers := False \<rparr> = quiet"
  by (simp_all add: quiet_def)

lemma drain_completed: "bd_is_completed st \<Longrightarrow> drain quiet st = ([], None)"
  by (subst drain.simps) (simp add: poll_held_def poll_rest_def)

lemma drain_rest:
  assumes "plain (bd_rest st)" "\<not> bd_is_completed st"
  shows "data_of (fst (drain quiet st)) = fst (content (bd_rest st)) \<and>
    trailers_of (fst (drain quiet st)) = snd (content (bd_rest st)) \<and> snd (drain quiet st) = None"
  using assms
proof (induction "bd_rest st" arbitrary: st rule: plain.induct)
  case 1
  then show ?case by (subst (1 2 3) drain.simps) (simp add: poll_held_def poll_rest_def Let_def)
next
  case (2 d b)
  let ?st = "record_bytes d (st\<lparr> bd_rest := b \<rparr>)"
  have "drain quiet st = (case drain quiet ?st of (fs, e) \<Rightarrow> (Out_Initial d # fs, e))"
    using 2 by (subst drain.simps) (simp add: poll_held_def poll_rest_def 2(2)[symmetric] Let_def)
  then show ?case using 2(1) [of ?st] 2(2-) by (auto simp: 2(2)[symmetric] split: prod.split)
next
  case (3 t b)
  then have "drain quiet st = ([Out_Trailers t], None)"
    by (subst drain.simps) (simp add: poll_held_def poll_rest_def 3(1)[symmetric] Let_def drain_completed)
  then show ?case by (simp add: 3(1)[symmetric])
next
  case (5 b)
  let ?st = "st\<lparr> bd_rest := b \<rparr>"
  have "drain quiet st = drain quiet ?st"
    using 5 by (subst drain.simps) (simp add: poll_held_def poll_rest_def 5(2)[symmetric] Let_def)
  then show ?case using 5(1) [of ?st] 5(2-) by (simp add: 5(2)[symmetric])
next
  case (4 b)
  then show ?case by (metis plain.simps(4))
next
  case (6 e b)
  then show ?case by (metis plain.simps(6))
qed

section \<open>Reachable states\<close>

text \<open>The states of a body after any polls, by any clones, one after the other.\<close>

definition body_state_new :: "('h, 'e) body \<Rightarrow> nat \<Rightarrow> ('h, 'e) body_state" where
  "body_state_new body max_bytes = \<lparr> bd_replay = [], bd_trailers = None, bd_rest = body,
     bd_is_completed = False, bd_max_bytes = (max_bytes + 1) mod 2 ^ 64 \<rparr>"

inductive body_reach :: "('h, 'e) body \<Rightarrow> nat \<Rightarrow> ('h, 'e) body_state \<Rightarrow> bool" for body max_bytes where
  Body_new: "body_reach body max_bytes (body_state_new body max_bytes)"
| Body_poll: "body_reach body max_bytes st \<Longrightarrow> poll_held fl st = (r, fl', st') \<Longrightarrow> body_reach body max_bytes st'"

text \<open>What is buffered and what may still be buffered add up to the limit, and a body over
  the limit has an empty buffer.\<close>

definition buffer_inv :: "nat \<Rightarrow> ('h, 'e) body_state \<Rightarrow> bool" where
  "buffer_inv max_bytes st \<longleftrightarrow>
     (if bd_is_capped st then concat (bd_replay st) = []
      else length (concat (bd_replay st)) + bd_max_bytes st = max_bytes + 1)"

text \<open>Unless it is over the limit, the buffer and the rest of the body are the whole body.\<close>

definition content_inv :: "('h, 'e) body \<Rightarrow> ('h, 'e) body_state \<Rightarrow> bool" where
  "content_inv body st \<longleftrightarrow>
     (\<not> bd_is_completed st \<longrightarrow> plain (bd_rest st) \<and> bd_trailers st = None \<and>
        snd (content (bd_rest st)) = snd (content body) \<and>
        (\<not> bd_is_capped st \<longrightarrow> concat (bd_replay st) @ fst (content (bd_rest st)) = fst (content body))) \<and>
     (bd_is_completed st \<longrightarrow> snd (content body) = (case bd_trailers st of None \<Rightarrow> [] | Some t \<Rightarrow> [t]) \<and>
        (\<not> bd_is_capped st \<longrightarrow> concat (bd_replay st) = fst (content body)))"

lemma poll_held_state:
  "poll_held fl st = (r, fl', st') \<Longrightarrow> st' = st \<or> st' = snd (poll_rest st)"
  by (auto simp: poll_held_def split: if_splits prod.splits)


lemma buffer_inv_upd [simp]:
  "buffer_inv m (st\<lparr> bd_rest := b \<rparr>) = buffer_inv m st"
  "buffer_inv m (st\<lparr> bd_is_completed := c \<rparr>) = buffer_inv m st"
  "buffer_inv m (st\<lparr> bd_trailers := t \<rparr>) = buffer_inv m st"
  by (simp_all add: buffer_inv_def bd_is_capped_def)


lemma poll_rest_content:
  assumes "content_inv body st"
  shows "content_inv body (snd (poll_rest st))"
proof (cases "bd_is_completed st")
  case True
  then show ?thesis using assms by (simp add: poll_rest_def)
next
  case False
  have rec: "bd_is_capped (record_bytes d st') \<or>
      (\<not> bd_is_capped st' \<and> bd_replay (record_bytes d st') = bd_replay st' @ [d])" for d and st' :: "('a, 'b) body_state"
    by (auto simp: record_bytes_def bd_is_capped_def Let_def)
  show ?thesis
  proof (cases "bd_rest st" rule: plain.cases)
    case (2 d b)
    then show ?thesis using assms False rec [of d "st\<lparr> bd_rest := b \<rparr>"]
      by (auto simp: poll_rest_def content_inv_def Let_def bd_is_capped_def)
  qed (use assms False in \<open>auto simp: poll_rest_def content_inv_def Let_def bd_is_capped_def\<close>)
qed


lemma reach_content: "body_reach body m st \<Longrightarrow> plain body \<Longrightarrow> content_inv body st"
proof (induction rule: body_reach.induct)
  case Body_new
  then show ?case by (simp add: content_inv_def body_state_new_def bd_is_capped_def)
next
  case (Body_poll st fl r fl' st')
  then show ?case using poll_held_state [OF Body_poll.hyps(2)] poll_rest_content by auto
qed

section \<open>Replays are complete\<close>

definition eager :: replay_flags where
  "eager = \<lparr> rf_replay_body = True, rf_replay_trailers = True \<rparr>"

lemma drain_trailers:
  assumes "fl = \<lparr> rf_replay_body = False, rf_replay_trailers = True \<rparr>"
  shows "drain fl st = (case bd_trailers st of
      Some t \<Rightarrow> (case drain quiet st of (fs, e) \<Rightarrow> (Out_Trailers t # fs, e))
    | None \<Rightarrow> drain quiet st)"
proof (cases "bd_trailers st")
  case None
  have "poll_held fl st = poll_held quiet st"
    using None by (simp add: poll_held_def assms quiet_def)
  then show ?thesis using None by (subst (1 2) drain.simps) simp
next
  case (Some t)
  then show ?thesis by (subst drain.simps) (simp add: poll_held_def assms quiet_def)
qed

lemma replay_complete:
  assumes "content_inv body st" "\<not> bd_is_capped st" "replay_has_remaining (bd_replay st)"
  shows "data_of (fst (drain eager st)) = fst (content body) \<and>
    trailers_of (fst (drain eager st)) = snd (content body) \<and> snd (drain eager st) = None"
proof -
  let ?fl = "\<lparr> rf_replay_body = False, rf_replay_trailers = True \<rparr>"
  have d: "drain eager st = (case drain ?fl st of (fs, e) \<Rightarrow> (Out_Replay (bd_replay st) # fs, e))"
    using assms(3) by (subst drain.simps) (simp add: poll_held_def eager_def)
  show ?thesis
  proof (cases "bd_is_completed st")
    case True
    then show ?thesis using assms(1,2) drain_completed [OF True]
      by (auto simp: d drain_trailers [OF refl] content_inv_def split: option.splits)
  next
    case False
    then have "bd_trailers st = None" "plain (bd_rest st)" using assms(1) by (simp_all add: content_inv_def)
    then show ?thesis using assms(1,2) False drain_rest [of st]
      by (auto simp: d drain_trailers [OF refl] content_inv_def split: prod.splits)
  qed
qed

text \<open>A body without data has nothing to buffer, and the flag that asks for a replay makes no difference.\<close>

lemma drain_no_data:
  assumes "\<not> bd_is_capped st" "concat (bd_replay st) = []"
    and "\<not> bd_is_completed st \<longrightarrow> plain (bd_rest st) \<and> fst (content (bd_rest st)) = []"
  shows "drain \<lparr> rf_replay_body = True, rf_replay_trailers = t \<rparr> st = drain \<lparr> rf_replay_body = False, rf_replay_trailers = t \<rparr> st"
  using assms
proof (induction "length (bd_rest st) + (if t then 1 else 0)" arbitrary: st t rule: less_induct)
  case less
  have empty: "\<not> replay_has_remaining (bd_replay st)"
    using less.prems(2) by (simp add: replay_has_remaining_def replay_remaining_concat)
  show ?case
  proof (cases "t \<and> bd_trailers st \<noteq> None")
    case True
    then show ?thesis using less.prems empty less.hyps [of st False]
      by (subst (1 2) drain.simps) (simp add: poll_held_def)
  next
    case False
    obtain r st' where rest: "poll_rest st = (r, st')" by (cases "poll_rest st")
    have polls: "poll_held \<lparr> rf_replay_body = b, rf_replay_trailers = t \<rparr> st =
        (r, \<lparr> rf_replay_body = b, rf_replay_trailers = False \<rparr>, st')" for b
      using False empty less.prems(1) by (cases t) (simp_all add: poll_held_def rest)
    have "drain \<lparr> rf_replay_body = True, rf_replay_trailers = False \<rparr> st' =
        drain \<lparr> rf_replay_body = False, rf_replay_trailers = False \<rparr> st'" if "r \<noteq> Ready None"
    proof (rule less.hyps)
      show "length (bd_rest st') + (if False then 1 else 0) < length (bd_rest st) + (if t then 1 else 0)"
        using poll_rest_length [OF rest that] by simp
      have "\<not> bd_is_completed st" using rest that by (auto simp: poll_rest_def)
      then show "\<not> bd_is_capped st'" "concat (bd_replay st') = []"
        "\<not> bd_is_completed st' \<longrightarrow> plain (bd_rest st') \<and> fst (content (bd_rest st')) = []"
        using less.prems rest that
        by (cases "bd_rest st" rule: plain.cases;
            auto simp: poll_rest_def Let_def record_bytes_def bd_is_capped_def)+
    qed
    then show ?thesis
      by (subst (1 2) drain.simps) (simp add: polls split: poll.split option.split sum.split)
  qed
qed

lemma replay_no_data:
  assumes "content_inv body st" "\<not> bd_is_capped st" "fst (content body) = []"
  shows "data_of (fst (drain eager st)) = fst (content body) \<and>
    trailers_of (fst (drain eager st)) = snd (content body) \<and> snd (drain eager st) = None"
proof -
  have "concat (bd_replay st) = []" "\<not> bd_is_completed st \<longrightarrow> plain (bd_rest st) \<and> fst (content (bd_rest st)) = []"
    using assms by (cases "bd_is_completed st"; simp add: content_inv_def)+
  then have d: "drain eager st = drain \<lparr> rf_replay_body = False, rf_replay_trailers = True \<rparr> st"
    unfolding eager_def by (rule drain_no_data [OF assms(2)])
  show ?thesis
  proof (cases "bd_is_completed st")
    case True
    then show ?thesis using assms drain_completed [OF True]
      by (auto simp: d drain_trailers [OF refl] content_inv_def split: option.splits)
  next
    case False
    then show ?thesis using assms drain_rest [of st]
      by (auto simp: d drain_trailers [OF refl] content_inv_def)
  qed
qed

text \<open>Reading a body through the public interface: polling it some times, and to its end.\<close>

fun poll_times ::
  "nat \<Rightarrow> ('h, 'e) replay_body \<times> ('h, 'e) replay_shared \<Rightarrow> (('h, 'e) replay_body \<times> ('h, 'e) replay_shared) outcome" where
  "poll_times 0 x = Returns x"
| "poll_times (Suc n) (rb, sh) = bind_outcome (replay_poll_frame rb sh) (\<lambda>(r, rb', sh'). poll_times n (rb', sh'))"

definition read_to_end ::
  "('h, 'e) replay_body \<Rightarrow> ('h, 'e) replay_shared \<Rightarrow> (('h, 'e) out_frame list \<times> 'e replay_error option) outcome" where
  "read_to_end rb sh = bind_outcome (acquire_state rb sh) (\<lambda>(st, sh). Returns (drain (rb_flags rb) st))"

lemma poll_times_reach:
  assumes "rb_state rb = Some st" "body_reach body m st"
  shows "\<exists>rb' st'. poll_times n (rb, sh) = Returns (rb', sh) \<and> rb_state rb' = Some st' \<and> body_reach body m st'"
  using assms
proof (induction n arbitrary: rb st)
  case (Suc n)
  obtain r fl st' where p: "poll_held (rb_flags rb) st = (r, fl, st')" by (cases "poll_held (rb_flags rb) st")
  have "body_reach body m st'" using Suc.prems(2) p by (rule Body_poll)
  from Suc.IH [of "\<lparr> rb_state = Some st', rb_flags = fl \<rparr>", OF _ this] show ?case
    using Suc.prems(1) p by (simp add: replay_poll_frame_def acquire_state_def)
qed simp

lemma read_clone:
  "rb_state rb = Some st \<Longrightarrow> read_to_end (replay_clone rb') (replay_drop rb sh) = Returns (drain eager st)"
  by (simp add: read_to_end_def replay_clone_def replay_drop_def acquire_state_def eager_def)

lemma try_new_reach:
  assumes "replay_try_new api body m = Ok (rb, sh)"
  shows "\<exists>st. rb_state rb = Some st \<and> body_reach body m st \<and> st = body_state_new body m"
  using assms Body_new [of body m] by (auto simp: replay_try_new_def body_state_new_def split: if_splits)

text \<open>C14: After a request's body was polled any number of times and dropped, a clone of it delivers
  the whole body again, all bytes and the trailers, provided that at least one byte had been read and
  that the bytes read so far are within the limit of the buffer.\<close>

theorem replay_delivers_body:
  assumes "replay_try_new api body m = Ok (rb, sh)" "plain body"
    and "poll_times n (rb, sh) = Returns (rb', sh')"
    and "rb_state rb' = Some st" "\<not> bd_is_capped st" "replay_has_remaining (bd_replay st)"
  shows "\<exists>fs. read_to_end (replay_clone rb) (replay_drop rb' sh') = Returns (fs, None) \<and>
    data_of fs = fst (content body) \<and> trailers_of fs = snd (content body)"
proof -
  have "body_reach body m st"
    using try_new_reach [OF assms(1)] poll_times_reach [of rb _ body m n sh] assms(3,4) by fastforce
  then have "content_inv body st" using assms(2) by (rule reach_content)
  from replay_complete [OF this assms(5,6)] show ?thesis
    by (cases "drain eager st") (simp add: read_clone [OF assms(4)])
qed

definition quiet_api :: "('h, 'e) body_api" where
  "quiet_api = \<lparr> body_is_end_stream = (\<lambda>b. b = []), body_size_lower = (\<lambda>_. 0), body_size_upper = (\<lambda>_. None) \<rparr>"

definition sample_body :: "(string, unit) body" where
  "sample_body = [Body_Frame (Frame_Data ''ab''), Body_Pending, Body_Frame (Frame_Data ''c''),
     Body_Frame (Frame_Trailers ''t'')]"

theorem replay_delivers_body_witness:
  "\<exists>rb sh rb' sh' fs. replay_try_new quiet_api sample_body 10 = Ok (rb, sh) \<and>
    poll_times (Suc (Suc 0)) (rb, sh) = Returns (rb', sh') \<and>
    read_to_end (replay_clone rb) (replay_drop rb' sh') = Returns (fs, None) \<and>
    data_of fs = ''abc'' \<and> trailers_of fs = [''t'']"
proof -
  let ?new = "replay_try_new quiet_api sample_body 10"
  have new: "\<exists>rb sh. ?new = Ok (rb, sh)" by (simp add: replay_try_new_def quiet_api_def)
  then obtain rb sh where rb: "?new = Ok (rb, sh)" by blast
  have st: "rb_state rb = Some (body_state_new sample_body 10)" "rb_flags rb = quiet"
    using rb by (auto simp: replay_try_new_def quiet_api_def body_state_new_def quiet_def)
  have p: "poll_times (Suc (Suc 0)) (rb, sh) = Returns (\<lparr> rb_state = Some \<lparr> bd_replay = [''ab''], bd_trailers = None,
        bd_rest = [Body_Frame (Frame_Data ''c''), Body_Frame (Frame_Trailers ''t'')],
        bd_is_completed = False, bd_max_bytes = 9 \<rparr>, rb_flags = quiet \<rparr>, sh)"
    using st by (simp add: replay_poll_frame_def acquire_state_def poll_held_def poll_rest_def
        body_state_new_def sample_body_def record_bytes_def bd_is_capped_def Let_def)
  have "plain sample_body" by (simp add: sample_body_def)
  from replay_delivers_body [OF rb this p] rb p show ?thesis
    by (auto simp: bd_is_capped_def replay_has_remaining_def replay_remaining_def sample_body_def)
qed

section \<open>A clone that reads before anything was buffered\<close>

lemma drain_unread:
  assumes "bd_rest st = Body_Frame (Frame_Data d) # b" "bd_replay st = []" "bd_trailers st = None"
    and "\<not> bd_is_completed st" "d \<noteq> []" "length d < bd_max_bytes st" "plain b"
  shows "data_of (fst (drain eager st)) = d @ d @ fst (content b) \<and> snd (drain eager st) = None"
proof -
  let ?st = "st\<lparr> bd_rest := b, bd_max_bytes := bd_max_bytes st - length d, bd_replay := [d] \<rparr>"
  let ?fl = "\<lparr> rf_replay_body = True, rf_replay_trailers = False \<rparr>"
  have "drain eager st = (case drain ?fl ?st of (fs, e) \<Rightarrow> (Out_Initial d # fs, e))"
    using assms by (subst drain.simps)
      (simp add: poll_held_def poll_rest_def eager_def replay_has_remaining_def replay_remaining_def
        bd_is_capped_def record_bytes_def Let_def)
  moreover have "drain ?fl ?st = (case drain quiet ?st of (fs, e) \<Rightarrow> (Out_Replay [d] # fs, e))"
    using assms by (subst drain.simps)
      (simp add: poll_held_def replay_has_remaining_def replay_remaining_def quiet_def)
  moreover have "data_of (fst (drain quiet ?st)) = fst (content b)" "snd (drain quiet ?st) = None"
    using drain_rest [of ?st] assms(4,7) by simp_all
  ultimately show ?thesis by (cases "drain quiet ?st") simp
qed

text \<open>C33: If the first attempt is dropped before its body was polled (the connection failed, say), the
  clone that is sent instead delivers the first chunk twice: the flag that asks for a replay stays set
  while the chunk is recorded, and the next poll replays it.\<close>

theorem unread_body_repeats_first_chunk:
  assumes "replay_try_new api (Body_Frame (Frame_Data d) # b) m = Ok (rb, sh)"
    and "d \<noteq> []" "length d \<le> m" "m + 1 < 2 ^ 64" "plain b"
  shows "\<exists>fs. read_to_end (replay_clone rb) (replay_drop rb sh) = Returns (fs, None) \<and>
    data_of fs = d @ d @ fst (content b)"
proof -
  let ?st = "body_state_new (Body_Frame (Frame_Data d) # b) m"
  have rb: "rb_state rb = Some ?st" using try_new_reach [OF assms(1)] by blast
  have "length d < bd_max_bytes ?st"
    using assms(3,4) by (simp add: body_state_new_def)
  then have "data_of (fst (drain eager ?st)) = d @ d @ fst (content b) \<and> snd (drain eager ?st) = None"
    using assms(2,5) by (intro drain_unread) (simp_all add: body_state_new_def)
  then show ?thesis by (cases "drain eager ?st") (simp add: read_clone [OF rb])
qed

theorem unread_body_repeats_first_chunk_witness:
  "\<exists>rb sh fs. replay_try_new quiet_api sample_body 10 = Ok (rb, sh) \<and>
    read_to_end (replay_clone rb) (replay_drop rb sh) = Returns (fs, None) \<and> data_of fs = ''ababc''"
proof -
  have "\<exists>rb sh. replay_try_new quiet_api sample_body 10 = Ok (rb, sh)"
    by (simp add: replay_try_new_def quiet_api_def)
  then obtain rb sh where rb: "replay_try_new quiet_api sample_body 10 = Ok (rb, sh)" by blast
  from unread_body_repeats_first_chunk [OF rb [unfolded sample_body_def]] rb show ?thesis by fastforce
qed

section \<open>The limit\<close>



end
