(* ===== verification/Http_Retry.thy ===== *)
theory Http_Retry
  imports Replay_Body Http_Types Exp_Backoff
begin

text \<open>
  Retries of HTTP requests: the response body whose trailers can be looked at before it is
  delivered (\<open>linkerd/http/retry/src/peek_trailers.rs\<close>) and the loop that sends a request
  and its backups (\<open>linkerd/http/retry/src/lib.rs\<close>). The service that requests are sent to and
  the retry policy are parameters; the service may poll the body it is given any number of times
  and may still hold it when it returns, so what it returns includes the state of the body that
  clones share. Waiting for the backoff before an attempt does not change what is sent: the loop
  has the point where it waits and no clock.
\<close>

section \<open>Peeking at trailers\<close>

datatype ('h, 'e) peek_body =
    Peek_Empty
  | Peek_Unary "(string, 'e) result option" "('h, 'e) result option"
  | Peek_Buffered "(string, 'e) result option" "(string, 'e) result option" "('h, 'e) body"
  | Peek_Passthru "('h, 'e) body"

definition peek_trailers :: "('h, 'e) peek_body \<Rightarrow> 'h option" where
  "peek_trailers b = (case b of Peek_Unary _ (Some (Inr t)) \<Rightarrow> Some t | _ \<Rightarrow> None)"

text \<open>Waiting for a frame polls the body until it is ready; \<open>now_or_never\<close> polls it once.\<close>

fun await_frame :: "('h, 'e) body \<Rightarrow> ('h frame, 'e) result option \<times> ('h, 'e) body" where
  "await_frame (Body_Pending # b) = await_frame b"
| "await_frame b = (case body_poll b of (Ready r, b') \<Rightarrow> (r, b') | (Pending, b') \<Rightarrow> (None, b'))"

definition read_body :: "('h, 'e) body \<Rightarrow> ('h, 'e) peek_body" where
  "read_body body = (case await_frame body of
     (None, body) \<Rightarrow> Peek_Empty
   | (Some (Inl e), body) \<Rightarrow> Peek_Unary (Some (Inl e)) None
   | (Some (Inr (Frame_Trailers t)), body) \<Rightarrow> Peek_Unary None (Some (Inr t))
   | (Some (Inr Frame_Unknown), body) \<Rightarrow> Peek_Buffered None None body
   | (Some (Inr (Frame_Data first)), body) \<Rightarrow>
       (case body_poll body of
          (Pending, body) \<Rightarrow> Peek_Buffered (Some (Inr first)) None body
        | (Ready None, body) \<Rightarrow> Peek_Unary (Some (Inr first)) None
        | (Ready (Some (Inl e)), body) \<Rightarrow> Peek_Unary (Some (Inr first)) (Some (Inl e))
        | (Ready (Some (Inr (Frame_Data second))), body) \<Rightarrow>
            Peek_Buffered (Some (Inr first)) (Some (Inr second)) body
        | (Ready (Some (Inr (Frame_Trailers t))), body) \<Rightarrow> Peek_Unary (Some (Inr first)) (Some (Inr t))
        | (Ready (Some (Inr Frame_Unknown)), body) \<Rightarrow> Peek_Buffered (Some (Inr first)) None body))"

datatype http_version = HTTP_09 | HTTP_10 | HTTP_11 | HTTP_2 | HTTP_3

definition peek_map_response :: "http_version \<Rightarrow> bool \<Rightarrow> ('h, 'e) body \<Rightarrow> ('h, 'e) peek_body" where
  "peek_map_response version is_end_stream body =
    (if version \<in> {HTTP_09, HTTP_10, HTTP_11} then Peek_Passthru body
     else if is_end_stream then Peek_Empty
     else read_body body)"

fun peek_poll_frame :: "('h, 'e) peek_body \<Rightarrow> ('h frame, 'e) result option poll \<times> ('h, 'e) peek_body" where
  "peek_poll_frame Peek_Empty = (Ready None, Peek_Empty)"
| "peek_poll_frame (Peek_Passthru b) = (case body_poll b of (r, b') \<Rightarrow> (r, Peek_Passthru b'))"
| "peek_poll_frame (Peek_Unary (Some d) t) =
    (Ready (Some (case d of Inl e \<Rightarrow> Inl e | Inr x \<Rightarrow> Inr (Frame_Data x))), Peek_Unary None t)"
| "peek_poll_frame (Peek_Unary None (Some t)) =
    (Ready (Some (case t of Inl e \<Rightarrow> Inl e | Inr x \<Rightarrow> Inr (Frame_Trailers x))), Peek_Unary None None)"
| "peek_poll_frame (Peek_Unary None None) = (Ready None, Peek_Unary None None)"
| "peek_poll_frame (Peek_Buffered (Some d) s b) =
    (Ready (Some (case d of Inl e \<Rightarrow> Inl e | Inr x \<Rightarrow> Inr (Frame_Data x))), Peek_Buffered None s b)"
| "peek_poll_frame (Peek_Buffered None (Some d) b) =
    (Ready (Some (case d of Inl e \<Rightarrow> Inl e | Inr x \<Rightarrow> Inr (Frame_Data x))), Peek_Buffered None None b)"
| "peek_poll_frame (Peek_Buffered None None b) = (case body_poll b of (r, b') \<Rightarrow> (r, Peek_Buffered None None b'))"

fun peek_is_end_stream :: "('h, 'e) body_api \<Rightarrow> ('h, 'e) peek_body \<Rightarrow> bool" where
  "peek_is_end_stream api Peek_Empty = True"
| "peek_is_end_stream api (Peek_Passthru b) = body_is_end_stream api b"
| "peek_is_end_stream api (Peek_Unary d t) = (d = None \<and> t = None)"
| "peek_is_end_stream api (Peek_Buffered f s b) = (f = None \<and> s = None \<and> body_is_end_stream api b)"

fun opt_len :: "(string, 'e) result option \<Rightarrow> nat" where
  "opt_len (Some (Inr d)) = length d"
| "opt_len _ = 0"

fun peek_size_hint :: "('h, 'e) body_api \<Rightarrow> ('h, 'e) peek_body \<Rightarrow> nat \<times> nat option" where
  "peek_size_hint api Peek_Empty = (0, None)"
| "peek_size_hint api (Peek_Passthru b) = (body_size_lower api b, body_size_upper api b)"
| "peek_size_hint api (Peek_Unary (Some (Inr d)) t) = (length d, Some (length d))"
| "peek_size_hint api (Peek_Unary d t) = (0, None)"
| "peek_size_hint api (Peek_Buffered f s b) =
    (body_size_lower api b + opt_len f + opt_len s,
     map_option (\<lambda>u. u + opt_len f + opt_len s) (body_size_upper api b))"

text \<open>A reader polls a body until it ends, fails or delivers its trailers.\<close>

fun stops :: "('h frame, 'e) result \<Rightarrow> bool" where
  "stops (Inr (Frame_Data _)) = False"
| "stops (Inr Frame_Unknown) = False"
| "stops _ = True"

fun peek_rest :: "('h, 'e) peek_body \<Rightarrow> nat" where
  "peek_rest Peek_Empty = 0"
| "peek_rest (Peek_Passthru b) = length b"
| "peek_rest (Peek_Unary d t) = (if d = None then 0 else 1) + (if t = None then 0 else 1)"
| "peek_rest (Peek_Buffered f s b) = (if f = None then 0 else 1) + (if s = None then 0 else 1) + length b"

lemma peek_poll_rest: "peek_poll_frame p = (r, p') \<Longrightarrow> r \<noteq> Ready None \<Longrightarrow> peek_rest p' < peek_rest p"
proof (induction p rule: peek_poll_frame.induct)
  case (2 b)
  then show ?case by (cases b rule: body_poll.cases) auto
next
  case (8 b)
  then show ?case by (cases b rule: body_poll.cases) auto
qed auto

function peek_read :: "('h, 'e) peek_body \<Rightarrow> ('h frame, 'e) result list" where
  "peek_read p = (case peek_poll_frame p of (r, p') \<Rightarrow> (case r of
     Pending \<Rightarrow> peek_read p'
   | Ready None \<Rightarrow> []
   | Ready (Some f) \<Rightarrow> f # (if stops f then [] else peek_read p')))"
  by pat_completeness auto

termination
  by (relation "measure peek_rest") (auto dest!: peek_poll_rest [OF sym])

declare peek_read.simps [simp del]

text \<open>What the body itself would have delivered to that reader.\<close>

fun delivered :: "('h, 'e) body \<Rightarrow> ('h frame, 'e) result list" where
  "delivered [] = []"
| "delivered (Body_Pending # b) = delivered b"
| "delivered (Body_Frame f # b) = Inr f # (if stops (Inr f :: ('h frame, 'e) result) then [] else delivered b)"
| "delivered (Body_Error e # b) = [Inl e]"

lemma read_passthru: "peek_read (Peek_Passthru b) = delivered b"
  by (induction b rule: delivered.induct) (subst peek_read.simps, simp)+

lemma read_buffered: "peek_read (Peek_Buffered None None b) = delivered b"
  by (induction b rule: delivered.induct) (subst peek_read.simps, simp)+

lemma read_unary: "peek_read (Peek_Unary None None) = []"
  by (subst peek_read.simps) simp

lemma read_one:
  "peek_read (Peek_Buffered (Some (Inr d)) s b) = Inr (Frame_Data d) # peek_read (Peek_Buffered None s b)"
  "peek_read (Peek_Buffered None (Some (Inr d)) b) = Inr (Frame_Data d) # peek_read (Peek_Buffered None None b)"
  "peek_read (Peek_Unary (Some (Inr d)) t) = Inr (Frame_Data d) # peek_read (Peek_Unary None t)"
  "peek_read (Peek_Unary (Some (Inl e)) t) = [Inl e]"
  "peek_read (Peek_Unary None (Some (Inr h))) = [Inr (Frame_Trailers h)]"
  "peek_read (Peek_Unary None (Some (Inl e))) = [Inl e]"
  by (subst peek_read.simps, simp)+

lemma read_empty: "peek_read Peek_Empty = []"
  by (subst peek_read.simps) simp

lemmas read_simps = read_passthru read_buffered read_unary read_one read_empty

definition known_frames :: "('h, 'e) body \<Rightarrow> bool" where
  "known_frames b \<longleftrightarrow> Body_Frame Frame_Unknown \<notin> set b"

lemma read_body_delivers:
  "known_frames b \<Longrightarrow> peek_read (read_body b) = delivered b"
proof (induction b)
  case Nil
  then show ?case by (simp add: read_body_def read_simps)
next
  case (Cons e b)
  then show ?case
  proof (cases e)
    case Body_Pending
    then show ?thesis using Cons by (simp add: read_body_def known_frames_def)
  next
    case (Body_Frame f)
    then show ?thesis
      using Cons.prems by (cases f; cases b rule: body_poll.cases)
        (auto simp: read_body_def read_simps known_frames_def split: frame.splits)
  next
    case (Body_Error x)
    then show ?thesis by (simp add: read_body_def read_simps)
  qed
qed

text \<open>C34: Peeking changes nothing for whoever reads the response: for every HTTP version and every
  interleaving of pending polls, data, trailers and errors, the peeked body delivers exactly what the
  body would have delivered; an empty answer is given only when the body says it has ended.\<close>

theorem peek_delivers_body:
  assumes "known_frames b" "is_end_stream \<Longrightarrow> delivered b = []"
  shows "peek_read (peek_map_response version is_end_stream b) = delivered b"
  using read_body_delivers [OF assms(1)] assms(2) by (simp add: peek_map_response_def read_simps)

theorem peek_delivers_body_witness:
  "peek_read (peek_map_response HTTP_2 False
     [Body_Pending, Body_Frame (Frame_Data ''a''), Body_Frame (Frame_Data ''b''), Body_Pending, Body_Frame (Frame_Trailers ''t'')])
   = ([Inr (Frame_Data ''a''), Inr (Frame_Data ''b''), Inr (Frame_Trailers ''t'')] :: (string frame, unit) result list)"
  by (subst peek_delivers_body) (simp_all add: known_frames_def)

section \<open>Sending a request and its backups\<close>

record ('h, 'x) req_head =
  rh_method :: string
  rh_uri :: uri
  rh_version :: http_version
  rh_headers :: 'h
  rh_extensions :: 'x

record ('h, 'b) http_response =
  hr_status :: nat
  hr_version :: http_version
  hr_headers :: 'h
  hr_end_stream :: bool
  hr_body :: 'b

type_synonym ('h, 'e, 'err) rsp_result = "(('h, ('h, 'e) body) http_response, 'err) result"

type_synonym ('h, 'e, 'err) peek_result = "(('h, ('h, 'e) peek_body) http_response, 'err) result"

record retry_params =
  max_retries :: nat
  max_request_bytes :: nat
  retry_backoff :: "exponential_backoff option"

record ('h, 'x, 'e, 'err) retry_policy =
  pol_params :: retry_params
  is_retryable :: "('h, 'e, 'err) peek_result \<Rightarrow> bool"
  set_headers :: "'h \<Rightarrow> 'h \<Rightarrow> 'h"
  set_extensions :: "'x \<Rightarrow> 'x \<Rightarrow> 'x"

text \<open>The policy's default methods.\<close>

definition set_headers_default :: "'h \<Rightarrow> 'h \<Rightarrow> 'h" where
  "set_headers_default dst orig = orig"

definition set_extensions_default :: "'x \<Rightarrow> 'x \<Rightarrow> 'x" where
  "set_extensions_default dst orig = dst"

record retry_metrics =
  m_requests :: nat
  m_successes :: nat
  m_limit_exceeded :: nat
  m_overflow :: nat

text \<open>The inner service: its readiness, and a call with a plain body or with a body that can be
  replayed, where the call also returns the state that the clones of the body then share.\<close>

record ('h, 'x, 'e, 'err, 's) retry_svc =
  svc_ready :: "'s \<Rightarrow> (unit, 'err) result poll \<times> 's"
  svc_call_body :: "'s \<Rightarrow> ('h, 'x) req_head \<Rightarrow> ('h, 'e) body \<Rightarrow> ('h, 'e, 'err) rsp_result \<times> 's"
  svc_call :: "'s \<Rightarrow> ('h, 'x) req_head \<Rightarrow> ('h, 'e) replay_body \<Rightarrow> ('h, 'e) replay_shared
    \<Rightarrow> ('h, 'e, 'err) rsp_result \<times> ('h, 'e) replay_shared \<times> 's"

definition send_req ::
  "('h, 'x, 'e, 'err, 's) retry_svc \<Rightarrow> 's \<Rightarrow> ('h, 'x) req_head \<Rightarrow> ('h, 'e) replay_body \<Rightarrow> ('h, 'e) replay_shared
    \<Rightarrow> ('h, 'e, 'err) peek_result \<times> ('h, 'e) replay_shared \<times> 's" where
  "send_req svc s req body sh = (case svc_call svc s req body sh of
     (Inl e, sh, s) \<Rightarrow> (Inl e, sh, s)
   | (Inr rsp, sh, s) \<Rightarrow>
       (Inr \<lparr> hr_status = hr_status rsp, hr_version = hr_version rsp, hr_headers = hr_headers rsp,
              hr_end_stream = hr_end_stream rsp,
              hr_body = peek_map_response (hr_version rsp) (hr_end_stream rsp) (hr_body rsp) \<rparr>, sh, s))"

text \<open>A new request has no headers and no extensions; the policy fills them in.\<close>

definition mk_backup ::
  "'h \<Rightarrow> 'x \<Rightarrow> ('h, 'x, 'e, 'err) retry_policy \<Rightarrow> ('h, 'x) req_head \<Rightarrow> ('h, 'x) req_head" where
  "mk_backup no_headers no_extensions policy orig =
    \<lparr> rh_method = rh_method orig, rh_uri = rh_uri orig, rh_version = rh_version orig,
      rh_headers = set_headers policy no_headers (rh_headers orig),
      rh_extensions = set_extensions policy no_extensions (rh_extensions orig) \<rparr>"

definition cannot_replay :: "('h, 'e) replay_body \<Rightarrow> ('h, 'e) replay_shared \<Rightarrow> bool" where
  "cannot_replay body sh \<longleftrightarrow> replay_is_capped body sh \<in> {None, Some True}"

text \<open>The loop over \<open>1..=max_retries\<close>, by the number of attempts left.\<close>

fun retry_loop ::
  "('h, 'x, 'e, 'err, 's) retry_svc \<Rightarrow> 'h \<Rightarrow> 'x \<Rightarrow> ('h, 'x, 'e, 'err) retry_policy \<Rightarrow> nat
    \<Rightarrow> ('h, 'x) req_head \<Rightarrow> ('h, 'e) replay_body \<Rightarrow> ('h, 'e) replay_shared \<Rightarrow> ('h, 'e, 'err) peek_result
    \<Rightarrow> retry_metrics \<Rightarrow> 's \<Rightarrow> ('h, 'e, 'err) peek_result \<times> retry_metrics \<times> 's" where
  "retry_loop svc nh nx policy 0 backup body sh result m s =
     (result, m\<lparr> m_limit_exceeded := m_limit_exceeded m + 1 \<rparr>, s)"
| "retry_loop svc nh nx policy (Suc n) backup body sh result m s =
     (case svc_ready svc s of
        (Ready (Inl e), s) \<Rightarrow> (Inl e, m, s)
      | (Pending, s) \<Rightarrow> (result, m\<lparr> m_overflow := m_overflow m + 1 \<rparr>, s)
      | (Ready (Inr _), s) \<Rightarrow>
          (let request = backup; backup' = mk_backup nh nx policy request; body' = replay_clone body;
               m = m\<lparr> m_requests := m_requests m + 1 \<rparr> in
           case send_req svc s request body sh of (result, sh, s) \<Rightarrow>
             if \<not> is_retryable policy result
             then (result, if \<not> isl result then m\<lparr> m_successes := m_successes m + 1 \<rparr> else m, s)
             else if cannot_replay body' sh then (result, m, s)
             else retry_loop svc nh nx policy n backup' body' sh result m s))"

definition send_req_with_retries ::
  "('h, 'x, 'e, 'err, 's) retry_svc \<Rightarrow> 'h \<Rightarrow> 'x \<Rightarrow> ('h, 'x, 'e, 'err) retry_policy \<Rightarrow> retry_metrics \<Rightarrow> 's
    \<Rightarrow> ('h, 'x) req_head \<Rightarrow> ('h, 'e) replay_body \<Rightarrow> ('h, 'e) replay_shared
    \<Rightarrow> ('h, 'e, 'err) peek_result \<times> retry_metrics \<times> 's" where
  "send_req_with_retries svc nh nx policy m s request body sh =
    (let backup = mk_backup nh nx policy request; body' = replay_clone body in
     case send_req svc s request body sh of (result, sh, s) \<Rightarrow>
       if \<not> is_retryable policy result then (result, m, s)
       else if cannot_replay body' sh then (result, m, s)
       else retry_loop svc nh nx policy (max_retries (pol_params policy)) backup body' sh result m s)"

text \<open>The middleware: no policy among the extensions, or a body that is too large, and the
  request is sent as it is.\<close>

datatype ('h, 'e, 'err) retry_answer =
    Sent_Once "('h, 'e, 'err) rsp_result"
  | Sent_Retrying "('h, 'e, 'err) peek_result"

definition http_retry_call ::
  "('h, 'e) body_api \<Rightarrow> ('h, 'x, 'e, 'err, 's) retry_svc \<Rightarrow> 'h \<Rightarrow> 'x
    \<Rightarrow> ('x \<Rightarrow> ('h, 'x, 'e, 'err) retry_policy option \<times> 'x) \<Rightarrow> (('h, 'x) req_head \<Rightarrow> 'l)
    \<Rightarrow> ('l \<Rightarrow> retry_metrics) \<Rightarrow> 's \<Rightarrow> ('h, 'x) req_head \<Rightarrow> ('h, 'e) body
    \<Rightarrow> ('h, 'e, 'err) retry_answer \<times> ('l \<Rightarrow> retry_metrics) \<times> 's" where
  "http_retry_call api svc nh nx remove_policy extract metrics s req body =
    (case remove_policy (rh_extensions req) of (policy, exts) \<Rightarrow>
     let req = req\<lparr> rh_extensions := exts \<rparr> in
     case policy of
       None \<Rightarrow> (case svc_call_body svc s req body of (r, s) \<Rightarrow> (Sent_Once r, metrics, s))
     | Some policy \<Rightarrow>
         (let labels = extract req in
          case replay_try_new api body (max_request_bytes (pol_params policy)) of
            Inl body \<Rightarrow> (case svc_call_body svc s req body of (r, s) \<Rightarrow> (Sent_Once r, metrics, s))
          | Inr (rb, sh) \<Rightarrow>
              (case send_req_with_retries svc nh nx policy (metrics labels) s req rb sh of
                 (r, m, s) \<Rightarrow> (Sent_Retrying r, metrics(labels := m), s))))"

section \<open>What is sent\<close>

text \<open>The same service with a log of what it was sent.\<close>

type_synonym ('h, 'x, 'e) sent = "('h, 'x) req_head \<times> ('h, 'e) replay_body \<times> ('h, 'e) replay_shared"

definition logged ::
  "('h, 'x, 'e, 'err, 's) retry_svc \<Rightarrow> ('h, 'x, 'e, 'err, 's \<times> ('h, 'x, 'e) sent list) retry_svc" where
  "logged svc = \<lparr>
     svc_ready = (\<lambda>(s, lg). case svc_ready svc s of (r, s) \<Rightarrow> (r, s, lg)),
     svc_call_body = (\<lambda>(s, lg) req body. case svc_call_body svc s req body of (r, s) \<Rightarrow> (r, s, lg)),
     svc_call = (\<lambda>(s, lg) req body sh. case svc_call svc s req body sh of
        (r, sh', s) \<Rightarrow> (r, sh', s, lg @ [(req, body, sh)])) \<rparr>"

lemma send_logged:
  "send_req (logged svc) (s, lg) req body sh = (r, sh', t) \<Longrightarrow>
     \<exists>s'. t = (s', lg @ [(req, body, sh)]) \<and> (\<exists>r0. svc_call svc s req body sh = (r0, sh', s'))"
  by (cases "svc_call svc s req body sh") (auto simp: send_req_def logged_def split: sum.splits)

text \<open>The bodies that the loop may send: a fresh clone whose state is shared, not over the limit.\<close>

definition replayable :: "('h, 'e) replay_body \<Rightarrow> ('h, 'e) replay_shared \<Rightarrow> bool" where
  "replayable body sh \<longleftrightarrow> body = replay_clone body \<and> \<not> cannot_replay body sh"

lemma clone_clone [simp]: "replay_clone (replay_clone b) = replay_clone b"
  by (simp add: replay_clone_def)

lemma replayable_clone [simp]: "replayable (replay_clone b) sh \<longleftrightarrow> \<not> cannot_replay (replay_clone b) sh"
  by (simp add: replayable_def)

text \<open>What holds of every attempt holds of all that the loop sends: \<open>P\<close> is what a service keeps
  of the shared state.\<close>

definition keeps ::
  "('h, 'x, 'e, 'err, 's) retry_svc \<Rightarrow> (('h, 'e) replay_body \<Rightarrow> ('h, 'e) replay_shared \<Rightarrow> bool) \<Rightarrow> bool" where
  "keeps svc P \<longleftrightarrow> (\<forall>s req body sh r sh' s'. P body sh \<longrightarrow> svc_call svc s req body sh = (r, sh', s') \<longrightarrow>
     P (replay_clone body) sh')"

lemma keepsD: "keeps svc P \<Longrightarrow> P body sh \<Longrightarrow> svc_call svc s req body sh = (r, sh', s') \<Longrightarrow> P (replay_clone body) sh'"
  unfolding keeps_def by blast

lemma iterates_Cons:
  "map (\<lambda>i. (f ^^ i) x) [0..<Suc n] = x # map (\<lambda>i. (f ^^ i) (f x)) [0..<n]"
  by (simp add: upt_conv_Cons map_Suc_upt [symmetric] funpow_swap1 del: upt_Suc)

lemma retry_loop_unready:
  assumes "svc_ready svc s = (rd, s1)" "\<And>u. rd \<noteq> Ready (Inr u)"
    and "retry_loop (logged svc) nh nx policy (Suc n) backup body sh result m (s, lg) = (r, m', s', lg')"
  shows "lg' = lg" "m_requests m' = m_requests m"
  using assms by (cases rd; auto simp: logged_def split: sum.splits)+

text \<open>An attempt ends the loop, or the loop goes on with the next backup.\<close>

lemma retry_loop_attempt:
  assumes "svc_ready svc s = (Ready (Inr u), s1)"
    and "retry_loop (logged svc) nh nx policy (Suc n) backup body sh result m (s, lg) = (r, m', s', lg')"
  obtains
    (last) "lg' = lg @ [(backup, body, sh)]" "m_requests m' = m_requests m + 1"
  | (more) r0 r1 sh1 s2 where "svc_call svc s1 backup body sh = (r0, sh1, s2)" "\<not> cannot_replay (replay_clone body) sh1"
      "retry_loop (logged svc) nh nx policy n (mk_backup nh nx policy backup) (replay_clone body) sh1 r1
         (m\<lparr> m_requests := m_requests m + 1 \<rparr>) (s2, lg @ [(backup, body, sh)]) = (r, m', s', lg')"
proof -
  obtain r1 sh1 t where snd_req: "send_req (logged svc) (s1, lg) backup body sh = (r1, sh1, t)"
    by (cases "send_req (logged svc) (s1, lg) backup body sh")
  from send_logged [OF snd_req] obtain s2 r0 where
    t: "t = (s2, lg @ [(backup, body, sh)])" and call: "svc_call svc s1 backup body sh = (r0, sh1, s2)" by blast
  have rdl: "svc_ready (logged svc) (s, lg) = (Ready (Inr u), s1, lg)" using assms(1) by (simp add: logged_def)
  show thesis
    using assms(2) last more [OF call] by (simp add: rdl snd_req t Let_def split: if_splits) auto
qed

lemma retry_loop_log:
  assumes "retry_loop (logged svc) nh nx policy n backup body sh result m (s, lg) = (r, m', s', lg')"
    and "keeps svc P" "replayable body sh" "P body sh"
  shows "\<exists>new. lg' = lg @ new \<and> length new \<le> n \<and> m_requests m' = m_requests m + length new \<and>
    map fst new = map (\<lambda>i. (mk_backup nh nx policy ^^ i) backup) [0..<length new] \<and>
    (\<forall>(h, b, sh) \<in> set new. replayable b sh \<and> P b sh)"
  using assms
proof (induction n arbitrary: backup body sh result m s lg)
  case 0
  then show ?case by auto
next
  case (Suc n)
  obtain rd s1 where rd: "svc_ready svc s = (rd, s1)" by (cases "svc_ready svc s")
  show ?case
  proof (cases "\<exists>u. rd = Ready (Inr u)")
    case False
    then show ?thesis using retry_loop_unready [OF rd _ Suc.prems(1)] by auto
  next
    case True
    then obtain u where ready: "svc_ready svc s = (Ready (Inr u), s1)" using rd by auto
    from ready Suc.prems(1) show ?thesis
    proof (cases rule: retry_loop_attempt)
      case last
      then show ?thesis using Suc.prems(3,4) by simp
    next
      case (more r0 r1 sh1 s2)
      have "P (replay_clone body) sh1" by (rule keepsD [OF Suc.prems(2,4) more(1)])
      from Suc.IH [OF more(3) Suc.prems(2) _ this] more(2) obtain new where
        new: "lg' = lg @ (backup, body, sh) # new" "length new \<le> n" "m_requests m' = m_requests m + 1 + length new"
          "map fst new = map (\<lambda>i. (mk_backup nh nx policy ^^ i) (mk_backup nh nx policy backup)) [0..<length new]"
          "\<forall>(h, b, sh) \<in> set new. replayable b sh \<and> P b sh" by auto
      then show ?thesis using Suc.prems(3,4) iterates_Cons [of "mk_backup nh nx policy" backup "length new"]
        by (intro exI [of _ "(backup, body, sh) # new"]) (auto simp del: upt_Suc)
    qed
  qed
qed

lemma send_log:
  assumes "send_req_with_retries (logged svc) nh nx policy m (s, []) req rb sh = (r, m', s', lg)"
    and "keeps svc P" "P rb sh"
  shows "\<exists>new. lg = (req, rb, sh) # new \<and> length new \<le> max_retries (pol_params policy) \<and>
    m_requests m' = m_requests m + length new \<and>
    map fst lg = map (\<lambda>i. (mk_backup nh nx policy ^^ i) req) [0..<length lg] \<and>
    (\<forall>(h, b, sh) \<in> set new. replayable b sh \<and> P b sh)"
proof -
  obtain r1 sh1 t where snd_req: "send_req (logged svc) (s, []) req rb sh = (r1, sh1, t)"
    by (cases "send_req (logged svc) (s, []) req rb sh")
  from send_logged [OF snd_req] obtain s2 r0 where
    t: "t = (s2, [(req, rb, sh)])" and call: "svc_call svc s req rb sh = (r0, sh1, s2)" by auto
  have P1: "P (replay_clone rb) sh1" by (rule keepsD [OF assms(2,3) call])
  show ?thesis
  proof (cases "is_retryable policy r1 \<and> \<not> cannot_replay (replay_clone rb) sh1")
    case False
    then show ?thesis
      using assms(1) by (auto simp: send_req_with_retries_def snd_req t Let_def split: if_splits)
  next
    case True
    then have "retry_loop (logged svc) nh nx policy (max_retries (pol_params policy)) (mk_backup nh nx policy req)
        (replay_clone rb) sh1 r1 m (s2, [(req, rb, sh)]) = (r, m', s', lg)"
      using assms(1) by (simp add: send_req_with_retries_def snd_req t Let_def)
    from retry_loop_log [OF this assms(2) _ P1] True show ?thesis
      by (auto simp: iterates_Cons simp del: upt_Suc)
  qed
qed

lemma mk_backup_target [simp]:
  "rh_method ((mk_backup nh nx policy ^^ i) req) = rh_method req"
  "rh_uri ((mk_backup nh nx policy ^^ i) req) = rh_uri req"
  "rh_version ((mk_backup nh nx policy ^^ i) req) = rh_version req"
  by (induction i) (simp_all add: mk_backup_def)

text \<open>C17: Whatever the service answers, a request is sent at least once and at most
  \<open>max_retries\<close> times more, each extra attempt is counted, every attempt has the method, the URI
  and the version of the original, and no attempt after the first is sent with a body that is over
  its buffer limit or that an earlier attempt still holds.\<close>

theorem retries_bounded:
  "case send_req_with_retries (logged svc) nh nx policy m (s, []) req rb sh of (r, m', s', lg) \<Rightarrow>
     1 \<le> length lg \<and> length lg \<le> 1 + max_retries (pol_params policy) \<and>
     m_requests m' = m_requests m + (length lg - 1) \<and>
     list_all (\<lambda>(h, _, _). rh_method h = rh_method req \<and> rh_uri h = rh_uri req \<and> rh_version h = rh_version req) lg \<and>
     list_all (\<lambda>(_, b, sh). replay_is_capped b sh = Some False) (tl lg)"
proof -
  obtain r m' s' lg where e: "send_req_with_retries (logged svc) nh nx policy m (s, []) req rb sh = (r, m', s', lg)"
    by (cases "send_req_with_retries (logged svc) nh nx policy m (s, []) req rb sh")
  have "keeps svc (\<lambda>_ _. True)" by (simp add: keeps_def)
  from send_log [OF e this] obtain new where
    new: "lg = (req, rb, sh) # new" "length new \<le> max_retries (pol_params policy)" "m_requests m' = m_requests m + length new"
      "map fst lg = map (\<lambda>i. (mk_backup nh nx policy ^^ i) req) [0..<length lg]"
      "\<forall>(h, b, sh) \<in> set new. replayable b sh" by auto
  have "\<exists>i. h = (mk_backup nh nx policy ^^ i) req" if "(h, b, c) \<in> set lg" for h b c
    using arg_cong [OF new(4), of set] that by force
  then have "list_all (\<lambda>(h, _, _). rh_method h = rh_method req \<and> rh_uri h = rh_uri req \<and> rh_version h = rh_version req) lg"
    unfolding list_all_iff by fastforce
  moreover have "list_all (\<lambda>(_, b, sh). replay_is_capped b sh = Some False) (tl lg)"
    using new(1,5) by (auto simp: list_all_iff replayable_def cannot_replay_def)
  ultimately show ?thesis using new(1-3) e by simp
qed

text \<open>A service polls the body it is sent any number of times, and then drops it or still holds
  it when it answers.\<close>

definition polls_bodies :: "('h, 'x, 'e, 'err, 's) retry_svc \<Rightarrow> bool" where
  "polls_bodies svc \<longleftrightarrow> (\<forall>s req rb sh r sh' s'. svc_call svc s req rb sh = (r, sh', s') \<longrightarrow>
     (\<exists>n rb1 sh1. poll_times n (rb, sh) = Returns (rb1, sh1) \<and> (sh' = replay_drop rb1 sh1 \<or> sh' = sh1)))"

definition held_by :: "('h, 'e) body \<Rightarrow> nat \<Rightarrow> ('h, 'e) replay_body \<Rightarrow> ('h, 'e) replay_shared \<Rightarrow> bool" where
  "held_by body m rb sh \<longleftrightarrow>
     (\<forall>st. rb_state rb = Some st \<longrightarrow> body_reach body m st) \<and> (\<forall>st. rs_body sh = Some st \<longrightarrow> body_reach body m st)"

lemma replay_poll_held:
  assumes "held_by body m rb sh" "replay_poll_frame rb sh = Returns (r, rb', sh')"
  shows "held_by body m rb' sh'"
  using assms
  by (auto simp: held_by_def replay_poll_frame_def acquire_state_def expect_def split: option.splits prod.splits
        dest: Body_poll)

lemma poll_times_held:
  "poll_times n (rb, sh) = Returns (rb', sh') \<Longrightarrow> held_by body m rb sh \<Longrightarrow> held_by body m rb' sh'"
proof (induction n arbitrary: rb sh)
  case (Suc n)
  then obtain r rb1 sh1 where p: "replay_poll_frame rb sh = Returns (r, rb1, sh1)" "poll_times n (rb1, sh1) = Returns (rb', sh')"
    by (auto simp: bind_outcome_Returns_iff)
  from Suc.IH [OF p(2) replay_poll_held [OF Suc.prems(2) p(1)]] show ?case .
qed simp

lemma polls_keep: "polls_bodies svc \<Longrightarrow> keeps svc (held_by body m)"
  unfolding keeps_def polls_bodies_def
proof (intro allI impI, goal_cases)
  case (1 s req rb sh r sh' s')
  then obtain n rb1 sh1 where "poll_times n (rb, sh) = Returns (rb1, sh1)" and sh': "sh' = replay_drop rb1 sh1 \<or> sh' = sh1"
    by blast
  from poll_times_held [OF this(1) 1(2)] sh' show ?case
    by (auto simp: held_by_def replay_clone_def replay_drop_def split: option.splits)
qed

lemma replayable_delivers:
  assumes "replayable b sh" "held_by body m b sh" "plain body"
  obtains st where "rs_body sh = Some st" "\<not> bd_is_capped st"
    "replay_has_remaining (bd_replay st) \<or> fst (content body) = [] \<Longrightarrow> \<exists>fs. read_to_end b sh = Returns (fs, None) \<and>
       data_of fs = fst (content body) \<and> trailers_of fs = snd (content body)"
proof -
  have b: "b = replay_clone b" "\<not> cannot_replay b sh" using assms(1) by (simp_all add: replayable_def)
  have "rb_state b = None" by (subst b(1)) (simp add: replay_clone_def)
  with b(2) obtain st where st: "rs_body sh = Some st" "\<not> bd_is_capped st"
    by (auto simp: cannot_replay_def replay_is_capped_def)
  then have "body_reach body m st" using assms(2) by (simp add: held_by_def)
  then have inv: "content_inv body st" using assms(3) by (rule reach_content)
  have read: "read_to_end b sh = Returns (drain eager st)"
    by (subst b(1)) (simp add: read_to_end_def replay_clone_def acquire_state_def eager_def st(1) expect_def)
  have "\<exists>fs. read_to_end b sh = Returns (fs, None) \<and> data_of fs = fst (content body) \<and> trailers_of fs = snd (content body)"
    if "replay_has_remaining (bd_replay st) \<or> fst (content body) = []"
    using that replay_complete [OF inv st(2)] replay_no_data [OF inv st(2)] by (cases "drain eager st") (auto simp: read)
  then show thesis by (rule that [OF st])
qed

text \<open>C7: When the service only polls the bodies it is sent, then every attempt after the first has a
  body that is within its buffer limit; and if by then at least one byte was buffered, or the original body has
  no data at all, it delivers all bytes and the trailers of the original body. (A body with data of which no byte was
  buffered is the other case: its first chunk is delivered twice.)\<close>

theorem retried_requests_deliver_body:
  assumes "replay_try_new api body n = Ok (rb, sh)" "plain body" "polls_bodies svc"
    and "send_req_with_retries (logged svc) nh nx policy m (s, []) req rb sh = (r, m', s', lg)"
    and "(h, b, shb) \<in> set (tl lg)"
  shows "\<exists>st. rs_body shb = Some st \<and> \<not> bd_is_capped st \<and>
    (replay_has_remaining (bd_replay st) \<or> fst (content body) = [] \<longrightarrow> (\<exists>fs. read_to_end b shb = Returns (fs, None) \<and>
       data_of fs = fst (content body) \<and> trailers_of fs = snd (content body)))"
proof -
  have "rs_body sh = None" using assms(1) by (auto simp: replay_try_new_def split: if_splits)
  then have "held_by body n rb sh" using try_new_reach [OF assms(1)] by (auto simp: held_by_def)
  from send_log [OF assms(4) polls_keep [OF assms(3)] this] assms(5)
  have "replayable b shb" "held_by body n b shb" by auto
  from replayable_delivers [OF this assms(2)] show ?thesis by blast
qed

text \<open>A service that reads two frames of each body and answers 503 to the first request.\<close>

definition flaky_svc :: "(string, unit, unit, unit, nat) retry_svc" where
  "flaky_svc = \<lparr>
     svc_ready = (\<lambda>s. (Ready (Inr ()), s)),
     svc_call_body = (\<lambda>s req body. (Inl (), s)),
     svc_call = (\<lambda>s req rb sh.
       (Inr \<lparr> hr_status = if s = 0 then 503 else 200, hr_version = HTTP_11, hr_headers = [], hr_end_stream = True, hr_body = [] \<rparr>,
        case poll_times 2 (rb, sh) of Returns (rb', sh') \<Rightarrow> replay_drop rb' sh' | Panics _ \<Rightarrow> sh, Suc s)) \<rparr>"

lemma flaky_polls: "polls_bodies flaky_svc"
  unfolding polls_bodies_def
proof (intro allI impI, goal_cases)
  case (1 s req rb sh r sh' s')
  show ?case
  proof (cases "poll_times 2 (rb, sh)")
    case (Returns x)
    then show ?thesis using 1 by (intro exI [of _ 2]) (cases x, simp add: flaky_svc_def)
  next
    case (Panics _)
    then show ?thesis using 1 by (intro exI [of _ 0]) (simp add: flaky_svc_def)
  qed
qed

definition retry_503 :: "(string, unit, unit, unit) retry_policy" where
  "retry_503 = \<lparr> pol_params = \<lparr> max_retries = 2, max_request_bytes = 9, retry_backoff = None \<rparr>,
     is_retryable = (\<lambda>r. case r of Inr rsp \<Rightarrow> hr_status rsp = 503 | Inl _ \<Rightarrow> False),
     set_headers = set_headers_default, set_extensions = set_extensions_default \<rparr>"

definition sample_head :: "(string, unit) req_head" where
  "sample_head = \<lparr> rh_method = ''POST'', rh_uri = \<lparr> uri_scheme = None, uri_authority = None, uri_path = ''/'',
     uri_query = None, uri_path_and_query = None \<rparr>, rh_version = HTTP_2, rh_headers = [], rh_extensions = () \<rparr>"

definition no_retries :: retry_metrics where
  "no_retries = \<lparr> m_requests = 0, m_successes = 0, m_limit_exceeded = 0, m_overflow = 0 \<rparr>"

lemma flaky_second_attempt:
  assumes "replay_try_new quiet_api sample_body 9 = Ok (rb, sh)"
  shows "send_req_with_retries (logged flaky_svc) [] () retry_503 no_retries (0, []) sample_head rb sh =
    (r, m, s, lg) \<Longrightarrow> \<exists>h b shb st. tl lg = [(h, b, shb)] \<and> rs_body shb = Some st \<and> bd_replay st = [''ab''] \<and>
      m_requests m = 1 \<and> m_successes m = 1"
proof -
  let ?st = "\<lparr> bd_replay = [''ab''], bd_trailers = None, bd_rest = [Body_Frame (Frame_Data ''c''), Body_Frame (Frame_Trailers ''t'')],
        bd_is_completed = False, bd_max_bytes = 8 \<rparr> :: (string, unit) body_state"
  have rb: "rb = \<lparr> rb_state = Some (body_state_new sample_body 9), rb_flags = quiet \<rparr>"
    using assms by (auto simp: replay_try_new_def quiet_api_def body_state_new_def quiet_def)
  have p1: "poll_times 2 (rb, sh) = Returns (\<lparr> rb_state = Some ?st, rb_flags = quiet \<rparr>, sh)"
    unfolding numeral_2_eq_2 rb by (simp add: replay_poll_frame_def acquire_state_def poll_held_def poll_rest_def
        body_state_new_def sample_body_def record_bytes_def bd_is_capped_def Let_def)
  have send1: "send_req (logged flaky_svc) (0, []) h rb sh = (Inr \<lparr> hr_status = 503, hr_version = HTTP_11, hr_headers = [],
      hr_end_stream = True, hr_body = Peek_Passthru [] \<rparr>, sh\<lparr> rs_body := Some ?st \<rparr>, 1, [(h, rb, sh)])" for h
    by (simp add: send_req_def logged_def flaky_svc_def p1 peek_map_response_def replay_drop_def)
  have cap: "\<not> cannot_replay (replay_clone rb) (sh\<lparr> rs_body := Some ?st \<rparr>)"
    by (simp add: cannot_replay_def replay_is_capped_def replay_clone_def bd_is_capped_def)
  assume "send_req_with_retries (logged flaky_svc) [] () retry_503 no_retries (0, []) sample_head rb sh = (r, m, s, lg)"
  then have "retry_loop (logged flaky_svc) [] () retry_503 (Suc (Suc 0)) (mk_backup [] () retry_503 sample_head) (replay_clone rb)
      (sh\<lparr> rs_body := Some ?st \<rparr>) (Inr \<lparr> hr_status = 503, hr_version = HTTP_11, hr_headers = [],
      hr_end_stream = True, hr_body = Peek_Passthru [] \<rparr>) no_retries (1, [(sample_head, rb, sh)]) = (r, m, s, lg)"
    using cap by (simp add: send_req_with_retries_def Let_def send1 retry_503_def numeral_2_eq_2)
  then show ?thesis
    by (auto simp: Let_def send_req_def logged_def flaky_svc_def retry_503_def no_retries_def peek_map_response_def)
qed

theorem retried_requests_deliver_body_witness:
  "\<exists>rb sh r m s lg h b shb fs. replay_try_new quiet_api sample_body 9 = Ok (rb, sh) \<and>
    send_req_with_retries (logged flaky_svc) [] () retry_503 no_retries (0, []) sample_head rb sh = (r, m, s, lg) \<and>
    tl lg = [(h, b, shb)] \<and> read_to_end b shb = Returns (fs, None) \<and> data_of fs = ''abc'' \<and> trailers_of fs = [''t'']"
proof -
  obtain rb sh where rb: "replay_try_new quiet_api sample_body 9 = Ok (rb, sh)" by (simp add: replay_try_new_def quiet_api_def)
  obtain r m s lg where e: "send_req_with_retries (logged flaky_svc) [] () retry_503 no_retries (0, []) sample_head rb sh = (r, m, s, lg)"
    by (cases "send_req_with_retries (logged flaky_svc) [] () retry_503 no_retries (0, []) sample_head rb sh")
  from flaky_second_attempt [OF rb e] obtain h b shb st where
    t: "tl lg = [(h, b, shb)]" "rs_body shb = Some st" "bd_replay st = [''ab'']" by blast
  have "plain sample_body" by (simp add: sample_body_def)
  from retried_requests_deliver_body [OF rb this flaky_polls e, of h b shb] t
  obtain fs where "read_to_end b shb = Returns (fs, None)" "data_of fs = fst (content sample_body)"
    "trailers_of fs = snd (content sample_body)" by (auto simp: replay_has_remaining_def replay_remaining_def)
  with rb e t(1) show ?thesis by (auto simp: sample_body_def)
qed

end
