(* ===== verification/Stream_Timeouts.thy ===== *)
theory Stream_Timeouts
  imports Rust_Prelude
begin

text \<open>
  The deadlines of a stream (\<open>linkerd/http/stream-timeouts/src/lib.rs\<close>): the time allowed until
  the response's headers, until its end, between frames, and for the whole stream. The middleware
  wraps the body of the request, the future of the response and the body of the response. What the
  wrapped futures and bodies return when they are polled is an argument of each poll, as is the time;
  a timer is its deadline and is ready from then on. The halves of a stream share the time of the
  last frame and the channel on which the request's half tells when its body ended.
\<close>

section \<open>Timeouts\<close>

record stream_lifetime =
  sl_deadline :: instant
  sl_lifetime :: duration

record stream_timeouts =
  to_response_headers :: "duration option"
  to_response_end :: "duration option"
  to_idle :: "duration option"
  to_limit :: "stream_lifetime option"

definition no_timeouts :: stream_timeouts where
  "no_timeouts = \<lparr> to_response_headers = None, to_response_end = None, to_idle = None, to_limit = None \<rparr>"

definition lifetime_from :: "instant \<Rightarrow> duration \<Rightarrow> stream_lifetime" where
  "lifetime_from now lifetime = \<lparr> sl_deadline = now + lifetime, sl_lifetime = lifetime \<rparr>"

datatype response_timeout_error = RT_Headers duration | RT_Response duration | RT_Lifetime duration

datatype body_timeout_error = BT_Response duration | BT_Lifetime duration | BT_Idle duration

record 'e deadline =
  dl_sleep :: instant
  dl_error :: 'e

record idle =
  idle_sleep :: instant
  idle_timeout :: duration

text \<open>The channel for the time at which the request's body ended.\<close>

datatype flushed = Not_Sent | Sent_At instant | Sender_Dropped

record response_future =
  fut_deadline :: "response_timeout_error deadline option"
  fut_request_flushed :: bool
  fut_request_flushed_at :: "instant option"
  fut_idle :: "duration option"
  fut_timeouts :: stream_timeouts

record request_body =
  rqb_deadline :: "body_timeout_error deadline option"
  rqb_idle :: "idle option"
  rqb_request_flushed :: bool

record response_body =
  rsb_deadline :: "body_timeout_error deadline option"
  rsb_idle :: "idle option"

text \<open>What the halves of a stream share.\<close>

record stream_shared =
  sh_timestamp :: instant
  sh_flushed :: flushed

definition enforce_call ::
  "instant \<Rightarrow> stream_timeouts option \<Rightarrow> request_body \<times> response_future \<times> stream_shared" where
  "enforce_call now extension =
    (let timeouts = (case extension of None \<Rightarrow> no_timeouts | Some t \<Rightarrow> t) in
     (\<lparr> rqb_deadline = map_option (\<lambda>l. \<lparr> dl_sleep = sl_deadline l, dl_error = BT_Lifetime (sl_lifetime l) \<rparr>) (to_limit timeouts),
        rqb_idle = map_option (\<lambda>t. \<lparr> idle_sleep = now + t, idle_timeout = t \<rparr>) (to_idle timeouts),
        rqb_request_flushed = True \<rparr>,
      \<lparr> fut_deadline = map_option (\<lambda>l. \<lparr> dl_sleep = sl_deadline l, dl_error = RT_Lifetime (sl_lifetime l) \<rparr>) (to_limit timeouts),
        fut_request_flushed = True, fut_request_flushed_at = None, fut_idle = to_idle timeouts,
        fut_timeouts = timeouts \<rparr>,
      \<lparr> sh_timestamp = now, sh_flushed = Not_Sent \<rparr>))"

section \<open>The response's future\<close>

definition headers_timeout :: "stream_timeouts \<Rightarrow> (duration \<times> response_timeout_error) option" where
  "headers_timeout t = (case (to_response_headers t, to_response_end t) of
     (Some eoh, Some eos) \<Rightarrow>
       if eoh < eos then Some (eoh, RT_Headers eoh) else Some (eoh, RT_Headers eoh)
   | (Some eoh, None) \<Rightarrow> Some (eoh, RT_Headers eoh)
   | (None, Some eos) \<Rightarrow> Some (eos, RT_Response eos)
   | (None, None) \<Rightarrow> None)"

definition update_deadline ::
  "instant \<Rightarrow> stream_timeouts \<Rightarrow> response_timeout_error deadline option \<Rightarrow> response_timeout_error deadline option" where
  "update_deadline start timeouts dl = (case headers_timeout timeouts of
     None \<Rightarrow> dl
   | Some (timeout, error) \<Rightarrow>
       (let headers_by = start + timeout in
        case dl of
          Some d \<Rightarrow> Some (if headers_by < dl_sleep d then \<lparr> dl_sleep = headers_by, dl_error = error \<rparr> else d)
        | None \<Rightarrow> Some \<lparr> dl_sleep = headers_by, dl_error = error \<rparr>))"

definition poll_flushed :: "instant \<Rightarrow> flushed \<Rightarrow> response_future \<Rightarrow> response_future" where
  "poll_flushed now ch fut =
    (if fut_request_flushed fut \<and> ch \<noteq> Not_Sent
     then (let start = (case ch of Sent_At t \<Rightarrow> t | _ \<Rightarrow> now) in
           fut\<lparr> fut_request_flushed := False, fut_request_flushed_at := Some start,
                fut_deadline := update_deadline start (fut_timeouts fut) (fut_deadline fut) \<rparr>)
     else fut)"

definition body_deadline :: "instant \<Rightarrow> stream_timeouts \<Rightarrow> body_timeout_error deadline option" where
  "body_deadline start t = (case (to_response_end t, to_limit t) of
     (Some eos, Some lim) \<Rightarrow>
       Some (if start + eos < sl_deadline lim then \<lparr> dl_sleep = start + eos, dl_error = BT_Response eos \<rparr>
             else \<lparr> dl_sleep = sl_deadline lim, dl_error = BT_Lifetime (sl_lifetime lim) \<rparr>)
   | (Some eos, None) \<Rightarrow> Some \<lparr> dl_sleep = start + eos, dl_error = BT_Response eos \<rparr>
   | (None, Some lim) \<Rightarrow> Some \<lparr> dl_sleep = sl_deadline lim, dl_error = BT_Lifetime (sl_lifetime lim) \<rparr>
   | (None, None) \<Rightarrow> None)"

datatype ('e, 't) stream_error = Inner_Error 'e | Timed_Out 't

definition response_future_poll ::
  "instant \<Rightarrow> ('r, 'e) result poll \<Rightarrow> response_future \<Rightarrow> stream_shared
    \<Rightarrow> ('r \<times> response_body, ('e, response_timeout_error) stream_error) result poll \<times> response_future \<times> stream_shared" where
  "response_future_poll now inner fut sh =
    (let fut = poll_flushed now (sh_flushed sh) fut in
     case inner of
       Ready (Inl e) \<Rightarrow> (Ready (Err (Inner_Error e)), fut, sh)
     | Pending \<Rightarrow>
         (case fut_deadline fut of
            Some d \<Rightarrow> (if dl_sleep d \<le> now then Ready (Err (Timed_Out (dl_error d))) else Pending, fut, sh)
          | None \<Rightarrow> (Pending, fut, sh))
     | Ready (Inr rsp) \<Rightarrow>
         (let start = (case fut_request_flushed_at fut of Some t \<Rightarrow> t | None \<Rightarrow> now) in
          (Ready (Ok (rsp, \<lparr> rsb_deadline = body_deadline start (fut_timeouts fut),
             rsb_idle = map_option (\<lambda>t. \<lparr> idle_sleep = now + t, idle_timeout = t \<rparr>) (fut_idle fut) \<rparr>)),
           fut\<lparr> fut_idle := None \<rparr>,
           if fut_idle fut = None then sh else sh\<lparr> sh_timestamp := now \<rparr>)))"

section \<open>The bodies\<close>

definition idle_reset :: "instant \<Rightarrow> idle \<Rightarrow> idle" where
  "idle_reset now i = i\<lparr> idle_sleep := now + idle_timeout i \<rparr>"

text \<open>The loop of \<open>poll_idle\<close>: the timer is set again when the other half was active.\<close>

function poll_idle :: "instant \<Rightarrow> instant \<Rightarrow> idle \<Rightarrow> body_timeout_error poll \<times> idle" where
  "poll_idle now timestamp i =
    (if now < idle_sleep i then (Pending, i)
     else let expiry = timestamp + idle_timeout i in
       if expiry \<le> now then (Ready (BT_Idle (idle_timeout i)), i)
       else poll_idle now timestamp (i\<lparr> idle_sleep := expiry \<rparr>))"
  by pat_completeness auto

termination
  by (relation "measure (\<lambda>(now, timestamp, i). if now < idle_sleep i then 0 else 1)") auto

declare poll_idle.simps [simp del]

definition poll_body_timeout ::
  "instant \<Rightarrow> instant \<Rightarrow> body_timeout_error deadline option \<Rightarrow> idle option
    \<Rightarrow> body_timeout_error poll \<times> body_timeout_error deadline option \<times> idle option" where
  "poll_body_timeout now timestamp dl idle = (case dl of
     Some d \<Rightarrow>
       if dl_sleep d \<le> now then (Ready (dl_error d), None, idle)
       else (case idle of
               None \<Rightarrow> (Pending, dl, None)
             | Some i \<Rightarrow> (case poll_idle now timestamp i of (r, i) \<Rightarrow> (r, dl, Some i)))
   | None \<Rightarrow>
       (case idle of
          None \<Rightarrow> (Pending, dl, None)
        | Some i \<Rightarrow> (case poll_idle now timestamp i of (r, i) \<Rightarrow> (r, dl, Some i))))"

type_synonym ('f, 'e) frame_poll = "('f, ('e, body_timeout_error) stream_error) result option poll"

definition inner_frame :: "('f, 'e) result option \<Rightarrow> ('f, ('e, body_timeout_error) stream_error) result option" where
  "inner_frame r = map_option (\<lambda>x. case x of Inl e \<Rightarrow> Err (Inner_Error e) | Inr f \<Rightarrow> Ok f) r"

definition timeout_frame :: "body_timeout_error poll \<Rightarrow> ('f, 'e) frame_poll" where
  "timeout_frame p = (case p of Ready e \<Rightarrow> Ready (Some (Err (Timed_Out e))) | Pending \<Rightarrow> Pending)"

definition touch :: "instant \<Rightarrow> idle option \<Rightarrow> stream_shared \<Rightarrow> stream_shared" where
  "touch now idle sh = (if idle = None then sh else sh\<lparr> sh_timestamp := now \<rparr>)"

definition request_body_poll ::
  "instant \<Rightarrow> ('f, 'e) result option poll \<Rightarrow> bool \<Rightarrow> request_body \<Rightarrow> stream_shared
    \<Rightarrow> ('f, 'e) frame_poll \<times> request_body \<times> stream_shared" where
  "request_body_poll now inner is_end_stream b sh = (case inner of
     Ready res \<Rightarrow>
       (let sh = touch now (rqb_idle b) sh; b = b\<lparr> rqb_idle := map_option (idle_reset now) (rqb_idle b) \<rparr> in
        if is_end_stream \<and> rqb_request_flushed b
        then (Ready (inner_frame res), b\<lparr> rqb_request_flushed := False \<rparr>, sh\<lparr> sh_flushed := Sent_At now \<rparr>)
        else (Ready (inner_frame res), b, sh))
   | Pending \<Rightarrow>
       (case poll_body_timeout now (sh_timestamp sh) (rqb_deadline b) (rqb_idle b) of (r, dl, i) \<Rightarrow>
          (timeout_frame r, b\<lparr> rqb_deadline := dl, rqb_idle := i \<rparr>, sh)))"

definition response_body_poll ::
  "instant \<Rightarrow> ('f, 'e) result option poll \<Rightarrow> response_body \<Rightarrow> stream_shared
    \<Rightarrow> ('f, 'e) frame_poll \<times> response_body \<times> stream_shared" where
  "response_body_poll now inner b sh = (case inner of
     Ready res \<Rightarrow>
       (Ready (inner_frame res), b\<lparr> rsb_idle := map_option (idle_reset now) (rsb_idle b) \<rparr>, touch now (rsb_idle b) sh)
   | Pending \<Rightarrow>
       (case poll_body_timeout now (sh_timestamp sh) (rsb_deadline b) (rsb_idle b) of (r, dl, i) \<Rightarrow>
          (timeout_frame r, b\<lparr> rsb_deadline := dl, rsb_idle := i \<rparr>, sh)))"

text \<open>A request's body that is dropped drops its end of the channel.\<close>

definition request_body_drop :: "request_body \<Rightarrow> stream_shared \<Rightarrow> stream_shared" where
  "request_body_drop b sh = (if rqb_request_flushed b then sh\<lparr> sh_flushed := Sender_Dropped \<rparr> else sh)"

section \<open>A stream\<close>

text \<open>The three parts of a stream are polled in any order, at times that do not go back; the
  response's body exists once the future has returned it.\<close>

datatype ('f, 'r, 'e) stream_event =
    Poll_Request "('f, 'e) result option poll" bool
  | Poll_Future "('r, 'e) result poll"
  | Poll_Response "('f, 'e) result option poll"
  | Drop_Request

record stream =
  str_request :: "request_body option"
  str_future :: "response_future option"
  str_response :: "response_body option"
  str_shared :: stream_shared

datatype ('f, 'r, 'e) stream_output =
    Out_Frame "('f, 'e) frame_poll"
  | Out_Head "('r, ('e, response_timeout_error) stream_error) result poll"
  | Out_Nothing

definition stream_new :: "instant \<Rightarrow> stream_timeouts option \<Rightarrow> stream" where
  "stream_new now extension = (case enforce_call now extension of (rq, fut, sh) \<Rightarrow>
     \<lparr> str_request = Some rq, str_future = Some fut, str_response = None, str_shared = sh \<rparr>)"

fun stream_step ::
  "instant \<times> ('f, 'r, 'e) stream_event \<Rightarrow> stream \<Rightarrow> ('f, 'r, 'e) stream_output \<times> stream" where
  "stream_step (now, Poll_Request inner is_end) w = (case str_request w of
     None \<Rightarrow> (Out_Nothing, w)
   | Some b \<Rightarrow> (case request_body_poll now inner is_end b (str_shared w) of (r, b, sh) \<Rightarrow>
       (Out_Frame r, w\<lparr> str_request := Some b, str_shared := sh \<rparr>)))"
| "stream_step (now, Poll_Future inner) w = (case str_future w of
     None \<Rightarrow> (Out_Nothing, w)
   | Some fut \<Rightarrow> (case response_future_poll now inner fut (str_shared w) of
       (Pending, fut, sh) \<Rightarrow> (Out_Head Pending, w\<lparr> str_future := Some fut, str_shared := sh \<rparr>)
     | (Ready (Inl e), fut, sh) \<Rightarrow> (Out_Head (Ready (Inl e)), w\<lparr> str_future := None, str_shared := sh \<rparr>)
     | (Ready (Inr (rsp, body)), fut, sh) \<Rightarrow>
         (Out_Head (Ready (Inr rsp)), w\<lparr> str_future := None, str_response := Some body, str_shared := sh \<rparr>)))"
| "stream_step (now, Poll_Response inner) w = (case str_response w of
     None \<Rightarrow> (Out_Nothing, w)
   | Some b \<Rightarrow> (case response_body_poll now inner b (str_shared w) of (r, b, sh) \<Rightarrow>
       (Out_Frame r, w\<lparr> str_response := Some b, str_shared := sh \<rparr>)))"
| "stream_step (now, Drop_Request) w = (case str_request w of
     None \<Rightarrow> (Out_Nothing, w)
   | Some b \<Rightarrow> (Out_Nothing, w\<lparr> str_request := None, str_shared := request_body_drop b (str_shared w) \<rparr>))"

fun stream_run ::
  "(instant \<times> ('f, 'r, 'e) stream_event) list \<Rightarrow> stream \<Rightarrow> (instant \<times> ('f, 'r, 'e) stream_output) list \<times> stream" where
  "stream_run [] w = ([], w)"
| "stream_run (e # es) w = (case stream_step e w of (out, w) \<Rightarrow>
     case stream_run es w of (outs, w) \<Rightarrow> ((fst e, out) # outs, w))"

text \<open>The time of the last activity: a frame (or the end) of a body, or the head of the response.\<close>

fun frame_activity :: "('f, 'e) frame_poll \<Rightarrow> bool" where
  "frame_activity Pending = False"
| "frame_activity (Ready (Some (Inl (Timed_Out _)))) = False"
| "frame_activity _ = True"

fun is_activity :: "('f, 'r, 'e) stream_output \<Rightarrow> bool" where
  "is_activity (Out_Frame f) = frame_activity f"
| "is_activity (Out_Head (Ready (Inr _))) = True"
| "is_activity _ = False"

fun last_activity :: "instant \<Rightarrow> (instant \<times> ('f, 'r, 'e) stream_output) list \<Rightarrow> instant" where
  "last_activity t0 [] = t0"
| "last_activity t0 ((t, out) # outs) = last_activity (if is_activity out then t else t0) outs"

section \<open>The idle timeout\<close>

lemma poll_idle_exact:
  "idle_sleep i \<le> ts + idle_timeout i \<Longrightarrow>
     fst (poll_idle now ts i) = (if ts + idle_timeout i \<le> now then Ready (BT_Idle (idle_timeout i)) else Pending)"
  "idle_sleep i \<le> ts + idle_timeout i \<Longrightarrow>
     idle_sleep (snd (poll_idle now ts i)) \<le> ts + idle_timeout i \<and> idle_timeout (snd (poll_idle now ts i)) = idle_timeout i"
proof -
  assume s: "idle_sleep i \<le> ts + idle_timeout i"
  have again: "poll_idle now ts (i\<lparr> idle_sleep := ts + idle_timeout i \<rparr>) =
      (Pending, i\<lparr> idle_sleep := ts + idle_timeout i \<rparr>)" if "now < ts + idle_timeout i"
    using that by (subst poll_idle.simps) simp
  show "fst (poll_idle now ts i) = (if ts + idle_timeout i \<le> now then Ready (BT_Idle (idle_timeout i)) else Pending)"
    using s again by (subst poll_idle.simps) (simp add: Let_def)
  show "idle_sleep (snd (poll_idle now ts i)) \<le> ts + idle_timeout i \<and> idle_timeout (snd (poll_idle now ts i)) = idle_timeout i"
    using s again by (subst (1 2) poll_idle.simps) (simp add: Let_def)
qed

text \<open>Every timer of a half is set for no later than the shared expiry.\<close>

definition idle_ok :: "duration option \<Rightarrow> instant \<Rightarrow> idle option \<Rightarrow> bool" where
  "idle_ok t ts i \<longleftrightarrow> map_option idle_timeout i = t \<and> (\<forall>x. i = Some x \<longrightarrow> idle_sleep x \<le> ts + idle_timeout x)"

lemma idle_ok_later: "idle_ok t ts i \<Longrightarrow> ts \<le> ts' \<Longrightarrow> idle_ok t ts' i"
  unfolding idle_ok_def by fastforce

lemma idle_ok_reset: "idle_ok t ts i \<Longrightarrow> idle_ok t now (map_option (idle_reset now) i)"
  by (cases i) (auto simp: idle_ok_def idle_reset_def)

lemma poll_body_timeout_idle:
  assumes "idle_ok t ts i" "poll_body_timeout now ts dl i = (r, dl', i')"
  shows "idle_ok t ts i'"
  using assms poll_idle_exact(2) [of _ ts now]
  by (auto simp: idle_ok_def poll_body_timeout_def split: option.splits if_splits prod.splits) (metis snd_conv)+

definition idle_inv :: "duration \<Rightarrow> instant \<Rightarrow> stream \<Rightarrow> bool" where
  "idle_inv t ts w \<longleftrightarrow> sh_timestamp (str_shared w) = ts \<and>
     (\<forall>b. str_request w = Some b \<longrightarrow> idle_ok (Some t) ts (rqb_idle b)) \<and>
     (\<forall>b. str_response w = Some b \<longrightarrow> idle_ok (Some t) ts (rsb_idle b)) \<and>
     (\<forall>f. str_future w = Some f \<longrightarrow> fut_idle f = Some t)"

lemma idle_ok_Some: "idle_ok (Some t) ts i \<Longrightarrow> i \<noteq> None"
  by (auto simp: idle_ok_def)

lemma inner_frame_activity [simp]: "frame_activity (Ready (inner_frame r))"
  by (cases r) (auto simp: inner_frame_def split: sum.splits)

lemma timeout_frame_activity [simp]: "\<not> frame_activity (timeout_frame p)"
  by (cases p) (auto simp: timeout_frame_def)

lemma request_poll_idle:
  assumes "request_body_poll now inner is_end b sh = (r, b', sh')" "idle_ok (Some t) ts (rqb_idle b)"
    and "sh_timestamp sh = ts"
  shows "sh_timestamp sh' = (if frame_activity r then now else ts)"
    "idle_ok (Some t) (if frame_activity r then now else ts) (rqb_idle b')"
proof -
  have "sh_timestamp sh' = (if frame_activity r then now else ts) \<and>
      idle_ok (Some t) (if frame_activity r then now else ts) (rqb_idle b')"
  proof (cases inner)
    case Pending
    then show ?thesis
      using assms by (auto simp: request_body_poll_def split: prod.splits dest: poll_body_timeout_idle)
  next
    case (Ready res)
    then show ?thesis
      using assms idle_ok_reset [OF assms(2), of now] idle_ok_Some [OF assms(2)]
      by (auto simp: request_body_poll_def touch_def Let_def split: if_splits)
  qed
  then show "sh_timestamp sh' = (if frame_activity r then now else ts)"
    "idle_ok (Some t) (if frame_activity r then now else ts) (rqb_idle b')" by simp_all
qed

lemma response_poll_idle:
  assumes "response_body_poll now inner b sh = (r, b', sh')" "idle_ok (Some t) ts (rsb_idle b)"
    and "sh_timestamp sh = ts"
  shows "sh_timestamp sh' = (if frame_activity r then now else ts)"
    "idle_ok (Some t) (if frame_activity r then now else ts) (rsb_idle b')"
proof -
  have "sh_timestamp sh' = (if frame_activity r then now else ts) \<and>
      idle_ok (Some t) (if frame_activity r then now else ts) (rsb_idle b')"
  proof (cases inner)
    case Pending
    then show ?thesis
      using assms by (auto simp: response_body_poll_def split: prod.splits dest: poll_body_timeout_idle)
  next
    case (Ready res)
    then show ?thesis
      using assms idle_ok_reset [OF assms(2), of now] idle_ok_Some [OF assms(2)]
      by (auto simp: response_body_poll_def touch_def)
  qed
  then show "sh_timestamp sh' = (if frame_activity r then now else ts)"
    "idle_ok (Some t) (if frame_activity r then now else ts) (rsb_idle b')" by simp_all
qed

lemma poll_flushed_idle [simp]:
  "fut_idle (poll_flushed now ch fut) = fut_idle fut" "fut_timeouts (poll_flushed now ch fut) = fut_timeouts fut"
  by (simp_all add: poll_flushed_def Let_def)

lemma future_poll_idle:
  assumes "response_future_poll now inner fut sh = (r, fut', sh')" "fut_idle fut = Some t"
  shows "case r of Ready (Inr (rsp, b)) \<Rightarrow> sh_timestamp sh' = now \<and> idle_ok (Some t) now (rsb_idle b)
    | Ready (Inl _) \<Rightarrow> sh' = sh | Pending \<Rightarrow> sh' = sh \<and> fut_idle fut' = Some t"
  using assms
  by (auto simp: response_future_poll_def Let_def idle_ok_def split: poll.splits sum.splits option.splits if_splits)

lemma idle_invD:
  assumes "idle_inv t ts w"
  shows "sh_timestamp (str_shared w) = ts" "str_request w = Some b \<Longrightarrow> idle_ok (Some t) ts (rqb_idle b)"
    "str_response w = Some c \<Longrightarrow> idle_ok (Some t) ts (rsb_idle c)" "str_future w = Some f \<Longrightarrow> fut_idle f = Some t"
  using assms by (auto simp: idle_inv_def)

lemma idle_inv_later:
  assumes "idle_inv t ts w" "ts \<le> ts'"
  shows "str_request w = Some b \<Longrightarrow> idle_ok (Some t) ts' (rqb_idle b)"
    "str_response w = Some c \<Longrightarrow> idle_ok (Some t) ts' (rsb_idle c)"
  using idle_invD [OF assms(1)] idle_ok_later [OF _ assms(2)] by blast+

lemma idle_step_request:
  assumes "stream_step (now, Poll_Request inner is_end) w = (out, w')" "idle_inv t ts w" "ts \<le> now"
  shows "idle_inv t (if is_activity out then now else ts) w'"
proof (cases "str_request w")
  case (Some b)
  obtain r b' sh' where p: "request_body_poll now inner is_end b (str_shared w) = (r, b', sh')"
    by (cases "request_body_poll now inner is_end b (str_shared w)")
  note q = request_poll_idle [OF p idle_invD(2) [OF assms(2) Some] idle_invD(1) [OF assms(2)]]
  have w': "w' = w\<lparr> str_request := Some b', str_shared := sh' \<rparr>" "out = Out_Frame r"
    using assms(1) Some p by auto
  show ?thesis using q idle_invD(4) [OF assms(2)] idle_inv_later(2) [OF assms(2)] assms(3)
    by (simp add: idle_inv_def w')
qed (use assms in simp)

lemma idle_step_response:
  assumes "stream_step (now, Poll_Response inner) w = (out, w')" "idle_inv t ts w" "ts \<le> now"
  shows "idle_inv t (if is_activity out then now else ts) w'"
proof (cases "str_response w")
  case (Some b)
  obtain r b' sh' where p: "response_body_poll now inner b (str_shared w) = (r, b', sh')"
    by (cases "response_body_poll now inner b (str_shared w)")
  note q = response_poll_idle [OF p idle_invD(3) [OF assms(2) Some] idle_invD(1) [OF assms(2)]]
  have w': "w' = w\<lparr> str_response := Some b', str_shared := sh' \<rparr>" "out = Out_Frame r"
    using assms(1) Some p by auto
  show ?thesis using q idle_invD(4) [OF assms(2)] idle_inv_later(1) [OF assms(2)] assms(3)
    by (simp add: idle_inv_def w')
qed (use assms in simp)

lemma idle_step_future:
  assumes "stream_step (now, Poll_Future inner) w = (out, w')" "idle_inv t ts w" "ts \<le> now"
  shows "idle_inv t (if is_activity out then now else ts) w'"
proof (cases "str_future w")
  case (Some fut)
  obtain r fut' sh' where p: "response_future_poll now inner fut (str_shared w) = (r, fut', sh')"
    by (cases "response_future_poll now inner fut (str_shared w)")
  note q = future_poll_idle [OF p idle_invD(4) [OF assms(2) Some]]
  show ?thesis
  proof (cases "\<exists>rsp b. r = Ready (Inr (rsp, b))")
    case True
    then show ?thesis using assms(1) Some p q idle_inv_later(1) [OF assms(2,3)] by (auto simp: idle_inv_def)
  next
    case False
    then show ?thesis using assms(1) Some p q idle_invD [OF assms(2)]
      by (auto simp: idle_inv_def split: poll.splits sum.splits)
  qed
qed (use assms in simp)

lemma idle_step:
  assumes "stream_step (now, e) w = (out, w')" "idle_inv t ts w" "ts \<le> now"
  shows "idle_inv t (if is_activity out then now else ts) w'"
proof (cases e)
  case Drop_Request
  then show ?thesis
    using assms by (auto simp: idle_inv_def request_body_drop_def split: option.splits)
qed (use assms in \<open>blast intro: idle_step_request idle_step_response idle_step_future\<close>)+

lemma idle_run:
  assumes "stream_run es w = (outs, w')" "idle_inv t ts w" "sorted (ts # map fst es)"
  shows "idle_inv t (last_activity ts outs) w'"
  using assms
proof (induction es arbitrary: ts w outs)
  case (Cons e es)
  obtain out w1 where st: "stream_step e w = (out, w1)" by (cases "stream_step e w")
  obtain outs1 where run: "stream_run es w1 = (outs1, w')" "outs = (fst e, out) # outs1"
    using Cons.prems(1) st by (auto split: prod.splits)
  let ?ts = "if is_activity out then fst e else ts"
  have "idle_inv t ?ts w1" using idle_step [of "fst e" "snd e"] st Cons.prems(2,3) by simp
  from Cons.IH [OF run(1) this] Cons.prems(3) run(2) show ?case by auto
qed simp

lemma idle_new: "to_idle to = Some t \<Longrightarrow> idle_inv t t0 (stream_new t0 (Some to))"
  by (simp add: idle_inv_def stream_new_def enforce_call_def idle_ok_def Let_def)

text \<open>The error of a half that has nothing ready: its deadline's, if it has passed, or else
  the idle timeout's, if it has.\<close>

definition half_error :: "instant \<Rightarrow> body_timeout_error deadline option \<Rightarrow> instant \<Rightarrow> duration \<Rightarrow> body_timeout_error poll" where
  "half_error now dl seen t =
    (if \<exists>d. dl = Some d \<and> dl_sleep d \<le> now then Ready (dl_error (the dl))
     else if seen + t \<le> now then Ready (BT_Idle t) else Pending)"

lemma poll_body_timeout_exact:
  assumes "idle_ok (Some t) ts i"
  shows "fst (poll_body_timeout now ts dl i) = half_error now dl ts t"
proof -
  obtain x where x: "i = Some x" "idle_timeout x = t" "idle_sleep x \<le> ts + idle_timeout x"
    using assms by (auto simp: idle_ok_def)
  obtain r y where "poll_idle now ts x = (r, y)" by (cases "poll_idle now ts x")
  with poll_idle_exact(1) [OF x(3), of now] show ?thesis
    by (auto simp: poll_body_timeout_def half_error_def x split: option.splits)
qed

text \<open>C13: The idle timeout is exact. Whatever polls a stream has seen, at times that do not go
  back, a half of it that has nothing ready fails with the idle timeout exactly when neither half has had
  a frame, and no head of the response has come, for that long; unless a deadline of that half has
  passed, which takes precedence.\<close>

theorem idle_timeout_exact:
  assumes "to_idle to = Some t" "stream_run es (stream_new t0 (Some to)) = (outs, w)"
    and "sorted (t0 # map fst es)"
  shows "(\<forall>b. str_request w = Some b \<longrightarrow> fst (request_body_poll now Pending is_end b (str_shared w)) =
      (timeout_frame (half_error now (rqb_deadline b) (last_activity t0 outs) t) :: ('f, 'e) frame_poll)) \<and>
    (\<forall>b. str_response w = Some b \<longrightarrow> fst (response_body_poll now Pending b (str_shared w)) =
      (timeout_frame (half_error now (rsb_deadline b) (last_activity t0 outs) t) :: ('f, 'e) frame_poll))"
proof -
  have inv: "idle_inv t (last_activity t0 outs) w" by (rule idle_run [OF assms(2) idle_new [OF assms(1)] assms(3)])
  have "fst (request_body_poll now Pending is_end b (str_shared w)) =
      (timeout_frame (half_error now (rqb_deadline b) (last_activity t0 outs) t) :: ('f, 'e) frame_poll)"
    if "str_request w = Some b" for b
    using poll_body_timeout_exact [OF idle_invD(2) [OF inv that], of now "rqb_deadline b"] idle_invD(1) [OF inv]
    by (auto simp: request_body_poll_def split: prod.splits)
  moreover have "fst (response_body_poll now Pending c (str_shared w)) =
      (timeout_frame (half_error now (rsb_deadline c) (last_activity t0 outs) t) :: ('f, 'e) frame_poll)"
    if "str_response w = Some c" for c
    using poll_body_timeout_exact [OF idle_invD(3) [OF inv that], of now "rsb_deadline c"] idle_invD(1) [OF inv]
    by (auto simp: response_body_poll_def split: prod.splits)
  ultimately show ?thesis by blast
qed

definition idle_5 :: stream_timeouts where
  "idle_5 = no_timeouts\<lparr> to_idle := Some 5 \<rparr>"

definition sample_polls :: "(instant \<times> (nat, nat, unit) stream_event) list" where
  "sample_polls = [(2, Poll_Request Pending False), (4, Poll_Future (Ready (Inr 200))), (8, Poll_Request Pending False)]"

theorem idle_timeout_exact_witness:
  "\<exists>outs w b. stream_run sample_polls (stream_new 0 (Some idle_5)) = (outs, w) \<and> str_request w = Some b \<and>
     fst (request_body_poll 8 Pending False b (str_shared w)) = (Pending :: (nat, unit) frame_poll) \<and>
     fst (request_body_poll 9 Pending False b (str_shared w)) =
       (Ready (Some (Err (Timed_Out (BT_Idle 5)))) :: (nat, unit) frame_poll)"
proof -
  obtain outs w where run: "stream_run sample_polls (stream_new 0 (Some idle_5)) = (outs, w)"
    by (cases "stream_run sample_polls (stream_new 0 (Some idle_5))")
  then have w: "last_activity 0 outs = 4" "\<exists>b. str_request w = Some b \<and> rqb_deadline b = None"
    by (auto simp: sample_polls_def stream_new_def enforce_call_def idle_5_def no_timeouts_def request_body_poll_def
        poll_body_timeout_def poll_idle.simps response_future_poll_def poll_flushed_def body_deadline_def
        timeout_frame_def Let_def)
  then obtain b where b: "str_request w = Some b" "rqb_deadline b = None" by blast
  have "to_idle idle_5 = Some 5" "sorted (0 # map fst sample_polls)" by (simp_all add: idle_5_def sample_polls_def)
  note exact = idle_timeout_exact [OF this(1) run this(2), where 'f = nat and 'e = unit]
  show ?thesis using run b w(1) exact [of 8 False] exact [of 9 False] by (auto simp: half_error_def timeout_frame_def)
qed

section \<open>The response's deadline\<close>

text \<open>The deadline for the response's head, from the timeouts and the time at which the request
  ended, if it has.\<close>

definition head_deadline :: "stream_timeouts \<Rightarrow> instant option \<Rightarrow> response_timeout_error deadline option" where
  "head_deadline to flushed_at =
    (let limit = map_option (\<lambda>l. \<lparr> dl_sleep = sl_deadline l, dl_error = RT_Lifetime (sl_lifetime l) \<rparr>) (to_limit to) in
     case flushed_at of None \<Rightarrow> limit | Some t \<Rightarrow> update_deadline t to limit)"

definition head_inv :: "stream_timeouts \<Rightarrow> response_future \<Rightarrow> bool" where
  "head_inv to fut \<longleftrightarrow> fut_timeouts fut = to \<and> fut_deadline fut = head_deadline to (fut_request_flushed_at fut) \<and>
     (fut_request_flushed fut \<longleftrightarrow> fut_request_flushed_at fut = None)"

lemma head_inv_poll: "head_inv to fut \<Longrightarrow> head_inv to (poll_flushed now ch fut)"
  by (auto simp: head_inv_def poll_flushed_def head_deadline_def Let_def)

lemma response_future_fut:
  "response_future_poll now inner fut sh = (r, fut', sh') \<Longrightarrow>
     fut_timeouts fut' = fut_timeouts (poll_flushed now (sh_flushed sh) fut) \<and>
     fut_deadline fut' = fut_deadline (poll_flushed now (sh_flushed sh) fut) \<and>
     fut_request_flushed fut' = fut_request_flushed (poll_flushed now (sh_flushed sh) fut) \<and>
     fut_request_flushed_at fut' = fut_request_flushed_at (poll_flushed now (sh_flushed sh) fut)"
  by (auto simp: response_future_poll_def Let_def split: poll.splits sum.splits option.splits if_splits)

lemma head_step:
  assumes "stream_step e w = (out, w')" "\<And>f. str_future w = Some f \<Longrightarrow> head_inv to f"
  shows "str_future w' = Some f' \<Longrightarrow> head_inv to f'"
proof (cases "\<exists>now inner. e = (now, Poll_Future inner)")
  case True
  assume f': "str_future w' = Some f'"
  from True obtain now inner where e: "e = (now, Poll_Future inner)" by blast
  show ?thesis
  proof (cases "str_future w")
    case None
    then show ?thesis using assms(1) f' e by simp
  next
    case (Some f)
    obtain r f1 sh where p: "response_future_poll now inner f (str_shared w) = (r, f1, sh)"
      by (cases "response_future_poll now inner f (str_shared w)")
    then have "f1 = f'" using assms(1) f' e Some by (auto split: poll.splits sum.splits)
    then show ?thesis
      using response_future_fut [OF p] head_inv_poll [OF assms(2) [OF Some], of now "sh_flushed (str_shared w)"]
      by (simp add: head_inv_def)
  qed
next
  case False
  assume "str_future w' = Some f'"
  moreover have "str_future w' = str_future w"
    using assms(1) False by (cases e; cases "snd e") (auto split: option.splits prod.splits)
  ultimately show ?thesis using assms(2) by simp
qed

lemma head_run:
  assumes "stream_run es w = (outs, w')" "\<And>f. str_future w = Some f \<Longrightarrow> head_inv to f"
  shows "str_future w' = Some f' \<Longrightarrow> head_inv to f'"
  using assms
proof (induction es arbitrary: w outs)
  case (Cons e es)
  obtain out w1 where st: "stream_step e w = (out, w1)" by (cases "stream_step e w")
  obtain outs1 where run: "stream_run es w1 = (outs1, w')" using Cons.prems(2) st by (auto split: prod.splits)
  show ?case using Cons.IH [OF Cons.prems(1) run] head_step [OF st Cons.prems(3)] by blast
qed auto

text \<open>When the request's body ended, as far as the future knows when it is polled.\<close>

definition flushed_time :: "instant \<Rightarrow> response_future \<Rightarrow> flushed \<Rightarrow> instant option" where
  "flushed_time now fut ch = (case fut_request_flushed_at fut of
     Some t \<Rightarrow> Some t
   | None \<Rightarrow> (case ch of Not_Sent \<Rightarrow> None | Sent_At t \<Rightarrow> Some t | Sender_Dropped \<Rightarrow> Some now))"

lemma poll_flushed_deadline:
  assumes "head_inv to fut"
  shows "fut_deadline (poll_flushed now ch fut) = head_deadline to (flushed_time now fut ch)"
  using assms
  by (cases ch; cases "fut_request_flushed_at fut")
    (auto simp: head_inv_def poll_flushed_def flushed_time_def head_deadline_def Let_def)

definition head_wait :: "stream_timeouts \<Rightarrow> duration option" where
  "head_wait to = (case to_response_headers to of Some h \<Rightarrow> Some h | None \<Rightarrow> to_response_end to)"

definition passed :: "instant \<Rightarrow> 'e deadline option \<Rightarrow> bool" where
  "passed now dl = (case dl of None \<Rightarrow> False | Some d \<Rightarrow> dl_sleep d \<le> now)"

lemma head_deadline_passed:
  "passed now (head_deadline to at) \<longleftrightarrow>
     (\<exists>l. to_limit to = Some l \<and> sl_deadline l \<le> now) \<or> (\<exists>t w. at = Some t \<and> head_wait to = Some w \<and> t + w \<le> now)"
  by (auto simp: passed_def head_deadline_def update_deadline_def headers_timeout_def head_wait_def Let_def split: option.splits)

text \<open>C35: While the head of a response is awaited, the stream fails with a timeout exactly when its
  lifetime is over or the body of the request ended longer ago than the time allowed for the headers
  (than the time allowed for the whole response, when there is none for the headers); it is never
  failed without a timeout having passed.\<close>

theorem response_head_timeout_iff:
  assumes "stream_run es (stream_new t0 (Some to)) = (outs, w)" "str_future w = Some fut"
  shows "fst (response_future_poll now Pending fut (str_shared w)) \<noteq>
      (Pending :: ('q \<times> response_body, ('d, response_timeout_error) stream_error) result poll) \<longleftrightarrow>
    (\<exists>l. to_limit to = Some l \<and> sl_deadline l \<le> now) \<or>
    (\<exists>t w'. flushed_time now fut (sh_flushed (str_shared w)) = Some t \<and> head_wait to = Some w' \<and> t + w' \<le> now)"
proof -
  have "head_inv to fut"
    by (rule head_run [OF assms(1) _ assms(2)])
      (auto simp: stream_new_def enforce_call_def head_inv_def head_deadline_def Let_def)
  from poll_flushed_deadline [OF this] show ?thesis
    unfolding head_deadline_passed [symmetric]
    by (auto simp: response_future_poll_def passed_def Let_def split: option.splits)
qed

definition sample_timeouts :: stream_timeouts where
  "sample_timeouts = no_timeouts\<lparr> to_response_headers := Some 5, to_response_end := Some 3 \<rparr>"

definition flushed_polls :: "(instant \<times> (nat, nat, unit) stream_event) list" where
  "flushed_polls = [(1, Poll_Future Pending), (2, Poll_Request (Ready None) True)]"

theorem response_head_timeout_iff_witness:
  "\<exists>outs w fut. stream_run flushed_polls (stream_new 0 (Some sample_timeouts)) = (outs, w) \<and> str_future w = Some fut \<and>
     fst (response_future_poll 6 Pending fut (str_shared w)) = (Pending :: (nat \<times> response_body, (unit, _) stream_error) result poll) \<and>
     fst (response_future_poll 7 Pending fut (str_shared w)) \<noteq> (Pending :: (nat \<times> response_body, (unit, _) stream_error) result poll)"
proof -
  obtain outs w where run: "stream_run flushed_polls (stream_new 0 (Some sample_timeouts)) = (outs, w)"
    by (cases "stream_run flushed_polls (stream_new 0 (Some sample_timeouts))")
  then have "\<exists>fut. str_future w = Some fut \<and> fut_request_flushed_at fut = None \<and> sh_flushed (str_shared w) = Sent_At 2"
    by (auto simp: flushed_polls_def stream_new_def enforce_call_def sample_timeouts_def no_timeouts_def
        request_body_poll_def response_future_poll_def poll_flushed_def Let_def)
  then obtain fut where f: "str_future w = Some fut" "fut_request_flushed_at fut = None" "sh_flushed (str_shared w) = Sent_At 2"
    by blast
  note iff = response_head_timeout_iff [OF run f(1), where 'q = nat and 'd = unit]
  show ?thesis using run f iff [of 6] iff [of 7]
    by (auto simp: flushed_time_def head_wait_def sample_timeouts_def no_timeouts_def)
qed

text \<open>The time allowed for the whole response is not a bound on the wait for its head when a longer
  time is allowed for the head: the future is still pending after it has passed.\<close>

lemma response_end_not_enforced_on_head:
  assumes "to_response_headers to = Some eoh" "to_response_end to = Some eos" "to_limit to = None"
    and "fut_timeouts fut = to" "fut_deadline fut = None" "fut_request_flushed fut" "sh_flushed sh = Sent_At t"
    and "t + eos \<le> now" "now < t + eoh"
  shows "fst (response_future_poll now Pending fut sh) = Pending"
  using assms by (simp add: response_future_poll_def poll_flushed_def update_deadline_def headers_timeout_def Let_def)

end
