(* ===== verification/Route_Retry.thy ===== *)
theory Route_Retry
  imports Http_Retry Stream_Timeouts Classify Dns_Name
begin

text \<open>
  The retries and timeouts of an outbound route: the retry policy
  (\<open>linkerd/app/outbound/src/http/logical/policy/route/retry.rs\<close>) and the middleware that
  configures it, with the timeouts, from the route and from the \<open>l5d-\<close> headers of a request
  (\<open>route/extensions.rs\<close>). A response error is the list of itself and its causes; the extensions
  of a request are the entries that this code reads or sets.
\<close>

section \<open>The retry policy\<close>

record route_retry =
  rr_timeout :: "duration option"
  rr_http_statuses :: "status_ranges option"
  rr_grpc_statuses :: "codes option"
  rr_max_retries :: nat
  rr_max_request_bytes :: nat
  rr_backoff :: "exponential_backoff option"

definition retry_param :: "route_retry \<Rightarrow> retry_params" where
  "retry_param p = \<lparr> max_retries = rr_max_retries p, max_request_bytes = rr_max_request_bytes p,
     retry_backoff = rr_backoff p \<rparr>"

datatype h2_reason = REFUSED_STREAM | Other_Reason

datatype cause =
    LoadShedError
  | FailFastError
  | ResponseTimeoutError response_timeout_error
  | H2Error "h2_reason option"
  | Other_Cause

type_synonym error_chain = "cause list"

definition is_caused_by :: "(cause \<Rightarrow> bool) \<Rightarrow> error_chain \<Rightarrow> bool" where
  "is_caused_by is err \<longleftrightarrow> list_ex is err"

fun as_timeout :: "cause \<Rightarrow> response_timeout_error option" where
  "as_timeout (ResponseTimeoutError e) = Some e"
| "as_timeout _ = None"

fun as_h2 :: "cause \<Rightarrow> h2_reason option option" where
  "as_h2 (H2Error r) = Some r"
| "as_h2 _ = None"

fun cause_ref :: "(cause \<Rightarrow> 'a option) \<Rightarrow> error_chain \<Rightarrow> 'a option" where
  "cause_ref downcast [] = None"
| "cause_ref downcast (e # source) = (case downcast e of Some x \<Rightarrow> Some x | None \<Rightarrow> cause_ref downcast source)"

definition retryable_error :: "error_chain \<Rightarrow> bool" where
  "retryable_error err =
    (if is_caused_by (\<lambda>c. c = LoadShedError) err then False
     else if is_caused_by (\<lambda>c. c = FailFastError) err then True
     else if (case cause_ref as_timeout err of Some (RT_Headers _) \<Rightarrow> True | _ \<Rightarrow> False) then True
     else if cause_ref as_h2 err = Some (Some REFUSED_STREAM) then True
     else False)"

definition value_grpc_status ::
  "('re, 'h) http_api \<Rightarrow> (int \<Rightarrow> grpc_code) \<Rightarrow> header_value \<Rightarrow> grpc_code option" where
  "value_grpc_status api from_i32 v = map_option from_i32 (Option.bind (value_to_str api v) parse_i32)"

definition grpc_status ::
  "('re, 'h) http_api \<Rightarrow> (int \<Rightarrow> grpc_code) \<Rightarrow> ('h, ('h, 'e) peek_body) http_response \<Rightarrow> grpc_code option" where
  "grpc_status api from_i32 rsp = (case hdr_get api (hr_headers rsp) ''grpc-status'' of
     Some header \<Rightarrow> value_grpc_status api from_i32 header
   | None \<Rightarrow>
       (case peek_trailers (hr_body rsp) of
          None \<Rightarrow> None
        | Some trailer \<Rightarrow> Option.bind (hdr_get api trailer ''grpc-status'') (value_grpc_status api from_i32)))"

definition route_is_retryable ::
  "('re, 'h) http_api \<Rightarrow> (int \<Rightarrow> grpc_code) \<Rightarrow> route_retry \<Rightarrow> ('h, 'e, error_chain) peek_result \<Rightarrow> bool" where
  "route_is_retryable api from_i32 p res = (case res of
     Inl err \<Rightarrow> retryable_error err
   | Inr rsp \<Rightarrow>
       if (case rr_grpc_statuses p of
             None \<Rightarrow> False
           | Some codes \<Rightarrow> (case grpc_status api from_i32 rsp of None \<Rightarrow> False | Some c \<Rightarrow> codes_contains codes c))
       then True
       else if (case rr_http_statuses p of
             None \<Rightarrow> False
           | Some statuses \<Rightarrow> status_ranges_contains statuses (hr_status rsp))
       then True
       else False)"

section \<open>Request extensions\<close>

record 'c extensions =
  ext_retry :: "route_retry option"
  ext_timeouts :: "stream_timeouts option"
  ext_attempt :: "nat option"
  ext_client_handle :: "'c option"
  ext_classify :: "classify_response option"

definition no_extensions :: "'c extensions" where
  "no_extensions = \<lparr> ext_retry = None, ext_timeouts = None, ext_attempt = None, ext_client_handle = None, ext_classify = None \<rparr>"

definition route_set_extensions :: "route_retry \<Rightarrow> 'c extensions \<Rightarrow> 'c extensions \<Rightarrow> 'c extensions" where
  "route_set_extensions p dst src =
    (let attempt = (case ext_attempt src of Some n \<Rightarrow> min (n + 1) u16_max | None \<Rightarrow> 2);
         dst = dst\<lparr> ext_attempt := Some attempt \<rparr>;
         dst = (case ext_timeouts src of
                  None \<Rightarrow> dst
                | Some timeouts \<Rightarrow>
                    let retries_remain = attempt \<le> rr_max_retries p;
                        timeouts = (if \<not> retries_remain then timeouts\<lparr> to_response_headers := None \<rparr> else timeouts) in
                    dst\<lparr> ext_timeouts := Some timeouts \<rparr>);
         dst = (case ext_client_handle src of None \<Rightarrow> dst | Some h \<Rightarrow> dst\<lparr> ext_client_handle := Some h \<rparr>) in
     case ext_classify src of None \<Rightarrow> dst | Some c \<Rightarrow> dst\<lparr> ext_classify := Some c \<rparr>)"

definition route_retry_policy ::
  "('re, 'h) http_api \<Rightarrow> (int \<Rightarrow> grpc_code) \<Rightarrow> route_retry \<Rightarrow> ('h, 'c extensions, 'e, error_chain) retry_policy" where
  "route_retry_policy api from_i32 p = \<lparr> pol_params = retry_param p, is_retryable = route_is_retryable api from_i32 p,
     set_headers = set_headers_default, set_extensions = route_set_extensions p \<rparr>"

definition remove_route_retry ::
  "('re, 'h) http_api \<Rightarrow> (int \<Rightarrow> grpc_code) \<Rightarrow> 'c extensions
    \<Rightarrow> ('h, 'c extensions, 'e, error_chain) retry_policy option \<times> 'c extensions" where
  "remove_route_retry api from_i32 exts =
    (map_option (route_retry_policy api from_i32) (ext_retry exts), exts\<lparr> ext_retry := None \<rparr>)"

section \<open>Headers that configure retries and timeouts\<close>

definition eq_ignore_ascii_case :: "string \<Rightarrow> string \<Rightarrow> bool" where
  "eq_ignore_ascii_case s t \<longleftrightarrow> to_ascii_lowercase s = to_ascii_lowercase t"

definition to_code :: "string \<Rightarrow> nat option" where
  "to_code s = (case parse_uint u16_max s of
     None \<Rightarrow> None | Some code \<Rightarrow> if 100 \<le> code \<and> code < 600 then Some code else None)"

definition http_condition :: "string \<Rightarrow> (nat \<times> nat) option" where
  "http_condition cond =
    (if eq_ignore_ascii_case cond ''5xx'' then Some (500, 599)
     else if eq_ignore_ascii_case cond ''gateway-error'' then Some (502, 504)
     else case to_code cond of
       Some code \<Rightarrow> Some (code, code)
     | None \<Rightarrow>
         (case split_once (CHR ''-'') cond of
            None \<Rightarrow> None
          | Some (start, end) \<Rightarrow>
              (case (to_code start, to_code end) of
                 (Some s, Some e) \<Rightarrow> if s \<le> e then Some (s, e) else None
               | _ \<Rightarrow> None)))"

definition parse_http_conditions :: "string \<Rightarrow> status_ranges option" where
  "parse_http_conditions s = Some (List.map_filter http_condition (split_on (CHR '','') s))"

definition grpc_condition :: "string \<Rightarrow> nat option" where
  "grpc_condition cond =
    (if eq_ignore_ascii_case cond ''cancelled'' then Some (code_as_u16 Cancelled)
     else if eq_ignore_ascii_case cond ''deadline-exceeded'' then Some (code_as_u16 DeadlineExceeded)
     else if eq_ignore_ascii_case cond ''internal'' then Some (code_as_u16 Internal)
     else if eq_ignore_ascii_case cond ''resource-exhausted'' then Some (code_as_u16 ResourceExhausted)
     else if eq_ignore_ascii_case cond ''unavailable'' then Some (code_as_u16 Unavailable)
     else None)"

definition parse_grpc_conditions :: "string \<Rightarrow> codes option" where
  "parse_grpc_conditions s = Some (List.map_filter grpc_condition (split_on (CHR '','') s))"

text \<open>A string split after its last digit.\<close>

definition split_last_digit :: "string \<Rightarrow> (string \<times> string) option" where
  "split_last_digit s =
    (case dropWhile (\<lambda>c. \<not> is_digit c) (rev s) of
       [] \<Rightarrow> None
     | r \<Rightarrow> Some (rev r, drop (length r) s))"

definition unit_millis :: "nat \<Rightarrow> string \<Rightarrow> nat option" where
  "unit_millis magnitude unit =
    (if unit = '''' \<and> magnitude = 0 then Some 0
     else if unit = ''ms'' then Some 1
     else if unit = ''s'' then Some 1000
     else if unit = ''m'' then Some (1000 * 60)
     else if unit = ''h'' then Some (1000 * 60 * 60)
     else if unit = ''d'' then Some (1000 * 60 * 60 * 24)
     else None)"

definition parse_duration_str :: "string \<Rightarrow> duration option" where
  "parse_duration_str s =
    (case split_last_digit (trim s) of
       None \<Rightarrow> None
     | Some (magnitude, unit) \<Rightarrow>
         (case parse_uint u64_max magnitude of
            None \<Rightarrow> None
          | Some magnitude \<Rightarrow>
              (case unit_millis magnitude unit of
                 None \<Rightarrow> None
               | Some mul \<Rightarrow>
                   (let ms = magnitude * mul in if ms \<le> u64_max then Some (from_millis ms) else None))))"

definition parse_duration :: "('re, 'h) http_api \<Rightarrow> header_value \<Rightarrow> duration option" where
  "parse_duration api hv = Option.bind (value_to_str api hv) parse_duration_str"

record route_params =
  rp_retry :: "route_retry option"
  rp_response :: "duration option"
  rp_request :: "duration option"
  rp_idle :: "duration option"
  rp_allow_l5d :: bool

text \<open>Removing a header returns its first value.\<close>

definition hdr_take :: "('re, 'h) http_api \<Rightarrow> header_name \<Rightarrow> 'h \<Rightarrow> header_value option \<times> 'h" where
  "hdr_take api n h = (hdr_get api h n, hdr_remove api h n)"

definition default_user_retry ::
  "status_ranges option \<Rightarrow> codes option \<Rightarrow> nat option \<Rightarrow> duration option \<Rightarrow> route_retry" where
  "default_user_retry http grpc limit timeout =
    \<lparr> rr_timeout = timeout, rr_http_statuses = http, rr_grpc_statuses = grpc,
      rr_max_retries = (case limit of Some n \<Rightarrow> n | None \<Rightarrow> 1), rr_max_request_bytes = 64 * 1024,
      rr_backoff = Some \<lparr> eb_min = from_millis 25, eb_max = from_millis 250, eb_jitter = F64 1 \<rparr> \<rparr>"

definition configure_retry :: "('re, 'h) http_api \<Rightarrow> route_params \<Rightarrow> 'h \<Rightarrow> route_retry option \<times> 'h" where
  "configure_retry api params h =
    (if \<not> rp_allow_l5d params then (rp_retry params, h)
     else
       case hdr_take api ''l5d-retry-http'' h of (v, h) \<Rightarrow>
       let http = Option.bind (Option.bind v (value_to_str api)) parse_http_conditions in
       case hdr_take api ''l5d-retry-grpc'' h of (v, h) \<Rightarrow>
       let grpc = Option.bind (Option.bind v (value_to_str api)) parse_grpc_conditions in
       case hdr_take api ''l5d-retry-limit'' h of (v, h) \<Rightarrow>
       let limit = Option.bind (Option.bind v (value_to_str api)) (parse_uint u64_max) in
       case hdr_take api ''l5d-retry-timeout'' h of (v, h) \<Rightarrow>
       let timeout = Option.bind v (parse_duration api) in
       (case rp_retry params of
          Some retry \<Rightarrow>
            Some (retry\<lparr> rr_timeout := (case timeout of Some t \<Rightarrow> Some t | None \<Rightarrow> rr_timeout retry),
                         rr_http_statuses := (case http of Some x \<Rightarrow> Some x | None \<Rightarrow> rr_http_statuses retry),
                         rr_grpc_statuses := (case grpc of Some x \<Rightarrow> Some x | None \<Rightarrow> rr_grpc_statuses retry),
                         rr_max_retries := (case limit of Some n \<Rightarrow> n | None \<Rightarrow> rr_max_retries retry) \<rparr>)
        | None \<Rightarrow>
            (if http = None \<and> grpc = None \<and> limit = None \<and> timeout = None then None
             else Some (default_user_retry http grpc limit timeout)),
        h))"

definition configure_timeouts ::
  "('re, 'h) http_api \<Rightarrow> instant \<Rightarrow> route_params \<Rightarrow> 'h \<Rightarrow> stream_timeouts \<times> 'h" where
  "configure_timeouts api now params h =
    (let timeouts = \<lparr> to_response_headers = None, to_response_end = rp_response params, to_idle = rp_idle params,
           to_limit = map_option (lifetime_from now) (rp_request params) \<rparr> in
     if \<not> rp_allow_l5d params then (timeouts, h)
     else
       case hdr_take api ''l5d-timeout'' h of (v, h) \<Rightarrow>
       let timeouts = (case Option.bind v (parse_duration api) of
             Some t \<Rightarrow> timeouts\<lparr> to_limit := Some (lifetime_from now t) \<rparr> | None \<Rightarrow> timeouts) in
       case hdr_take api ''l5d-request-timeout'' h of (v, h) \<Rightarrow>
       let timeouts = (case Option.bind v (parse_duration api) of
             Some t \<Rightarrow> timeouts\<lparr> to_limit := Some (lifetime_from now t) \<rparr> | None \<Rightarrow> timeouts) in
       case hdr_take api ''l5d-response-timeout'' h of (v, h) \<Rightarrow>
       let timeouts = (case Option.bind v (parse_duration api) of
             Some t \<Rightarrow> timeouts\<lparr> to_response_end := Some t \<rparr> | None \<Rightarrow> timeouts) in
       (timeouts, h))"

definition set_extensions_call ::
  "('re, 'h) http_api \<Rightarrow> instant \<Rightarrow> route_params \<Rightarrow> ('h, 'c extensions) req_head \<Rightarrow> ('h, 'c extensions) req_head" where
  "set_extensions_call api now params req =
    (case configure_retry api params (rh_headers req) of (retry, h) \<Rightarrow>
     case configure_timeouts api now params h of (timeouts, h) \<Rightarrow>
     let timeouts = timeouts\<lparr> to_response_headers := Option.bind retry rr_timeout \<rparr>;
         exts = rh_extensions req;
         exts = (case retry of Some r \<Rightarrow> exts\<lparr> ext_retry := Some r \<rparr> | None \<Rightarrow> exts);
         exts = exts\<lparr> ext_timeouts := Some timeouts \<rparr>;
         exts = exts\<lparr> ext_attempt := Some 1 \<rparr> in
     req\<lparr> rh_headers := h, rh_extensions := exts \<rparr>)"

section \<open>Attempts\<close>

lemma route_set_extensions_fields:
  "ext_attempt (route_set_extensions p no_extensions src) =
     Some (case ext_attempt src of Some n \<Rightarrow> min (n + 1) u16_max | None \<Rightarrow> 2)"
  "ext_timeouts (route_set_extensions p no_extensions src) =
     map_option (\<lambda>t. if (case ext_attempt src of Some n \<Rightarrow> min (n + 1) u16_max | None \<Rightarrow> 2) \<le> rr_max_retries p
       then t else t\<lparr> to_response_headers := None \<rparr>) (ext_timeouts src)"
  "ext_client_handle (route_set_extensions p no_extensions src) = ext_client_handle src"
  "ext_classify (route_set_extensions p no_extensions src) = ext_classify src"
  "ext_retry (route_set_extensions p no_extensions src) = None"
  by (simp_all add: route_set_extensions_def no_extensions_def Let_def split: option.splits)

text \<open>The request that is sent as the attempt after \<open>i\<close> others.\<close>

definition attempt_request ::
  "('re, 'h) http_api \<Rightarrow> (int \<Rightarrow> grpc_code) \<Rightarrow> 'h \<Rightarrow> route_retry \<Rightarrow> ('h, 'c extensions) req_head \<Rightarrow> nat
    \<Rightarrow> ('h, 'c extensions) req_head" where
  "attempt_request api from_i32 nh p req i =
     (mk_backup nh no_extensions (route_retry_policy api from_i32 p :: ('h, 'c extensions, unit, error_chain) retry_policy) ^^ i) req"

lemma mk_backup_route:
  "mk_backup nh no_extensions (route_retry_policy api from_i32 p :: ('h, 'c extensions, 'e, error_chain) retry_policy) req =
     req\<lparr> rh_extensions := route_set_extensions p no_extensions (rh_extensions req) \<rparr>"
  by (simp add: mk_backup_def route_retry_policy_def set_headers_default_def)

lemma attempt_request_Suc:
  "attempt_request api from_i32 nh p req (Suc i) =
     (attempt_request api from_i32 nh p req i)
       \<lparr> rh_extensions := route_set_extensions p no_extensions (rh_extensions (attempt_request api from_i32 nh p req i)) \<rparr>"
  by (simp add: attempt_request_def mk_backup_route)

lemma attempt_request_eq:
  "(mk_backup nh no_extensions (route_retry_policy api from_i32 p :: ('h, 'c extensions, 'e, error_chain) retry_policy) ^^ i) req =
     attempt_request api from_i32 nh p req i"
  by (induction i) (simp_all add: attempt_request_def mk_backup_route)

lemma attempt_request_fields:
  fixes req :: "('h, 'c extensions) req_head" and api :: "('re, 'h) http_api"
    and from_i32 :: "int \<Rightarrow> grpc_code" and nh :: 'h and p :: route_retry
  assumes "ext_attempt (rh_extensions req) = Some 1" "ext_timeouts (rh_extensions req) = Some to"
  defines "x \<equiv> \<lambda>i. rh_extensions (attempt_request api from_i32 nh p req i)"
  shows "ext_attempt (x i) = Some (min (i + 1) u16_max)"
    "ext_timeouts (x i) = Some (if i = 0 \<or> min (i + 1) u16_max \<le> rr_max_retries p then to
       else to\<lparr> to_response_headers := None \<rparr>)"
    "ext_client_handle (x i) = ext_client_handle (rh_extensions req)" "ext_classify (x i) = ext_classify (rh_extensions req)"
    "rh_headers (attempt_request api from_i32 nh p req i) = rh_headers req"
proof (induction i)
  case 0
  { case 1 then show ?case using assms(1) by (simp add: x_def attempt_request_def u16_max_def) }
  { case 2 then show ?case using assms(2) by (simp add: x_def attempt_request_def) }
  { case 3 then show ?case by (simp add: x_def attempt_request_def) }
  { case 4 then show ?case by (simp add: x_def attempt_request_def) }
  { case 5 then show ?case by (simp add: attempt_request_def) }
next
  case (Suc i)
  have at: "ext_attempt (x (Suc i)) = Some (min (Suc i + 1) u16_max)"
    using Suc(1) by (simp add: x_def attempt_request_Suc route_set_extensions_fields)
  { case 1 then show ?case by (rule at) }
  { case 2
    have "x (Suc i) = route_set_extensions p no_extensions (x i)" by (simp add: x_def attempt_request_Suc)
    then show ?case using Suc(1,2) by (auto simp: route_set_extensions_fields) }
  { case 3 then show ?case using Suc(3) by (simp add: x_def attempt_request_Suc route_set_extensions_fields) }
  { case 4 then show ?case using Suc(4) by (simp add: x_def attempt_request_Suc route_set_extensions_fields) }
  { case 5 then show ?case using Suc(5) by (simp add: attempt_request_Suc) }
qed

text \<open>Under a route's retry policy the attempts of a request are numbered from one (the count stops
  at the largest 16-bit number), every attempt has the headers, the client handle and the classifier
  of the original, and every attempt has its timeouts, but for the time allowed for the response's headers,
  which is lifted from an attempt after which no retry is left.\<close>

theorem route_retry_attempts:
  assumes "send_req_with_retries (logged svc) nh no_extensions (route_retry_policy api from_i32 p) m (s, []) req rb sh = (r, m', s', lg)"
    and "ext_attempt (rh_extensions req) = Some 1" "ext_timeouts (rh_extensions req) = Some to" "i < length lg"
  shows "let x = rh_extensions (fst (lg ! i)) in
     rh_headers (fst (lg ! i)) = rh_headers req \<and>
     ext_attempt x = Some (min (i + 1) u16_max) \<and>
     ext_client_handle x = ext_client_handle (rh_extensions req) \<and> ext_classify x = ext_classify (rh_extensions req) \<and>
     ext_timeouts x = Some (if i = 0 \<or> min (i + 1) u16_max \<le> rr_max_retries p then to
       else to\<lparr> to_response_headers := None \<rparr>)"
proof -
  have "keeps svc (\<lambda>_ _. True)" by (simp add: keeps_def)
  from send_log [OF assms(1) this]
  have "map fst lg = map (\<lambda>i. attempt_request api from_i32 nh p req i) [0..<length lg]" by (auto simp: attempt_request_eq)
  then have "fst (lg ! i) = attempt_request api from_i32 nh p req i"
    using assms(4) by (metis (no_types, lifting) add_0 diff_zero length_map nth_map nth_upt)
  then show ?thesis
    using attempt_request_fields [OF assms(2,3), of api from_i32 nh p i] by (simp only: Let_def)
qed

definition sample_timeouts_5 :: stream_timeouts where
  "sample_timeouts_5 = no_timeouts\<lparr> to_response_headers := Some 5 \<rparr>"

definition retry_once :: route_retry where
  "retry_once = \<lparr> rr_timeout = Some 5, rr_http_statuses = Some [(500, 599)], rr_grpc_statuses = None,
     rr_max_retries = 1, rr_max_request_bytes = 9, rr_backoff = None \<rparr>"

definition failing_svc :: "(header_name \<Rightarrow> header_value list, unit extensions, unit, error_chain, unit) retry_svc" where
  "failing_svc = \<lparr>
     svc_ready = (\<lambda>s. (Ready (Inr ()), s)), svc_call_body = (\<lambda>s req body. (Inl [], s)),
     svc_call = (\<lambda>s req rb sh. (Inl [FailFastError], replay_drop rb sh, s)) \<rparr>"

theorem route_retry_attempts_witness:
  "\<exists>r m' s' lg. send_req_with_retries (logged failing_svc) (\<lambda>_. []) no_extensions
       (route_retry_policy fun_headers_api (\<lambda>_. Unknown) retry_once) no_retries ((), [])
       \<lparr> rh_method = ''GET'', rh_uri = rh_uri sample_head, rh_version = HTTP_2, rh_headers = (\<lambda>_. []),
         rh_extensions = no_extensions\<lparr> ext_attempt := Some 1, ext_timeouts := Some sample_timeouts_5 \<rparr> \<rparr>
       \<lparr> rb_state = Some (body_state_new [] 9), rb_flags = quiet \<rparr>
       \<lparr> rs_body = None, rs_was_empty = True, rs_size_lower = 0, rs_size_upper = None \<rparr> = (r, m', s', lg) \<and>
     length lg = 2 \<and> ext_attempt (rh_extensions (fst (lg ! 1))) = Some 2 \<and>
     ext_timeouts (rh_extensions (fst (lg ! 1))) = Some no_timeouts"
    (is "\<exists>r m' s' lg. ?send = (r, m', s', lg) \<and> _")
proof -
  obtain r m' s' lg where e: "?send = (r, m', s', lg)" by (cases ?send)
  have "length lg = 2"
    using e by (simp add: send_req_with_retries_def send_req_def logged_def failing_svc_def route_retry_policy_def
        route_is_retryable_def retryable_error_def is_caused_by_def retry_once_def retry_param_def cannot_replay_def
        replay_is_capped_def replay_clone_def replay_drop_def body_state_new_def bd_is_capped_def Let_def) auto
  then have "1 < length lg" by simp
  from route_retry_attempts [OF e _ _ this, of sample_timeouts_5] e \<open>length lg = 2\<close> show ?thesis
    by (auto simp: Let_def u16_max_def retry_once_def sample_timeouts_5_def no_timeouts_def numeral_2_eq_2)
qed

section \<open>Durations\<close>

definition time_units :: "(string \<times> nat) list" where
  "time_units = [(''ms'', 1), (''s'', 1000), (''m'', 60000), (''h'', 3600000), (''d'', 86400000)]"

lemma dropWhile_hd: "s \<noteq> [] \<Longrightarrow> \<not> P (hd s) \<Longrightarrow> dropWhile P (s @ t) = s @ t"
  by (cases s) simp_all

lemma dropWhile_all: "list_all P a \<Longrightarrow> dropWhile P (a @ s) = dropWhile P s"
  by (simp add: dropWhile_append list_all_iff)

lemma trim_pad:
  assumes "list_all is_whitespace a" "list_all is_whitespace b" "s \<noteq> []" "\<not> is_whitespace (hd s)" "\<not> is_whitespace (last s)"
  shows "trim (a @ s @ b) = s"
proof -
  have "dropWhile is_whitespace (a @ s @ b) = s @ b"
    using assms by (simp add: dropWhile_all dropWhile_hd)
  moreover have "dropWhile is_whitespace (rev b @ rev s) = rev s"
    using assms dropWhile_hd [of "rev s" is_whitespace "[]"] by (simp add: dropWhile_all hd_rev)
  ultimately show ?thesis by (simp add: trim_def)
qed

lemma show_nat_ends: "is_digit (hd (show_nat n))" "is_digit (last (show_nat n))"
  using show_nat_is_digit [of n] show_nat_not_Nil [of n] by (auto simp: list_all_iff)

lemma digit_not_ws: "is_digit c \<Longrightarrow> \<not> is_whitespace c"
  by (auto simp: is_digit_def is_whitespace_def)

lemma split_last_digit_append:
  assumes "s \<noteq> []" "is_digit (last s)" "list_all (\<lambda>c. \<not> is_digit c) t"
  shows "split_last_digit (s @ t) = Some (s, t)"
proof -
  have "dropWhile (\<lambda>c. \<not> is_digit c) (rev t @ rev s) = dropWhile (\<lambda>c. \<not> is_digit c) (rev s)"
    using assms(3) by (simp add: dropWhile_all)
  also have "\<dots> = rev s" using assms(1,2) dropWhile_hd [of "rev s" "\<lambda>c. \<not> is_digit c" "[]"] by (simp add: hd_rev)
  finally show ?thesis using assms(1) by (simp add: split_last_digit_def split: list.splits)
qed

lemma time_unit_cases:
  assumes "(u, mul) \<in> set time_units"
  shows "unit_millis n u = Some mul" "u \<noteq> []" "\<not> is_whitespace (last u)" "list_all (\<lambda>c. \<not> is_digit c) u"
  using assms by (auto simp: time_units_def unit_millis_def is_whitespace_def is_digit_def)

text \<open>C36: A duration written as a decimal number and a unit, with white space around it, is read as that
  many units, and refused exactly when the number of milliseconds does not fit 64 bits.\<close>

theorem duration_round_trip:
  assumes "(u, mul) \<in> set time_units" "list_all is_whitespace a" "list_all is_whitespace b"
  shows "parse_duration_str (a @ show_nat n @ u @ b) =
    (if n * mul \<le> u64_max then Some (from_millis (n * mul)) else None)"
proof -
  note u = time_unit_cases [OF assms(1)]
  have t: "trim (a @ (show_nat n @ u) @ b) = show_nat n @ u"
    using u(2,3) digit_not_ws [OF show_nat_ends(1) [of n]] show_nat_not_Nil [of n] assms(2,3)
    by (intro trim_pad) auto
  have "1 \<le> mul" using assms(1) by (auto simp: time_units_def)
  then have le: "n \<le> n * mul" by simp
  have parse: "parse_uint u64_max (show_nat n) = (if n \<le> u64_max then Some n else None)"
    using parse_show_nat [of n u64_max] parse_show_nat_big [of u64_max n] by (cases "n \<le> u64_max") auto
  have split: "split_last_digit (show_nat n @ u) = Some (show_nat n, u)"
    by (rule split_last_digit_append [OF show_nat_not_Nil show_nat_ends(2) u(4)])
  have "parse_duration_str (a @ show_nat n @ u @ b) =
      (if n \<le> u64_max then if n * mul \<le> u64_max then Some (from_millis (n * mul)) else None else None)"
    using t by (simp only: parse_duration_str_def append_assoc split parse option.case prod.case u(1) Let_def if_distrib [of "case_option _ _"])
  moreover have "n \<le> u64_max" if "n * mul \<le> u64_max" using le that by (rule le_trans)
  ultimately show ?thesis by (cases "n * mul \<le> u64_max"; simp)
qed

theorem duration_round_trip_witness:
  "parse_duration_str ('' '' @ show_nat 90 @ ''s'' @ '' '') = Some (from_millis 90000)"
proof -
  have "(''s'', 1000) \<in> set time_units" "list_all is_whitespace '' ''" by (simp_all add: time_units_def is_whitespace_def)
  from duration_round_trip [OF this this(2), of 90] show ?thesis by (simp add: u64_max_def)
qed

section \<open>Headers of the request\<close>

definition l5d_headers :: "header_name list" where
  "l5d_headers = [''l5d-retry-http'', ''l5d-retry-grpc'', ''l5d-retry-limit'', ''l5d-retry-timeout'',
     ''l5d-timeout'', ''l5d-request-timeout'', ''l5d-response-timeout'']"

lemma hdr_removeD: "header_map_laws api \<Longrightarrow>
    hdr_get_all api (hdr_remove api h n) k = (if k = n then [] else hdr_get_all api h k)"
  unfolding header_map_laws_def by blast

text \<open>C37: The headers with which a client may configure retries and timeouts never leave the proxy where
  clients may use them: they are removed whether or not they can be read, and no other header is touched. Where
  clients may not use them, the headers pass unchanged and have no effect: the retries and the timeouts
  are the route's.\<close>

theorem l5d_headers_are_consumed:
  assumes "header_map_laws api"
  shows "if rp_allow_l5d params
    then hdr_get_all api (rh_headers (set_extensions_call api now params req)) k =
      (if k \<in> set l5d_headers then [] else hdr_get_all api (rh_headers req) k)
    else rh_headers (set_extensions_call api now params req) = rh_headers req \<and>
      ext_timeouts (rh_extensions (set_extensions_call api now params req)) =
        Some \<lparr> to_response_headers = Option.bind (rp_retry params) rr_timeout, to_response_end = rp_response params,
               to_idle = rp_idle params, to_limit = map_option (lifetime_from now) (rp_request params) \<rparr> \<and>
      ext_retry (rh_extensions (set_extensions_call api now params req)) =
        (case rp_retry params of Some r \<Rightarrow> Some r | None \<Rightarrow> ext_retry (rh_extensions req))"
proof (cases "rp_allow_l5d params")
  case True
  then show ?thesis
    by (simp add: set_extensions_call_def configure_retry_def configure_timeouts_def hdr_take_def Let_def
        hdr_removeD [OF assms] l5d_headers_def)
next
  case False
  then show ?thesis
    by (simp add: set_extensions_call_def configure_retry_def configure_timeouts_def Let_def split: option.splits)
qed

definition l5d_request :: "(header_name \<Rightarrow> header_value list, unit extensions) req_head" where
  "l5d_request = \<lparr> rh_method = ''GET'', rh_uri = rh_uri sample_head, rh_version = HTTP_2,
     rh_headers = (\<lambda>_. [])(''l5d-timeout'' := [''never''], ''host'' := [''a'']), rh_extensions = no_extensions \<rparr>"

definition l5d_params :: route_params where
  "l5d_params = \<lparr> rp_retry = None, rp_response = None, rp_request = None, rp_idle = None, rp_allow_l5d = True \<rparr>"

theorem l5d_headers_are_consumed_witness:
  "hdr_get_all fun_headers_api (rh_headers (set_extensions_call fun_headers_api 0 l5d_params l5d_request)) ''l5d-timeout'' = [] \<and>
   hdr_get_all fun_headers_api (rh_headers (set_extensions_call fun_headers_api 0 l5d_params l5d_request)) ''host'' = [''a'']"
proof -
  have allow: "rp_allow_l5d l5d_params" by (simp add: l5d_params_def)
  have host: "hdr_get_all fun_headers_api (rh_headers l5d_request) ''host'' = [''a'']"
    by (simp add: l5d_request_def fun_headers_api_def)
  note consumed = l5d_headers_are_consumed [OF fun_headers_api_laws, of l5d_params 0 l5d_request, simplified allow if_True]
  have "''l5d-timeout'' \<in> set l5d_headers" "''host'' \<notin> set l5d_headers" by (simp_all add: l5d_headers_def)
  then show ?thesis by (simp only: consumed host if_True if_False)
qed

text \<open>Whatever a client writes, the status ranges that are read from it are ranges of HTTP statuses.\<close>

lemma to_code_range: "to_code s = Some c \<Longrightarrow> 100 \<le> c \<and> c < 600"
  unfolding to_code_def by (cases "parse_uint u16_max s") (simp_all split: if_splits)

lemma http_condition_range: "http_condition s = Some (lo, hi) \<Longrightarrow> 100 \<le> lo \<and> lo \<le> hi \<and> hi < 600"
proof (cases "to_code s")
  case None
  assume "http_condition s = Some (lo, hi)"
  with None show ?thesis
    unfolding http_condition_def
    by (simp split: if_splits option.splits prod.splits) (use to_code_range in blast)+
next
  case (Some c)
  assume "http_condition s = Some (lo, hi)"
  with Some to_code_range [OF Some] show ?thesis unfolding http_condition_def by (simp split: if_splits)
qed

lemma parse_http_conditions_valid:
  assumes "parse_http_conditions s = Some ranges" "(lo, hi) \<in> set ranges"
  shows "100 \<le> lo \<and> lo \<le> hi \<and> hi < 600"
proof -
  from assms obtain cond where "http_condition cond = Some (lo, hi)"
    by (auto simp: parse_http_conditions_def List.map_filter_def)
  then show ?thesis by (rule http_condition_range)
qed

end
