(* ===== verification/Distribute.thy ===== *)
theory Distribute
  imports Rust_Prelude
begin

text \<open>
  The distribution of requests over backends (\<open>linkerd/distribute/src\<close>): the keys of a
  distribution, the cache of backend services, and the services that take the first ready backend or a
  random one by weight. A backend service is its state; polling it for readiness is a parameter. The weighted
  index of the \<open>rand\<close> crate is a record of its operations, with its documented behaviour as laws: it
  samples an index of positive weight, and setting a weight to zero fails when no other weight is left.
\<close>

section \<open>Keys\<close>

type_synonym key_id = nat

record 'k service_keys =
  sk_ids :: "key_id list"
  sk_keys :: "key_id \<rightharpoonup> 'k"

record 'k weighted_key =
  wk_key :: 'k
  wk_weight :: nat

definition service_keys_new :: "'k list \<Rightarrow> 'k service_keys" where
  "service_keys_new ks =
     foldl (\<lambda>sk (idx, key). \<lparr> sk_ids = sk_ids sk @ [idx], sk_keys = (sk_keys sk)(idx \<mapsto> key) \<rparr>)
       \<lparr> sk_ids = [], sk_keys = Map.empty \<rparr> (enumerate 0 ks)"

definition service_keys_get :: "'k service_keys \<Rightarrow> key_id \<Rightarrow> 'k outcome" where
  "service_keys_get sk kid = expect ''distribution lookup keys must be valid'' (sk_keys sk kid)"

definition try_get_id :: "'k service_keys \<Rightarrow> nat \<Rightarrow> key_id option" where
  "try_get_id sk idx = (if idx < length (sk_ids sk) then Some (sk_ids sk ! idx) else None)"

definition into_unweighted :: "'k weighted_key service_keys \<Rightarrow> 'k service_keys" where
  "into_unweighted sk = \<lparr> sk_ids = sk_ids sk, sk_keys = (\<lambda>kid. map_option wk_key (sk_keys sk kid)) \<rparr>"

datatype weighted_error = InvalidInput | InvalidWeight | InsufficientNonZero | Overflow

record ('i, 'g) weighted_api =
  wi_new :: "nat list \<Rightarrow> ('i, weighted_error) result"
  wi_sample :: "'i \<Rightarrow> 'g \<Rightarrow> nat \<times> 'g"
  wi_zero :: "nat \<Rightarrow> 'i \<Rightarrow> ('i, weighted_error) result"

fun collect_outcomes :: "'a outcome list \<Rightarrow> 'a list outcome" where
  "collect_outcomes [] = Returns []"
| "collect_outcomes (x # xs) =
     bind_outcome x (\<lambda>y. bind_outcome (collect_outcomes xs) (\<lambda>ys. Returns (y # ys)))"

definition weighted_index ::
  "('i, 'g) weighted_api \<Rightarrow> 'k weighted_key service_keys \<Rightarrow> ('i, weighted_error) result outcome" where
  "weighted_index api sk =
     bind_outcome (collect_outcomes (map (\<lambda>kid. service_keys_get sk kid) (sk_ids sk)))
       (\<lambda>ks. Returns (wi_new api (map wk_weight ks)))"

datatype 'k distribution =
    Dist_Empty
  | FirstAvailable "'k service_keys"
  | RandomAvailable "'k weighted_key service_keys"

definition first_available :: "'k list \<Rightarrow> 'k distribution" where
  "first_available ks =
    (let keys = service_keys_new ks in if sk_ids keys = [] then Dist_Empty else FirstAvailable keys)"

definition random_available ::
  "('i, 'g) weighted_api \<Rightarrow> ('k \<times> nat) list \<Rightarrow> ('k distribution, weighted_error) result outcome" where
  "random_available api kws =
    (let keys = service_keys_new (map (\<lambda>(key, weight). \<lparr> wk_key = key, wk_weight = weight \<rparr>) kws) in
     if length (sk_ids keys) < 2 then Returns (Ok (FirstAvailable (into_unweighted keys)))
     else bind_outcome (weighted_index api keys) (\<lambda>r. Returns
       (case r of Inl e \<Rightarrow> Err e | Inr _ \<Rightarrow> Ok (RandomAvailable keys))))"

section \<open>The cache of backends\<close>

text \<open>The cache is an association list with one entry for a key; the set of backends is given in
  the order in which it is iterated.\<close>

definition cache_retain :: "'k list \<Rightarrow> ('k \<times> 's) list \<Rightarrow> ('k \<times> 's) list" where
  "cache_retain backends cache = filter (\<lambda>(k, _). k \<in> set backends) cache"

fun cache_add :: "('k \<Rightarrow> 's) \<Rightarrow> 'k list \<Rightarrow> ('k \<times> 's) list \<Rightarrow> ('k \<times> 's) list" where
  "cache_add newk [] cache = cache"
| "cache_add newk (b # bs) cache =
     cache_add newk bs (if b \<in> fst ` set cache then cache else cache @ [(b, newk b)])"

definition backend_cache_new :: "('k \<Rightarrow> 's) \<Rightarrow> 'k list \<Rightarrow> ('k \<times> 's) list \<Rightarrow> ('k \<times> 's) list" where
  "backend_cache_new newk backends cache =
    (let cache = cache_retain backends cache in
     if length cache < length backends then cache_add newk backends cache else cache)"

definition backend_cache_get :: "('k \<times> 's) list \<Rightarrow> 'k \<Rightarrow> 's outcome" where
  "backend_cache_get cache k = expect ''target must be in cache'' (map_of cache k)"

section \<open>Services\<close>

record ('s, 'e, 'q, 'r) backend_api =
  be_poll_ready :: "'s \<Rightarrow> (unit, 'e) result poll \<times> 's"
  be_call :: "'s \<Rightarrow> 'q \<Rightarrow> 'r \<times> 's"

record 's first_selection =
  fs_backends :: "'s list"
  fs_ready_idx :: "nat option"

definition first_new :: "('k \<Rightarrow> 's outcome) \<Rightarrow> 'k service_keys \<Rightarrow> 's first_selection outcome" where
  "first_new make_svc keys =
     bind_outcome (collect_outcomes (map (\<lambda>kid. bind_outcome (service_keys_get keys kid) make_svc) (sk_ids keys)))
       (\<lambda>bs. Returns \<lparr> fs_backends = bs, fs_ready_idx = None \<rparr>)"

definition first_clone :: "'s first_selection \<Rightarrow> 's first_selection" where
  "first_clone fs = fs\<lparr> fs_ready_idx := None \<rparr>"

text \<open>The loop over the backends, from index \<open>idx\<close> on.\<close>

fun first_loop ::
  "('s, 'e, 'q, 'r) backend_api \<Rightarrow> nat \<Rightarrow> 's list \<Rightarrow> (nat, 'e) result poll \<times> 's list" where
  "first_loop api idx [] = (Pending, [])"
| "first_loop api idx (s # ss) = (case be_poll_ready api s of
     (Ready (Inl e), s) \<Rightarrow> (Ready (Err e), s # ss)
   | (Ready (Inr _), s) \<Rightarrow> (Ready (Ok idx), s # ss)
   | (Pending, s) \<Rightarrow> (case first_loop api (Suc idx) ss of (r, ss) \<Rightarrow> (r, s # ss)))"

definition first_poll_ready ::
  "('s, 'e, 'q, 'r) backend_api \<Rightarrow> 's first_selection \<Rightarrow> (unit, 'e) result poll \<times> 's first_selection" where
  "first_poll_ready api fs =
    (if fs_ready_idx fs \<noteq> None then (Ready (Ok ()), fs)
     else case first_loop api 0 (fs_backends fs) of
       (Ready (Inr idx), bs) \<Rightarrow> (Ready (Ok ()), fs\<lparr> fs_backends := bs, fs_ready_idx := Some idx \<rparr>)
     | (Ready (Inl e), bs) \<Rightarrow> (Ready (Err e), fs\<lparr> fs_backends := bs \<rparr>)
     | (Pending, bs) \<Rightarrow> (Pending, fs\<lparr> fs_backends := bs \<rparr>))"

definition first_call ::
  "('s, 'e, 'q, 'r) backend_api \<Rightarrow> 'q \<Rightarrow> 's first_selection \<Rightarrow> ('r \<times> 's first_selection) outcome" where
  "first_call api req fs =
     bind_outcome (expect ''poll_ready must be called first'' (fs_ready_idx fs)) (\<lambda>idx.
       if idx < length (fs_backends fs)
       then (case be_call api (fs_backends fs ! idx) req of (r, s) \<Rightarrow>
         Returns (r, \<lparr> fs_backends = (fs_backends fs)[idx := s], fs_ready_idx = None \<rparr>))
       else Panics ''index must exist'')"

record ('k, 's, 'g) random_selection =
  rs_keys :: "'k weighted_key service_keys"
  rs_backends :: "key_id \<rightharpoonup> 's"
  rs_rng :: 'g
  rs_ready_idx :: "key_id option"

definition random_new ::
  "('k \<Rightarrow> 's outcome) \<Rightarrow> 'g \<Rightarrow> 'k weighted_key service_keys \<Rightarrow> ('k, 's, 'g) random_selection outcome" where
  "random_new make_svc rng keys =
     bind_outcome (collect_outcomes (map (\<lambda>kid. bind_outcome (service_keys_get keys kid) (\<lambda>wk. make_svc (wk_key wk))) (sk_ids keys)))
       (\<lambda>bs. Returns \<lparr> rs_keys = keys, rs_backends = map_of (zip (sk_ids keys) bs), rs_rng = rng, rs_ready_idx = None \<rparr>)"

definition random_clone :: "'g \<Rightarrow> ('k, 's, 'g) random_selection \<Rightarrow> ('k, 's, 'g) random_selection" where
  "random_clone rng rs = rs\<lparr> rs_rng := rng, rs_ready_idx := None \<rparr>"

text \<open>The loop of \<open>poll_ready\<close>: it ends when a backend is ready or fails, or when no weight is left.
  Whether it ends at all depends on the weighted index.\<close>

partial_function (option) random_loop ::
  "('i, 'g) weighted_api \<Rightarrow> ('s, 'e, 'q, 'r) backend_api \<Rightarrow> 'k weighted_key service_keys \<Rightarrow> 'i \<Rightarrow> 'g \<Rightarrow> (key_id \<rightharpoonup> 's)
    \<Rightarrow> ((key_id, 'e) result poll \<times> 'g \<times> (key_id \<rightharpoonup> 's)) outcome option" where
  "random_loop api bapi keys index rng backends =
    (case wi_sample api index rng of (idx, rng) \<Rightarrow>
     case try_get_id keys idx of
       None \<Rightarrow> Some (Panics ''distrubtion must select a valid backend'')
     | Some kid \<Rightarrow>
         (case backends kid of
            None \<Rightarrow> Some (Panics ''distributions must not reference unknown backends'')
          | Some s \<Rightarrow>
              (case be_poll_ready bapi s of
                 (Ready (Inl e), s) \<Rightarrow> Some (Returns (Ready (Err e), rng, backends(kid \<mapsto> s)))
               | (Ready (Inr _), s) \<Rightarrow> Some (Returns (Ready (Ok kid), rng, backends(kid \<mapsto> s)))
               | (Pending, s) \<Rightarrow>
                   (case wi_zero api kid index of
                      Inl e \<Rightarrow> Some (Returns (Pending, rng, backends(kid \<mapsto> s)))
                    | Inr index \<Rightarrow> random_loop api bapi keys index rng (backends(kid \<mapsto> s))))))"

definition random_poll_ready ::
  "('i, 'g) weighted_api \<Rightarrow> ('s, 'e, 'q, 'r) backend_api \<Rightarrow> ('k, 's, 'g) random_selection
    \<Rightarrow> ((unit, 'e) result poll \<times> ('k, 's, 'g) random_selection) outcome option" where
  "random_poll_ready api bapi rs =
    (if rs_ready_idx rs \<noteq> None then Some (Returns (Ready (Ok ()), rs))
     else case weighted_index api (rs_keys rs) of
       Panics m \<Rightarrow> Some (Panics m)
     | Returns (Inl e) \<Rightarrow> Some (Panics ''distribution must be valid'')
     | Returns (Inr index) \<Rightarrow>
         (case random_loop api bapi (rs_keys rs) index (rs_rng rs) (rs_backends rs) of
            None \<Rightarrow> None
          | Some (Panics m) \<Rightarrow> Some (Panics m)
          | Some (Returns (r, rng, backends)) \<Rightarrow>
              (let rs = rs\<lparr> rs_rng := rng, rs_backends := backends \<rparr> in
               Some (Returns (case r of
                 Pending \<Rightarrow> (Pending, rs)
               | Ready (Inl e) \<Rightarrow> (Ready (Err e), rs)
               | Ready (Inr kid) \<Rightarrow> (Ready (Ok ()), rs\<lparr> rs_ready_idx := Some kid \<rparr>))))))"

definition random_call ::
  "('s, 'e, 'q, 'r) backend_api \<Rightarrow> 'q \<Rightarrow> ('k, 's, 'g) random_selection \<Rightarrow> ('r \<times> ('k, 's, 'g) random_selection) outcome" where
  "random_call bapi req rs =
     bind_outcome (expect ''poll_ready must be called first'' (rs_ready_idx rs)) (\<lambda>kid.
     bind_outcome (expect ''index must exist'' (rs_backends rs kid)) (\<lambda>s.
       case be_call bapi s req of (r, s) \<Rightarrow>
         Returns (r, rs\<lparr> rs_backends := (rs_backends rs)(kid \<mapsto> s), rs_ready_idx := None \<rparr>)))"

datatype ('k, 's, 'g) selection =
    Sel_Empty
  | Sel_First "'s first_selection"
  | Sel_Random "('k, 's, 'g) random_selection"

definition distribute_new ::
  "('k \<Rightarrow> 's outcome) \<Rightarrow> 'g \<Rightarrow> 'k distribution \<Rightarrow> ('k, 's, 'g) selection outcome" where
  "distribute_new make_svc rng dist = (case dist of
     Dist_Empty \<Rightarrow> Returns Sel_Empty
   | FirstAvailable keys \<Rightarrow> bind_outcome (first_new make_svc keys) (\<lambda>fs. Returns (Sel_First fs))
   | RandomAvailable keys \<Rightarrow> bind_outcome (random_new make_svc rng keys) (\<lambda>rs. Returns (Sel_Random rs)))"

definition distribute_poll_ready ::
  "('i, 'g) weighted_api \<Rightarrow> ('s, 'e, 'q, 'r) backend_api \<Rightarrow> ('k, 's, 'g) selection
    \<Rightarrow> ((unit, 'e) result poll \<times> ('k, 's, 'g) selection) outcome option" where
  "distribute_poll_ready api bapi sel = (case sel of
     Sel_Empty \<Rightarrow> Some (Returns (Pending, Sel_Empty))
   | Sel_First fs \<Rightarrow> (case first_poll_ready bapi fs of (r, fs) \<Rightarrow> Some (Returns (r, Sel_First fs)))
   | Sel_Random rs \<Rightarrow> map_option (\<lambda>x. bind_outcome x (\<lambda>(r, rs). Returns (r, Sel_Random rs))) (random_poll_ready api bapi rs))"

definition distribute_call ::
  "('s, 'e, 'q, 'r) backend_api \<Rightarrow> 'q \<Rightarrow> ('k, 's, 'g) selection \<Rightarrow> ('r \<times> ('k, 's, 'g) selection) outcome" where
  "distribute_call bapi req sel = (case sel of
     Sel_Empty \<Rightarrow> Panics ''Empty selection is never ready''
   | Sel_First fs \<Rightarrow> bind_outcome (first_call bapi req fs) (\<lambda>(r, fs). Returns (r, Sel_First fs))
   | Sel_Random rs \<Rightarrow> bind_outcome (random_call bapi req rs) (\<lambda>(r, rs). Returns (r, Sel_Random rs)))"

definition selection_clone :: "'g \<Rightarrow> ('k, 's, 'g) selection \<Rightarrow> ('k, 's, 'g) selection" where
  "selection_clone rng sel = (case sel of
     Sel_Empty \<Rightarrow> Sel_Empty | Sel_First fs \<Rightarrow> Sel_First (first_clone fs) | Sel_Random rs \<Rightarrow> Sel_Random (random_clone rng rs))"

section \<open>The cache follows the set of backends\<close>

lemma cache_add_map_of:
  "map_of (cache_add newk bs cache) k =
     (case map_of cache k of Some s \<Rightarrow> Some s | None \<Rightarrow> if k \<in> set bs then Some (newk k) else None)"
proof (induction newk bs cache rule: cache_add.induct)
  case (1 newk cache)
  then show ?case by (simp split: option.splits)
next
  case (2 newk b bs cache)
  show ?case
  proof (cases "b \<in> fst ` set cache")
    case True
    then have "map_of cache b \<noteq> None" by (simp add: map_of_eq_None_iff)
    then show ?thesis using True 2 by (auto split: option.splits)
  next
    case False
    then have "map_of cache b = None" by (simp add: map_of_eq_None_iff)
    then show ?thesis using False 2 by (cases "k = b") (auto simp: map_add_def split: option.splits)
  qed
qed

lemma map_of_retain:
  "map_of (cache_retain bs cache) k = (if k \<in> set bs then map_of cache k else None)"
  by (induction cache) (auto simp: cache_retain_def)

lemma distinct_retain: "distinct (map fst cache) \<Longrightarrow> distinct (map fst (cache_retain bs cache))"
  by (induction cache) (auto simp: cache_retain_def)

lemma distinct_cache_add: "distinct (map fst cache) \<Longrightarrow> distinct (map fst (cache_add newk bs cache))"
  by (induction newk bs cache rule: cache_add.induct) auto

text \<open>When the retained entries are as many as the backends, they are all of them.\<close>

lemma retain_full:
  assumes "distinct (map fst cache)" "distinct bs" "length bs \<le> length (cache_retain bs cache)"
  shows "fst ` set (cache_retain bs cache) = set bs"
proof -
  have sub: "fst ` set (cache_retain bs cache) \<subseteq> set bs" by (auto simp: cache_retain_def)
  have "card (fst ` set (cache_retain bs cache)) = length (cache_retain bs cache)"
    using distinct_retain [OF assms(1), of bs] by (metis distinct_card length_map set_map)
  then have "card (set bs) \<le> card (fst ` set (cache_retain bs cache))"
    using assms(2,3) by (simp add: distinct_card)
  then show ?thesis using sub by (intro card_subset_eq) (auto intro: antisym card_mono)
qed

text \<open>C38: The cache of backend services follows the set of backends exactly, although it compares
  sizes instead of contents to skip work: afterwards it has an entry for each backend and no other, an entry
  that it had is kept as it was, and a missing one is built.\<close>

theorem backend_cache_exact:
  assumes "distinct (map fst cache)" "distinct bs"
  shows "map_of (backend_cache_new newk bs cache) k =
      (if k \<in> set bs then Some (case map_of cache k of Some s \<Rightarrow> s | None \<Rightarrow> newk k) else None) \<and>
    distinct (map fst (backend_cache_new newk bs cache))"
proof (cases "length (cache_retain bs cache) < length bs")
  case True
  then show ?thesis
    using distinct_cache_add [OF distinct_retain [OF assms(1)]]
    by (auto simp: backend_cache_new_def cache_add_map_of map_of_retain split: option.splits)
next
  case False
  then have "fst ` set (cache_retain bs cache) = set bs" using retain_full [OF assms] by simp
  then have "map_of (cache_retain bs cache) k \<noteq> None" if "k \<in> set bs" using that by (metis map_of_eq_None_iff)
  then show ?thesis
    using False distinct_retain [OF assms(1)] map_of_retain [of bs cache k]
    by (auto simp: backend_cache_new_def split: option.splits if_splits)
qed

theorem backend_cache_exact_witness:
  "map_of (backend_cache_new (\<lambda>k. k + 10) [2, 3] [(1, 7), (2, 8 :: nat)]) (3 :: nat) = Some 13 \<and>
   map_of (backend_cache_new (\<lambda>k. k + 10) [2, 3] [(1, 7), (2, 8 :: nat)]) (2 :: nat) = Some 8"
proof -
  have "distinct (map fst [(1 :: nat, 7), (2, 8 :: nat)])" "distinct [2, 3 :: nat]" by simp_all
  note exact = backend_cache_exact [OF this]
  from exact [of "\<lambda>k. k + 10" 3] exact [of "\<lambda>k. k + 10" 2] show ?thesis by simp
qed

section \<open>Keys and indices\<close>

lemma service_keys_new_fold:
  "foldl (\<lambda>sk (idx, key). \<lparr> sk_ids = sk_ids sk @ [idx], sk_keys = (sk_keys sk)(idx \<mapsto> key) \<rparr>)
       \<lparr> sk_ids = ids0, sk_keys = m0 \<rparr> (enumerate n ks) =
     \<lparr> sk_ids = ids0 @ [n..<n + length ks], sk_keys = (\<lambda>i. if n \<le> i \<and> i < n + length ks then Some (ks ! (i - n)) else m0 i) \<rparr>"
proof (induction ks arbitrary: n ids0 m0)
  case (Cons k ks)
  show ?case
    by (subst enumerate_simps, subst foldl_Cons, simp only: prod.case service_keys.simps Cons.IH)
      (auto simp: upt_conv_Cons nth_Cons' fun_eq_iff Suc_le_eq)
qed (auto simp: fun_eq_iff)

lemma service_keys_new_eq:
  "service_keys_new ks = \<lparr> sk_ids = [0..<length ks], sk_keys = (\<lambda>i. if i < length ks then Some (ks ! i) else None) \<rparr>"
  unfolding service_keys_new_def service_keys_new_fold by (simp add: fun_eq_iff)

lemma sk_ids_new [simp]: "sk_ids (service_keys_new ks) = [0..<length ks]"
  by (simp add: service_keys_new_eq)

lemma collect_outcomes_map:
  "(\<And>x. x \<in> set xs \<Longrightarrow> f x = Returns (g x)) \<Longrightarrow> collect_outcomes (map f xs) = Returns (map g xs)"
  by (induction xs) auto

lemma collect_outcomes_Returns_iff:
  "collect_outcomes xs = Returns ys \<longleftrightarrow> xs = map Returns ys"
  by (induction xs arbitrary: ys) (auto simp: bind_outcome_Returns_iff Cons_eq_map_conv)

section \<open>The random selection ends and respects the weights\<close>

definition weighted_laws :: "('i, 'g) weighted_api \<Rightarrow> ('i \<Rightarrow> nat list) \<Rightarrow> bool" where
  "weighted_laws api wt \<longleftrightarrow>
     (\<forall>ws i. wi_new api ws = Ok i \<longrightarrow> wt i = ws \<and> 0 < sum_list ws) \<and>
     (\<forall>i g n g'. wi_sample api i g = (n, g') \<longrightarrow> 0 < sum_list (wt i) \<longrightarrow> n < length (wt i) \<and> 0 < wt i ! n) \<and>
     (\<forall>n i. n < length (wt i) \<longrightarrow> (case wi_zero api n i of
        Inr i' \<Rightarrow> wt i' = (wt i)[n := 0] \<and> 0 < sum_list (wt i')
      | Inl e \<Rightarrow> sum_list ((wt i)[n := 0]) = 0))"

lemma weighted_lawsD:
  assumes "weighted_laws api wt"
  shows "wi_new api ws = Ok i \<Longrightarrow> wt i = ws \<and> 0 < sum_list ws"
    "wi_sample api i g = (n, g') \<Longrightarrow> 0 < sum_list (wt i) \<Longrightarrow> n < length (wt i) \<and> 0 < wt i ! n"
    "n < length (wt i) \<Longrightarrow> wi_zero api n i = Inr i' \<Longrightarrow> wt i' = (wt i)[n := 0] \<and> 0 < sum_list (wt i')"
    "n < length (wt i) \<Longrightarrow> wi_zero api n i = Inl e \<Longrightarrow> sum_list ((wt i)[n := 0]) = 0"
  using assms unfolding weighted_laws_def by (blast, blast, force, force)

text \<open>What a round returns: a weighted backend that is ready or fails, or nothing when every
  weighted backend is pending.\<close>

definition round_ok ::
  "('s, 'e, 'q, 'r) backend_api \<Rightarrow> nat list \<Rightarrow> (key_id \<rightharpoonup> 's) \<Rightarrow> (key_id, 'e) result poll \<Rightarrow> bool" where
  "round_ok bapi ws backends r \<longleftrightarrow> (case r of
     Pending \<Rightarrow> (\<forall>i < length ws. 0 < ws ! i \<longrightarrow> fst (be_poll_ready bapi (the (backends i))) = Pending)
   | Ready (Inr i) \<Rightarrow> i < length ws \<and> 0 < ws ! i \<and> fst (be_poll_ready bapi (the (backends i))) = Ready (Ok ())
   | Ready (Inl e) \<Rightarrow> (\<exists>i < length ws. 0 < ws ! i \<and> fst (be_poll_ready bapi (the (backends i))) = Ready (Err e)))"

lemma sum_list_zero_nth: "sum_list (ws[n := 0 :: nat]) = 0 \<Longrightarrow> i < length ws \<Longrightarrow> i \<noteq> n \<Longrightarrow> ws ! i = 0"
  by (metis length_list_update nth_list_update_neq nth_mem sum_list_eq_0_iff)

lemma sum_list_zeroed: "n < length ws \<Longrightarrow> 0 < ws ! n \<Longrightarrow> sum_list (ws[n := 0]) < sum_list (ws :: nat list)"
  using elem_le_sum_list [of n ws] by (simp add: sum_list_update)

lemma round_ok_next:
  assumes "round_ok bapi (ws[n := 0]) (backends(n \<mapsto> s)) r" "fst (be_poll_ready bapi (the (backends n))) = Pending"
  shows "round_ok bapi ws backends r"
proof (cases r)
  case Pending
  have "fst (be_poll_ready bapi (the (backends i))) = Pending" if "i < length ws" "0 < ws ! i" for i
    using assms that Pending by (cases "i = n") (auto simp: round_ok_def dest: spec [of _ i])
  then show ?thesis using Pending by (simp add: round_ok_def)
next
  case (Ready x)
  then show ?thesis
  proof (cases x)
    case (Inl e)
    with Ready assms(1) obtain i where "i < length ws" "0 < ws[n := 0] ! i"
      "fst (be_poll_ready bapi (the ((backends(n \<mapsto> s)) i))) = Ready (Err e)" by (auto simp: round_ok_def)
    then have "i \<noteq> n \<and> i < length ws \<and> 0 < ws ! i \<and> fst (be_poll_ready bapi (the (backends i))) = Ready (Err e)"
      by (cases "i = n") auto
    then show ?thesis using Ready Inl by (auto simp: round_ok_def)
  next
    case (Inr i)
    then show ?thesis using Ready assms(1) by (cases "i = n") (auto simp: round_ok_def)
  qed
qed

lemma random_loop_returns:
  assumes "weighted_laws api wt" "sk_ids keys = [0..<length (wt index)]" "dom backends = {..<length (wt index)}"
    and "0 < sum_list (wt index)"
  shows "\<exists>r rng' bs. random_loop api bapi keys index rng backends = Some (Returns (r, rng', bs)) \<and>
    dom bs = dom backends \<and> round_ok bapi (wt index) backends r"
  using assms(2-)
proof (induction "sum_list (wt index)" arbitrary: index rng backends rule: less_induct)
  case less
  obtain n g where sample: "wi_sample api index rng = (n, g)" by (cases "wi_sample api index rng")
  have n: "n < length (wt index)" "0 < wt index ! n" using weighted_lawsD(2) [OF assms(1) sample less.prems(3)] by simp_all
  then have id: "try_get_id keys n = Some n" using less.prems(1) by (simp add: try_get_id_def)
  obtain s where s: "backends n = Some s" using less.prems(2) n(1) by (metis domD lessThan_iff)
  obtain p s' where p: "be_poll_ready bapi s = (p, s')" by (cases "be_poll_ready bapi s")
  show ?case
  proof (cases "p = Pending")
    case False
    then obtain x where x: "p = Ready x" by (cases p) auto
    then have "random_loop api bapi keys index rng backends =
        Some (Returns (Ready (case x of Inl e \<Rightarrow> Err e | Inr _ \<Rightarrow> Ok n), g, backends(n \<mapsto> s')))"
      by (subst random_loop.simps) (simp add: sample id s p split: sum.splits)
    moreover have "round_ok bapi (wt index) backends (Ready (case x of Inl e \<Rightarrow> Err e | Inr _ \<Rightarrow> Ok n))"
      using s n p x by (auto simp: round_ok_def split: sum.splits)
    moreover have "dom (backends(n \<mapsto> s')) = dom backends" using s by auto
    ultimately show ?thesis by blast
  next
    case True
    show ?thesis
    proof (cases "wi_zero api n index")
      case (Inl e)
      have "round_ok bapi (wt index) backends Pending"
      proof -
        have "i = n" if "i < length (wt index)" "0 < wt index ! i" for i
          using sum_list_zero_nth [OF weighted_lawsD(4) [OF assms(1) n(1) Inl] that(1)] that(2) by auto
        then show ?thesis using p True s by (auto simp: round_ok_def)
      qed
      moreover have "dom (backends(n \<mapsto> s')) = dom backends" using s by auto
      moreover have "random_loop api bapi keys index rng backends = Some (Returns (Pending, g, backends(n \<mapsto> s')))"
        by (subst random_loop.simps) (simp add: sample id s p True Inl)
      ultimately show ?thesis by blast
    next
      case (Inr i')
      have i': "wt i' = (wt index)[n := 0]" "0 < sum_list (wt i')" using weighted_lawsD(3) [OF assms(1) n(1) Inr] by blast+
      have "\<exists>r rng' bs. random_loop api bapi keys i' g (backends(n \<mapsto> s')) = Some (Returns (r, rng', bs)) \<and>
          dom bs = dom (backends(n \<mapsto> s')) \<and> round_ok bapi (wt i') (backends(n \<mapsto> s')) r"
        using sum_list_zeroed [OF n] less.prems(1,2) n(1) i'(2) unfolding i'(1) [symmetric]
        by (intro less.hyps) (auto simp: i'(1) length_list_update)
      then obtain r rng' bs where IH: "random_loop api bapi keys i' g (backends(n \<mapsto> s')) = Some (Returns (r, rng', bs))"
        "dom bs = dom (backends(n \<mapsto> s'))" "round_ok bapi ((wt index)[n := 0]) (backends(n \<mapsto> s')) r"
        unfolding i'(1) by blast
      have "random_loop api bapi keys index rng backends = Some (Returns (r, rng', bs))"
        by (subst random_loop.simps) (simp add: sample id s p True Inr IH(1))
      moreover have "round_ok bapi (wt index) backends r" using round_ok_next [OF IH(3)] s p True by simp
      ultimately show ?thesis using IH(2) s by auto
    qed
  qed
qed

lemma random_available_keys:
  assumes "random_available api kws = Returns (Ok (RandomAvailable keys))"
  shows "keys = service_keys_new (map (\<lambda>(key, weight). \<lparr> wk_key = key, wk_weight = weight \<rparr>) kws)"
    "\<exists>i. weighted_index api keys = Returns (Ok i)"
proof -
  let ?keys = "service_keys_new (map (\<lambda>(key, weight). \<lparr> wk_key = key, wk_weight = weight \<rparr>) kws)"
  obtain r where r: "weighted_index api ?keys = Returns r"
    using assms by (auto simp: random_available_def Let_def bind_outcome_Returns_iff split: if_splits)
  have "keys = ?keys \<and> (\<exists>i. r = Ok i)"
    using assms r by (cases r) (auto simp: random_available_def Let_def split: if_splits)
  then show "keys = ?keys" "\<exists>i. weighted_index api keys = Returns (Ok i)" using r by auto
qed

lemma weighted_index_eq:
  "weighted_index api (service_keys_new ks) = Returns (wi_new api (map wk_weight ks))"
proof -
  have "collect_outcomes (map (service_keys_get (service_keys_new ks)) [0..<length ks]) = Returns (map (\<lambda>i. ks ! i) [0..<length ks])"
    by (rule collect_outcomes_map) (simp add: service_keys_get_def service_keys_new_eq)
  then show ?thesis by (simp add: weighted_index_def service_keys_new_eq map_nth)
qed

lemma random_new_backends:
  assumes "random_new make_svc rng (service_keys_new ks) = Returns rs"
  shows "rs_keys rs = service_keys_new ks" "rs_ready_idx rs = None" "dom (rs_backends rs) = {..<length ks}"
    "i < length ks \<Longrightarrow> \<exists>s. rs_backends rs i = Some s \<and> make_svc (wk_key (ks ! i)) = Returns s"
proof -
  obtain bs where bs: "map (\<lambda>i. bind_outcome (service_keys_get (service_keys_new ks) i) (\<lambda>wk. make_svc (wk_key wk))) [0..<length ks] = map Returns bs"
    and rs: "rs = \<lparr> rs_keys = service_keys_new ks, rs_backends = map_of (zip [0..<length ks] bs), rs_rng = rng, rs_ready_idx = None \<rparr>"
    using assms by (auto simp: random_new_def bind_outcome_Returns_iff collect_outcomes_Returns_iff service_keys_new_eq)
  have len: "length bs = length ks" using arg_cong [OF bs, of length] by simp
  have nth: "make_svc (wk_key (ks ! i)) = Returns (bs ! i)" if "i < length ks" for i
    using arg_cong [OF bs, of "\<lambda>xs. xs ! i"] that len by (simp add: service_keys_get_def service_keys_new_eq)
  have get: "map_of (zip [0..<length ks] bs) i = Some (bs ! i)" if "i < length ks" for i
    using that len by (intro map_of_is_SomeI) (auto simp: in_set_zip intro: exI [of _ i])
  show "rs_keys rs = service_keys_new ks" "rs_ready_idx rs = None" "dom (rs_backends rs) = {..<length ks}"
    using len by (simp_all add: rs dom_map_of_zip lessThan_atLeast0)
  show "\<exists>s. rs_backends rs i = Some s \<and> make_svc (wk_key (ks ! i)) = Returns s" if "i < length ks"
    using get [OF that] nth [OF that] by (simp add: rs)
qed

text \<open>C39: Polling a random distribution always ends, without a panic. It picks a backend only if that
  backend has a positive weight and is ready, it fails only with the error of a backend that has a positive weight,
  and it is pending only when every backend with a positive weight is pending.\<close>

theorem random_distribution_ends:
  assumes "weighted_laws api wt" "random_available api kws = Returns (Ok (RandomAvailable keys))"
    and "distribute_new make_svc rng (RandomAvailable keys) = Returns (Sel_Random rs)"
  shows "\<exists>r rs'. distribute_poll_ready api bapi (Sel_Random rs) = Some (Returns (r, Sel_Random rs')) \<and>
    (case r of
       Ready (Inr _) \<Rightarrow> \<exists>i s. rs_ready_idx rs' = Some i \<and> i < length kws \<and> 0 < snd (kws ! i) \<and>
         make_svc (fst (kws ! i)) = Returns s \<and> fst (be_poll_ready bapi s) = Ready (Ok ())
     | Ready (Inl e) \<Rightarrow> \<exists>i s. i < length kws \<and> 0 < snd (kws ! i) \<and>
         make_svc (fst (kws ! i)) = Returns s \<and> fst (be_poll_ready bapi s) = Ready (Err e)
     | Pending \<Rightarrow> \<forall>i < length kws. 0 < snd (kws ! i) \<longrightarrow>
         (\<exists>s. make_svc (fst (kws ! i)) = Returns s \<and> fst (be_poll_ready bapi s) = Pending))"
proof -
  let ?wks = "map (\<lambda>(key, weight). \<lparr> wk_key = key, wk_weight = weight \<rparr>) kws"
  have keys: "keys = service_keys_new ?wks" using random_available_keys(1) [OF assms(2)] .
  obtain index where index: "wi_new api (map wk_weight ?wks) = Ok index"
    using random_available_keys(2) [OF assms(2)] by (auto simp: keys weighted_index_eq)
  have wt: "wt index = map wk_weight ?wks" "0 < sum_list (wt index)" using weighted_lawsD(1) [OF assms(1) index] by auto
  have new: "random_new make_svc rng (service_keys_new ?wks) = Returns rs"
    using assms(3) by (auto simp: distribute_new_def keys bind_outcome_Returns_iff)
  note rs = random_new_backends [OF new]
  have nth: "i < length kws \<Longrightarrow> ?wks ! i = \<lparr> wk_key = fst (kws ! i), wk_weight = snd (kws ! i) \<rparr>" for i
    by (simp add: case_prod_unfold)
  obtain r rng' bs where loop: "random_loop api bapi keys index (rs_rng rs) (rs_backends rs) = Some (Returns (r, rng', bs))"
    "round_ok bapi (wt index) (rs_backends rs) r"
    using random_loop_returns [OF assms(1) _ _ wt(2), of keys "rs_backends rs" bapi "rs_rng rs"]
    by (auto simp: keys service_keys_new_eq wt(1) rs(3))
  have made: "\<exists>s. make_svc (fst (kws ! i)) = Returns s \<and> the (rs_backends rs i) = s" if "i < length kws" for i
    using rs(4) [of i] that nth by auto
  have weight: "wt index ! i = snd (kws ! i)" if "i < length kws" for i using that nth by (simp add: wt(1))
  have "length (wt index) = length kws" by (simp add: wt(1))
  note round = loop(2) [unfolded round_ok_def this]
  have poll: "distribute_poll_ready api bapi (Sel_Random rs) = Some (Returns (case r of
      Pending \<Rightarrow> (Pending, Sel_Random (rs\<lparr> rs_rng := rng', rs_backends := bs \<rparr>))
    | Ready (Inl e) \<Rightarrow> (Ready (Err e), Sel_Random (rs\<lparr> rs_rng := rng', rs_backends := bs \<rparr>))
    | Ready (Inr i) \<Rightarrow> (Ready (Ok ()), Sel_Random (rs\<lparr> rs_rng := rng', rs_backends := bs, rs_ready_idx := Some i \<rparr>))))"
    using loop(1) index rs(1,2)
    by (simp add: distribute_poll_ready_def random_poll_ready_def keys weighted_index_eq Let_def split: poll.splits sum.splits)
  show ?thesis
  proof (cases r)
    case Pending
    then show ?thesis using poll round made weight by fastforce
  next
    case (Ready x)
    then show ?thesis using poll round made weight by (cases x) fastforce+
  qed
qed

text \<open>An index that always samples the first positive weight.\<close>

definition first_weight :: "nat list \<Rightarrow> nat" where
  "first_weight ws = length (takeWhile (\<lambda>w. w = 0) ws)"

definition list_index_api :: "(nat list, unit) weighted_api" where
  "list_index_api = \<lparr>
     wi_new = (\<lambda>ws. if sum_list ws = 0 then Err InsufficientNonZero else Ok ws),
     wi_sample = (\<lambda>ws g. (first_weight ws, g)),
     wi_zero = (\<lambda>n ws. if sum_list (ws[n := 0]) = 0 then Err InsufficientNonZero else Ok (ws[n := 0])) \<rparr>"

lemma first_weight_positive: "0 < sum_list ws \<Longrightarrow> first_weight ws < length ws \<and> 0 < ws ! first_weight ws"
  by (induction ws) (auto simp: first_weight_def)

lemma list_index_laws: "weighted_laws list_index_api (\<lambda>ws. ws)"
  by (auto simp: weighted_laws_def list_index_api_def first_weight_positive simp del: sum_list_eq_0_iff)

definition sample_backends :: "(nat, unit, unit, nat) backend_api" where
  "sample_backends = \<lparr> be_poll_ready = (\<lambda>s. (if s = 1 then Ready (Ok ()) else Pending, s)), be_call = (\<lambda>s q. (s, s)) \<rparr>"

definition sample_weights :: "(nat \<times> nat) list" where
  "sample_weights = [(0, 3), (1, 2), (1, 0)]"

theorem random_distribution_ends_witness:
  "\<exists>keys rs r rs'. random_available list_index_api sample_weights = Returns (Ok (RandomAvailable keys)) \<and>
     distribute_new Returns () (RandomAvailable keys) = Returns (Sel_Random rs) \<and>
     distribute_poll_ready list_index_api sample_backends (Sel_Random rs) = Some (Returns (r, Sel_Random rs')) \<and>
     r \<noteq> Pending"
proof -
  obtain keys where keys: "random_available list_index_api sample_weights = Returns (Ok (RandomAvailable keys))"
    by (simp add: sample_weights_def random_available_def weighted_index_eq list_index_api_def Let_def)
  then have keys': "keys = service_keys_new (map (\<lambda>(key, weight). \<lparr> wk_key = key, wk_weight = weight \<rparr>) sample_weights)"
    by (rule random_available_keys)
  obtain rs where rs: "distribute_new Returns () (RandomAvailable keys) = Returns (Sel_Random rs)"
    by (simp add: keys' sample_weights_def distribute_new_def random_new_def service_keys_new_eq service_keys_get_def upt_rec)
  from random_distribution_ends [OF list_index_laws keys rs, of sample_backends] show ?thesis
  proof (elim exE conjE, goal_cases)
    case (1 r rs')
    have "r \<noteq> Pending"
    proof
      assume "r = Pending"
      with 1(2) have "\<exists>s. Returns (fst (sample_weights ! 1)) = Returns s \<and> fst (be_poll_ready sample_backends s) = Pending"
        by (simp only: poll.case) (erule allE [of _ 1], simp add: sample_weights_def)
      then show False by (simp add: sample_weights_def sample_backends_def)
    qed
    with keys rs 1(1) show ?case by blast
  qed
qed

text \<open>The first-available distribution takes the first ready backend: all before it are pending.\<close>

lemma first_loop_first:
  "first_loop bapi idx ss = (r, ss') \<Longrightarrow>
    (case r of
       Pending \<Rightarrow> \<forall>s \<in> set ss. fst (be_poll_ready bapi s) = Pending
     | Ready x \<Rightarrow> \<exists>n < length ss. (\<forall>m < n. fst (be_poll_ready bapi (ss ! m)) = Pending) \<and>
         (case x of Inr i \<Rightarrow> i = idx + n \<and> fst (be_poll_ready bapi (ss ! n)) = Ready (Ok ())
          | Inl e \<Rightarrow> fst (be_poll_ready bapi (ss ! n)) = Ready (Err e)))"
proof (induction ss arbitrary: idx r ss')
  case (Cons s ss)
  obtain p s1 where p: "be_poll_ready bapi s = (p, s1)" by (cases "be_poll_ready bapi s")
  show ?case
  proof (cases p)
    case (Ready x)
    then show ?thesis using Cons.prems p by (cases x) (auto intro!: exI [of _ 0])
  next
    case Pending
    obtain r1 ss1 where l: "first_loop bapi (Suc idx) ss = (r1, ss1)" by (cases "first_loop bapi (Suc idx) ss")
    then have r: "r = r1" using Cons.prems p Pending by simp
    from Cons.IH [OF l] show ?thesis
    proof (cases r1)
      case Pending
      then show ?thesis using Cons.IH [OF l] \<open>p = Pending\<close> p r by simp
    next
      case (Ready x)
      with Cons.IH [OF l] obtain n where n: "n < length ss" "\<forall>m < n. fst (be_poll_ready bapi (ss ! m)) = Pending"
        "case x of Inr i \<Rightarrow> i = Suc idx + n \<and> fst (be_poll_ready bapi (ss ! n)) = Ready (Ok ())
          | Inl e \<Rightarrow> fst (be_poll_ready bapi (ss ! n)) = Ready (Err e)" by auto
      then have "\<forall>m < Suc n. fst (be_poll_ready bapi ((s # ss) ! m)) = Pending"
        using p \<open>p = Pending\<close> by (auto simp: less_Suc_eq_0_disj)
      then show ?thesis using n Ready r by (auto intro!: exI [of _ "Suc n"] split: sum.splits)
    qed
  qed
qed simp

end
