(* ===== verification/Load_Biaser.thy ===== *)
theory Load_Biaser
  imports Exp_Backoff Classify
begin

text \<open>
  Load tracking with failure penalties: the moving average (\<open>linkerd/ewma/src/lib.rs\<close>), the hints
  that servers give in \<open>retry-after\<close> and \<open>grpc-retry-pushback-ms\<close>
  (\<open>linkerd/http/classify/src/retry_after.rs\<close>) and the service that turns latencies and failures into
  a load (\<open>linkerd/load-biaser/src/lib.rs\<close>). The exponential function on \<open>f64\<close> and the parser of
  HTTP dates are parameters. The references to the shared state of an endpoint are counted, as the code
  uses the count for the requests in flight.
\<close>

section \<open>Moving average\<close>

definition MIN_DECAY :: duration where
  "MIN_DECAY = from_millis 1"

record ewma =
  ew_value :: f64
  ew_decay :: f64
  ew_timestamp :: instant

text \<open>\<open>Duration::as_secs_f64\<close>.\<close>

definition as_secs_f64 :: "duration \<Rightarrow> f64" where
  "as_secs_f64 d = f64_add (f64_of_nat (d div nanos_per_sec))
     (f64_div (f64_of_nat (d mod nanos_per_sec)) (f64_of_nat nanos_per_sec))"

definition ewma_new :: "duration \<Rightarrow> instant \<Rightarrow> ewma" where
  "ewma_new decay timestamp =
    \<lparr> ew_value = F64_inf False, ew_decay = as_secs_f64 (max decay MIN_DECAY), ew_timestamp = timestamp \<rparr>"

definition ewma_new_with_value :: "duration \<Rightarrow> instant \<Rightarrow> f64 \<Rightarrow> ewma" where
  "ewma_new_with_value decay timestamp initial =
    \<lparr> ew_value = initial, ew_decay = as_secs_f64 (max decay MIN_DECAY), ew_timestamp = timestamp \<rparr>"

definition ewma_reset :: "f64 \<Rightarrow> instant \<Rightarrow> ewma \<Rightarrow> ewma" where
  "ewma_reset v ts e = e\<lparr> ew_value := v, ew_timestamp := ts \<rparr>"

definition decay_factor :: "(f64 \<Rightarrow> f64) \<Rightarrow> ewma \<Rightarrow> instant \<Rightarrow> f64" where
  "decay_factor ex e now = ex (f64_div (f64_neg (as_secs_f64 (now - ew_timestamp e))) (ew_decay e))"

definition ewma_get_at :: "(f64 \<Rightarrow> f64) \<Rightarrow> ewma \<Rightarrow> instant \<Rightarrow> f64" where
  "ewma_get_at ex e now =
    (if f64_is_infinite (ew_value e) \<or> now \<le> ew_timestamp e then ew_value e
     else f64_mul (ew_value e) (decay_factor ex e now))"

definition ewma_add :: "(f64 \<Rightarrow> f64) \<Rightarrow> f64 \<Rightarrow> instant \<Rightarrow> ewma \<Rightarrow> ewma" where
  "ewma_add ex v ts e =
    (if ts \<le> ew_timestamp e then e
     else if f64_is_infinite (ew_value e) then e\<lparr> ew_value := v, ew_timestamp := ts \<rparr>
     else let alpha = f64_sub (F64 1) (decay_factor ex e ts) in
       e\<lparr> ew_value := f64_add (f64_mul (ew_value e) (f64_sub (F64 1) alpha)) (f64_mul v alpha),
          ew_timestamp := ts \<rparr>)"

definition ewma_add_peak :: "(f64 \<Rightarrow> f64) \<Rightarrow> f64 \<Rightarrow> instant \<Rightarrow> ewma \<Rightarrow> ewma" where
  "ewma_add_peak ex v ts e =
    (if f64_is_infinite (ew_value e) \<or> f64_lt (ewma_get_at ex e ts) v
     then e\<lparr> ew_value := v, ew_timestamp := ts \<rparr>
     else ewma_add ex v ts e)"

section \<open>Hints from the server\<close>

definition parse_retry_after_value ::
  "(string \<Rightarrow> nat option) \<Rightarrow> nat \<Rightarrow> string \<Rightarrow> duration \<Rightarrow> duration option" where
  "parse_retry_after_value parse_http_date now s hi =
    (let s = trim s in
     case parse_uint u64_max s of
       Some secs \<Rightarrow> Some (min (secs * nanos_per_sec) hi)
     | None \<Rightarrow>
         (case parse_http_date s of
            Some datetime \<Rightarrow> if now \<le> datetime then Some (min (datetime - now) hi) else Some 0
          | None \<Rightarrow> None))"

definition parse_retry_after ::
  "('re, 'h) http_api \<Rightarrow> (string \<Rightarrow> nat option) \<Rightarrow> nat \<Rightarrow> nat \<Rightarrow> 'h \<Rightarrow> duration \<Rightarrow> duration option" where
  "parse_retry_after api parse_http_date now status headers hi =
    (if status \<noteq> 429 \<and> status \<noteq> 503 then None
     else case Option.bind (hdr_get api headers ''retry-after'') (value_to_str api) of
       None \<Rightarrow> None
     | Some s \<Rightarrow> parse_retry_after_value parse_http_date now s hi)"

definition parse_grpc_retry_pushback :: "('re, 'h) http_api \<Rightarrow> 'h \<Rightarrow> duration \<Rightarrow> duration option" where
  "parse_grpc_retry_pushback api headers hi =
    (case Option.bind (hdr_get api headers ''grpc-retry-pushback-ms'') (value_to_str api) of
       None \<Rightarrow> None
     | Some s \<Rightarrow>
         (case parse_i32 (trim s) of
            None \<Rightarrow> None
          | Some ms \<Rightarrow> if ms < 0 then None else Some (min (from_millis (nat ms)) hi)))"

datatype failure_hint = RateLimited | ServiceUnavailable | InternalError

record 'h lb_response =
  lr_status :: nat
  lr_headers :: 'h
  lr_cached :: "duration option"

definition lb_is_grpc :: "('re, 'h) http_api \<Rightarrow> 'h \<Rightarrow> bool" where
  "lb_is_grpc api headers =
    (case Option.bind (hdr_get api headers ''content-type'') (value_to_str api) of
       None \<Rightarrow> False | Some ct \<Rightarrow> prefix ''application/grpc'' ct)"

definition grpc_failure_hint :: "nat \<Rightarrow> failure_hint option" where
  "grpc_failure_hint code =
    (if code = 0 then None else if code = 8 then Some RateLimited else if code = 14 then Some ServiceUnavailable
     else if code \<in> {2, 4, 13, 15} then Some InternalError else None)"

definition rsp_failure_hint :: "('re, 'h) http_api \<Rightarrow> 'h lb_response \<Rightarrow> failure_hint option" where
  "rsp_failure_hint api rsp =
    (if lr_status rsp = 429 then Some RateLimited
     else if lr_status rsp = 503 then Some ServiceUnavailable
     else if is_server_error (lr_status rsp) then Some InternalError
     else if lr_status rsp = 200 \<and> lb_is_grpc api (lr_headers rsp)
     then Option.bind (Option.bind (Option.bind (hdr_get api (lr_headers rsp) ''grpc-status'') (value_to_str api))
            (parse_uint u16_max)) grpc_failure_hint
     else None)"

definition attach_parsed_rate_limit_hint ::
  "('re, 'h) http_api \<Rightarrow> (string \<Rightarrow> nat option) \<Rightarrow> nat \<Rightarrow> 'h lb_response \<Rightarrow> 'h lb_response" where
  "attach_parsed_rate_limit_hint api date now rsp =
    (case parse_retry_after api date now (lr_status rsp) (lr_headers rsp) duration_max of
       Some d \<Rightarrow> rsp\<lparr> lr_cached := Some d \<rparr>
     | None \<Rightarrow>
         if lr_status rsp = 200 \<and> lb_is_grpc api (lr_headers rsp)
         then (case parse_grpc_retry_pushback api (lr_headers rsp) duration_max of
                 Some d \<Rightarrow> rsp\<lparr> lr_cached := Some d \<rparr> | None \<Rightarrow> rsp)
         else rsp)"

definition rate_limit_hint ::
  "('re, 'h) http_api \<Rightarrow> (string \<Rightarrow> nat option) \<Rightarrow> nat \<Rightarrow> 'h lb_response \<Rightarrow> duration \<Rightarrow> duration option" where
  "rate_limit_hint api date now rsp hi =
    (case lr_cached rsp of
       Some d \<Rightarrow> Some (min d hi)
     | None \<Rightarrow>
         (case parse_retry_after api date now (lr_status rsp) (lr_headers rsp) hi of
            Some d \<Rightarrow> Some d
          | None \<Rightarrow>
              if lr_status rsp = 200 \<and> lb_is_grpc api (lr_headers rsp)
              then (case parse_grpc_retry_pushback api (lr_headers rsp) hi of Some d \<Rightarrow> Some d | None \<Rightarrow> None)
              else None))"

section \<open>The load of an endpoint\<close>

record load_biaser_config =
  lc_default_rtt :: duration
  lc_rtt_decay :: duration
  lc_penalty_ms :: nat
  lc_max_duration :: duration

definition default_load_biaser_config :: load_biaser_config where
  "default_load_biaser_config = \<lparr> lc_default_rtt = nanos_per_sec, lc_rtt_decay = 10 * nanos_per_sec,
     lc_penalty_ms = 5000, lc_max_duration = 300 * nanos_per_sec \<rparr>"

record lb_shared =
  ls_rtt :: ewma
  ls_penalty_ms :: nat
  ls_max_duration :: duration
  ls_strong_count :: nat

record lb_handle =
  h_sent_at :: instant
  h_penalty :: "duration option"

definition effective_rtt ::
  "('re, 'h) http_api \<Rightarrow> (string \<Rightarrow> nat option) \<Rightarrow> nat \<Rightarrow> lb_shared \<Rightarrow> failure_hint \<Rightarrow> 'h lb_response \<Rightarrow> duration" where
  "effective_rtt api date now sh hint rsp =
    (let from_hint = (case hint of
           InternalError \<Rightarrow> None | _ \<Rightarrow> rate_limit_hint api date now rsp (ls_max_duration sh));
         base = from_millis (ls_penalty_ms sh) in
     case from_hint of Some h \<Rightarrow> max h base | None \<Rightarrow> base)"

definition load_biaser_new :: "instant \<Rightarrow> load_biaser_config \<Rightarrow> lb_shared" where
  "load_biaser_new now config =
    \<lparr> ls_rtt = ewma_new_with_value (lc_rtt_decay config) now (as_secs_f64 (lc_default_rtt config)),
      ls_penalty_ms = lc_penalty_ms config, ls_max_duration = lc_max_duration config, ls_strong_count = 1 \<rparr>"

text \<open>A handle is a reference to the shared state, which it gives up when it is dropped.\<close>

definition lb_call :: "instant \<Rightarrow> lb_shared \<Rightarrow> lb_handle \<times> lb_shared" where
  "lb_call now sh = (\<lparr> h_sent_at = now, h_penalty = None \<rparr>, sh\<lparr> ls_strong_count := ls_strong_count sh + 1 \<rparr>)"

definition handle_value :: "(f64 \<Rightarrow> f64) \<Rightarrow> instant \<Rightarrow> lb_handle \<Rightarrow> ewma \<Rightarrow> f64" where
  "handle_value ex now h rtt = (case h_penalty h of
     None \<Rightarrow> as_secs_f64 (now - h_sent_at h)
   | Some penalty \<Rightarrow> f64_max (as_secs_f64 penalty) (ewma_get_at ex rtt now))"

definition handle_drop :: "(f64 \<Rightarrow> f64) \<Rightarrow> instant \<Rightarrow> lb_handle \<Rightarrow> lb_shared \<Rightarrow> lb_shared" where
  "handle_drop ex now h sh =
     sh\<lparr> ls_rtt := ewma_add_peak ex (handle_value ex now h (ls_rtt sh)) now (ls_rtt sh),
         ls_strong_count := ls_strong_count sh - 1 \<rparr>"

definition lb_load :: "(f64 \<Rightarrow> f64) \<Rightarrow> instant \<Rightarrow> lb_shared \<Rightarrow> f64" where
  "lb_load ex now sh =
    (let pending = ls_strong_count sh mod 2 ^ 32 - 1;
         rtt = ewma_get_at ex (ls_rtt sh) now
     in f64_mul rtt (f64_of_nat (min u32_max (pending + 1))))"

text \<open>The future of a response: a failure is recorded at once; the handle of a success goes
  with the response to whatever tracks its completion.\<close>

definition lb_future_poll ::
  "('re, 'h) http_api \<Rightarrow> (string \<Rightarrow> nat option) \<Rightarrow> nat \<Rightarrow> (f64 \<Rightarrow> f64) \<Rightarrow> instant \<Rightarrow> ('h lb_response, 'e) result poll
    \<Rightarrow> lb_handle option \<Rightarrow> lb_shared
    \<Rightarrow> (('h lb_response \<times> lb_handle option, 'e) result poll \<times> lb_handle option \<times> lb_shared) outcome" where
  "lb_future_poll api date sys_now ex now inner handle sh = (case inner of
     Pending \<Rightarrow> Returns (Pending, handle, sh)
   | Ready result \<Rightarrow>
       bind_outcome (expect ''polled after completion'' handle) (\<lambda>h.
         case result of
           Inl e \<Rightarrow> Returns (Ready (Err e), None, handle_drop ex now h sh)
         | Inr rsp \<Rightarrow>
             (case rsp_failure_hint api rsp of
                None \<Rightarrow> Returns (Ready (Ok (rsp, Some h)), None, sh)
              | Some hint \<Rightarrow>
                  (let rsp = attach_parsed_rate_limit_hint api date sys_now rsp;
                       penalty = effective_rtt api date sys_now sh hint rsp in
                   Returns (Ready (Ok (rsp, None)), None, handle_drop ex now (h\<lparr> h_penalty := Some penalty \<rparr>) sh)))))"

section \<open>Hints\<close>

lemma retry_after_cap:
  "hi \<le> duration_max \<Longrightarrow> parse_retry_after_value date now s hi =
     map_option (\<lambda>d. min d hi) (parse_retry_after_value date now s duration_max)"
  by (auto simp: parse_retry_after_value_def Let_def split: option.splits)

lemma pushback_cap:
  "hi \<le> duration_max \<Longrightarrow> parse_grpc_retry_pushback api h hi =
     map_option (\<lambda>d. min d hi) (parse_grpc_retry_pushback api h duration_max)"
  by (auto simp: parse_grpc_retry_pushback_def split: option.splits)

lemma retry_after_cap':
  "hi \<le> duration_max \<Longrightarrow> parse_retry_after api date now st h hi =
     map_option (\<lambda>d. min d hi) (parse_retry_after api date now st h duration_max)"
  using retry_after_cap [of hi date now] by (auto simp: parse_retry_after_def split: option.splits)

text \<open>Caching the hint is transparent: a reader gets what parsing with its own limit gives.\<close>

lemma cached_hint_transparent:
  assumes "lr_cached rsp = None" "hi \<le> duration_max"
  shows "rate_limit_hint api date now (attach_parsed_rate_limit_hint api date now rsp) hi = rate_limit_hint api date now rsp hi"
  using assms retry_after_cap' [OF assms(2), of api date now "lr_status rsp" "lr_headers rsp"]
    pushback_cap [OF assms(2), of api "lr_headers rsp"]
  by (auto simp: rate_limit_hint_def attach_parsed_rate_limit_hint_def split: option.splits)

lemma rate_limit_hint_le: "rate_limit_hint api date now rsp hi = Some d \<Longrightarrow> d \<le> hi"
  by (auto simp: rate_limit_hint_def parse_retry_after_def parse_retry_after_value_def parse_grpc_retry_pushback_def Let_def
      split: option.splits if_splits)

lemma effective_rtt_bounds:
  "from_millis (ls_penalty_ms sh) \<le> effective_rtt api date now sh hint rsp"
  "effective_rtt api date now sh hint rsp \<le> max (from_millis (ls_penalty_ms sh)) (ls_max_duration sh)"
  using rate_limit_hint_le [of api date now rsp "ls_max_duration sh"]
  by (auto simp: effective_rtt_def Let_def le_max_iff_disj split: option.splits failure_hint.splits)

section \<open>Penalties\<close>

lemma f64_lt_asym: "f64_lt x y \<Longrightarrow> \<not> f64_lt y x"
  by (cases x; cases y) auto

lemma f64_lt_not_nan: "f64_lt x y \<Longrightarrow> x \<noteq> F64_nan \<and> y \<noteq> F64_nan"
  by (cases x; cases y) auto

lemma ewma_peak_get: "f64_lt (ewma_get_at ex e now) v \<Longrightarrow> ewma_get_at ex (ewma_add_peak ex v now e) now = v"
  by (simp add: ewma_add_peak_def ewma_get_at_def)

text \<open>The penalty of a failure: the configured base; or what the server asks for by a hint, no more than
  the configured limit, when that is longer and the failure is a rate limit or an unavailable service.\<close>

definition failure_penalty ::
  "('re, 'h) http_api \<Rightarrow> (string \<Rightarrow> nat option) \<Rightarrow> nat \<Rightarrow> lb_shared \<Rightarrow> failure_hint \<Rightarrow> 'h lb_response \<Rightarrow> duration" where
  "failure_penalty api date now sh hint rsp =
    (if hint = InternalError then from_millis (ls_penalty_ms sh)
     else case rate_limit_hint api date now rsp duration_max of
       None \<Rightarrow> from_millis (ls_penalty_ms sh)
     | Some d \<Rightarrow> max (min d (ls_max_duration sh)) (from_millis (ls_penalty_ms sh)))"

lemma rate_limit_hint_cap:
  assumes "lr_cached rsp = None" "hi \<le> duration_max"
  shows "rate_limit_hint api date now rsp hi = map_option (\<lambda>d. min d hi) (rate_limit_hint api date now rsp duration_max)"
  using assms retry_after_cap' [OF assms(2), of api date now "lr_status rsp" "lr_headers rsp"]
    pushback_cap [OF assms(2), of api "lr_headers rsp"]
  by (auto simp: rate_limit_hint_def split: option.splits)

lemma effective_rtt_eq:
  assumes "lr_cached rsp = None" "ls_max_duration sh \<le> duration_max"
  shows "effective_rtt api date now sh hint (attach_parsed_rate_limit_hint api date now rsp) =
    failure_penalty api date now sh hint rsp"
  using cached_hint_transparent [OF assms, of api date now] rate_limit_hint_cap [OF assms, of api date now]
  by (cases hint) (simp_all add: effective_rtt_def failure_penalty_def Let_def split: option.splits)

text \<open>C40: A failed response is recorded at once and its handle is gone, so that the request does not count as in flight
  any more. The penalty is \<open>failure_penalty\<close>, between the configured base and the larger of the
  base and the configured limit: an estimate that has decayed below the penalty becomes the penalty; otherwise the
  sample that is recorded is the larger of the penalty and the decayed estimate.\<close>

theorem failure_penalty_recorded:
  assumes hint: "rsp_failure_hint api rsp = Some hint" and cached: "lr_cached rsp = None"
    and limit: "ls_max_duration sh \<le> duration_max"
    and penalty: "penalty = failure_penalty api date sys_now sh hint rsp"
  shows "\<exists>rsp' sh'.
    lb_future_poll api date sys_now ex now (Ready (Ok rsp) :: ('h lb_response, 'e) result poll) (Some h) sh =
      Returns (Ready (Ok (rsp', None)), None, sh') \<and>
    from_millis (ls_penalty_ms sh) \<le> penalty \<and> penalty \<le> max (from_millis (ls_penalty_ms sh)) (ls_max_duration sh) \<and>
    ls_strong_count sh' = ls_strong_count sh - 1 \<and>
    (if f64_lt (ewma_get_at ex (ls_rtt sh) now) (as_secs_f64 penalty)
     then ewma_get_at ex (ls_rtt sh') now = as_secs_f64 penalty
     else ls_rtt sh' = ewma_add_peak ex (f64_max (as_secs_f64 penalty) (ewma_get_at ex (ls_rtt sh) now)) now (ls_rtt sh))"
proof -
  let ?rsp = "attach_parsed_rate_limit_hint api date sys_now rsp"
  let ?sh = "handle_drop ex now (h\<lparr> h_penalty := Some penalty \<rparr>) sh"
  have p: "effective_rtt api date sys_now sh hint ?rsp = penalty"
    using effective_rtt_eq [OF cached limit] by (simp add: penalty)
  have "ewma_get_at ex (ls_rtt ?sh) now = as_secs_f64 penalty"
    if lt: "f64_lt (ewma_get_at ex (ls_rtt sh) now) (as_secs_f64 penalty)"
  proof -
    have "f64_max (as_secs_f64 penalty) (ewma_get_at ex (ls_rtt sh) now) = as_secs_f64 penalty"
      using f64_lt_not_nan [OF lt] f64_lt_asym [OF lt] by (simp add: f64_max_def)
    then show ?thesis using ewma_peak_get [OF lt] by (simp add: handle_drop_def handle_value_def)
  qed
  then show ?thesis
    using hint effective_rtt_bounds [where sh = sh and api = api and date = date and now = sys_now and hint = hint and rsp = ?rsp]
    by (intro exI [of _ ?rsp] exI [of _ ?sh]) (simp add: lb_future_poll_def handle_drop_def handle_value_def Let_def p)
qed

lemma as_secs_whole: "n < 2 ^ 53 \<Longrightarrow> as_secs_f64 (n * nanos_per_sec) = F64 (of_nat n)"
  using f64_of_nat_exact [of n] f64_of_nat_exact [of nanos_per_sec]
  by (simp add: as_secs_f64_def nanos_per_sec_def f64_of_nat_def f64_round_def [of 0])

definition sample_rsp :: "(header_name \<Rightarrow> header_value list) lb_response" where
  "sample_rsp = \<lparr> lr_status = 503, lr_headers = (\<lambda>_. [])(''retry-after'' := [''7'']), lr_cached = None \<rparr>"

theorem failure_penalty_recorded_witness:
  "\<exists>rsp' sh'.
    lb_future_poll fun_headers_api (\<lambda>_. None) 0 (\<lambda>_. F64 1) 0 (Ready (Ok sample_rsp) :: (_, unit) result poll)
      (Some \<lparr> h_sent_at = 0, h_penalty = None \<rparr>) (load_biaser_new 0 default_load_biaser_config) =
      Returns (Ready (Ok (rsp', None)), None, sh') \<and> ewma_get_at (\<lambda>_. F64 1) (ls_rtt sh') 0 = as_secs_f64 (7 * nanos_per_sec)"
proof -
  let ?sh = "load_biaser_new 0 default_load_biaser_config"
  have h: "rsp_failure_hint fun_headers_api sample_rsp = Some ServiceUnavailable" "lr_cached sample_rsp = None"
    "ls_max_duration ?sh \<le> duration_max"
    by (simp_all add: rsp_failure_hint_def sample_rsp_def load_biaser_new_def default_load_biaser_config_def
        duration_max_def nanos_per_sec_def)
  have p: "7 * nanos_per_sec = failure_penalty fun_headers_api (\<lambda>_. None) 0 ?sh ServiceUnavailable sample_rsp"
    by (simp add: failure_penalty_def rate_limit_hint_def parse_retry_after_def parse_retry_after_value_def sample_rsp_def Let_def
        fun_headers_api_def hdr_get_def load_biaser_new_def default_load_biaser_config_def from_millis_def
        trim_def parse_uint_def is_whitespace_def is_digit_def read_nat_def read_digit_def u64_max_def nanos_per_sec_def
        duration_max_def)
  have lt: "f64_lt (ewma_get_at (\<lambda>_. F64 1) (ls_rtt ?sh) 0) (as_secs_f64 (7 * nanos_per_sec))"
    using as_secs_whole [of 1] as_secs_whole [of 7]
    by (simp add: ewma_get_at_def load_biaser_new_def default_load_biaser_config_def ewma_new_with_value_def)
  from failure_penalty_recorded [OF h p, of "\<lambda>_. F64 1" 0 "\<lparr> h_sent_at = 0, h_penalty = None \<rparr>", where 'e = unit] lt
  show ?thesis by auto
qed

section \<open>Requests in flight\<close>

datatype lb_event = Lb_Call instant | Lb_Drop nat instant "duration option"

fun lb_event_step :: "(f64 \<Rightarrow> f64) \<Rightarrow> lb_event \<Rightarrow> lb_shared \<times> lb_handle list \<Rightarrow> lb_shared \<times> lb_handle list" where
  "lb_event_step ex (Lb_Call now) (sh, hs) = (case lb_call now sh of (h, sh) \<Rightarrow> (sh, hs @ [h]))"
| "lb_event_step ex (Lb_Drop i now penalty) (sh, hs) =
    (if i < length hs then (handle_drop ex now ((hs ! i)\<lparr> h_penalty := penalty \<rparr>) sh, take i hs @ drop (Suc i) hs)
     else (sh, hs))"

text \<open>Whatever requests are started, completed, failed or cancelled, the load is the estimated round
  trip times one more than the requests in flight.\<close>

lemma strong_count_run:
  "fold (lb_event_step ex) es (sh, hs) = (sh', hs') \<Longrightarrow> ls_strong_count sh = Suc (length hs) \<Longrightarrow>
     ls_strong_count sh' = Suc (length hs')"
proof (induction es arbitrary: sh hs)
  case (Cons e es)
  obtain sh1 hs1 where st: "lb_event_step ex e (sh, hs) = (sh1, hs1)" by (cases "lb_event_step ex e (sh, hs)")
  have "ls_strong_count sh1 = Suc (length hs1)"
    using st Cons.prems(2) by (cases e) (auto simp: lb_call_def handle_drop_def split: if_splits)
  then show ?case using Cons.IH Cons.prems(1) st by simp
qed simp

lemma load_counts_in_flight:
  assumes "fold (lb_event_step ex) es (load_biaser_new t0 config, []) = (sh, hs)" "length hs < u32_max"
  shows "lb_load ex now sh = f64_mul (ewma_get_at ex (ls_rtt sh) now) (f64_of_nat (length hs + 1))"
proof -
  have "ls_strong_count sh = Suc (length hs)"
    by (rule strong_count_run [OF assms(1)]) (simp add: load_biaser_new_def)
  moreover have "Suc (length hs) mod 2 ^ 32 = Suc (length hs)" using assms(2) by (simp add: u32_max_def)
  ultimately show ?thesis using assms(2) by (simp add: lb_load_def Let_def)
qed

end
