(* ===== verification/Hpack_Int.thy ===== *)
theory Hpack_Int
  imports Rust_Prelude "HOL-Library.Word"
begin

unbundle bit_operations_syntax

text \<open>
  Integers of HPACK header blocks (\<open>src/vendor/h2/src/hpack/\<close>): the reader
  \<open>decode_int\<close> of \<open>decoder.rs\<close>, the writer \<open>encode_int\<close> of \<open>encoder.rs\<close>,
  and the reader \<open>varint\<close>, the string reader \<open>read_str\<close> and the writer
  \<open>Sink\<close> of \<open>transcode.rs\<close>. Bytes are 8-bit words; a \<open>usize\<close> is a natural number,
  since no integer here reaches \<open>2 ^ 33\<close>. A cursor over a buffer is the list of the bytes
  that remain; an index into a slice stays an index.

  Both writers produce the same bytes, what they write is read back by both readers up to the
  limit of five octets, and whatever \<open>decode_int\<close> accepts \<open>varint\<close> reads
  as the same number.
\<close>

type_synonym u8 = "8 word"

type_synonym octets = "u8 list"

definition octet :: "char \<Rightarrow> u8" where
  "octet c = of_nat (of_char c)"

definition octets :: "string \<Rightarrow> octets" where
  "octets = map octet"

definition slice_get :: "'a list \<Rightarrow> nat \<Rightarrow> 'a option" where
  "slice_get xs i = (if i < length xs then Some (xs ! i) else None)"

definition slice :: "nat \<Rightarrow> nat \<Rightarrow> 'a list \<Rightarrow> 'a list" where
  "slice a b xs = take (b - a) (drop a xs)"

section \<open>The reader of the decoder\<close>

datatype need_more = UnexpectedEndOfStream | IntegerUnderflow | StringUnderflow

datatype transcode_error = Truncated | InvalidInteger | InvalidIndex | InvalidHuffman

datatype decoder_error =
    InvalidRepresentation | InvalidIntegerPrefix | InvalidTableIndex | InvalidHuffmanCode
  | InvalidUtf8 | InvalidStatusCode | InvalidPseudoheader | InvalidMaxDynamicSize
  | IntegerOverflow | NeedMore need_more | Selective transcode_error

definition MAX_BYTES :: nat where
  "MAX_BYTES = 5"

fun decode_int_loop :: "octets \<Rightarrow> nat \<Rightarrow> nat \<Rightarrow> nat \<Rightarrow> (nat \<times> octets, decoder_error) result" where
  "decode_int_loop [] ret shift n = Err (NeedMore IntegerUnderflow)"
| "decode_int_loop (b # bs) ret shift n =
    (let n = n + 1;
         ret = ret + push_bit shift (unat (b AND 0x7F));
         shift = shift + 7
     in if b AND 0x80 = 0 then Ok (ret, bs)
        else if n = MAX_BYTES then Err IntegerOverflow
        else decode_int_loop bs ret shift n)"

definition prefix_mask :: "nat \<Rightarrow> u8" where
  "prefix_mask prefix_size = (if prefix_size = 8 then 0xFF else push_bit prefix_size 1 - 1)"

definition decode_int :: "nat \<Rightarrow> octets \<Rightarrow> (nat \<times> octets, decoder_error) result" where
  "decode_int prefix_size buf =
    (if prefix_size < 1 \<or> 8 < prefix_size then Err InvalidIntegerPrefix
     else case buf of
       [] \<Rightarrow> Err (NeedMore IntegerUnderflow)
     | b # bs \<Rightarrow>
         let mask = prefix_mask prefix_size; ret = unat (b AND mask) in
         if ret < unat mask then Ok (ret, bs) else decode_int_loop bs ret 0 1)"

section \<open>The writer of the encoder\<close>

lemma drop_bit_7_less [termination_simp]: "128 \<le> (v :: nat) \<Longrightarrow> drop_bit 7 v < v"
  by (simp add: drop_bit_eq_div)

definition encode_int_one_byte :: "nat \<Rightarrow> nat \<Rightarrow> bool" where
  "encode_int_one_byte value prefix_bits \<longleftrightarrow> value < push_bit prefix_bits 1 - 1"

fun encode_int_loop :: "nat \<Rightarrow> octets" where
  "encode_int_loop value =
    (if 128 \<le> value then (0x80 OR of_nat value) # encode_int_loop (drop_bit 7 value)
     else [of_nat value])"

definition encode_int :: "nat \<Rightarrow> nat \<Rightarrow> u8 \<Rightarrow> octets" where
  "encode_int value prefix_bits first_byte =
    (if encode_int_one_byte value prefix_bits then [first_byte OR of_nat value]
     else let low = push_bit prefix_bits 1 - 1 in
       (first_byte OR of_nat low) # encode_int_loop (value - low))"

section \<open>The reader and the writer of the transcoder\<close>

function varint_loop :: "octets \<Rightarrow> nat \<Rightarrow> nat \<Rightarrow> nat \<Rightarrow> (nat \<times> nat, transcode_error) result" where
  "varint_loop b i acc m =
    (if 28 < m then Err InvalidInteger
     else case slice_get b i of
       None \<Rightarrow> Err Truncated
     | Some c \<Rightarrow>
         let i = i + 1; acc = acc + push_bit m (unat (c AND 0x7F)); m = m + 7 in
         if c AND 0x80 = 0 then Ok (acc, i) else varint_loop b i acc m)"
  by pat_completeness auto
termination
  by (relation "measure (\<lambda>(b, i, acc, m). 29 - m)") auto

declare varint_loop.simps [simp del]

definition varint :: "octets \<Rightarrow> nat \<Rightarrow> nat \<Rightarrow> (nat \<times> nat, transcode_error) result" where
  "varint b i pfx =
    (let mask = push_bit pfx 1 - 1 in
     case slice_get b i of
       None \<Rightarrow> Err Truncated
     | Some c \<Rightarrow>
         let i = i + 1; v = unat c AND mask in
         if v \<noteq> mask then Ok (v, i)
         else case varint_loop b i v 0 of
           Inl e \<Rightarrow> Err e
         | Inr (acc, i) \<Rightarrow> if u32_max < acc then Err InvalidInteger else Ok (acc, i))"

definition read_str :: "octets \<Rightarrow> nat \<Rightarrow> (bool \<times> nat \<times> nat, transcode_error) result" where
  "read_str b i = (case slice_get b i of
     None \<Rightarrow> Err Truncated
   | Some c \<Rightarrow>
       bind_result (varint b i 7) (\<lambda>(l, start).
         if length b - start < l then Err Truncated
         else Ok (c AND 0x80 \<noteq> 0, start, start + l)))"

fun sink_int_loop :: "nat \<Rightarrow> octets" where
  "sink_int_loop v =
    (if 128 \<le> v then (of_nat (v AND 127) OR 128) # sink_int_loop (drop_bit 7 v)
     else [of_nat v])"

definition sink_int :: "u8 \<Rightarrow> nat \<Rightarrow> nat \<Rightarrow> octets" where
  "sink_int first_bits pfx v =
    (let m = push_bit pfx 1 - 1 in
     if v < m then [first_bits OR of_nat v]
     else (first_bits OR of_nat m) # sink_int_loop (v - m))"

definition sink_str :: "bool \<Rightarrow> octets \<Rightarrow> octets" where
  "sink_str huff s = sink_int (if huff then 0x80 else 0) 7 (length s) @ s"

definition sink_name :: "u8 \<Rightarrow> nat \<Rightarrow> nat \<Rightarrow> bool \<Rightarrow> octets \<Rightarrow> octets" where
  "sink_name first_bits pfx name_static huff enc =
    (if name_static \<noteq> 0 then sink_int first_bits pfx name_static
     else sink_int first_bits pfx 0 @ sink_str huff enc)"

declare encode_int_loop.simps [simp del] sink_int_loop.simps [simp del]

section \<open>Octets as numbers\<close>

lemma unat_take_bit: "unat (take_bit p b) = unat b mod 2 ^ p"
  by (simp only: unsigned_take_bit_eq) (simp only: take_bit_eq_mod)

lemma unat_and_127 [simp]: "unat ((b :: u8) AND 127) = unat b mod 128"
  using unat_take_bit [of 7 b] by (simp add: take_bit_eq_mask mask_eq_exp_minus_1)

lemma unat_less_256 [simp]: "unat (b :: u8) < 256"
  using unsigned_less [of b] by simp

lemma unat_of_nat_u8 [simp]: "v < 256 \<Longrightarrow> unat (of_nat v :: u8) = v"
  by (simp add: unat_of_nat)

lemma bit_7_iff: "(n :: nat) < 256 \<Longrightarrow> bit n 7 \<longleftrightarrow> 128 \<le> n"
proof -
  assume "n < 256"
  then have "n div 128 = (if n < 128 then 0 else 1)"
    by (simp add: div_nat_eqI)
  then show ?thesis
    by (simp add: bit_iff_odd)
qed

lemma and_128_eq_0_iff: "(b :: u8) AND 128 = 0 \<longleftrightarrow> unat b < 128"
proof -
  have "b AND 128 = 0 \<longleftrightarrow> \<not> bit b 7"
    using and_exp_eq_0_iff_not_bit [of b 7] by simp
  also have "\<dots> \<longleftrightarrow> \<not> bit (unat b) 7"
    by (simp add: bit_unsigned_iff)
  finally show ?thesis
    by (simp add: bit_7_iff not_le)
qed

lemma push_bit_minus_1: "push_bit p (1 :: nat) - 1 = 2 ^ p - 1"
  by (simp add: push_bit_eq_mult)

lemma nat_and_mask: "(x :: nat) AND (2 ^ p - 1) = x mod 2 ^ p"
  by (metis mask_eq_exp_minus_1 take_bit_eq_mask take_bit_eq_mod)

lemmas nat_and_masks = nat_and_mask nat_and_mask [unfolded One_nat_def]

lemma prefix_mask_mask: "1 \<le> p \<Longrightarrow> p \<le> 8 \<Longrightarrow> prefix_mask p = mask p"
  by (auto simp: prefix_mask_def mask_eq_exp_minus_1 push_bit_eq_mult)

lemma unat_and_prefix_mask:
  "1 \<le> p \<Longrightarrow> p \<le> 8 \<Longrightarrow> unat (b AND prefix_mask p) = unat b mod 2 ^ p"
  using unat_take_bit [of p b] by (simp add: prefix_mask_mask take_bit_eq_mask)

lemma unat_prefix_mask: "1 \<le> p \<Longrightarrow> p \<le> 8 \<Longrightarrow> unat (prefix_mask p) = 2 ^ p - 1"
proof -
  assume p: "1 \<le> p" "p \<le> 8"
  have "take_bit p (mask 8 :: nat) = mask p"
    using p by (simp only: take_bit_of_mask min_def if_True)
  then have "unat (take_bit p (- 1 :: u8)) = mask p"
    by (simp only: unsigned_take_bit_eq unsigned_minus_1_eq_mask) simp
  then show ?thesis
    using p by (simp add: prefix_mask_mask mask_eq_exp_minus_1)
qed

text \<open>The first bits of a representation leave the bits of the prefix free.\<close>

lemma unat_or_mod:
  assumes "unat fb mod 2 ^ p = 0" "v < 2 ^ p" "p \<le> 8"
  shows "unat ((fb :: u8) OR of_nat v) mod 2 ^ p = v"
proof -
  have v: "unat (of_nat v :: u8) = v"
    using assms power_increasing [of p 8 "2 :: nat"] by (intro unat_of_nat_u8) simp
  have "take_bit p (unat (fb OR of_nat v)) = take_bit p (unat fb) OR take_bit p v"
    by (simp add: unsigned_or_eq v)
  then show ?thesis
    using assms by (simp add: take_bit_eq_mod)
qed

lemma unat_high_or: "v < 128 \<Longrightarrow> unat (of_nat v OR 128 :: u8) mod 128 = v"
  using unat_or_mod [of 128 7 v] by (simp add: or.commute [of _ 128])

lemma high_or_and_128: "(w OR 128 :: u8) AND 128 \<noteq> 0"
proof -
  have "bit (w OR 2 ^ 7 :: u8) 7"
    by (simp only: bit_or_iff bit_exp_iff) simp
  then show ?thesis
    using and_exp_eq_0_iff_not_bit [of "w OR 2 ^ 7" 7] by simp
qed

section \<open>What is written is read back\<close>

lemma encode_int_loop_eq: "encode_int_loop v = sink_int_loop v"
proof (induction v rule: encode_int_loop.induct)
  case (1 v)
  have "(of_nat (v AND 127) OR 128 :: u8) = 0x80 OR of_nat v"
  proof (rule bit_word_eqI)
    fix n assume "n < LENGTH(8)"
    then have "n = 7 \<or> n < 7" by auto
    moreover have "v AND 127 = take_bit 7 v"
      by (simp add: take_bit_eq_mask mask_eq_exp_minus_1)
    moreover have "bit (128 :: u8) n \<longleftrightarrow> n = 7"
      using bit_exp_iff [of 7 n, where 'a = "8 word"] \<open>n < LENGTH(8)\<close> by auto
    ultimately show "bit (of_nat (v AND 127) OR 128 :: u8) n = bit (0x80 OR of_nat v :: u8) n"
      using \<open>n < LENGTH(8)\<close> by (auto simp: bit_or_iff bit_of_nat_iff bit_take_bit_iff)
  qed
  then show ?case
    using 1 by (simp add: encode_int_loop.simps [of v] sink_int_loop.simps [of v])
qed

lemma encode_int_eq: "encode_int v p fb = sink_int fb p v"
  by (simp add: encode_int_def sink_int_def encode_int_one_byte_def encode_int_loop_eq Let_def)

lemma decode_int_loop_sink:
  "v < 128 ^ (5 - n) \<Longrightarrow> n < 5 \<Longrightarrow>
    decode_int_loop (sink_int_loop v @ rest) ret shift n = Ok (ret + v * 2 ^ shift, rest)"
proof (induction v arbitrary: ret shift n rule: sink_int_loop.induct)
  case (1 v)
  show ?case
  proof (cases "128 \<le> v")
    case True
    then have n: "n + 1 \<noteq> 5"
      using 1(2,3) by (cases "n = 4") auto
    moreover have "(128 :: nat) ^ (5 - n) = 128 ^ (5 - (n + 1)) * 128"
      using 1(3) by (simp add: mult.commute Suc_diff_Suc flip: power_Suc)
    ultimately have lt: "drop_bit 7 v < 128 ^ (5 - (n + 1))"
      using 1(2) less_mult_imp_div_less [of v "128 ^ (5 - (n + 1))" 128]
      by (simp only: drop_bit_eq_div) simp
    have "v AND 127 = v mod 128"
      using nat_and_mask [of v 7] by simp
    moreover have "(v mod 128) * 2 ^ shift + v div 128 * 2 ^ (shift + 7) = v * 2 ^ shift"
      by (simp add: power_add algebra_simps flip: distrib_left)
    ultimately show ?thesis
      using True n 1(3) 1(1) [OF True lt] high_or_and_128 unat_high_or [of "v mod 128"]
      by (simp add: sink_int_loop.simps [of v] Let_def MAX_BYTES_def push_bit_eq_mult drop_bit_eq_div)
  next
    case False
    then show ?thesis
      by (simp add: sink_int_loop.simps [of v] Let_def and_128_eq_0_iff push_bit_eq_mult)
  qed
qed

theorem decode_int_sink:
  assumes "1 \<le> p" "p \<le> 8" "unat fb mod 2 ^ p = 0" "v < 2 ^ 28"
  shows "decode_int p (sink_int fb p v @ rest) = Ok (v, rest)"
proof (cases "v < 2 ^ p - 1")
  case True
  then show ?thesis
    using assms unat_or_mod [of fb p v]
    by (simp add: sink_int_def decode_int_def Let_def push_bit_minus_1 unat_and_prefix_mask unat_prefix_mask)
next
  case False
  moreover have "unat (fb OR of_nat (2 ^ p - 1)) mod 2 ^ p = 2 ^ p - 1"
    using assms by (intro unat_or_mod) simp_all
  moreover have "v - (2 ^ p - 1) < 128 ^ (5 - 1)"
    using assms(4) less_imp_diff_less [of v "2 ^ 28" "2 ^ p - 1"] by simp
  ultimately show ?thesis
    using assms decode_int_loop_sink [of "v - (2 ^ p - 1)" 1 rest "2 ^ p - 1" 0]
    by (simp add: sink_int_def decode_int_def Let_def push_bit_minus_1 unat_and_prefix_mask unat_prefix_mask)
qed

lemma decode_int_loop_value:
  "decode_int_loop bs ret shift n = Ok (v, rest) \<Longrightarrow> n < 5 \<Longrightarrow>
    \<exists>x. v = ret + x * 2 ^ shift \<and> x < 128 ^ (5 - n)"
proof (induction bs ret shift n rule: decode_int_loop.induct)
  case (2 b bs ret shift n)
  have split: "(128 :: nat) ^ (5 - n) = 128 * 128 ^ (5 - (n + 1))"
    using 2(3) by (simp add: Suc_diff_Suc flip: power_Suc)
  have byte: "unat b mod 128 \<le> 127"
    using mod_less_divisor [of 128 "unat b"] by linarith
  show ?case
  proof (cases "b AND 128 = 0")
    case True
    then have "v = ret + (unat b mod 128) * 2 ^ shift"
      using 2(2) by (simp add: Let_def push_bit_eq_mult)
    moreover have "unat b mod 128 < 128 ^ (5 - n)"
      using byte one_le_power [of "128 :: nat" "5 - (n + 1)"] unfolding split by linarith
    ultimately show ?thesis by blast
  next
    case False
    then have n: "n + 1 < 5" and rec: "decode_int_loop bs (ret + push_bit shift (unat b mod 128)) (shift + 7) (n + 1) = Ok (v, rest)"
      using 2(2,3) by (auto simp: Let_def MAX_BYTES_def split: if_splits)
    then obtain x where x: "v = ret + (unat b mod 128) * 2 ^ shift + x * 2 ^ (shift + 7)" "x < 128 ^ (5 - (n + 1))"
      using 2(1) [OF refl refl refl False] by (auto simp: MAX_BYTES_def push_bit_eq_mult)
    then have "v = ret + (unat b mod 128 + 128 * x) * 2 ^ shift"
      by (simp add: power_add algebra_simps)
    moreover have "unat b mod 128 + 128 * x < 128 ^ (5 - n)"
      using byte x(2) unfolding split by linarith
    ultimately show ?thesis by blast
  qed
qed simp

lemma varint_loop_of_decode:
  "decode_int_loop (drop i b) ret shift n = Ok (v, rest) \<Longrightarrow> shift + 7 = 7 * n \<Longrightarrow> n < 5 \<Longrightarrow>
    \<exists>j. varint_loop b i ret shift = Ok (v, j) \<and> rest = drop j b \<and> i < j \<and> j \<le> length b"
proof (induction "5 - n" arbitrary: i ret shift n)
  case (Suc k)
  from Suc.prems(1) have i: "i < length b"
    by (metis decode_int_loop.simps(1) drop_eq_Nil2 linorder_not_le Inl_Inr_False)
  then have d: "drop i b = b ! i # drop (i + 1) b"
    by (simp add: Cons_nth_drop_Suc)
  show ?case
  proof (cases "b ! i AND 128 = 0")
    case True
    then show ?thesis
      using Suc.prems i by (simp add: d varint_loop.simps [of b i] slice_get_def Let_def Suc_leI)
  next
    case False
    then have n: "n + 1 < 5"
      and rec: "decode_int_loop (drop (i + 1) b) (ret + push_bit shift (unat (b ! i) mod 128)) (shift + 7) (n + 1) = Ok (v, rest)"
      using Suc.prems by (auto simp: d Let_def MAX_BYTES_def split: if_splits)
    have "\<exists>j. varint_loop b (i + 1) (ret + push_bit shift (unat (b ! i) mod 128)) (shift + 7) = Ok (v, j)
        \<and> rest = drop j b \<and> i + 1 < j \<and> j \<le> length b"
      using Suc.prems Suc.hyps(2) n by (intro Suc.hyps(1) [OF _ rec]) auto
    then show ?thesis
      using False Suc.prems i by (auto simp: varint_loop.simps [of b i] slice_get_def Let_def)
  qed
qed simp

theorem varint_of_decode_int:
  assumes "decode_int p (drop i b) = Ok (v, rest)" "p \<le> 7"
  obtains j where "varint b i p = Ok (v, j)" "rest = drop j b" "i < j" "j \<le> length b"
proof -
  from assms(1) have i: "i < length b" and p: "1 \<le> p" "p \<le> 8"
    by (auto simp: decode_int_def split: if_splits list.splits) (metis drop_eq_Nil list.distinct(1) not_le)
  then have d: "drop i b = b ! i # drop (i + 1) b"
    by (simp add: Cons_nth_drop_Suc)
  show ?thesis
  proof (cases "unat (b ! i) mod 2 ^ p = 2 ^ p - 1")
    case False
    moreover have "unat (b ! i) mod 2 ^ p < 2 ^ p" by simp
    ultimately have lt: "unat (b ! i) mod 2 ^ p < 2 ^ p - 1" by linarith
    then have "v = unat (b ! i) mod 2 ^ p" "rest = drop (i + 1) b"
      using assms p by (simp_all add: d decode_int_def Let_def unat_and_prefix_mask unat_prefix_mask)
    then show ?thesis
      using lt i by (intro that [of "i + 1"])
        (auto simp: varint_def slice_get_def Let_def push_bit_minus_1 nat_and_masks)
  next
    case True
    then have rec: "decode_int_loop (drop (i + 1) b) (2 ^ p - 1) 0 1 = Ok (v, rest)"
      using assms p by (simp add: d decode_int_def Let_def unat_and_prefix_mask unat_prefix_mask)
    obtain x where "v = 2 ^ p - 1 + x" "x < 128 ^ 4"
      using decode_int_loop_value [OF rec] by auto
    moreover have "(2 :: nat) ^ p \<le> 2 ^ 7"
      using assms(2) by (rule power_increasing) simp
    ultimately have "v \<le> u32_max"
      by (simp add: u32_max_def)
    moreover obtain j where "varint_loop b (i + 1) (2 ^ p - 1) 0 = Ok (v, j)" "rest = drop j b" "i + 1 < j" "j \<le> length b"
      using varint_loop_of_decode [OF rec] by auto
    ultimately show ?thesis
      using True i by (intro that [of j])
        (auto simp: varint_def slice_get_def Let_def push_bit_minus_1 nat_and_masks)
  qed
qed

end
