(* ===== verification/Hpack_Header.thy ===== *)
theory Hpack_Header
  imports Hpack_Int
begin

text \<open>
  Decoded header fields (\<open>src/vendor/h2/src/hpack/header.rs\<close>) and the static table
  (\<open>get_static\<close> of \<open>decoder.rs\<close>; \<open>STATIC_NAME_LEN\<close>, \<open>static_value\<close> and
  \<open>Kind\<close> of \<open>mirror.rs\<close>; \<open>static_field_value\<close> and \<open>static_name_index\<close> of
  \<open>selective.rs\<close>).

  The types of the \<open>http\<close> crate are represented by their text. The constructors that check it
  are a parameter; the only law needed is that a status code has three digits. The check for
  UTF-8 is the standard library's.

  A name that is written out and the same name taken from a table entry give the same field,
  and the tables of the mirror agree with the static table of the decoder.
\<close>

section \<open>Fields\<close>

datatype header =
    Header_Field octets octets
  | Header_Authority octets
  | Header_Method octets
  | Header_Scheme octets
  | Header_Path octets
  | Header_Protocol octets
  | Header_Status octets

datatype header_field_name =
    Name_Field octets | Name_Authority | Name_Method | Name_Scheme | Name_Path | Name_Protocol | Name_Status

text \<open>\<open>Method::from_bytes\<close>, \<open>StatusCode::from_bytes\<close>,
  \<open>HeaderName::from_lowercase\<close> and \<open>HeaderValue::from_maybe_shared\<close>.\<close>

record http_lib =
  lib_method :: "octets \<Rightarrow> bool"
  lib_status :: "octets \<Rightarrow> bool"
  lib_name :: "octets \<Rightarrow> bool"
  lib_value :: "octets \<Rightarrow> bool"

definition http_lib_laws :: "http_lib \<Rightarrow> bool" where
  "http_lib_laws lib \<longleftrightarrow> (\<forall>v. lib_status lib v \<longrightarrow> length v = 3)"

text \<open>\<open>std::str::from_utf8\<close>: no overlong forms, no surrogates, nothing above U+10FFFF.\<close>

definition is_continuation :: "u8 \<Rightarrow> bool" where
  "is_continuation b \<longleftrightarrow> 0x80 \<le> b \<and> b \<le> 0xBF"

fun valid_utf8 :: "octets \<Rightarrow> bool" where
  "valid_utf8 [] = True"
| "valid_utf8 (a # bs) =
    (if a \<le> 0x7F then valid_utf8 bs
     else case bs of
       [] \<Rightarrow> False
     | b # cs \<Rightarrow>
         if 0xC2 \<le> a \<and> a \<le> 0xDF then is_continuation b \<and> valid_utf8 cs
         else case cs of
           [] \<Rightarrow> False
         | c # ds \<Rightarrow>
             if 0xE0 \<le> a \<and> a \<le> 0xEF then
               is_continuation b \<and> (a = 0xE0 \<longrightarrow> 0xA0 \<le> b) \<and> (a = 0xED \<longrightarrow> b \<le> 0x9F)
               \<and> is_continuation c \<and> valid_utf8 ds
             else case ds of
               [] \<Rightarrow> False
             | d # es \<Rightarrow>
                 0xF0 \<le> a \<and> a \<le> 0xF4 \<and> is_continuation b \<and> (a = 0xF0 \<longrightarrow> 0x90 \<le> b)
                 \<and> (a = 0xF4 \<longrightarrow> b \<le> 0x8F) \<and> is_continuation c \<and> is_continuation d \<and> valid_utf8 es)"

definition bytes_str_try_from :: "octets \<Rightarrow> (octets, decoder_error) result" where
  "bytes_str_try_from b = (if valid_utf8 b then Ok b else Err InvalidUtf8)"

definition checked :: "(octets \<Rightarrow> bool) \<Rightarrow> decoder_error \<Rightarrow> octets \<Rightarrow> (octets, decoder_error) result" where
  "checked valid e v = (if valid v then Ok v else Err e)"

definition header_new :: "http_lib \<Rightarrow> octets \<Rightarrow> octets \<Rightarrow> (header, decoder_error) result" where
  "header_new lib name value =
    (if name = [] then Err (NeedMore UnexpectedEndOfStream)
     else if hd name = octet CHR '':'' then
       (if tl name = octets ''authority'' then bind_result (bytes_str_try_from value) (\<lambda>v. Ok (Header_Authority v))
        else if tl name = octets ''method'' then bind_result (checked (lib_method lib) InvalidUtf8 value) (\<lambda>v. Ok (Header_Method v))
        else if tl name = octets ''scheme'' then bind_result (bytes_str_try_from value) (\<lambda>v. Ok (Header_Scheme v))
        else if tl name = octets ''path'' then bind_result (bytes_str_try_from value) (\<lambda>v. Ok (Header_Path v))
        else if tl name = octets ''protocol'' then bind_result (bytes_str_try_from value) (\<lambda>v. Ok (Header_Protocol v))
        else if tl name = octets ''status'' then bind_result (checked (lib_status lib) InvalidUtf8 value) (\<lambda>v. Ok (Header_Status v))
        else Err InvalidPseudoheader)
     else
       bind_result (checked (lib_name lib) InvalidUtf8 name) (\<lambda>name.
         bind_result (checked (lib_value lib) InvalidUtf8 value) (\<lambda>value. Ok (Header_Field name value))))"

fun header_len :: "header \<Rightarrow> nat" where
  "header_len (Header_Field name value) = 32 + length name + length value"
| "header_len (Header_Authority v) = 32 + 10 + length v"
| "header_len (Header_Method v) = 32 + 7 + length v"
| "header_len (Header_Scheme v) = 32 + 7 + length v"
| "header_len (Header_Path v) = 32 + 5 + length v"
| "header_len (Header_Protocol v) = 32 + 9 + length v"
| "header_len (Header_Status v) = 32 + 7 + 3"

fun header_name :: "header \<Rightarrow> header_field_name" where
  "header_name (Header_Field name value) = Name_Field name"
| "header_name (Header_Authority v) = Name_Authority"
| "header_name (Header_Method v) = Name_Method"
| "header_name (Header_Scheme v) = Name_Scheme"
| "header_name (Header_Path v) = Name_Path"
| "header_name (Header_Protocol v) = Name_Protocol"
| "header_name (Header_Status v) = Name_Status"

fun value_slice :: "header \<Rightarrow> octets" where
  "value_slice (Header_Field name value) = value"
| "value_slice (Header_Authority v) = v"
| "value_slice (Header_Method v) = v"
| "value_slice (Header_Scheme v) = v"
| "value_slice (Header_Path v) = v"
| "value_slice (Header_Protocol v) = v"
| "value_slice (Header_Status v) = v"

fun into_entry :: "http_lib \<Rightarrow> header_field_name \<Rightarrow> octets \<Rightarrow> (header, decoder_error) result" where
  "into_entry lib (Name_Field name) value =
     bind_result (checked (lib_value lib) InvalidUtf8 value) (\<lambda>v. Ok (Header_Field name v))"
| "into_entry lib Name_Authority value = bind_result (bytes_str_try_from value) (\<lambda>v. Ok (Header_Authority v))"
| "into_entry lib Name_Method value =
     bind_result (checked (lib_method lib) InvalidUtf8 value) (\<lambda>v. Ok (Header_Method v))"
| "into_entry lib Name_Scheme value = bind_result (bytes_str_try_from value) (\<lambda>v. Ok (Header_Scheme v))"
| "into_entry lib Name_Path value = bind_result (bytes_str_try_from value) (\<lambda>v. Ok (Header_Path v))"
| "into_entry lib Name_Protocol value = bind_result (bytes_str_try_from value) (\<lambda>v. Ok (Header_Protocol v))"
| "into_entry lib Name_Status value =
     bind_result (checked (lib_status lib) InvalidStatusCode value) (\<lambda>v. Ok (Header_Status v))"

fun name_as_slice :: "header_field_name \<Rightarrow> octets" where
  "name_as_slice (Name_Field name) = name"
| "name_as_slice Name_Authority = octets '':authority''"
| "name_as_slice Name_Method = octets '':method''"
| "name_as_slice Name_Scheme = octets '':scheme''"
| "name_as_slice Name_Path = octets '':path''"
| "name_as_slice Name_Protocol = octets '':protocol''"
| "name_as_slice Name_Status = octets '':status''"

section \<open>The static table\<close>

definition static_field :: "string \<Rightarrow> header" where
  "static_field name = Header_Field (octets name) []"

definition static_headers :: "header list" where
  "static_headers = [
    Header_Authority [], Header_Method (octets ''GET''), Header_Method (octets ''POST''),
    Header_Path (octets ''/''), Header_Path (octets ''/index.html''), Header_Scheme (octets ''http''),
    Header_Scheme (octets ''https''), Header_Status (octets ''200''), Header_Status (octets ''204''),
    Header_Status (octets ''206''), Header_Status (octets ''304''), Header_Status (octets ''400''),
    Header_Status (octets ''404''), Header_Status (octets ''500''), static_field ''accept-charset'',
    Header_Field (octets ''accept-encoding'') (octets ''gzip, deflate''),
    static_field ''accept-language'', static_field ''accept-ranges'', static_field ''accept'',
    static_field ''access-control-allow-origin'', static_field ''age'', static_field ''allow'',
    static_field ''authorization'', static_field ''cache-control'',
    static_field ''content-disposition'', static_field ''content-encoding'',
    static_field ''content-language'', static_field ''content-length'',
    static_field ''content-location'', static_field ''content-range'', static_field ''content-type'',
    static_field ''cookie'', static_field ''date'', static_field ''etag'', static_field ''expect'',
    static_field ''expires'', static_field ''from'', static_field ''host'', static_field ''if-match'',
    static_field ''if-modified-since'', static_field ''if-none-match'', static_field ''if-range'',
    static_field ''if-unmodified-since'', static_field ''last-modified'', static_field ''link'',
    static_field ''location'', static_field ''max-forwards'', static_field ''proxy-authenticate'',
    static_field ''proxy-authorization'', static_field ''range'', static_field ''referer'',
    static_field ''refresh'', static_field ''retry-after'', static_field ''server'',
    static_field ''set-cookie'', static_field ''strict-transport-security'',
    static_field ''transfer-encoding'', static_field ''user-agent'', static_field ''vary'',
    static_field ''via'', static_field ''www-authenticate'']"

text \<open>\<open>None\<close> stands for \<open>unreachable!()\<close>.\<close>

definition get_static :: "nat \<Rightarrow> header option" where
  "get_static idx = (if idx = 0 then None else slice_get static_headers (idx - 1))"

section \<open>The tables of the mirror\<close>

datatype kind =
    Kind_None | Kind_Method | Kind_Path | Kind_Authority | Kind_Scheme | Kind_Status | Kind_Protocol

definition kind_of_static :: "nat \<Rightarrow> kind" where
  "kind_of_static idx =
    (if idx = 1 then Kind_Authority
     else if idx \<in> {2, 3} then Kind_Method
     else if idx \<in> {4, 5} then Kind_Path
     else if idx \<in> {6, 7} then Kind_Scheme
     else if 8 \<le> idx \<and> idx \<le> 14 then Kind_Status
     else Kind_None)"

definition kind_of_name :: "octets \<Rightarrow> kind" where
  "kind_of_name name =
    (if name = [] \<or> hd name \<noteq> octet CHR '':'' then Kind_None
     else if name = octets '':path'' then Kind_Path
     else if name = octets '':method'' then Kind_Method
     else if name = octets '':authority'' then Kind_Authority
     else if name = octets '':scheme'' then Kind_Scheme
     else if name = octets '':status'' then Kind_Status
     else if name = octets '':protocol'' then Kind_Protocol
     else Kind_None)"

text \<open>The discriminant of a kind, and its bit in \<open>PolicyFields::have\<close>.\<close>

fun kind_u8 :: "kind \<Rightarrow> nat" where
  "kind_u8 Kind_None = 0"
| "kind_u8 Kind_Method = 1"
| "kind_u8 Kind_Path = 2"
| "kind_u8 Kind_Authority = 3"
| "kind_u8 Kind_Scheme = 4"
| "kind_u8 Kind_Status = 5"
| "kind_u8 Kind_Protocol = 6"

definition kind_bit :: "kind \<Rightarrow> u8" where
  "kind_bit k = (case k of Kind_None \<Rightarrow> 0 | _ \<Rightarrow> push_bit (kind_u8 k - 1) 1)"

fun pseudo_name :: "kind \<Rightarrow> octets" where
  "pseudo_name Kind_None = []"
| "pseudo_name Kind_Method = octets '':method''"
| "pseudo_name Kind_Path = octets '':path''"
| "pseudo_name Kind_Authority = octets '':authority''"
| "pseudo_name Kind_Scheme = octets '':scheme''"
| "pseudo_name Kind_Status = octets '':status''"
| "pseudo_name Kind_Protocol = octets '':protocol''"

definition STATIC_NAME_LEN :: "nat list" where
  "STATIC_NAME_LEN = [
    0, 10, 7, 7, 5, 5, 7, 7, 7, 7, 7, 7, 7, 7, 7, 14, 15, 15, 13, 6, 27, 3, 5, 13, 13, 19, 16, 16, 14,
    16, 13, 12, 6, 4, 4, 6, 7, 4, 4, 8, 17, 13, 8, 19, 13, 4, 8, 12, 18, 19, 5, 7, 7, 11, 6, 10, 25,
    17, 10, 4, 3, 16]"

definition static_value :: "nat \<Rightarrow> octets" where
  "static_value idx = (if idx = 0 \<or> 14 < idx then []
     else [[], octets ''GET'', octets ''POST'', octets ''/'', octets ''/index.html'', octets ''http'', octets ''https'',
           octets ''200'', octets ''204'', octets ''206'', octets ''304'', octets ''400'', octets ''404'', octets ''500''] ! (idx - 1))"

definition static_field_value :: "nat \<Rightarrow> octets" where
  "static_field_value idx =
    (if 1 \<le> idx \<and> idx \<le> 14 then static_value idx
     else if idx = 16 then octets ''gzip, deflate''
     else [])"

definition static_name_indices :: "(octets \<times> nat) list" where
  "static_name_indices = [
    (octets '':authority'', 1), (octets '':method'', 2), (octets '':path'', 4),
    (octets '':scheme'', 6), (octets '':status'', 8), (octets ''accept-charset'', 15),
    (octets ''accept-encoding'', 16), (octets ''accept-language'', 17), (octets ''accept-ranges'', 18),
    (octets ''accept'', 19), (octets ''access-control-allow-origin'', 20), (octets ''age'', 21),
    (octets ''allow'', 22), (octets ''authorization'', 23), (octets ''cache-control'', 24),
    (octets ''content-disposition'', 25), (octets ''content-encoding'', 26),
    (octets ''content-language'', 27), (octets ''content-length'', 28),
    (octets ''content-location'', 29), (octets ''content-range'', 30), (octets ''content-type'', 31),
    (octets ''cookie'', 32), (octets ''date'', 33), (octets ''etag'', 34), (octets ''expect'', 35),
    (octets ''expires'', 36), (octets ''from'', 37), (octets ''host'', 38), (octets ''if-match'', 39),
    (octets ''if-modified-since'', 40), (octets ''if-none-match'', 41), (octets ''if-range'', 42),
    (octets ''if-unmodified-since'', 43), (octets ''last-modified'', 44), (octets ''link'', 45),
    (octets ''location'', 46), (octets ''max-forwards'', 47), (octets ''proxy-authenticate'', 48),
    (octets ''proxy-authorization'', 49), (octets ''range'', 50), (octets ''referer'', 51),
    (octets ''refresh'', 52), (octets ''retry-after'', 53), (octets ''server'', 54),
    (octets ''set-cookie'', 55), (octets ''strict-transport-security'', 56),
    (octets ''transfer-encoding'', 57), (octets ''user-agent'', 58), (octets ''vary'', 59),
    (octets ''via'', 60), (octets ''www-authenticate'', 61)]"

definition static_name_index :: "octets \<Rightarrow> nat" where
  "static_name_index name = (case map_of static_name_indices name of Some i \<Rightarrow> i | None \<Rightarrow> 0)"

section \<open>Names and values of fields\<close>

text \<open>The name that a literal stands for, if it is acceptable.\<close>

definition name_of :: "http_lib \<Rightarrow> octets \<Rightarrow> header_field_name option" where
  "name_of lib n =
    (if n = [] then None
     else if hd n = octet CHR '':'' then
       (if tl n = octets ''authority'' then Some Name_Authority
        else if tl n = octets ''method'' then Some Name_Method
        else if tl n = octets ''scheme'' then Some Name_Scheme
        else if tl n = octets ''path'' then Some Name_Path
        else if tl n = octets ''protocol'' then Some Name_Protocol
        else if tl n = octets ''status'' then Some Name_Status
        else None)
     else if lib_name lib n then Some (Name_Field n) else None)"

lemma header_new_Ok_iff:
  "header_new lib n v = Ok h \<longleftrightarrow> (\<exists>nm. name_of lib n = Some nm \<and> into_entry lib nm v = Ok h)"
  by (auto simp: header_new_def name_of_def checked_def bytes_str_try_from_def)

lemma name_of_slice: "name_of lib n = Some nm \<Longrightarrow> name_as_slice nm = n"
  by (cases n) (auto simp: name_of_def octets_def split: if_splits)

lemma into_entry_OkD:
  assumes "into_entry lib nm v = Ok h"
  shows "header_name h = nm" "value_slice h = v"
  using assms by (cases nm; auto simp: checked_def bytes_str_try_from_def split: if_splits)+

lemma into_entry_len:
  "into_entry lib nm v = Ok h \<Longrightarrow> http_lib_laws lib \<Longrightarrow>
    header_len h = 32 + length (name_as_slice nm) + length v"
  by (cases nm) (auto simp: checked_def bytes_str_try_from_def http_lib_laws_def octets_def split: if_splits)

text \<open>The tables that the mirror keeps of names and values agree with the static table.\<close>

definition static_agrees :: "nat \<Rightarrow> bool" where
  "static_agrees idx = (case get_static idx of
     None \<Rightarrow> False
   | Some h \<Rightarrow>
       let n = name_as_slice (header_name h) in
       length n = STATIC_NAME_LEN ! idx \<and> value_slice h = static_field_value idx
       \<and> kind_of_static idx = kind_of_name n \<and> header_len h = 32 + length n + length (value_slice h))"

lemma octet_eq_iff [simp]: "octet c = octet d \<longleftrightarrow> c = d"
proof
  assume "octet c = octet d"
  then have "unat (octet c) = unat (octet d)" by simp
  then show "c = d"
    by (simp only: octet_def unat_of_nat_u8 nat_of_char_less_256 of_char_eq_iff)
qed simp

lemma octets_eq_iff [simp]: "octets a = octets b \<longleftrightarrow> a = b"
  by (simp add: octets_def inj_map_eq_map inj_def)

lemma length_octets [simp]: "length (octets s) = length s"
  by (simp add: octets_def)

lemma octets_Nil_iff [simp]: "octets s = [] \<longleftrightarrow> s = []" "[] = octets s \<longleftrightarrow> s = []"
  by (auto simp: octets_def)

lemma hd_octets: "s \<noteq> [] \<Longrightarrow> hd (octets s) = octet (hd s)"
  by (cases s) (simp_all add: octets_def)

lemma static_agrees_all: "list_all static_agrees [1..<62]"
  by (simp add: upt_rec static_agrees_def get_static_def slice_get_def static_headers_def static_field_def Let_def
      STATIC_NAME_LEN_def static_field_value_def static_value_def kind_of_static_def kind_of_name_def hd_octets)

lemma static_agreesD:
  assumes "1 \<le> idx" "idx \<le> 61"
  obtains h where "get_static idx = Some h" "length (name_as_slice (header_name h)) = STATIC_NAME_LEN ! idx"
    "value_slice h = static_field_value idx" "kind_of_name (name_as_slice (header_name h)) = kind_of_static idx"
    "header_len h = 32 + STATIC_NAME_LEN ! idx + length (static_field_value idx)"
proof -
  have "static_agrees idx"
    using static_agrees_all assms by (simp only: list_all_iff) simp
  then show ?thesis
    using that by (auto simp: static_agrees_def Let_def split: option.splits)
qed

lemma static_name_index_get:
  "static_name_index n \<noteq> 0 \<Longrightarrow>
    \<exists>h. get_static (static_name_index n) = Some h \<and> name_as_slice (header_name h) = n"
proof -
  assume "static_name_index n \<noteq> 0"
  then have "(n, static_name_index n) \<in> set static_name_indices"
    by (auto simp: static_name_index_def split: option.splits dest: map_of_SomeD)
  moreover have "list_all (\<lambda>(n, i). case get_static i of None \<Rightarrow> False | Some h \<Rightarrow> name_as_slice (header_name h) = n)
      static_name_indices"
    by (simp add: static_name_indices_def get_static_def slice_get_def static_headers_def static_field_def)
  ultimately show ?thesis
    by (fastforce simp: list_all_iff split: option.splits)
qed

section \<open>Dynamic tables\<close>

text \<open>Eviction keeps the longest run of the newest entries that fits.\<close>

fun fit :: "('a \<Rightarrow> nat) \<Rightarrow> nat \<Rightarrow> 'a list \<Rightarrow> 'a list" where
  "fit len m [] = []"
| "fit len m (x # xs) = (if len x \<le> m then x # fit len (m - len x) xs else [])"

lemma fit_sum: "sum_list (map len (fit len m xs)) \<le> m"
  by (induction len m xs rule: fit.induct) auto

lemma fit_all: "sum_list (map len xs) \<le> m \<Longrightarrow> fit len m xs = xs"
  by (induction xs arbitrary: m) auto

lemma fit_butlast: "xs \<noteq> [] \<Longrightarrow> m < sum_list (map len xs) \<Longrightarrow> fit len m (butlast xs) = fit len m xs"
  by (induction xs arbitrary: m) auto

lemma fit_set: "set (fit len m xs) \<subseteq> set xs"
  by (induction len m xs rule: fit.induct) auto

lemma fit_take: "fit len m xs = take (length (fit len m xs)) xs"
  by (induction len m xs rule: fit.induct) auto

lemma fit_map: "(\<And>x. x \<in> set xs \<Longrightarrow> len' (f x) = len x) \<Longrightarrow> fit len' m (map f xs) = map f (fit len m xs)"
  by (induction xs arbitrary: m) auto

lemma fit_list_all2:
  "list_all2 R xs ys \<Longrightarrow> (\<And>x y. R x y \<Longrightarrow> len x = len' y) \<Longrightarrow> list_all2 R (fit len m xs) (fit len' m ys)"
  by (induction xs ys arbitrary: m rule: list_all2_induct) auto

text \<open>What every dynamic table of HPACK promises: an insertion puts an entry in front and
  evicts, a new limit evicts. Two tables that hold related entries stay related.\<close>

locale dynamic_table =
  fixes ins :: "'i \<Rightarrow> 't \<Rightarrow> 't" and resize :: "nat \<Rightarrow> 't \<Rightarrow> 't" and content :: "'t \<Rightarrow> 'e list"
    and limit :: "'t \<Rightarrow> nat" and len :: "'e \<Rightarrow> nat" and mk :: "'t \<Rightarrow> 'i \<Rightarrow> 'e"
    and good :: "'t \<Rightarrow> bool" and ok :: "'i \<Rightarrow> bool" and limit_ok :: "nat \<Rightarrow> bool"
  assumes content_ins: "good t \<Longrightarrow> ok i \<Longrightarrow> content (ins i t) = fit len (limit t) (mk t i # content t)"
    and limit_ins: "good t \<Longrightarrow> ok i \<Longrightarrow> limit (ins i t) = limit t"
    and good_ins: "good t \<Longrightarrow> ok i \<Longrightarrow> good (ins i t)"
    and content_resize: "good t \<Longrightarrow> limit_ok m \<Longrightarrow> content (resize m t) = fit len m (content t)"
    and limit_resize: "good t \<Longrightarrow> limit_ok m \<Longrightarrow> limit (resize m t) = m"
    and good_resize: "good t \<Longrightarrow> limit_ok m \<Longrightarrow> good (resize m t)"
begin

lemma ins_within: "good t \<Longrightarrow> ok i \<Longrightarrow> sum_list (map len (content (ins i t))) \<le> limit t"
  by (simp only: content_ins fit_sum)

lemma resize_within: "good t \<Longrightarrow> limit_ok m \<Longrightarrow> sum_list (map len (content (resize m t))) \<le> m"
  by (simp only: content_resize fit_sum)

end

locale dynamic_table_pair =
  a: dynamic_table insA resizeA contentA limitA lenA mkA goodA okA limit_okA +
  b: dynamic_table insB resizeB contentB limitB lenB mkB goodB okB limit_okB
  for insA :: "'i \<Rightarrow> 's \<Rightarrow> 's" and resizeA and contentA :: "'s \<Rightarrow> 'e list" and limitA lenA mkA goodA okA limit_okA
    and insB :: "'j \<Rightarrow> 't \<Rightarrow> 't" and resizeB and contentB :: "'t \<Rightarrow> 'f list" and limitB lenB mkB goodB okB limit_okB
begin

lemma related_ins:
  assumes "goodA s" "goodB t" "okA i" "okB j" "limitA s = limitB t"
    and "list_all2 R (contentA s) (contentB t)" "R (mkA s i) (mkB t j)" "\<And>x y. R x y \<Longrightarrow> lenA x = lenB y"
  shows "list_all2 R (contentA (insA i s)) (contentB (insB j t))"
  using assms fit_list_all2 [of R "mkA s i # contentA s" "mkB t j # contentB t" lenA lenB "limitB t"]
  by (simp add: a.content_ins b.content_ins)

lemma related_resize:
  assumes "goodA s" "goodB t" "limit_okA m" "limit_okB m"
    and "list_all2 R (contentA s) (contentB t)" "\<And>x y. R x y \<Longrightarrow> lenA x = lenB y"
  shows "list_all2 R (contentA (resizeA m s)) (contentB (resizeB m t))"
  using assms fit_list_all2 [of R "contentA s" "contentB t" lenA lenB m]
  by (simp add: a.content_resize b.content_resize)

end

end
