(* ===== verification/Hpack_Mirror.thy ===== *)
theory Hpack_Mirror
  imports Hpack_Header
begin

text \<open>
  The tables of the re-indexing transcoder (\<open>src/vendor/h2/src/hpack/mirror.rs\<close>): the
  arena that holds the bytes of the entries, the table shared by the mirror of a peer's encoder
  and by our encoder table toward a peer, and the cache that finds the copy of a mirror entry.
  Positions and insertion numbers are \<open>u64\<close> in the code and count bytes and insertions of
  one connection; they are natural numbers here. Lengths keep their conversion to
  \<open>u32\<close>. An access to the arena out of its range would panic: no live entry is
  ever out of range.

  The bytes of a live entry are the bytes that were inserted, whatever was evicted and reclaimed
  since, and a hit in the cache is a live copy of the entry it was asked for.
\<close>

definition as_u32 :: "nat \<Rightarrow> nat" where
  "as_u32 n = n mod 2 ^ 32"

definition NO_DEC :: nat where
  "NO_DEC = u32_max"

section \<open>The arena\<close>

record arena =
  ar_buf :: octets
  ar_base :: nat

definition arena_end :: "arena \<Rightarrow> nat" where
  "arena_end a = ar_base a + length (ar_buf a)"

definition arena_push :: "octets \<Rightarrow> arena \<Rightarrow> nat \<times> arena" where
  "arena_push s a = (arena_end a, a\<lparr> ar_buf := ar_buf a @ s \<rparr>)"

definition arena_get :: "arena \<Rightarrow> nat \<Rightarrow> nat \<Rightarrow> octets" where
  "arena_get a pos len = (let o' = pos - ar_base a in slice o' (o' + len) (ar_buf a))"

definition arena_reclaim :: "nat \<Rightarrow> arena \<Rightarrow> arena" where
  "arena_reclaim live_start a =
    (let dead = live_start - ar_base a in
     if dead = 0 then a
     else if length (ar_buf a) \<le> dead then \<lparr> ar_buf = [], ar_base = ar_base a + length (ar_buf a) \<rparr>
     else if length (ar_buf a) div 2 < dead then \<lparr> ar_buf = drop dead (ar_buf a), ar_base = ar_base a + dead \<rparr>
     else a)"

section \<open>Entries\<close>

record entry =
  en_pos :: nat
  en_serial :: nat
  en_src_serial :: nat
  en_src_tid :: nat
  en_name_enc_len :: nat
  en_val_enc_len :: nat
  en_name_dec_len :: nat
  en_val_dec_len :: nat
  en_dec_len :: nat
  en_tag :: nat
  en_name_static :: nat
  en_kind :: kind
  en_name_huff :: bool
  en_val_huff :: bool

definition entry_size :: "entry \<Rightarrow> nat" where
  "entry_size e = as_u32 (en_name_dec_len e + en_val_dec_len e + 32)"

definition has_dec :: "entry \<Rightarrow> bool" where
  "has_dec e \<longleftrightarrow> en_dec_len e \<noteq> NO_DEC"

definition name_enc :: "arena \<Rightarrow> entry \<Rightarrow> octets" where
  "name_enc a e = arena_get a (en_pos e) (en_name_enc_len e)"

definition val_enc :: "arena \<Rightarrow> entry \<Rightarrow> octets" where
  "val_enc a e = arena_get a (en_pos e + en_name_enc_len e) (en_val_enc_len e)"

definition entry_wire :: "arena \<Rightarrow> entry \<Rightarrow> octets" where
  "entry_wire a e = arena_get a (en_pos e) (en_name_enc_len e + en_val_enc_len e)"

definition val_dec :: "arena \<Rightarrow> entry \<Rightarrow> octets option" where
  "val_dec a e = (if en_dec_len e = NO_DEC then None
     else Some (arena_get a (en_pos e + (en_name_enc_len e + en_val_enc_len e)) (en_dec_len e)))"

record insertion =
  ins_name_static :: nat
  ins_name_enc :: octets
  ins_name_huff :: bool
  ins_name_dec_len :: nat
  ins_val_enc :: octets
  ins_val_huff :: bool
  ins_val_dec_len :: nat
  ins_kind :: kind
  ins_tag :: nat
  ins_val_dec :: "octets option"
  ins_src_tid :: nat
  ins_src_serial :: nat

definition insert_plain :: "nat \<Rightarrow> octets \<Rightarrow> bool \<Rightarrow> nat \<Rightarrow> octets \<Rightarrow> bool \<Rightarrow> nat \<Rightarrow> insertion" where
  "insert_plain name_static nenc name_huff name_dec_len venc val_huff val_dec_len =
    \<lparr> ins_name_static = name_static, ins_name_enc = nenc, ins_name_huff = name_huff,
      ins_name_dec_len = name_dec_len, ins_val_enc = venc, ins_val_huff = val_huff,
      ins_val_dec_len = val_dec_len, ins_kind = Kind_None, ins_tag = 0, ins_val_dec = None,
      ins_src_tid = 0, ins_src_serial = 0 \<rparr>"

section \<open>The table\<close>

record prov_slot =
  ps_tid :: nat
  ps_serial :: nat
  ps_abs :: nat

definition EMPTY_SLOT :: prov_slot where
  "EMPTY_SLOT = \<lparr> ps_tid = 0, ps_serial = 0, ps_abs = 0 \<rparr>"

definition PROV_SLOTS :: nat where
  "PROV_SLOTS = 256"

definition prov_index :: "nat \<Rightarrow> nat \<Rightarrow> nat" where
  "prov_index tid serial =
    (let h = (of_nat serial XOR push_bit 20 (of_nat tid)) * (0x9E3779B97F4A7C15 :: 64 word)
     in unat (drop_bit 56 h) AND (PROV_SLOTS - 1))"

text \<open>The newest entry comes first.\<close>

record table =
  tab_tid :: nat
  tab_max :: nat
  tab_size :: nat
  tab_inserts :: nat
  tab_entries :: "entry list"
  tab_arena :: arena
  tab_prov :: "prov_slot list option"

definition table_new :: "nat \<Rightarrow> nat \<Rightarrow> table" where
  "table_new tid mx = \<lparr> tab_tid = tid, tab_max = mx, tab_size = 0, tab_inserts = 0, tab_entries = [],
     tab_arena = \<lparr> ar_buf = [], ar_base = 0 \<rparr>, tab_prov = None \<rparr>"

function evict_loop :: "table \<Rightarrow> table" where
  "evict_loop t =
    (if tab_max t < tab_size t then
       if tab_entries t = [] then t\<lparr> tab_size := 0 \<rparr>
       else evict_loop (t\<lparr> tab_entries := butlast (tab_entries t),
                           tab_size := tab_size t - entry_size (last (tab_entries t)) \<rparr>)
     else t)"
  by pat_completeness auto
termination
  by (relation "measure (\<lambda>t. length (tab_entries t))") auto

declare evict_loop.simps [simp del]

definition evict :: "table \<Rightarrow> table" where
  "evict t =
    (let t = evict_loop t;
         live_start = (if tab_entries t = [] then arena_end (tab_arena t) else en_pos (last (tab_entries t)))
     in t\<lparr> tab_arena := arena_reclaim live_start (tab_arena t) \<rparr>)"

definition set_max :: "nat \<Rightarrow> table \<Rightarrow> table" where
  "set_max mx t = evict (t\<lparr> tab_max := mx \<rparr>)"

definition slot_live :: "nat \<Rightarrow> nat \<Rightarrow> prov_slot \<Rightarrow> bool" where
  "slot_live inserts entries s \<longleftrightarrow> ps_tid s \<noteq> 0 \<and> ps_abs s < inserts \<and> inserts - 1 - ps_abs s < entries"

definition prov_record :: "nat \<Rightarrow> nat \<Rightarrow> nat \<Rightarrow> nat \<Rightarrow> nat \<Rightarrow> prov_slot list option \<Rightarrow> prov_slot list option" where
  "prov_record inserts entries tid serial anum prov =
    (let prov = (case prov of Some p \<Rightarrow> p | None \<Rightarrow> replicate PROV_SLOTS EMPTY_SLOT);
         h = prov_index tid serial;
         alt = h XOR 1;
         i = (if \<not> slot_live inserts entries (prov ! h) then h
              else if \<not> slot_live inserts entries (prov ! alt) then alt
              else if ps_abs (prov ! h) \<le> ps_abs (prov ! alt) then h
              else alt)
     in Some (prov[i := \<lparr> ps_tid = tid, ps_serial = serial, ps_abs = anum \<rparr>]))"

definition table_ins :: "insertion \<Rightarrow> table \<Rightarrow> (nat \<times> bool) \<times> table" where
  "table_ins ins t =
    (let anum = tab_inserts t;
         t = t\<lparr> tab_inserts := tab_inserts t + 1 \<rparr>;
         size' = ins_name_dec_len ins + ins_val_dec_len ins + 32
     in if tab_max t < size' then
          ((anum, False), t\<lparr> tab_entries := [], tab_size := 0,
              tab_arena := arena_reclaim (arena_end (tab_arena t)) (tab_arena t) \<rparr>)
        else
          let (pos, a) = arena_push (ins_name_enc ins) (tab_arena t);
              (_, a) = arena_push (ins_val_enc ins) a;
              (dec_len, a) = (case ins_val_dec ins of
                 Some d \<Rightarrow> (as_u32 (length d), snd (arena_push d a))
               | None \<Rightarrow> (NO_DEC, a));
              e = \<lparr> en_pos = pos, en_serial = anum, en_src_serial = ins_src_serial ins, en_src_tid = ins_src_tid ins,
                    en_name_enc_len = as_u32 (length (ins_name_enc ins)), en_val_enc_len = as_u32 (length (ins_val_enc ins)),
                    en_name_dec_len = as_u32 (ins_name_dec_len ins), en_val_dec_len = as_u32 (ins_val_dec_len ins),
                    en_dec_len = dec_len, en_tag = ins_tag ins, en_name_static = ins_name_static ins,
                    en_kind = ins_kind ins, en_name_huff = ins_name_huff ins, en_val_huff = ins_val_huff ins \<rparr>;
              t = t\<lparr> tab_arena := a, tab_size := tab_size t + size', tab_entries := e # tab_entries t \<rparr>;
              t = (if ins_src_tid ins \<noteq> 0
                   then t\<lparr> tab_prov := prov_record (tab_inserts t) (length (tab_entries t)) (ins_src_tid ins)
                                           (ins_src_serial ins) anum (tab_prov t) \<rparr>
                   else t)
          in ((anum, True), evict t))"

definition get_entry :: "table \<Rightarrow> nat \<Rightarrow> entry option" where
  "get_entry t idx = (if idx < 62 then None else slice_get (tab_entries t) (idx - 62))"

definition index_of :: "table \<Rightarrow> nat \<Rightarrow> nat option" where
  "index_of t anum =
    (if tab_inserts t \<le> anum then None
     else let off = tab_inserts t - 1 - anum in
       if off < length (tab_entries t) then Some (62 + as_u32 off) else None)"

definition lookup_provenance :: "table \<Rightarrow> nat \<Rightarrow> nat \<Rightarrow> nat option" where
  "lookup_provenance t src_tid src_serial = (case tab_prov t of
     None \<Rightarrow> None
   | Some prov \<Rightarrow>
       let h = prov_index src_tid src_serial; s = prov ! h; s' = prov ! (h XOR 1) in
       if ps_tid s = src_tid \<and> ps_serial s = src_serial then index_of t (ps_abs s)
       else if ps_tid s' = src_tid \<and> ps_serial s' = src_serial then index_of t (ps_abs s')
       else None)"

section \<open>Our table toward a peer\<close>

record encoder_table =
  enc_table :: table
  enc_pending :: "(nat \<times> nat) option"

definition encoder_table_new :: "nat \<Rightarrow> nat \<Rightarrow> encoder_table" where
  "encoder_table_new tid mx = \<lparr> enc_table = table_new tid mx, enc_pending = None \<rparr>"

definition enc_resize :: "nat \<Rightarrow> encoder_table \<Rightarrow> encoder_table" where
  "enc_resize new_max e = e\<lparr> enc_pending := (case enc_pending e of
     None \<Rightarrow> if new_max = tab_max (enc_table e) then None else Some (new_max, new_max)
   | Some (low, _) \<Rightarrow> Some (min low new_max, new_max)) \<rparr>"

definition take_pending_resize :: "encoder_table \<Rightarrow> (nat \<times> nat) option \<times> encoder_table" where
  "take_pending_resize e = (case enc_pending e of
     None \<Rightarrow> (None, e)
   | Some (low, fin) \<Rightarrow>
       (Some (low, fin), \<lparr> enc_table = set_max fin (set_max low (enc_table e)), enc_pending = None \<rparr>))"

section \<open>The arena keeps the bytes of live entries\<close>

lemma as_u32_small [simp]: "n < 2 ^ 32 \<Longrightarrow> as_u32 n = n"
  by (simp add: as_u32_def)

definition entry_span :: "entry \<Rightarrow> nat" where
  "entry_span e = en_name_enc_len e + en_val_enc_len e + (if has_dec e then en_dec_len e else 0)"

definition in_arena :: "arena \<Rightarrow> entry \<Rightarrow> bool" where
  "in_arena a e \<longleftrightarrow> ar_base a \<le> en_pos e \<and> en_pos e + entry_span e \<le> arena_end a"

definition entry_ins :: "arena \<Rightarrow> entry \<Rightarrow> insertion" where
  "entry_ins a e =
    \<lparr> ins_name_static = en_name_static e, ins_name_enc = name_enc a e, ins_name_huff = en_name_huff e,
      ins_name_dec_len = en_name_dec_len e, ins_val_enc = val_enc a e, ins_val_huff = en_val_huff e,
      ins_val_dec_len = en_val_dec_len e, ins_kind = en_kind e, ins_tag = en_tag e, ins_val_dec = val_dec a e,
      ins_src_tid = en_src_tid e, ins_src_serial = en_src_serial e \<rparr>"

lemma arena_get_append:
  "ar_base a \<le> pos \<Longrightarrow> pos + len \<le> arena_end a \<Longrightarrow> arena_get (a\<lparr> ar_buf := ar_buf a @ s \<rparr>) pos len = arena_get a pos len"
  by (auto simp: arena_get_def slice_def arena_end_def Let_def)

lemma arena_get_reclaim:
  assumes "ar_base a \<le> live" "live \<le> pos" "pos + len \<le> arena_end a"
  shows "arena_get (arena_reclaim live a) pos len = arena_get a pos len"
  using assms
  by (auto simp: arena_get_def arena_reclaim_def slice_def arena_end_def Let_def add.commute)

lemma arena_reclaim_end: "ar_base a \<le> live \<Longrightarrow> arena_end (arena_reclaim live a) = arena_end a"
  by (auto simp: arena_reclaim_def arena_end_def Let_def)

lemma arena_reclaim_base: "ar_base a \<le> live \<Longrightarrow> ar_base (arena_reclaim live a) \<le> live"
  by (auto simp: arena_reclaim_def Let_def)

lemma entry_ins_cong:
  assumes "in_arena a e" "\<And>pos len. en_pos e \<le> pos \<Longrightarrow> pos + len \<le> en_pos e + entry_span e \<Longrightarrow>
    arena_get a' pos len = arena_get a pos len"
  shows "entry_ins a' e = entry_ins a e"
  using assms by (simp add: entry_ins_def name_enc_def val_enc_def val_dec_def entry_span_def has_dec_def)

lemma entry_ins_append:
  "in_arena a e \<Longrightarrow> entry_ins (a\<lparr> ar_buf := ar_buf a @ s \<rparr>) e = entry_ins a e"
  by (rule entry_ins_cong) (auto simp: in_arena_def intro!: arena_get_append)

lemma entry_ins_reclaim:
  "in_arena a e \<Longrightarrow> ar_base a \<le> live \<Longrightarrow> live \<le> en_pos e \<Longrightarrow> entry_ins (arena_reclaim live a) e = entry_ins a e"
  by (rule entry_ins_cong) (auto simp: in_arena_def intro!: arena_get_reclaim)

section \<open>The table refines a list of insertions\<close>

definition serials_ok :: "table \<Rightarrow> bool" where
  "serials_ok t \<longleftrightarrow> length (tab_entries t) \<le> tab_inserts t
     \<and> (\<forall>i < length (tab_entries t). en_serial (tab_entries t ! i) = tab_inserts t - 1 - i)"

definition slot_ok :: "table \<Rightarrow> prov_slot \<Rightarrow> bool" where
  "slot_ok t s \<longleftrightarrow> (ps_tid s \<noteq> 0 \<longrightarrow> ps_abs s < tab_inserts t \<and>
     (\<forall>e \<in> set (tab_entries t). en_serial e = ps_abs s \<longrightarrow> en_src_tid e = ps_tid s \<and> en_src_serial e = ps_serial s))"

definition prov_ok :: "table \<Rightarrow> bool" where
  "prov_ok t \<longleftrightarrow> (\<forall>p. tab_prov t = Some p \<longrightarrow> length p = PROV_SLOTS \<and> (\<forall>s \<in> set p. slot_ok t s))"

definition entries_ok :: "table \<Rightarrow> bool" where
  "entries_ok t \<longleftrightarrow> (\<forall>e \<in> set (tab_entries t). in_arena (tab_arena t) e
       \<and> en_name_dec_len e + en_val_dec_len e + 32 < 2 ^ 32)
     \<and> sorted_wrt (\<lambda>e f. en_pos f \<le> en_pos e) (tab_entries t)"

definition table_good :: "table \<Rightarrow> bool" where
  "table_good t \<longleftrightarrow> tab_max t < 2 ^ 32 \<and> tab_size t = sum_list (map entry_size (tab_entries t))
     \<and> tab_size t \<le> tab_max t \<and> entries_ok t \<and> serials_ok t \<and> prov_ok t"

definition ins_ok :: "insertion \<Rightarrow> bool" where
  "ins_ok ins \<longleftrightarrow> length (ins_name_enc ins) < 2 ^ 32 \<and> length (ins_val_enc ins) < 2 ^ 32
     \<and> (\<forall>d. ins_val_dec ins = Some d \<longrightarrow> length d < u32_max)"

text \<open>The content of a table: the insertion numbers and what was inserted, newest first.\<close>

definition table_view :: "table \<Rightarrow> (nat \<times> insertion) list" where
  "table_view t = map (\<lambda>e. (en_serial e, entry_ins (tab_arena t) e)) (tab_entries t)"

definition view_size :: "nat \<times> insertion \<Rightarrow> nat" where
  "view_size x = ins_name_dec_len (snd x) + ins_val_dec_len (snd x) + 32"

lemma sum_list_butlast: "xs \<noteq> [] \<Longrightarrow> sum_list (map f xs) = sum_list (map f (butlast xs)) + (f (last xs) :: nat)"
  by (cases xs rule: rev_cases) auto

lemma evict_loop_fit:
  assumes "tab_size t = sum_list (map entry_size (tab_entries t))"
  shows "evict_loop t = (let es = fit entry_size (tab_max t) (tab_entries t) in
      t\<lparr> tab_entries := es, tab_size := sum_list (map entry_size es) \<rparr>)"
  using assms
proof (induction t rule: evict_loop.induct)
  case (1 t)
  show ?case
  proof (cases "tab_max t < tab_size t")
    case True
    then have ne: "tab_entries t \<noteq> []"
      using 1(2) by (metis list.simps(8) not_less_zero sum_list.Nil)
    show ?thesis
      using True ne 1 fit_butlast [OF ne, of "tab_max t" entry_size] sum_list_butlast [OF ne, of entry_size]
      by (simp add: evict_loop.simps [of t] Let_def)
  next
    case False
    then show ?thesis
      using 1(2) by (simp add: evict_loop.simps [of t] Let_def fit_all)
  qed
qed

text \<open>What holds of a table before its eviction.\<close>

definition evictable :: "table \<Rightarrow> bool" where
  "evictable t \<longleftrightarrow> tab_max t < 2 ^ 32 \<and> tab_size t = sum_list (map entry_size (tab_entries t))
     \<and> entries_ok t \<and> serials_ok t \<and> prov_ok t"

lemma table_good_evictable: "table_good t \<longleftrightarrow> evictable t \<and> tab_size t \<le> tab_max t"
  by (auto simp: table_good_def evictable_def)

lemma sorted_last_le:
  "sorted_wrt (\<lambda>e f. en_pos f \<le> en_pos e) es \<Longrightarrow> e \<in> set es \<Longrightarrow> en_pos (last es) \<le> en_pos e"
  by (induction es rule: rev_induct) (auto simp: sorted_wrt_append)

lemma fit_sorted: "sorted_wrt P xs \<Longrightarrow> sorted_wrt P (fit len m xs)"
  by (induction len m xs rule: fit.induct) (auto dest: subsetD [OF fit_set])

lemma evict_eq:
  assumes "evictable t"
  obtains live where
    "evict t = t\<lparr> tab_entries := fit entry_size (tab_max t) (tab_entries t),
       tab_size := sum_list (map entry_size (fit entry_size (tab_max t) (tab_entries t))),
       tab_arena := arena_reclaim live (tab_arena t) \<rparr>"
    "ar_base (tab_arena t) \<le> live"
    "\<And>e. e \<in> set (fit entry_size (tab_max t) (tab_entries t)) \<Longrightarrow> live \<le> en_pos e"
proof -
  define es where "es = fit entry_size (tab_max t) (tab_entries t)"
  define live where "live = (if es = [] then arena_end (tab_arena t) else en_pos (last es))"
  have sub: "set es \<subseteq> set (tab_entries t)"
    by (simp add: es_def fit_set)
  have "sorted_wrt (\<lambda>e f. en_pos f \<le> en_pos e) es"
    using assms by (simp add: es_def evictable_def entries_ok_def fit_sorted)
  then have le: "e \<in> set es \<Longrightarrow> live \<le> en_pos e" for e
    using sorted_last_le by (auto simp: live_def)
  have "last es \<in> set (tab_entries t)" if "es \<noteq> []"
    using that sub by auto
  then have "ar_base (tab_arena t) \<le> live"
    using assms by (simp add: live_def evictable_def entries_ok_def in_arena_def arena_end_def)
  moreover have "evict t = t\<lparr> tab_entries := es, tab_size := sum_list (map entry_size es),
      tab_arena := arena_reclaim live (tab_arena t) \<rparr>"
    using assms by (simp add: evict_def evict_loop_fit evictable_def Let_def live_def flip: es_def)
  ultimately show ?thesis
    using that le unfolding es_def by blast
qed

lemma view_size_entry:
  "en_name_dec_len e + en_val_dec_len e + 32 < 2 ^ 32 \<Longrightarrow> view_size (n, entry_ins a e) = entry_size e"
  by (simp add: view_size_def entry_ins_def entry_size_def)

lemma evict_view:
  assumes "evictable t"
  shows "table_view (evict t) = fit view_size (tab_max t) (table_view t)"
proof -
  obtain live where ev: "evict t = t\<lparr> tab_entries := fit entry_size (tab_max t) (tab_entries t),
       tab_size := sum_list (map entry_size (fit entry_size (tab_max t) (tab_entries t))),
       tab_arena := arena_reclaim live (tab_arena t) \<rparr>"
    and live: "ar_base (tab_arena t) \<le> live"
      "\<And>e. e \<in> set (fit entry_size (tab_max t) (tab_entries t)) \<Longrightarrow> live \<le> en_pos e"
    using evict_eq [OF assms] by blast
  have "entry_ins (arena_reclaim live (tab_arena t)) e = entry_ins (tab_arena t) e"
    if "e \<in> set (fit entry_size (tab_max t) (tab_entries t))" for e
    using assms live that subsetD [OF fit_set that]
    by (intro entry_ins_reclaim) (auto simp: evictable_def entries_ok_def)
  then have "table_view (evict t) =
      map (\<lambda>e. (en_serial e, entry_ins (tab_arena t) e)) (fit entry_size (tab_max t) (tab_entries t))"
    by (simp add: table_view_def ev)
  also have "\<dots> = fit view_size (tab_max t) (table_view t)"
    unfolding table_view_def using assms
    by (intro fit_map [symmetric] view_size_entry) (auto simp: evictable_def entries_ok_def)
  finally show ?thesis .
qed

lemma serials_take:
  "serials_ok t \<Longrightarrow> tab_entries t' = take n (tab_entries t) \<Longrightarrow> tab_inserts t' = tab_inserts t \<Longrightarrow> serials_ok t'"
  by (auto simp: serials_ok_def)

lemma prov_subset:
  "prov_ok t \<Longrightarrow> set (tab_entries t') \<subseteq> set (tab_entries t) \<Longrightarrow> tab_inserts t' = tab_inserts t \<Longrightarrow>
    tab_prov t' = tab_prov t \<Longrightarrow> prov_ok t'"
  by (simp add: prov_ok_def slot_ok_def) blast

lemma evict_good:
  assumes "evictable t"
  shows "table_good (evict t)"
proof -
  define es where "es = fit entry_size (tab_max t) (tab_entries t)"
  obtain live where ev: "evict t = t\<lparr> tab_entries := es, tab_size := sum_list (map entry_size es),
       tab_arena := arena_reclaim live (tab_arena t) \<rparr>"
    and live: "ar_base (tab_arena t) \<le> live" "\<And>e. e \<in> set es \<Longrightarrow> live \<le> en_pos e"
    using evict_eq [OF assms] unfolding es_def by blast
  have sub: "set es \<subseteq> set (tab_entries t)"
    unfolding es_def by (rule fit_set)
  have arena: "in_arena (arena_reclaim live (tab_arena t)) e" if e: "e \<in> set es" for e
  proof -
    have "in_arena (tab_arena t) e"
      using assms subsetD [OF sub e] by (simp add: evictable_def entries_ok_def)
    then show ?thesis
      using live(2) [OF e] arena_reclaim_base [OF live(1)] by (simp add: in_arena_def arena_reclaim_end [OF live(1)])
  qed
  have dec: "en_name_dec_len e + en_val_dec_len e + 32 < 2 ^ 32" if "e \<in> set es" for e
    using assms subsetD [OF sub that] by (simp add: evictable_def entries_ok_def)
  have sorted: "sorted_wrt (\<lambda>e f. en_pos f \<le> en_pos e) es"
    using assms by (simp add: es_def evictable_def entries_ok_def fit_sorted)
  have "entries_ok (evict t)"
    unfolding entries_ok_def ev using arena dec sorted by simp
  moreover have "take (length es) (tab_entries t) = es"
    unfolding es_def by (rule fit_take [symmetric])
  then have "serials_ok (evict t)"
    using assms serials_take [of t "evict t" "length es"] by (simp add: ev evictable_def)
  moreover have "prov_ok (evict t)"
    using assms sub prov_subset [of t "evict t"] by (simp add: ev evictable_def)
  moreover have "sum_list (map entry_size es) \<le> tab_max t"
    unfolding es_def by (rule fit_sum)
  then have "tab_max (evict t) < 2 ^ 32" "tab_size (evict t) = sum_list (map entry_size (tab_entries (evict t)))"
    "tab_size (evict t) \<le> tab_max (evict t)"
    using assms by (simp_all add: ev evictable_def)
  ultimately show ?thesis
    by (simp only: table_good_def)
qed

section \<open>Insertion\<close>

text \<open>The entry and the table before the eviction of an insertion that fits.\<close>

definition pushed_entry :: "insertion \<Rightarrow> table \<Rightarrow> entry" where
  "pushed_entry ins t =
    \<lparr> en_pos = arena_end (tab_arena t), en_serial = tab_inserts t, en_src_serial = ins_src_serial ins,
      en_src_tid = ins_src_tid ins, en_name_enc_len = as_u32 (length (ins_name_enc ins)),
      en_val_enc_len = as_u32 (length (ins_val_enc ins)), en_name_dec_len = as_u32 (ins_name_dec_len ins),
      en_val_dec_len = as_u32 (ins_val_dec_len ins),
      en_dec_len = (case ins_val_dec ins of Some d \<Rightarrow> as_u32 (length d) | None \<Rightarrow> NO_DEC), en_tag = ins_tag ins,
      en_name_static = ins_name_static ins, en_kind = ins_kind ins, en_name_huff = ins_name_huff ins,
      en_val_huff = ins_val_huff ins \<rparr>"

definition pushed_bytes :: "insertion \<Rightarrow> octets" where
  "pushed_bytes ins = ins_name_enc ins @ ins_val_enc ins @ concat (option_list (ins_val_dec ins))"

definition pushed_table :: "insertion \<Rightarrow> table \<Rightarrow> table" where
  "pushed_table ins t = t\<lparr>
     tab_inserts := tab_inserts t + 1,
     tab_arena := (tab_arena t)\<lparr> ar_buf := ar_buf (tab_arena t) @ pushed_bytes ins \<rparr>,
     tab_size := tab_size t + (ins_name_dec_len ins + ins_val_dec_len ins + 32),
     tab_entries := pushed_entry ins t # tab_entries t,
     tab_prov := (if ins_src_tid ins \<noteq> 0
       then prov_record (tab_inserts t + 1) (length (tab_entries t) + 1) (ins_src_tid ins) (ins_src_serial ins)
         (tab_inserts t) (tab_prov t)
       else tab_prov t) \<rparr>"

lemma table_ins_eq:
  "table_ins ins t =
    (if tab_max t < ins_name_dec_len ins + ins_val_dec_len ins + 32 then
       ((tab_inserts t, False), t\<lparr> tab_inserts := tab_inserts t + 1, tab_entries := [], tab_size := 0,
          tab_arena := arena_reclaim (arena_end (tab_arena t)) (tab_arena t) \<rparr>)
     else ((tab_inserts t, True), evict (pushed_table ins t)))"
  by (simp add: table_ins_def pushed_table_def pushed_entry_def pushed_bytes_def arena_push_def arena_end_def
      option_list_def Let_def split: option.split)

lemma arena_get_pushed:
  "arena_get (a\<lparr> ar_buf := ar_buf a @ xs @ ys @ zs \<rparr>) (arena_end a + length xs) (length ys) = ys"
  by (simp add: arena_get_def slice_def arena_end_def Let_def)

lemma entry_ins_pushed:
  assumes "ins_ok ins" "ins_name_dec_len ins + ins_val_dec_len ins + 32 \<le> mx" "mx < 2 ^ 32"
  shows "entry_ins ((tab_arena t)\<lparr> ar_buf := ar_buf (tab_arena t) @ pushed_bytes ins \<rparr>) (pushed_entry ins t) = ins"
proof -
  let ?a = "tab_arena t"
  have "arena_get (?a\<lparr> ar_buf := ar_buf ?a @ pushed_bytes ins \<rparr>) (arena_end ?a) (length (ins_name_enc ins)) = ins_name_enc ins"
    using arena_get_pushed [of ?a "[]" "ins_name_enc ins"] by (simp add: pushed_bytes_def)
  moreover have "arena_get (?a\<lparr> ar_buf := ar_buf ?a @ pushed_bytes ins \<rparr>) (arena_end ?a + length (ins_name_enc ins))
      (length (ins_val_enc ins)) = ins_val_enc ins"
    by (simp add: pushed_bytes_def arena_get_pushed)
  moreover have "arena_get (?a\<lparr> ar_buf := ar_buf ?a @ pushed_bytes ins \<rparr>)
      (arena_end ?a + (length (ins_name_enc ins) + length (ins_val_enc ins))) (length d) = d"
    if "ins_val_dec ins = Some d" for d
    using arena_get_pushed [of ?a "ins_name_enc ins @ ins_val_enc ins" d "[]"] that
    by (simp add: pushed_bytes_def option_list_def)
  moreover have "as_u32 (length d) = length d \<and> length d \<noteq> NO_DEC" if "ins_val_dec ins = Some d" for d
    using assms(1) that by (auto simp: ins_ok_def NO_DEC_def u32_max_def)
  ultimately show ?thesis
    using assms
    by (cases "ins_val_dec ins")
      (simp_all add: entry_ins_def pushed_entry_def name_enc_def val_enc_def val_dec_def ins_ok_def)
qed

lemma in_arena_pushed:
  assumes "ins_ok ins"
  shows "in_arena ((tab_arena t)\<lparr> ar_buf := ar_buf (tab_arena t) @ pushed_bytes ins \<rparr>) (pushed_entry ins t)"
proof -
  have "as_u32 (length d) = length d" if "ins_val_dec ins = Some d" for d
    using assms that by (auto simp: ins_ok_def u32_max_def)
  then show ?thesis
    using assms
    by (cases "ins_val_dec ins")
      (auto simp: in_arena_def pushed_entry_def entry_span_def has_dec_def pushed_bytes_def arena_end_def ins_ok_def
        option_list_def)
qed

lemma entries_ok_pushed:
  assumes "entries_ok t" "ins_ok ins" "ins_name_dec_len ins + ins_val_dec_len ins + 32 \<le> mx" "mx < 2 ^ 32"
  shows "entries_ok (pushed_table ins t)"
proof -
  let ?a = "(tab_arena t)\<lparr> ar_buf := ar_buf (tab_arena t) @ pushed_bytes ins \<rparr>"
  have old: "in_arena (tab_arena t) e \<and> en_name_dec_len e + en_val_dec_len e + 32 < 2 ^ 32" if "e \<in> set (tab_entries t)" for e
    using assms(1) that by (simp add: entries_ok_def)
  have "in_arena ?a e \<and> en_pos e \<le> arena_end (tab_arena t)" if "in_arena (tab_arena t) e" for e
    using that by (simp add: in_arena_def arena_end_def)
  then have "in_arena ?a e" "en_pos e \<le> arena_end (tab_arena t)" if "e \<in> set (tab_entries t)" for e
    using old [OF that] by blast+
  moreover have "en_name_dec_len (pushed_entry ins t) + en_val_dec_len (pushed_entry ins t) + 32 < 2 ^ 32"
    using assms(3,4) by (simp add: pushed_entry_def)
  moreover have "en_pos (pushed_entry ins t) = arena_end (tab_arena t)"
    by (simp add: pushed_entry_def)
  ultimately show ?thesis
    using assms(1) old in_arena_pushed [OF assms(2), of t]
    by (simp add: entries_ok_def pushed_table_def)
qed

lemma serials_ok_pushed: "serials_ok t \<Longrightarrow> serials_ok (pushed_table ins t)"
  by (auto simp: serials_ok_def pushed_table_def pushed_entry_def nth_Cons split: nat.split)

lemma serials_less:
  assumes "serials_ok t" "e \<in> set (tab_entries t)"
  shows "en_serial e < tab_inserts t"
proof -
  obtain i where "i < length (tab_entries t)" "e = tab_entries t ! i"
    using assms(2) by (auto simp: in_set_conv_nth)
  then show ?thesis
    using assms(1) by (auto simp: serials_ok_def)
qed

lemma slot_ok_old:
  "slot_ok t s \<Longrightarrow> slot_ok (pushed_table ins t) s"
  by (auto simp: slot_ok_def pushed_table_def pushed_entry_def)

lemma slot_ok_new:
  assumes "serials_ok t"
  shows "slot_ok (pushed_table ins t)
    \<lparr> ps_tid = ins_src_tid ins, ps_serial = ins_src_serial ins, ps_abs = tab_inserts t \<rparr>"
  by (auto simp: slot_ok_def pushed_table_def pushed_entry_def dest: serials_less [OF assms])

lemma prov_ok_pushed:
  assumes "prov_ok t" "serials_ok t"
  shows "prov_ok (pushed_table ins t)"
proof -
  define p where "p = (case tab_prov t of Some p \<Rightarrow> p | None \<Rightarrow> replicate PROV_SLOTS EMPTY_SLOT)"
  have p: "length p = PROV_SLOTS" "\<And>s. s \<in> set p \<Longrightarrow> slot_ok t s"
    using assms(1) by (auto simp: p_def prov_ok_def slot_ok_def EMPTY_SLOT_def split: option.splits)
  obtain i where i: "prov_record (tab_inserts t + 1) (length (tab_entries t) + 1) (ins_src_tid ins) (ins_src_serial ins)
      (tab_inserts t) (tab_prov t) =
      Some (p[i := \<lparr> ps_tid = ins_src_tid ins, ps_serial = ins_src_serial ins, ps_abs = tab_inserts t \<rparr>])"
    by (simp add: prov_record_def Let_def p_def)
  have "slot_ok (pushed_table ins t) s"
    if "s \<in> set (p[i := \<lparr> ps_tid = ins_src_tid ins, ps_serial = ins_src_serial ins, ps_abs = tab_inserts t \<rparr>])" for s
    using subsetD [OF set_update_subset_insert that] p(2) slot_ok_old slot_ok_new [OF assms(2)] by blast
  moreover have "slot_ok (pushed_table ins t) s" if "tab_prov t = Some q" "s \<in> set q" for s q
    using assms(1) that slot_ok_old by (simp add: prov_ok_def)
  ultimately show ?thesis
    using assms(1) p(1) i by (auto simp: prov_ok_def pushed_table_def)
qed

lemma view_pushed:
  assumes "entries_ok t" "ins_ok ins" "ins_name_dec_len ins + ins_val_dec_len ins + 32 \<le> mx" "mx < 2 ^ 32"
  shows "table_view (pushed_table ins t) = (tab_inserts t, ins) # table_view t"
  using assms entry_ins_pushed [OF assms(2-4), of t]
  by (simp add: table_view_def pushed_table_def entries_ok_def entry_ins_append) (simp add: pushed_entry_def)

lemma evict_simps [simp]:
  assumes "evictable t"
  shows "tab_max (evict t) = tab_max t" "tab_tid (evict t) = tab_tid t" "tab_inserts (evict t) = tab_inserts t"
    "tab_prov (evict t) = tab_prov t"
proof -
  obtain live where "evict t = t\<lparr> tab_entries := fit entry_size (tab_max t) (tab_entries t),
       tab_size := sum_list (map entry_size (fit entry_size (tab_max t) (tab_entries t))),
       tab_arena := arena_reclaim live (tab_arena t) \<rparr>"
    using evict_eq [OF assms] by blast
  then show "tab_max (evict t) = tab_max t" "tab_tid (evict t) = tab_tid t" "tab_inserts (evict t) = tab_inserts t"
    "tab_prov (evict t) = tab_prov t"
    by simp_all
qed

lemma evictable_pushed:
  assumes "table_good t" "ins_ok ins" "ins_name_dec_len ins + ins_val_dec_len ins + 32 \<le> tab_max t"
  shows "evictable (pushed_table ins t)"
proof -
  have "entry_size (pushed_entry ins t) = ins_name_dec_len ins + ins_val_dec_len ins + 32"
    using assms by (simp add: entry_size_def pushed_entry_def table_good_def)
  then have "tab_size (pushed_table ins t) = sum_list (map entry_size (tab_entries (pushed_table ins t)))"
    using assms(1) by (simp add: pushed_table_def table_good_def)
  moreover have "tab_max (pushed_table ins t) = tab_max t"
    by (simp add: pushed_table_def)
  ultimately show ?thesis
    using assms by (simp add: evictable_def table_good_def entries_ok_pushed serials_ok_pushed prov_ok_pushed)
qed

lemma table_good_cleared:
  "table_good t \<Longrightarrow> table_good (t\<lparr> tab_inserts := tab_inserts t + 1, tab_entries := [], tab_size := 0, tab_arena := a \<rparr>)"
  by (simp add: table_good_def entries_ok_def serials_ok_def prov_ok_def slot_ok_def less_Suc_eq)

lemma table_ins_spec:
  assumes "table_good t" "ins_ok ins"
  shows "table_view (snd (table_ins ins t)) = fit view_size (tab_max t) ((tab_inserts t, ins) # table_view t)"
    "table_good (snd (table_ins ins t))"
    "tab_max (snd (table_ins ins t)) = tab_max t" "tab_tid (snd (table_ins ins t)) = tab_tid t"
    "tab_inserts (snd (table_ins ins t)) = tab_inserts t + 1"
    "fst (table_ins ins t) = (tab_inserts t, view_size (tab_inserts t, ins) \<le> tab_max t)"
proof -
  have "(table_view (snd (table_ins ins t)) = fit view_size (tab_max t) ((tab_inserts t, ins) # table_view t)
      \<and> table_good (snd (table_ins ins t)) \<and> tab_max (snd (table_ins ins t)) = tab_max t
      \<and> tab_tid (snd (table_ins ins t)) = tab_tid t) \<and> tab_inserts (snd (table_ins ins t)) = tab_inserts t + 1
      \<and> fst (table_ins ins t) = (tab_inserts t, view_size (tab_inserts t, ins) \<le> tab_max t)"
  proof (cases "tab_max t < ins_name_dec_len ins + ins_val_dec_len ins + 32")
    case True
    then show ?thesis
      using table_good_cleared [OF assms(1)] by (simp add: table_ins_eq table_view_def view_size_def)
  next
    case False
    then have le: "ins_name_dec_len ins + ins_val_dec_len ins + 32 \<le> tab_max t" by simp
    have ev: "evictable (pushed_table ins t)"
      using assms le by (rule evictable_pushed)
    moreover have "table_view (pushed_table ins t) = (tab_inserts t, ins) # table_view t"
      using assms le by (intro view_pushed [of _ _ "tab_max t"]) (simp_all add: table_good_def)
    moreover have "tab_max (pushed_table ins t) = tab_max t" "tab_tid (pushed_table ins t) = tab_tid t"
      "tab_inserts (pushed_table ins t) = tab_inserts t + 1"
      by (simp_all add: pushed_table_def)
    ultimately show ?thesis
      using False evict_good [OF ev] evict_view [OF ev] by (simp add: table_ins_eq view_size_def)
  qed
  then show "table_view (snd (table_ins ins t)) = fit view_size (tab_max t) ((tab_inserts t, ins) # table_view t)"
    "table_good (snd (table_ins ins t))"
    "tab_max (snd (table_ins ins t)) = tab_max t" "tab_tid (snd (table_ins ins t)) = tab_tid t"
    "tab_inserts (snd (table_ins ins t)) = tab_inserts t + 1"
    "fst (table_ins ins t) = (tab_inserts t, view_size (tab_inserts t, ins) \<le> tab_max t)"
    by simp_all
qed

lemma evictable_max: "table_good t \<Longrightarrow> m < 2 ^ 32 \<Longrightarrow> evictable (t\<lparr> tab_max := m \<rparr>)"
  by (simp add: table_good_def evictable_def entries_ok_def serials_ok_def prov_ok_def slot_ok_def)

lemma set_max_spec:
  assumes "table_good t" "m < 2 ^ 32"
  shows "table_view (set_max m t) = fit view_size m (table_view t)" "table_good (set_max m t)"
    "tab_max (set_max m t) = m" "tab_tid (set_max m t) = tab_tid t" "tab_inserts (set_max m t) = tab_inserts t"
  using evict_view [OF evictable_max [OF assms]] evict_good [OF evictable_max [OF assms]]
    evict_simps [OF evictable_max [OF assms]]
  by (simp_all add: set_max_def table_view_def)

interpretation mirror: dynamic_table "\<lambda>ins t. snd (table_ins ins t)" set_max table_view tab_max view_size
  "\<lambda>t ins. (tab_inserts t, ins)" table_good ins_ok "\<lambda>m. m < 2 ^ 32"
  by unfold_locales (simp_all only: table_ins_spec set_max_spec)

lemma table_new_good: "mx < 2 ^ 32 \<Longrightarrow> table_good (table_new tid mx)"
  by (simp add: table_good_def table_new_def entries_ok_def serials_ok_def prov_ok_def)

section \<open>Indices and provenance\<close>

lemma length_entries_bound:
  assumes "table_good t"
  shows "32 * length (tab_entries t) \<le> tab_max t"
proof -
  have "32 * length es \<le> sum_list (map entry_size es)"
    if "\<forall>e \<in> set es. en_name_dec_len e + en_val_dec_len e + 32 < 2 ^ 32" for es
    using that by (induction es) (auto simp: entry_size_def)
  moreover have "\<forall>e \<in> set (tab_entries t). en_name_dec_len e + en_val_dec_len e + 32 < 2 ^ 32"
    using assms by (simp add: table_good_def entries_ok_def)
  ultimately show ?thesis
    using assms by (fastforce simp: table_good_def)
qed

lemma length_table_view [simp]: "length (table_view t) = length (tab_entries t)"
  by (simp add: table_view_def)

lemma index_of_Some:
  assumes "table_good t" "index_of t n = Some j"
  shows "62 \<le> j" "j - 62 < length (tab_entries t)" "en_serial (tab_entries t ! (j - 62)) = n"
proof -
  have len: "length (tab_entries t) < 2 ^ 32"
    using length_entries_bound [OF assms(1)] assms(1) by (simp add: table_good_def)
  have "tab_inserts t - 1 - n < length (tab_entries t)" "n < tab_inserts t"
    and j: "j = 62 + as_u32 (tab_inserts t - 1 - n)"
    using assms(2) by (auto simp: index_of_def Let_def split: if_splits)
  moreover from this have "as_u32 (tab_inserts t - 1 - n) = tab_inserts t - 1 - n"
    using len by (intro as_u32_small) linarith
  moreover have "en_serial (tab_entries t ! i) = tab_inserts t - 1 - i" if "i < length (tab_entries t)" for i
    using assms(1) that by (simp add: table_good_def serials_ok_def)
  ultimately show "62 \<le> j" "j - 62 < length (tab_entries t)" "en_serial (tab_entries t ! (j - 62)) = n"
    by simp_all
qed

lemma xor_1_less: "h < 256 \<Longrightarrow> (h :: nat) XOR 1 < 256"
proof -
  assume "h < 256"
  then have "take_bit 8 h = h"
    by (simp add: take_bit_eq_mod)
  then have "take_bit 8 (h XOR 1) = h XOR 1"
    by simp
  then show ?thesis
    using take_bit_nat_less_exp [of 8 "h XOR 1"] by simp
qed

lemma prov_index_less: "prov_index tid serial < PROV_SLOTS"
  using nat_and_mask [of _ 8] by (simp add: prov_index_def PROV_SLOTS_def Let_def)

text \<open>A hit in the cache is the position of a live entry copied from the entry asked for.\<close>

lemma lookup_provenance_hit:
  assumes "table_good t" "lookup_provenance t tid serial = Some j" "tid \<noteq> 0"
  shows "62 \<le> j" "j - 62 < length (tab_entries t)" "en_src_tid (tab_entries t ! (j - 62)) = tid"
    "en_src_serial (tab_entries t ! (j - 62)) = serial"
proof -
  obtain p where p: "tab_prov t = Some p"
    using assms(2) by (auto simp: lookup_provenance_def split: option.splits)
  have slots: "length p = 256" "\<And>s. s \<in> set p \<Longrightarrow> slot_ok t s"
    using assms(1) p by (auto simp: table_good_def prov_ok_def PROV_SLOTS_def)
  have h: "prov_index tid serial < 256" "prov_index tid serial XOR 1 < 256"
    using prov_index_less [of tid serial] xor_1_less by (simp_all add: PROV_SLOTS_def)
  obtain s where s: "s \<in> set p" "ps_tid s = tid" "ps_serial s = serial" "index_of t (ps_abs s) = Some j"
  proof (cases "ps_tid (p ! prov_index tid serial) = tid \<and> ps_serial (p ! prov_index tid serial) = serial")
    case True
    then show ?thesis
      using assms(2) p slots h by (intro that [of "p ! prov_index tid serial"]) (auto simp: lookup_provenance_def Let_def)
  next
    case False
    then show ?thesis
      using assms(2) p slots h
      by (intro that [of "p ! (prov_index tid serial XOR 1)"]) (auto simp: lookup_provenance_def Let_def split: if_splits)
  qed
  note ix = index_of_Some [OF assms(1) s(4)]
  have "tab_entries t ! (j - 62) \<in> set (tab_entries t)"
    using ix by simp
  then show "62 \<le> j" "j - 62 < length (tab_entries t)" "en_src_tid (tab_entries t ! (j - 62)) = tid"
    "en_src_serial (tab_entries t ! (j - 62)) = serial"
    using ix slots(2) [OF s(1)] s assms(3) by (auto simp: slot_ok_def)
qed

end
