(* ===== verification/Huffman.thy ===== *)
theory Huffman
  imports Huffman_Table Hpack_Int
begin

text \<open>
  Huffman-coded strings of HPACK (\<open>src/vendor/h2/src/hpack/huffman/mod.rs\<close>): the decoder that
  reads four bits at a time, its variant that only counts, and the encoder that gathers codes
  in a 64-bit register. A decoder starts with an empty scratch buffer: every successful call
  splits off what it wrote, and a failed one ends the connection.

  The counting walk accepts the same strings and returns the length of what the decoder returns.
\<close>

definition MAYBE_EOS :: nat where
  "MAYBE_EOS = 1"

definition DECODED :: nat where
  "DECODED = 2"

definition ERROR :: nat where
  "ERROR = 4"

record huff_decoder =
  hd_state :: nat
  hd_maybe_eos :: bool

definition huff_decoder_new :: huff_decoder where
  "huff_decoder_new = \<lparr> hd_state = 0, hd_maybe_eos = False \<rparr>"

definition decode4 :: "huff_decoder \<Rightarrow> nat \<Rightarrow> (u8 option \<times> huff_decoder, decoder_error) result" where
  "decode4 d input =
    (let (next, byte, flags) = DECODE_TABLE ! hd_state d ! input in
     if flags AND ERROR = ERROR then Err InvalidHuffmanCode
     else Ok (if flags AND DECODED = DECODED then Some (of_nat byte) else None,
              \<lparr> hd_state = next, hd_maybe_eos = (flags AND MAYBE_EOS = MAYBE_EOS) \<rparr>))"

definition huff_is_final :: "huff_decoder \<Rightarrow> bool" where
  "huff_is_final d \<longleftrightarrow> hd_state d = 0 \<or> hd_maybe_eos d"

fun huff_decode_loop :: "octets \<Rightarrow> huff_decoder \<Rightarrow> octets \<Rightarrow> (octets \<times> huff_decoder, decoder_error) result" where
  "huff_decode_loop [] d buf = Ok (buf, d)"
| "huff_decode_loop (b # src) d buf =
    bind_result (decode4 d (unat (drop_bit 4 b))) (\<lambda>(hi, d).
      bind_result (decode4 d (unat (b AND 0xF))) (\<lambda>(lo, d).
        huff_decode_loop src d (buf @ option_list hi @ option_list lo)))"

definition huff_decode :: "octets \<Rightarrow> (octets, decoder_error) result" where
  "huff_decode src = bind_result (huff_decode_loop src huff_decoder_new []) (\<lambda>(buf, d).
     if \<not> huff_is_final d then Err InvalidHuffmanCode else Ok buf)"

fun decoded_len_loop :: "octets \<Rightarrow> huff_decoder \<Rightarrow> nat \<Rightarrow> (nat \<times> huff_decoder, decoder_error) result" where
  "decoded_len_loop [] d n = Ok (n, d)"
| "decoded_len_loop (b # src) d n =
    bind_result (decode4 d (unat (drop_bit 4 b))) (\<lambda>(hi, d).
      let n = (if hi \<noteq> None then n + 1 else n) in
      bind_result (decode4 d (unat (b AND 0xF))) (\<lambda>(lo, d).
        decoded_len_loop src d (if lo \<noteq> None then n + 1 else n)))"

definition decoded_len :: "octets \<Rightarrow> (nat, decoder_error) result" where
  "decoded_len src = bind_result (decoded_len_loop src huff_decoder_new 0) (\<lambda>(n, d).
     if \<not> huff_is_final d then Err InvalidHuffmanCode else Ok n)"

text \<open>The register of the encoder holds the bits that are still to be written in the upper part
  of its lowest forty bits.\<close>

function encode_flush :: "64 word \<Rightarrow> nat \<Rightarrow> octets \<times> 64 word \<times> nat" where
  "encode_flush bits bits_left =
    (if bits_left \<le> 32 then
       let (dst, rest) = encode_flush (push_bit 8 bits) (bits_left + 8) in
       (ucast (drop_bit 32 bits) # dst, rest)
     else ([], bits, bits_left))"
  by pat_completeness auto
termination
  by (relation "measure (\<lambda>(bits, bits_left). 33 - bits_left)") auto

declare encode_flush.simps [simp del]

fun huff_encode_loop :: "octets \<Rightarrow> 64 word \<Rightarrow> nat \<Rightarrow> octets \<times> 64 word \<times> nat" where
  "huff_encode_loop [] bits bits_left = ([], bits, bits_left)"
| "huff_encode_loop (b # src) bits bits_left =
    (let (nbits, code) = ENCODE_TABLE ! unat b;
         bits = bits OR push_bit (bits_left - nbits) (of_nat code);
         bits_left = bits_left - nbits;
         (dst, bits, bits_left) = encode_flush bits bits_left;
         (dst', rest) = huff_encode_loop src bits bits_left
     in (dst @ dst', rest))"

definition huff_encode :: "octets \<Rightarrow> octets" where
  "huff_encode src =
    (let (dst, bits, bits_left) = huff_encode_loop src 0 40 in
     if bits_left \<noteq> 40 then dst @ [ucast (drop_bit 32 (bits OR (push_bit bits_left 1 - 1)))] else dst)"

section \<open>The counting walk\<close>

lemma decoded_len_loop_eq:
  "decoded_len_loop src d (length buf) =
    (case huff_decode_loop src d buf of Inl e \<Rightarrow> Inl e | Inr (out, d) \<Rightarrow> Inr (length out, d))"
proof (induction src d buf rule: huff_decode_loop.induct)
  case (2 b src d buf)
  show ?case
  proof (cases "decode4 d (unat (drop_bit 4 b))")
    case (Inr x)
    obtain hi d1 where x: "x = (hi, d1)" by force
    show ?thesis
    proof (cases "decode4 d1 (unat (b AND 0xF))")
      case (Inr y)
      obtain lo d2 where y: "y = (lo, d2)" by force
      have "decoded_len_loop src d2 (length (buf @ option_list hi @ option_list lo)) =
          (case huff_decode_loop src d2 (buf @ option_list hi @ option_list lo) of
             Inl e \<Rightarrow> Inl e | Inr (out, d) \<Rightarrow> Inr (length out, d))"
        using 2 \<open>decode4 d _ = _\<close> Inr x y by simp
      then show ?thesis
        using \<open>decode4 d _ = _\<close> Inr x y by (cases hi; cases lo) (simp_all add: option_list_def)
    qed (use \<open>decode4 d _ = _\<close> x in simp)
  qed simp
qed simp

lemma decoded_len_eq: "decoded_len src = (case huff_decode src of Inl e \<Rightarrow> Inl e | Inr s \<Rightarrow> Inr (length s))"
  using decoded_len_loop_eq [of src huff_decoder_new "[]"]
  by (auto simp: decoded_len_def huff_decode_def split: sum.splits)

end
