(* ===== verification/Hpack_Transcode.thy ===== *)
theory Hpack_Transcode
  imports Hpack_Mirror Huffman
begin

text \<open>
  The re-indexing transcoder (\<open>src/vendor/h2/src/hpack/transcode.rs\<close>) and the set of
  needed names (\<open>NeededSet\<close> of \<open>selective.rs\<close>): the walk over a header block against
  the mirror of the peer's encoder, and the emission of the resolved representations against our
  table toward another peer.

  A walk is the state the arguments of \<open>parse_one\<close> refer to. Its position is not moved
  when the result is an error: the callers start again from the position they had. The scratch
  buffers are not modelled. Offsets into the bytes of a walk keep their conversion to
  \<open>u32\<close>. Slicing out of range would panic in the code.

  A representation that is cut off changes nothing but the count of fields, every
  representation takes bytes from the block, so that a walk ends.
\<close>

section \<open>The needed names\<close>

definition TAG_OTHER :: nat where
  "TAG_OTHER = 0"

definition TAG_FORBIDDEN :: nat where
  "TAG_FORBIDDEN = 1"

definition TAG_NEEDED_BASE :: nat where
  "TAG_NEEDED_BASE = 2"

definition MAX_NEEDED :: nat where
  "MAX_NEEDED = 64"

definition FORBIDDEN :: "octets list" where
  "FORBIDDEN = map octets [''connection'', ''transfer-encoding'', ''upgrade'', ''keep-alive'', ''proxy-connection'']"

record needed_set =
  ns_names :: "octets list"
  ns_static_tag :: "nat list"
  ns_trust_reps :: bool

fun position :: "'a \<Rightarrow> 'a list \<Rightarrow> nat option" where
  "position x [] = None"
| "position x (y # ys) = (if x = y then Some 0 else map_option Suc (position x ys))"

definition inner_tag_of :: "octets list \<Rightarrow> octets \<Rightarrow> nat" where
  "inner_tag_of names name = (case position name names of
     Some i \<Rightarrow> TAG_NEEDED_BASE + i
   | None \<Rightarrow> if name \<in> set FORBIDDEN then TAG_FORBIDDEN else TAG_OTHER)"

definition add_needed :: "octets \<Rightarrow> octets list \<Rightarrow> octets list" where
  "add_needed n v = (if n \<notin> set v \<and> length v < MAX_NEEDED then v @ [n] else v)"

definition needed_with_options :: "octets list \<Rightarrow> bool \<Rightarrow> needed_set" where
  "needed_with_options names trust_reps =
    (let v = fold add_needed names [] in
     \<lparr> ns_names = v,
       ns_static_tag = TAG_OTHER # map (\<lambda>idx. case get_static idx of
           Some h \<Rightarrow> inner_tag_of v (name_as_slice (header_name h)) | None \<Rightarrow> TAG_OTHER) [1..<62],
       ns_trust_reps = trust_reps \<rparr>)"

definition tag_of :: "needed_set \<Rightarrow> octets \<Rightarrow> nat" where
  "tag_of n name = inner_tag_of (ns_names n) name"

definition tag_of_static :: "needed_set \<Rightarrow> nat \<Rightarrow> nat" where
  "tag_of_static n idx = (if idx = 0 \<or> 61 < idx then TAG_OTHER else ns_static_tag n ! idx)"

definition is_needed :: "nat \<Rightarrow> bool" where
  "is_needed tag \<longleftrightarrow> TAG_NEEDED_BASE \<le> tag"

definition needed_index :: "nat \<Rightarrow> nat option" where
  "needed_index tag = (if is_needed tag then Some (tag - TAG_NEEDED_BASE) else None)"

definition name_of_tag :: "needed_set \<Rightarrow> nat \<Rightarrow> octets option" where
  "name_of_tag n tag = (case needed_index tag of None \<Rightarrow> None | Some i \<Rightarrow> slice_get (ns_names n) i)"

section \<open>The mirror\<close>

record mirror_table =
  mt_table :: table
  mt_needed :: "needed_set option"

definition mirror_new :: "nat \<Rightarrow> nat \<Rightarrow> mirror_table" where
  "mirror_new tid mx = \<lparr> mt_table = table_new tid mx, mt_needed = None \<rparr>"

definition set_needed :: "needed_set \<Rightarrow> mirror_table \<Rightarrow> mirror_table" where
  "set_needed needed m = m\<lparr> mt_needed := Some needed \<rparr>"

section \<open>Fields for the policy\<close>

record policy_fields =
  pf_have :: u8
  pf_method :: octets
  pf_path :: octets
  pf_authority :: octets

definition policy_clear :: "policy_fields \<Rightarrow> policy_fields" where
  "policy_clear pf = pf\<lparr> pf_have := 0 \<rparr>"

definition policy_has :: "kind \<Rightarrow> policy_fields \<Rightarrow> bool" where
  "policy_has k pf \<longleftrightarrow> pf_have pf AND kind_bit k \<noteq> 0"

definition policy_method :: "policy_fields \<Rightarrow> octets option" where
  "policy_method pf = (if policy_has Kind_Method pf then Some (pf_method pf) else None)"

definition policy_path :: "policy_fields \<Rightarrow> octets option" where
  "policy_path pf = (if policy_has Kind_Path pf then Some (pf_path pf) else None)"

definition policy_authority :: "policy_fields \<Rightarrow> octets option" where
  "policy_authority pf = (if policy_has Kind_Authority pf then Some (pf_authority pf) else None)"

definition policy_set :: "kind \<Rightarrow> octets \<Rightarrow> policy_fields \<Rightarrow> policy_fields" where
  "policy_set k v pf = (case k of
     Kind_Method \<Rightarrow> pf\<lparr> pf_method := v, pf_have := pf_have pf OR kind_bit k \<rparr>
   | Kind_Path \<Rightarrow> pf\<lparr> pf_path := v, pf_have := pf_have pf OR kind_bit k \<rparr>
   | Kind_Authority \<Rightarrow> pf\<lparr> pf_authority := v, pf_have := pf_have pf OR kind_bit k \<rparr>
   | _ \<Rightarrow> pf)"

section \<open>Counters\<close>

record transcode_stats =
  st_fields :: nat
  st_static_idx :: nat
  st_dyn_hit :: nat
  st_dyn_miss :: nat
  st_lit_insert :: nat
  st_lit_noindex :: nat
  st_never_indexed :: nat
  st_size_updates :: nat
  st_in_bytes :: nat
  st_out_bytes :: nat
  st_rewrites :: nat
  st_extra_lit :: nat
  st_extra_hit :: nat

definition stats_add :: "transcode_stats \<Rightarrow> transcode_stats \<Rightarrow> transcode_stats" where
  "stats_add o' s =
    \<lparr> st_fields = st_fields s + st_fields o', st_static_idx = st_static_idx s + st_static_idx o',
      st_dyn_hit = st_dyn_hit s + st_dyn_hit o', st_dyn_miss = st_dyn_miss s + st_dyn_miss o',
      st_lit_insert = st_lit_insert s + st_lit_insert o', st_lit_noindex = st_lit_noindex s + st_lit_noindex o',
      st_never_indexed = st_never_indexed s + st_never_indexed o',
      st_size_updates = st_size_updates s + st_size_updates o', st_in_bytes = st_in_bytes s + st_in_bytes o',
      st_out_bytes = st_out_bytes s + st_out_bytes o', st_rewrites = st_rewrites s + st_rewrites o',
      st_extra_lit = st_extra_lit s + st_extra_lit o', st_extra_hit = st_extra_hit s + st_extra_hit o' \<rparr>"

section \<open>Representations\<close>

datatype rep_kind = Rep_Static | Rep_Dynamic | Rep_Insert | Rep_NoIndex | Rep_Never | Rep_SizeUpdate

definition NO_NUM :: nat where
  "NO_NUM = u64_max"

record rep =
  rp_kind :: rep_kind
  rp_hkind :: kind
  rp_name_huff :: bool
  rp_val_huff :: bool
  rp_has_dec :: bool
  rp_name_static :: nat
  rp_tag :: nat
  rp_name_off :: nat
  rp_name_len :: nat
  rp_val_off :: nat
  rp_val_len :: nat
  rp_dec_off :: nat
  rp_dec_len :: nat
  rp_name_dec_len :: nat
  rp_val_dec_len :: nat
  rp_num :: nat

definition is_size_update :: "rep \<Rightarrow> bool" where
  "is_size_update r \<longleftrightarrow> rp_kind r = Rep_SizeUpdate"

definition is_pseudo :: "rep \<Rightarrow> bool" where
  "is_pseudo r \<longleftrightarrow> rp_hkind r \<noteq> Kind_None"

definition decoded_size :: "rep \<Rightarrow> nat" where
  "decoded_size r = as_u32 (rp_name_dec_len r + rp_val_dec_len r + 32)"

definition rep_name :: "rep \<Rightarrow> octets \<Rightarrow> octets" where
  "rep_name r bytes = slice (rp_name_off r) (as_u32 (rp_name_off r + rp_name_len r)) bytes"

definition rep_val :: "rep \<Rightarrow> octets \<Rightarrow> octets" where
  "rep_val r bytes = slice (rp_val_off r) (as_u32 (rp_val_off r + rp_val_len r)) bytes"

definition rep_dec :: "rep \<Rightarrow> octets \<Rightarrow> octets option" where
  "rep_dec r bytes =
    (if rp_kind r = Rep_Static then Some (static_field_value (as_u32 (rp_num r)))
     else if \<not> rp_has_dec r then None
     else Some (slice (rp_dec_off r) (as_u32 (rp_dec_off r + rp_dec_len r)) bytes))"

record rep_buf =
  rb_reps :: "rep list"
  rb_bytes :: octets

definition rep_buf_clear :: "rep_buf \<Rightarrow> rep_buf" where
  "rep_buf_clear _ = \<lparr> rb_reps = [], rb_bytes = [] \<rparr>"

definition push_block :: "octets \<Rightarrow> rep_buf \<Rightarrow> nat \<times> rep_buf" where
  "push_block block buf = (length (rb_bytes buf), buf\<lparr> rb_bytes := rb_bytes buf @ block \<rparr>)"

definition push_rep :: "rep \<Rightarrow> rep_buf \<Rightarrow> rep_buf" where
  "push_rep r buf = buf\<lparr> rb_reps := rb_reps buf @ [r] \<rparr>"

section \<open>The walk\<close>

record walk =
  wk_buf :: rep_buf
  wk_i :: nat
  wk_mirror :: mirror_table
  wk_policy :: "policy_fields option"
  wk_stats :: transcode_stats

definition deliver :: "kind \<Rightarrow> octets option \<Rightarrow> walk \<Rightarrow> walk" where
  "deliver k v w = w\<lparr> wk_policy := (case (wk_policy w, v) of
     (Some pf, Some d) \<Rightarrow> Some (if k \<noteq> Kind_None then policy_set k d pf else pf)
   | (p, _) \<Rightarrow> p) \<rparr>"

definition static_tag :: "walk \<Rightarrow> nat \<Rightarrow> nat" where
  "static_tag w idx = (case mt_needed (wk_mirror w) of None \<Rightarrow> 0 | Some n \<Rightarrow> tag_of_static n idx)"

definition name_tag :: "walk \<Rightarrow> octets \<Rightarrow> nat" where
  "name_tag w name = (case mt_needed (wk_mirror w) of None \<Rightarrow> 0 | Some n \<Rightarrow> tag_of n name)"

definition parse_static :: "nat \<Rightarrow> walk \<Rightarrow> walk" where
  "parse_static idx w =
    (let w = w\<lparr> wk_stats := (wk_stats w)\<lparr> st_static_idx := st_static_idx (wk_stats w) + 1 \<rparr> \<rparr>;
         hkind = kind_of_static idx;
         w = deliver hkind (Some (static_value idx)) w
     in w\<lparr> wk_buf := push_rep
          \<lparr> rp_kind = Rep_Static, rp_hkind = hkind, rp_name_huff = False, rp_val_huff = False, rp_has_dec = False,
            rp_name_static = idx, rp_tag = static_tag w idx, rp_name_off = 0, rp_name_len = 0, rp_val_off = 0,
            rp_val_len = 0, rp_dec_off = 0, rp_dec_len = 0, rp_name_dec_len = STATIC_NAME_LEN ! idx,
            rp_val_dec_len = length (static_field_value idx), rp_num = idx \<rparr> (wk_buf w) \<rparr>)"

definition parse_dynamic :: "entry \<Rightarrow> walk \<Rightarrow> walk" where
  "parse_dynamic e w =
    (let a = tab_arena (mt_table (wk_mirror w));
         w = deliver (en_kind e) (val_dec a e) w;
         off = as_u32 (length (rb_bytes (wk_buf w)));
         d = (case val_dec a e of Some d \<Rightarrow> d | None \<Rightarrow> []);
         buf = (wk_buf w)\<lparr> rb_bytes := rb_bytes (wk_buf w) @ entry_wire a e @ d \<rparr>
     in w\<lparr> wk_buf := push_rep
          \<lparr> rp_kind = Rep_Dynamic, rp_hkind = en_kind e, rp_name_huff = en_name_huff e, rp_val_huff = en_val_huff e,
            rp_has_dec = has_dec e, rp_name_static = en_name_static e, rp_tag = en_tag e, rp_name_off = off,
            rp_name_len = en_name_enc_len e, rp_val_off = as_u32 (off + en_name_enc_len e),
            rp_val_len = en_val_enc_len e,
            rp_dec_off = as_u32 (off + as_u32 (en_name_enc_len e + en_val_enc_len e)),
            rp_dec_len = as_u32 (length d), rp_name_dec_len = en_name_dec_len e,
            rp_val_dec_len = en_val_dec_len e, rp_num = en_serial e \<rparr> buf \<rparr>)"

definition parse_indexed :: "octets \<Rightarrow> walk \<Rightarrow> (walk, transcode_error) result" where
  "parse_indexed b w = bind_result (varint b (wk_i w) 7) (\<lambda>(idx, i).
     let w = w\<lparr> wk_i := i \<rparr> in
     if idx = 0 then Err InvalidIndex
     else if idx \<le> 61 then Ok (parse_static idx w)
     else bind_result (ok_or InvalidIndex (get_entry (mt_table (wk_mirror w)) idx)) (\<lambda>e. Ok (parse_dynamic e w)))"

definition parse_size_update :: "octets \<Rightarrow> walk \<Rightarrow> (walk, transcode_error) result" where
  "parse_size_update b w = bind_result (varint b (wk_i w) 5) (\<lambda>(mx, i).
     let m = wk_mirror w in
     Ok (w\<lparr> wk_i := i,
            wk_mirror := m\<lparr> mt_table := set_max mx (mt_table m) \<rparr>,
            wk_stats := (wk_stats w)\<lparr> st_size_updates := st_size_updates (wk_stats w) + 1 \<rparr>,
            wk_buf := push_rep
              \<lparr> rp_kind = Rep_SizeUpdate, rp_hkind = Kind_None, rp_name_huff = False, rp_val_huff = False,
                rp_has_dec = False, rp_name_static = 0, rp_tag = 0, rp_name_off = 0, rp_name_len = 0, rp_val_off = 0,
                rp_val_len = 0, rp_dec_off = 0, rp_dec_len = 0, rp_name_dec_len = 0, rp_val_dec_len = 0,
                rp_num = mx \<rparr> (wk_buf w) \<rparr>))"

text \<open>The name of a literal: its static index or the place of its bytes, the entry of the mirror
  the bytes are to be copied from, and what is known of it.\<close>

record lit_name =
  ln_static :: nat
  ln_huff :: bool
  ln_off :: nat
  ln_len :: nat
  ln_from_mirror :: "entry option"
  ln_dec_len :: nat
  ln_hkind :: kind
  ln_tag :: nat

definition decode_str :: "bool \<Rightarrow> octets \<Rightarrow> (octets, transcode_error) result" where
  "decode_str huff s = (if huff then map_err (\<lambda>_. InvalidHuffman) (huff_decode s) else Ok s)"

definition parse_name :: "octets \<Rightarrow> nat \<Rightarrow> nat \<Rightarrow> walk \<Rightarrow> (lit_name \<times> nat, transcode_error) result" where
  "parse_name b idx i w =
    (if idx \<noteq> 0 then
       if idx \<le> 61 then
         Ok (\<lparr> ln_static = idx, ln_huff = False, ln_off = 0, ln_len = 0, ln_from_mirror = None,
               ln_dec_len = STATIC_NAME_LEN ! idx, ln_hkind = kind_of_static idx, ln_tag = static_tag w idx \<rparr>, i)
       else bind_result (ok_or InvalidIndex (get_entry (mt_table (wk_mirror w)) idx)) (\<lambda>ne.
         Ok (\<lparr> ln_static = en_name_static ne, ln_huff = en_name_huff ne, ln_off = 0, ln_len = en_name_enc_len ne,
               ln_from_mirror = (if en_name_static ne = 0 then Some ne else None),
               ln_dec_len = en_name_dec_len ne, ln_hkind = en_kind ne, ln_tag = en_tag ne \<rparr>, i))
     else bind_result (read_str b i) (\<lambda>(huff, s0, s1).
       bind_result (decode_str huff (slice s0 s1 b)) (\<lambda>d.
         Ok (\<lparr> ln_static = 0, ln_huff = huff, ln_off = s0, ln_len = s1 - s0, ln_from_mirror = None,
               ln_dec_len = length d, ln_hkind = kind_of_name d, ln_tag = name_tag w d \<rparr>, s1))))"

text \<open>The value of a literal: the decoded bytes of a Huffman string that must be kept, and the
  decoded length.\<close>

definition parse_value :: "bool \<Rightarrow> bool \<Rightarrow> bool \<Rightarrow> octets \<Rightarrow> (octets option \<times> nat, transcode_error) result" where
  "parse_value want_dec inserting val_huff venc =
    (if want_dec then
       if val_huff then bind_result (map_err (\<lambda>_. InvalidHuffman) (huff_decode venc)) (\<lambda>d. Ok (Some d, length d))
       else Ok (None, length venc)
     else if inserting \<and> val_huff then
       bind_result (map_err (\<lambda>_. InvalidHuffman) (decoded_len venc)) (\<lambda>n. Ok (None, n))
     else Ok (None, length venc))"

definition lit_kind :: "u8 \<Rightarrow> rep_kind" where
  "lit_kind c = (if c AND 0x40 \<noteq> 0 then Rep_Insert else if c AND 0x10 \<noteq> 0 then Rep_Never else Rep_NoIndex)"

text \<open>What follows the reads of the block: the bytes that are kept, the fields for the policy, the
  insertion into the mirror and the representation.\<close>

definition finish_literal :: "rep_kind \<Rightarrow> lit_name \<Rightarrow> bool \<Rightarrow> nat \<Rightarrow> nat \<Rightarrow> bool \<Rightarrow> octets option \<Rightarrow> nat \<Rightarrow> walk \<Rightarrow> walk" where
  "finish_literal kind ln val_huff v0 v1 want_dec huff_dec val_dec_len w =
    (let m = wk_mirror w;
         bytes = rb_bytes (wk_buf w);
         (name_off, bytes) = (case ln_from_mirror ln of
            Some ne \<Rightarrow> (length bytes, bytes @ name_enc (tab_arena (mt_table m)) ne)
          | None \<Rightarrow> (ln_off ln, bytes));
         (dec_off, dec_len, bytes) = (case huff_dec of
            Some d \<Rightarrow> (length bytes, length d, bytes @ d)
          | None \<Rightarrow> (v0, v1 - v0, bytes));
         vdec = (if want_dec then Some (slice dec_off (dec_off + dec_len) bytes) else None);
         w = deliver (ln_hkind ln) vdec w;
         ((anum, survived), t) = (if kind = Rep_Insert then
            table_ins \<lparr> ins_name_static = ln_static ln, ins_name_enc = slice name_off (name_off + ln_len ln) bytes,
                ins_name_huff = ln_huff ln, ins_name_dec_len = ln_dec_len ln, ins_val_enc = slice v0 v1 bytes,
                ins_val_huff = val_huff, ins_val_dec_len = val_dec_len, ins_kind = ln_hkind ln, ins_tag = ln_tag ln,
                ins_val_dec = vdec, ins_src_tid = 0, ins_src_serial = 0 \<rparr> (mt_table m)
          else ((0, False), mt_table m));
         num = (if kind = Rep_Insert \<and> survived then anum else NO_NUM)
     in w\<lparr> wk_mirror := m\<lparr> mt_table := t \<rparr>,
           wk_buf := push_rep
             \<lparr> rp_kind = kind, rp_hkind = ln_hkind ln, rp_name_huff = ln_huff ln, rp_val_huff = val_huff,
               rp_has_dec = want_dec, rp_name_static = ln_static ln, rp_tag = ln_tag ln, rp_name_off = as_u32 name_off,
               rp_name_len = as_u32 (ln_len ln), rp_val_off = as_u32 v0, rp_val_len = as_u32 (v1 - v0),
               rp_dec_off = as_u32 dec_off, rp_dec_len = as_u32 dec_len, rp_name_dec_len = as_u32 (ln_dec_len ln),
               rp_val_dec_len = as_u32 val_dec_len, rp_num = num \<rparr> ((wk_buf w)\<lparr> rb_bytes := bytes \<rparr>) \<rparr>)"

definition parse_literal :: "octets \<Rightarrow> u8 \<Rightarrow> walk \<Rightarrow> (walk, transcode_error) result" where
  "parse_literal b c w =
    (let kind = lit_kind c; inserting = (kind = Rep_Insert) in
     bind_result (varint b (wk_i w) (if inserting then 6 else 4)) (\<lambda>(idx, i).
     bind_result (parse_name b idx i w) (\<lambda>(ln, i).
     bind_result (read_str b i) (\<lambda>(val_huff, v0, v1).
       let want_dec = (ln_hkind ln \<noteq> Kind_None \<or> is_needed (ln_tag ln)) in
       bind_result (parse_value want_dec inserting val_huff (slice v0 v1 b)) (\<lambda>(huff_dec, val_dec_len).
         Ok (finish_literal kind ln val_huff v0 v1 want_dec huff_dec val_dec_len (w\<lparr> wk_i := v1 \<rparr>)))))))"

definition count_field :: "walk \<Rightarrow> walk" where
  "count_field w = w\<lparr> wk_stats := (wk_stats w)\<lparr> st_fields := st_fields (wk_stats w) + 1 \<rparr> \<rparr>"

definition parse_one :: "nat \<Rightarrow> walk \<Rightarrow> (unit, transcode_error) result \<times> walk" where
  "parse_one block_end w =
    (let b = take block_end (rb_bytes (wk_buf w)) in
     case slice_get b (wk_i w) of
       None \<Rightarrow> (Err Truncated, w)
     | Some c \<Rightarrow>
         let w = count_field w in
         case (if c AND 0x80 \<noteq> 0 then parse_indexed b w
               else if c AND 0xE0 = 0x20 then parse_size_update b w
               else parse_literal b c w) of
           Inl e \<Rightarrow> (Err e, w)
         | Inr w' \<Rightarrow> (Ok (), w'))"

section \<open>Every representation takes bytes from the block\<close>

lemma varint_loop_advances: "varint_loop b i acc m = Ok (v, j) \<Longrightarrow> i < j \<and> j \<le> length b"
proof (induction b i acc m rule: varint_loop.induct)
  case (1 b i acc m)
  show ?case
  proof (cases "28 < m \<or> slice_get b i = None")
    case True
    then show ?thesis
      using 1(2) by (auto simp: varint_loop.simps [of b i] split: if_splits)
  next
    case False
    then obtain c where c: "slice_get b i = Some c" "\<not> 28 < m" by auto
    then have "i < length b" by (simp add: slice_get_def split: if_splits)
    then show ?thesis
      using 1(1) [OF c(2,1) refl refl refl] 1(2) c
      by (cases "c AND 128 = 0") (auto simp: varint_loop.simps [of b i] Let_def)
  qed
qed

lemma varint_advances: "varint b i p = Ok (v, j) \<Longrightarrow> i < j \<and> j \<le> length b"
  by (fastforce simp: varint_def Let_def slice_get_def split: if_splits option.splits sum.splits
      dest!: varint_loop_advances)

lemma read_str_advances:
  "read_str b i = Ok (huff, s0, s1) \<Longrightarrow> i < s0 \<and> s0 \<le> s1 \<and> s1 \<le> length b"
  by (auto simp: read_str_def bind_result_Inr_iff split: option.splits if_splits dest!: varint_advances)

lemma parse_name_advances: "parse_name b idx i w = Ok (ln, j) \<Longrightarrow> i \<le> j"
  by (auto simp: parse_name_def bind_result_Inr_iff split: if_splits dest!: read_str_advances)

lemma wk_i_deliver [simp]: "wk_i (deliver k v w) = wk_i w"
  by (simp add: deliver_def)

lemma wk_i_finish [simp]: "wk_i (finish_literal kind ln vh v0 v1 want dec n w) = wk_i w"
  by (simp add: finish_literal_def Let_def split: prod.splits)

lemma wk_i_parse_static [simp]: "wk_i (parse_static idx w) = wk_i w"
  and wk_i_parse_dynamic [simp]: "wk_i (parse_dynamic e w) = wk_i w"
  and wk_i_count_field [simp]: "wk_i (count_field w) = wk_i w"
  by (simp_all add: parse_static_def parse_dynamic_def count_field_def Let_def)

lemma parse_indexed_advances: "parse_indexed b w = Ok w' \<Longrightarrow> wk_i w < wk_i w'"
  by (auto simp: parse_indexed_def bind_result_Inr_iff Let_def split: if_splits dest!: varint_advances)

lemma parse_size_update_advances: "parse_size_update b w = Ok w' \<Longrightarrow> wk_i w < wk_i w'"
  by (auto simp: parse_size_update_def bind_result_Inr_iff Let_def dest!: varint_advances)

lemma parse_literal_advances: "parse_literal b c w = Ok w' \<Longrightarrow> wk_i w < wk_i w'"
  by (auto simp: parse_literal_def bind_result_Inr_iff Let_def
      dest!: varint_advances parse_name_advances read_str_advances)

lemma parse_one_advances: "parse_one block_end w = (Ok x, w') \<Longrightarrow> wk_i w < wk_i w'"
  by (auto simp: parse_one_def Let_def split: option.splits sum.splits if_splits
      dest!: parse_indexed_advances parse_size_update_advances parse_literal_advances)

section \<open>Emission\<close>

text \<open>The insertion into our table that a representation stands for.\<close>

definition rep_insertion :: "rep \<Rightarrow> octets \<Rightarrow> nat \<Rightarrow> nat \<Rightarrow> insertion" where
  "rep_insertion r bytes src_tid src_serial =
    \<lparr> ins_name_static = rp_name_static r, ins_name_enc = rep_name r bytes, ins_name_huff = rp_name_huff r,
      ins_name_dec_len = rp_name_dec_len r, ins_val_enc = rep_val r bytes, ins_val_huff = rp_val_huff r,
      ins_val_dec_len = rp_val_dec_len r, ins_kind = Kind_None, ins_tag = 0, ins_val_dec = None,
      ins_src_tid = src_tid, ins_src_serial = src_serial \<rparr>"

definition emit_literal :: "u8 \<Rightarrow> nat \<Rightarrow> rep \<Rightarrow> octets \<Rightarrow> octets" where
  "emit_literal fb pfx r bytes =
    sink_name fb pfx (rp_name_static r) (rp_name_huff r) (rep_name r bytes) @ sink_str (rp_val_huff r) (rep_val r bytes)"

definition enc_insert :: "insertion \<Rightarrow> encoder_table \<Rightarrow> encoder_table" where
  "enc_insert ins enc = enc\<lparr> enc_table := snd (table_ins ins (enc_table enc)) \<rparr>"

definition emit_one ::
  "rep \<Rightarrow> octets \<Rightarrow> nat \<Rightarrow> encoder_table \<Rightarrow> transcode_stats \<Rightarrow> octets \<times> encoder_table \<times> transcode_stats" where
  "emit_one r bytes mirror_tid enc st = (case rp_kind r of
     Rep_Static \<Rightarrow> (sink_int 0x80 7 (rp_num r), enc, st)
   | Rep_Dynamic \<Rightarrow> (case lookup_provenance (enc_table enc) mirror_tid (rp_num r) of
         Some j \<Rightarrow> (sink_int 0x80 7 j, enc, st\<lparr> st_dyn_hit := st_dyn_hit st + 1 \<rparr>)
       | None \<Rightarrow>
           (emit_literal 0x40 6 r bytes, enc_insert (rep_insertion r bytes mirror_tid (rp_num r)) enc,
            st\<lparr> st_dyn_miss := st_dyn_miss st + 1 \<rparr>))
   | Rep_Insert \<Rightarrow>
       let (src_tid, src_serial) = (if rp_num r \<noteq> NO_NUM then (mirror_tid, rp_num r) else (0, 0)) in
       (emit_literal 0x40 6 r bytes, enc_insert (rep_insertion r bytes src_tid src_serial) enc,
        st\<lparr> st_lit_insert := st_lit_insert st + 1 \<rparr>)
   | Rep_NoIndex \<Rightarrow> (emit_literal 0 4 r bytes, enc, st\<lparr> st_lit_noindex := st_lit_noindex st + 1 \<rparr>)
   | Rep_Never \<Rightarrow> (emit_literal 0x10 4 r bytes, enc, st\<lparr> st_never_indexed := st_never_indexed st + 1 \<rparr>)
   | Rep_SizeUpdate \<Rightarrow> ([], enc, st))"

definition emit_pending_resize :: "encoder_table \<Rightarrow> octets \<times> encoder_table" where
  "emit_pending_resize enc =
    (let (p, enc) = take_pending_resize enc in
     case p of
       None \<Rightarrow> ([], enc)
     | Some (low, fin) \<Rightarrow> ((if low < fin then sink_int 0x20 5 low else []) @ sink_int 0x20 5 fin, enc))"

section \<open>A whole block\<close>

function walk_block :: "nat \<Rightarrow> walk \<Rightarrow> (unit, transcode_error) result \<times> walk" where
  "walk_block block_end w =
    (if wk_i w < block_end then
       case parse_one block_end w of
         (Inl e, w) \<Rightarrow> (Err e, w)
       | (Inr _, w) \<Rightarrow> walk_block block_end w
     else (Ok (), w))"
  by pat_completeness auto
termination
  by (relation "measure (\<lambda>(block_end, w). block_end - wk_i w)")
    (auto simp: diff_less_mono2 dest!: parse_one_advances [OF sym])

declare walk_block.simps [simp del]

fun emit_reps ::
  "rep list \<Rightarrow> octets \<Rightarrow> nat \<Rightarrow> encoder_table \<Rightarrow> transcode_stats \<Rightarrow> octets \<times> encoder_table \<times> transcode_stats" where
  "emit_reps [] bytes mirror_tid enc st = ([], enc, st)"
| "emit_reps (r # rs) bytes mirror_tid enc st =
    (let (out, enc, st) = emit_one r bytes mirror_tid enc st;
         (out', enc, st) = emit_reps rs bytes mirror_tid enc st
     in (out @ out', enc, st))"

definition emit_block :: "rep list \<Rightarrow> octets \<Rightarrow> nat \<Rightarrow> encoder_table \<Rightarrow> transcode_stats \<Rightarrow> octets \<times> encoder_table \<times> transcode_stats" where
  "emit_block rs bytes tid enc st =
    (let (out, enc) = emit_pending_resize enc; (out', enc, st) = emit_reps rs bytes tid enc st in (out @ out', enc, st))"

definition walk_start :: "rep_buf \<Rightarrow> octets \<Rightarrow> mirror_table \<Rightarrow> policy_fields option \<Rightarrow> transcode_stats \<Rightarrow> nat \<times> walk" where
  "walk_start buf block mirror policy st =
    (let (off, buf) = push_block block (rep_buf_clear buf) in
     (off + length block,
      \<lparr> wk_buf = buf, wk_i = 0, wk_mirror = mirror, wk_policy = map_option policy_clear policy,
        wk_stats = st\<lparr> st_in_bytes := st_in_bytes st + length block \<rparr> \<rparr>))"

definition transcode_with ::
  "rep_buf \<Rightarrow> octets \<Rightarrow> mirror_table \<Rightarrow> encoder_table option \<Rightarrow> policy_fields option \<Rightarrow> transcode_stats \<Rightarrow>
    (unit, transcode_error) result \<times> walk \<times> encoder_table option \<times> octets" where
  "transcode_with buf block mirror enc policy st =
    (let (block_end, w) = walk_start buf block mirror policy st in
     case walk_block block_end w of
       (Inl e, w) \<Rightarrow> (Err e, w, enc, [])
     | (Inr _, w) \<Rightarrow> (case enc of
           None \<Rightarrow> (Ok (), w, None, [])
         | Some enc \<Rightarrow>
             let (out, enc, st) = emit_block (rb_reps (wk_buf w)) (rb_bytes (wk_buf w)) (tab_tid (mt_table (wk_mirror w)))
                                    enc (wk_stats w)
             in (Ok (), w\<lparr> wk_stats := st\<lparr> st_out_bytes := st_out_bytes st + length out \<rparr> \<rparr>, Some enc, out)))"

definition transcode ::
  "octets \<Rightarrow> mirror_table \<Rightarrow> encoder_table option \<Rightarrow> policy_fields option \<Rightarrow> transcode_stats \<Rightarrow>
    (unit, transcode_error) result \<times> walk \<times> encoder_table option \<times> octets" where
  "transcode block mirror enc policy st = transcode_with \<lparr> rb_reps = [], rb_bytes = [] \<rparr> block mirror enc policy st"

definition huff_into :: "octets \<Rightarrow> octets" where
  "huff_into s = (if s \<noteq> [] then huff_encode s else [])"

section \<open>A representation that is cut off\<close>

lemma parse_one_error: "parse_one block_end w = (Err e, w') \<Longrightarrow> w' = w \<or> w' = count_field w"
  by (auto simp: parse_one_def Let_def split: option.splits sum.splits if_splits)

end
