(* ===== verification/Hpack_Decoder.thy ===== *)
theory Hpack_Decoder
  imports Hpack_Header Huffman
begin

text \<open>
  The HPACK decoder (\<open>src/vendor/h2/src/hpack/decoder.rs\<close>): its dynamic table, the
  kinds of representation and the loop over a header block. The cursor is the list of bytes
  that remain. What an error leaves in the buffer is not modelled: a block is given whole.

  The table never holds more than its maximum size, the panic of \<open>consolidate\<close> is never
  reached, and decoding a block ends.
\<close>

section \<open>The dynamic table\<close>

text \<open>The newest entry comes first.\<close>

record hp_table =
  tb_entries :: "header list"
  tb_size :: nat
  tb_max_size :: nat

definition hp_table_new :: "nat \<Rightarrow> hp_table" where
  "hp_table_new max_size = \<lparr> tb_entries = [], tb_size = 0, tb_max_size = max_size \<rparr>"

definition table_get :: "hp_table \<Rightarrow> nat \<Rightarrow> (header, decoder_error) result" where
  "table_get t index =
    (if index = 0 then Err InvalidTableIndex
     else if index \<le> 61 then ok_or InvalidTableIndex (get_static index)
     else case slice_get (tb_entries t) (index - 62) of
       Some e \<Rightarrow> Ok e
     | None \<Rightarrow> Err InvalidTableIndex)"

definition table_pop :: "hp_table \<Rightarrow> hp_table" where
  "table_pop t = t\<lparr> tb_entries := butlast (tb_entries t),
                    tb_size := tb_size t - header_len (last (tb_entries t)) \<rparr>"

function table_reserve :: "nat \<Rightarrow> hp_table \<Rightarrow> hp_table" where
  "table_reserve sz t =
    (if tb_max_size t < tb_size t + sz then
       if tb_entries t = [] then t else table_reserve sz (table_pop t)
     else t)"
  by pat_completeness auto
termination
  by (relation "measure (\<lambda>(sz, t). length (tb_entries t))") (auto simp: table_pop_def)

definition table_insert :: "header \<Rightarrow> hp_table \<Rightarrow> hp_table" where
  "table_insert entry t =
    (let len = header_len entry; t = table_reserve len t in
     if tb_size t + len \<le> tb_max_size t
     then t\<lparr> tb_size := tb_size t + len, tb_entries := entry # tb_entries t \<rparr>
     else t)"

function consolidate :: "hp_table \<Rightarrow> hp_table outcome" where
  "consolidate t =
    (if tb_max_size t < tb_size t then
       if tb_entries t = [] then Panics ''Size of table != 0, but no headers left!''
       else consolidate (table_pop t)
     else Returns t)"
  by pat_completeness auto
termination
  by (relation "measure (\<lambda>t. length (tb_entries t))") (auto simp: table_pop_def)

declare table_reserve.simps [simp del] consolidate.simps [simp del]

definition set_max_size :: "nat \<Rightarrow> hp_table \<Rightarrow> hp_table outcome" where
  "set_max_size sz t = consolidate (t\<lparr> tb_max_size := sz \<rparr>)"

section \<open>Representations\<close>

datatype representation = Indexed | LiteralWithIndexing | LiteralWithoutIndexing | LiteralNeverIndexed | SizeUpdate

definition representation_load :: "u8 \<Rightarrow> (representation, decoder_error) result" where
  "representation_load byte =
    (if byte AND 0x80 = 0x80 then Ok Indexed
     else if byte AND 0x40 = 0x40 then Ok LiteralWithIndexing
     else if byte AND 0xF0 = 0 then Ok LiteralWithoutIndexing
     else if byte AND 0xF0 = 0x10 then Ok LiteralNeverIndexed
     else if byte AND 0xE0 = 0x20 then Ok SizeUpdate
     else Err InvalidRepresentation)"

definition decode_string :: "octets \<Rightarrow> (octets \<times> octets, decoder_error) result" where
  "decode_string buf = (case buf of
     [] \<Rightarrow> Err (NeedMore UnexpectedEndOfStream)
   | hdr # _ \<Rightarrow>
       bind_result (decode_int 7 buf) (\<lambda>(len, buf).
         if length buf < len then Err (NeedMore StringUnderflow)
         else if hdr AND 0x80 = 0x80
         then bind_result (huff_decode (take len buf)) (\<lambda>s. Ok (s, drop len buf))
         else Ok (take len buf, drop len buf)))"

record hp_decoder =
  dec_max_size_update :: "nat option"
  dec_last_max_update :: nat
  dec_table :: hp_table

definition hp_decoder_new :: "nat \<Rightarrow> hp_decoder" where
  "hp_decoder_new sz =
    \<lparr> dec_max_size_update = None, dec_last_max_update = sz, dec_table = hp_table_new sz \<rparr>"

definition queue_size_update :: "nat \<Rightarrow> hp_decoder \<Rightarrow> hp_decoder" where
  "queue_size_update sz d =
    d\<lparr> dec_max_size_update := Some (case dec_max_size_update d of Some v \<Rightarrow> max v sz | None \<Rightarrow> sz) \<rparr>"

definition decode_indexed :: "hp_decoder \<Rightarrow> octets \<Rightarrow> (header \<times> octets, decoder_error) result" where
  "decode_indexed d buf = bind_result (decode_int 7 buf) (\<lambda>(index, buf).
     bind_result (table_get (dec_table d) index) (\<lambda>h. Ok (h, buf)))"

definition decode_literal :: "http_lib \<Rightarrow> hp_decoder \<Rightarrow> bool \<Rightarrow> octets \<Rightarrow> (header \<times> octets, decoder_error) result" where
  "decode_literal lib d index buf =
    bind_result (decode_int (if index then 6 else 4) buf) (\<lambda>(table_idx, buf).
      if table_idx = 0 then
        bind_result (decode_string buf) (\<lambda>(name, buf).
          bind_result (decode_string buf) (\<lambda>(value, buf).
            bind_result (header_new lib name value) (\<lambda>h. Ok (h, buf))))
      else
        bind_result (table_get (dec_table d) table_idx) (\<lambda>e.
          bind_result (decode_string buf) (\<lambda>(value, buf).
            bind_result (into_entry lib (header_name e) value) (\<lambda>h. Ok (h, buf)))))"

definition process_size_update :: "hp_decoder \<Rightarrow> octets \<Rightarrow> (hp_decoder \<times> octets, decoder_error) result outcome" where
  "process_size_update d buf = (case decode_int 5 buf of
     Inl e \<Rightarrow> Returns (Err e)
   | Inr (new_size, buf) \<Rightarrow>
       if dec_last_max_update d < new_size then Returns (Err InvalidMaxDynamicSize)
       else bind_outcome (set_max_size new_size (dec_table d)) (\<lambda>t.
         Returns (Ok (d\<lparr> dec_table := t \<rparr>, buf))))"

text \<open>One round of the loop: the decoder, whether a size update may follow, the field handed to
  the caller and the bytes that remain.\<close>

definition decode_one ::
  "http_lib \<Rightarrow> hp_decoder \<Rightarrow> bool \<Rightarrow> octets \<Rightarrow> (hp_decoder \<times> bool \<times> header list \<times> octets, decoder_error) result outcome" where
  "decode_one lib d can_resize buf = (case representation_load (hd buf) of
     Inl e \<Rightarrow> Returns (Err e)
   | Inr Indexed \<Rightarrow>
       Returns (bind_result (decode_indexed d buf) (\<lambda>(entry, rest). Ok (d, False, [entry], rest)))
   | Inr LiteralWithIndexing \<Rightarrow>
       Returns (bind_result (decode_literal lib d True buf) (\<lambda>(entry, rest).
         Ok (d\<lparr> dec_table := table_insert entry (dec_table d) \<rparr>, False, [entry], rest)))
   | Inr LiteralWithoutIndexing \<Rightarrow>
       Returns (bind_result (decode_literal lib d False buf) (\<lambda>(entry, rest). Ok (d, False, [entry], rest)))
   | Inr LiteralNeverIndexed \<Rightarrow>
       Returns (bind_result (decode_literal lib d False buf) (\<lambda>(entry, rest). Ok (d, False, [entry], rest)))
   | Inr SizeUpdate \<Rightarrow>
       if \<not> can_resize then Returns (Err InvalidMaxDynamicSize)
       else bind_both (process_size_update d buf) (\<lambda>(d, rest). Returns (Ok (d, can_resize, [], rest))))"

section \<open>Every round takes bytes from the block\<close>

lemma decode_int_loop_suffix:
  "decode_int_loop bs ret shift n = Ok (v, rest) \<Longrightarrow> length rest < length bs"
  by (induction bs ret shift n rule: decode_int_loop.induct) (auto simp: Let_def intro!: less_SucI split: if_splits)

lemma decode_int_shorter: "decode_int p buf = Ok (v, rest) \<Longrightarrow> length rest < length buf"
  by (auto simp: decode_int_def Let_def split: if_splits list.splits dest: decode_int_loop_suffix)

lemma decode_string_shorter: "decode_string buf = Ok (s, rest) \<Longrightarrow> length rest < length buf"
  by (auto simp: decode_string_def bind_result_Inr_iff split: list.splits if_splits dest!: decode_int_shorter)

lemma decode_indexed_shorter: "decode_indexed d buf = Ok (h, rest) \<Longrightarrow> length rest < length buf"
  by (auto simp: decode_indexed_def bind_result_Inr_iff dest: decode_int_shorter)

lemma decode_literal_shorter: "decode_literal lib d index buf = Ok (h, rest) \<Longrightarrow> length rest < length buf"
  by (auto simp: decode_literal_def bind_result_Inr_iff split: if_splits
      dest!: decode_int_shorter decode_string_shorter)

lemma process_size_update_shorter:
  "process_size_update d buf = Returns (Ok (d', rest)) \<Longrightarrow> length rest < length buf"
  by (auto simp: process_size_update_def bind_outcome_Returns_iff split: sum.splits if_splits dest: decode_int_shorter)

lemma decode_one_shorter:
  "decode_one lib d can_resize buf = Returns (Ok (d', cr, hs, rest)) \<Longrightarrow> length rest < length buf"
  by (auto simp: decode_one_def bind_result_Inr_iff bind_both_Ok_iff split: sum.splits representation.splits if_splits
      dest: decode_indexed_shorter decode_literal_shorter process_size_update_shorter)

lemma bind_both_cong [fundef_cong]:
  "x = y \<Longrightarrow> (\<And>z. y = Returns (Inr z) \<Longrightarrow> f z = g z) \<Longrightarrow> bind_both x f = bind_both y g"
  by (auto simp: bind_both_def bind_outcome_def split: outcome.splits sum.splits)

function decode_loop ::
  "http_lib \<Rightarrow> hp_decoder \<Rightarrow> bool \<Rightarrow> octets \<Rightarrow> header list \<Rightarrow> (hp_decoder \<times> header list, decoder_error) result outcome" where
  "decode_loop lib d can_resize buf out =
    (if buf = [] then Returns (Ok (d, out))
     else bind_both (decode_one lib d can_resize buf) (\<lambda>(d, can_resize, hs, rest).
       decode_loop lib d can_resize rest (out @ hs)))"
  by pat_completeness auto
termination
  by (relation "measure (\<lambda>(lib, d, cr, buf, out). length buf)") (auto dest: decode_one_shorter)

declare decode_loop.simps [simp del]

definition hpack_decode :: "http_lib \<Rightarrow> hp_decoder \<Rightarrow> octets \<Rightarrow> (hp_decoder \<times> header list, decoder_error) result outcome" where
  "hpack_decode lib d src =
    (let d = (case dec_max_size_update d of
           Some sz \<Rightarrow> d\<lparr> dec_max_size_update := None, dec_last_max_update := sz \<rparr>
         | None \<Rightarrow> d)
     in decode_loop lib d True src [])"

section \<open>The table keeps within its limit\<close>

definition hp_table_good :: "hp_table \<Rightarrow> bool" where
  "hp_table_good t \<longleftrightarrow> tb_size t = sum_list (map header_len (tb_entries t)) \<and> tb_size t \<le> tb_max_size t"

definition with_entries :: "header list \<Rightarrow> hp_table \<Rightarrow> hp_table" where
  "with_entries es t = t\<lparr> tb_entries := es, tb_size := sum_list (map header_len es) \<rparr>"

lemma with_entries_same: "tb_size t = sum_list (map header_len (tb_entries t)) \<Longrightarrow> with_entries (tb_entries t) t = t"
  by (simp add: with_entries_def)

lemma table_pop_eq:
  assumes "tb_entries t \<noteq> []" "tb_size t = sum_list (map header_len (tb_entries t))"
  shows "table_pop t = with_entries (butlast (tb_entries t)) t"
  using assms by (cases "tb_entries t" rule: rev_cases) (simp_all add: table_pop_def with_entries_def)

lemma with_entries_simps [simp]:
  "tb_entries (with_entries es t) = es" "tb_size (with_entries es t) = sum_list (map header_len es)"
  "tb_max_size (with_entries es t) = tb_max_size t" "with_entries es (with_entries fs t) = with_entries es t"
  by (simp_all add: with_entries_def)

lemma consolidate_fit:
  "tb_size t = sum_list (map header_len (tb_entries t)) \<Longrightarrow>
    consolidate t = Returns (with_entries (fit header_len (tb_max_size t) (tb_entries t)) t)"
proof (induction t rule: consolidate.induct)
  case (1 t)
  show ?case
  proof (cases "tb_max_size t < tb_size t")
    case True
    then have ne: "tb_entries t \<noteq> []"
      using 1(2) by (metis list.simps(8) not_less_zero sum_list.Nil)
    show ?thesis
      using True ne 1 fit_butlast [OF ne, of "tb_max_size t" header_len]
      by (simp add: consolidate.simps [of t] table_pop_eq)
  next
    case False
    then show ?thesis
      using 1(2) by (simp add: consolidate.simps [of t] fit_all with_entries_same)
  qed
qed

lemma table_reserve_fit:
  "tb_size t = sum_list (map header_len (tb_entries t)) \<Longrightarrow>
    table_reserve sz t = with_entries (if sz \<le> tb_max_size t
      then fit header_len (tb_max_size t - sz) (tb_entries t) else []) t"
proof (induction sz t rule: table_reserve.induct)
  case (1 sz t)
  show ?case
  proof (cases "tb_max_size t < tb_size t + sz \<and> tb_entries t \<noteq> []")
    case True
    then have ne: "tb_entries t \<noteq> []" by simp
    show ?thesis
      using True 1 fit_butlast [OF ne, of "tb_max_size t - sz" header_len]
      by (cases "sz \<le> tb_max_size t")
        (simp_all add: table_reserve.simps [of sz t] table_pop_eq less_diff_conv2 del: le_diff_conv)
  next
    case False
    then show ?thesis
      using 1(2) with_entries_same [OF 1(2)]
      by (cases "tb_entries t = []") (auto simp: table_reserve.simps [of sz t] fit_all)
  qed
qed

lemma table_insert_fit:
  assumes "hp_table_good t"
  shows "table_insert h t = with_entries (fit header_len (tb_max_size t) (h # tb_entries t)) t"
proof -
  have sum: "sum_list (map header_len (fit header_len (tb_max_size t - header_len h) (tb_entries t))) \<le> tb_max_size t - header_len h"
    by (rule fit_sum)
  have r: "table_reserve (header_len h) t = with_entries (if header_len h \<le> tb_max_size t
      then fit header_len (tb_max_size t - header_len h) (tb_entries t) else []) t"
    using assms by (intro table_reserve_fit) (simp add: hp_table_good_def)
  show ?thesis
  proof (cases "header_len h \<le> tb_max_size t")
    case True
    then show ?thesis
      using sum by (simp add: table_insert_def r Let_def with_entries_def)
  next
    case False
    then show ?thesis
      by (simp add: table_insert_def r Let_def with_entries_def)
  qed
qed

lemma set_max_size_fit:
  "hp_table_good t \<Longrightarrow> set_max_size m t = Returns (with_entries (fit header_len m (tb_entries t)) (t\<lparr> tb_max_size := m \<rparr>))"
  by (simp add: set_max_size_def consolidate_fit hp_table_good_def)

definition resized :: "nat \<Rightarrow> hp_table \<Rightarrow> hp_table" where
  "resized m t = (case set_max_size m t of Returns t' \<Rightarrow> t' | Panics _ \<Rightarrow> t)"

interpretation stock: dynamic_table table_insert resized tb_entries tb_max_size header_len "\<lambda>_ h. h"
  hp_table_good "\<lambda>_. True" "\<lambda>_. True"
proof unfold_locales
  fix t :: hp_table and h m
  assume good: "hp_table_good t"
  note ins = table_insert_fit [OF good, of h] and res = set_max_size_fit [OF good, of m]
  show "tb_entries (table_insert h t) = fit header_len (tb_max_size t) (h # tb_entries t)"
    "tb_max_size (table_insert h t) = tb_max_size t"
    by (simp_all only: ins with_entries_simps)
  show "hp_table_good (table_insert h t)"
    unfolding ins hp_table_good_def with_entries_simps using fit_sum by blast
  show "tb_entries (resized m t) = fit header_len m (tb_entries t)" "tb_max_size (resized m t) = m"
    by (simp_all add: resized_def res)
  show "hp_table_good (resized m t)"
    using fit_sum by (simp add: resized_def res hp_table_good_def)
qed

end
