(* ===== verification/Hpack_Literal.thy ===== *)
theory Hpack_Literal
  imports Hpack_Transcode Hpack_Decoder
begin

text \<open>
  What the transcoder reads and writes, in terms of the decoder: the two readers of integers and
  strings agree, what the writer of the transcoder writes is read back by the decoder, and a
  literal that stands for a field is decoded to this field.
\<close>

section \<open>The first byte\<close>

lemma all_less_8: "(\<forall>n<8. P n) \<longleftrightarrow> P 0 \<and> P 1 \<and> P 2 \<and> P 3 \<and> P 4 \<and> P 5 \<and> P 6 \<and> P (7 :: nat)"
  by (simp add: eval_nat_numeral less_Suc_eq all_conj_distrib)

lemma u8_eq_iff: "(a :: u8) = b \<longleftrightarrow> (\<forall>n<8. bit a n = bit b n)"
  by (auto intro: bit_word_eqI)

lemma u8_and_tests:
  "(c :: u8) AND 0x80 = 0x80 \<longleftrightarrow> bit c 7" "c AND 0x80 \<noteq> 0 \<longleftrightarrow> bit c 7" "c AND 0x40 = 0x40 \<longleftrightarrow> bit c 6"
  "c AND 0x40 \<noteq> 0 \<longleftrightarrow> bit c 6" "c AND 0x10 \<noteq> 0 \<longleftrightarrow> bit c 4"
  "c AND 0xF0 = 0 \<longleftrightarrow> \<not> bit c 4 \<and> \<not> bit c 5 \<and> \<not> bit c 6 \<and> \<not> bit c 7"
  "c AND 0xF0 = 0x10 \<longleftrightarrow> bit c 4 \<and> \<not> bit c 5 \<and> \<not> bit c 6 \<and> \<not> bit c 7"
  "c AND 0xE0 = 0x20 \<longleftrightarrow> bit c 5 \<and> \<not> bit c 6 \<and> \<not> bit c 7"
  by (simp_all add: u8_eq_iff all_less_8 bit_and_iff)

lemma bit_nat_less: "(m :: nat) < 2 ^ p \<Longrightarrow> p \<le> n \<Longrightarrow> \<not> bit m n"
  by (metis bit_take_bit_iff not_le take_bit_nat_eq_self_iff)

lemma bit_first: "m < 2 ^ p \<Longrightarrow> p \<le> n \<Longrightarrow> n < 8 \<Longrightarrow> bit (fb OR of_nat m :: u8) n = bit fb n"
  by (simp add: bit_or_iff bit_of_nat_iff bit_nat_less)

lemma sink_int_first:
  obtains m tail where "m < 2 ^ p" "sink_int fb p v = (fb OR of_nat m) # tail"
proof (cases "v < 2 ^ p - 1")
  case True
  then show ?thesis
    using that [of v "[]"] by (simp add: sink_int_def push_bit_minus_1)
next
  case False
  then show ?thesis
    using that [of "2 ^ p - 1" "sink_int_loop (v - (2 ^ p - 1))"] by (simp add: sink_int_def push_bit_minus_1)
qed

lemma bit_hd_sink: "p \<le> n \<Longrightarrow> n < 8 \<Longrightarrow> bit (hd (sink_int fb p v)) n = bit fb n"
  by (rule sink_int_first [of p fb v]) (simp add: bit_first)

lemma sink_int_ne [simp]: "sink_int fb p v \<noteq> []"
  by (rule sink_int_first [of p fb v]) simp

lemma representation_load_bits:
  "representation_load c =
    (if bit c 7 then Ok Indexed else if bit c 6 then Ok LiteralWithIndexing
     else if bit c 5 then Ok SizeUpdate else if bit c 4 then Ok LiteralNeverIndexed
     else Ok LiteralWithoutIndexing)"
  by (auto simp: representation_load_def u8_and_tests)

lemma representation_load_sink:
  "representation_load (hd (sink_int 0x80 7 v)) = Ok Indexed"
  "representation_load (hd (sink_int 0x40 6 v)) = Ok LiteralWithIndexing"
  "representation_load (hd (sink_int 0x20 5 v)) = Ok SizeUpdate"
  "representation_load (hd (sink_int 0x10 4 v)) = Ok LiteralNeverIndexed"
  "representation_load (hd (sink_int 0 4 v)) = Ok LiteralWithoutIndexing"
  by (simp_all add: representation_load_bits bit_hd_sink)

section \<open>Strings\<close>

definition str_of :: "bool \<Rightarrow> octets \<Rightarrow> (octets, decoder_error) result" where
  "str_of huff s = (if huff then huff_decode s else Ok s)"

lemma decode_str_of: "str_of huff s = Ok d \<Longrightarrow> decode_str huff s = Ok d"
  by (auto simp: str_of_def decode_str_def split: if_splits)

lemma read_str_of_decode_string:
  assumes "decode_string (drop i b) = Ok (s, rest)"
  obtains huff s0 s1 where "read_str b i = Ok (huff, s0, s1)" "str_of huff (slice s0 s1 b) = Ok s"
    "rest = drop s1 b" "i < s0" "s0 \<le> s1" "s1 \<le> length b"
proof -
  obtain c tail where c: "drop i b = c # tail"
    using assms by (auto simp: decode_string_def split: list.splits)
  then have get: "slice_get b i = Some c"
    by (metis drop_eq_Nil hd_drop_conv_nth list.distinct(1) list.sel(1) not_le slice_get_def)
  obtain len buf where len: "decode_int 7 (drop i b) = Ok (len, buf)" "len \<le> length buf"
    and s: "str_of (c AND 128 \<noteq> 0) (take len buf) = Ok s" "rest = drop len buf"
    using assms by (auto simp: decode_string_def c bind_result_Inr_iff str_of_def u8_and_tests split: if_splits)
  obtain j where j: "varint b i 7 = Ok (len, j)" "buf = drop j b" "i < j" "j \<le> length b"
    using varint_of_decode_int [OF len(1)] by auto
  show ?thesis
    using that [of "c AND 128 \<noteq> 0" j "j + len"] get len s j
    by (simp add: read_str_def slice_def add.commute)
qed

lemma decode_string_sink:
  assumes "str_of huff s = Ok v" "length s < 2 ^ 28"
  shows "decode_string (sink_str huff s @ rest) = Ok (v, rest)"
proof -
  let ?fb = "if huff then 0x80 else 0 :: u8"
  have "decode_int 7 (sink_int ?fb 7 (length s) @ s @ rest) = Ok (length s, s @ rest)"
    using assms(2) by (intro decode_int_sink) auto
  moreover have "(hd (sink_int ?fb 7 (length s)) AND 128 = 128) = huff"
    by (simp add: u8_and_tests bit_hd_sink)
  moreover obtain c tail where "sink_int ?fb 7 (length s) = c # tail"
    by (meson sink_int_first)
  ultimately show ?thesis
    using assms by (cases huff) (simp_all add: sink_str_def decode_string_def str_of_def)
qed

text \<open>A nibble gives at most one byte.\<close>

lemma huff_decode_loop_length:
  "huff_decode_loop src d buf = Ok (out, d') \<Longrightarrow> length out \<le> length buf + 2 * length src"
proof (induction src d buf rule: huff_decode_loop.induct)
  case (2 b src d buf)
  from 2(2) obtain hi d1 lo d2 where "decode4 d (unat (drop_bit 4 b)) = Ok (hi, d1)" "decode4 d1 (unat (b AND 0xF)) = Ok (lo, d2)"
    and rec: "huff_decode_loop src d2 (buf @ option_list hi @ option_list lo) = Ok (out, d')"
    by (auto simp: bind_result_Inr_iff)
  then have "length out \<le> length (buf @ option_list hi @ option_list lo) + 2 * length src"
    using 2(1) by blast
  moreover have "length (option_list hi) \<le> 1" "length (option_list lo) \<le> 1"
    by (simp_all add: option_list_def split: option.splits)
  ultimately show ?case
    by simp
qed simp

lemma str_of_length: "str_of huff s = Ok d \<Longrightarrow> length d \<le> 2 * length s"
  by (auto simp: str_of_def huff_decode_def bind_result_Inr_iff split: if_splits dest!: huff_decode_loop_length)

section \<open>Literals\<close>

definition hname :: "header \<Rightarrow> octets" where
  "hname h = name_as_slice (header_name h)"

definition stands_for_name :: "http_lib \<Rightarrow> nat \<Rightarrow> bool \<Rightarrow> octets \<Rightarrow> header_field_name \<Rightarrow> bool" where
  "stands_for_name lib ns huff enc nm =
    (if ns \<noteq> 0 then ns \<le> 61 \<and> enc = [] \<and> map_option header_name (get_static ns) = Some nm
     else case str_of huff enc of Inl _ \<Rightarrow> False | Inr n \<Rightarrow> name_of lib n = Some nm)"

definition literal_of :: "http_lib \<Rightarrow> nat \<Rightarrow> bool \<Rightarrow> octets \<Rightarrow> bool \<Rightarrow> octets \<Rightarrow> header \<Rightarrow> bool" where
  "literal_of lib ns nh nenc vh venc h \<longleftrightarrow> stands_for_name lib ns nh nenc (header_name h)
     \<and> str_of vh venc = Ok (value_slice h) \<and> into_entry lib (header_name h) (value_slice h) = Ok h
     \<and> length nenc < 2 ^ 28 \<and> length venc < 2 ^ 28"

lemma literal_ofI:
  "stands_for_name lib ns nh nenc nm \<Longrightarrow> str_of vh venc = Ok v \<Longrightarrow> into_entry lib nm v = Ok h \<Longrightarrow>
    length nenc < 2 ^ 28 \<Longrightarrow> length venc < 2 ^ 28 \<Longrightarrow> literal_of lib ns nh nenc vh venc h"
  using into_entry_OkD [of lib nm v h] by (simp add: literal_of_def)

lemma header_len_literal:
  "http_lib_laws lib \<Longrightarrow> literal_of lib ns nh nenc vh venc h \<Longrightarrow> header_len h = 32 + length (hname h) + length (value_slice h)"
  using into_entry_len [of lib "header_name h" "value_slice h" h] by (simp add: literal_of_def hname_def)

lemma stands_for_name_length:
  assumes "stands_for_name lib ns huff enc nm"
  shows "length (name_as_slice nm) \<le> 27 \<or> length (name_as_slice nm) \<le> 2 * length enc"
proof (cases "ns = 0")
  case True
  then show ?thesis
    using assms by (auto simp: stands_for_name_def split: sum.splits dest!: name_of_slice str_of_length)
next
  case False
  then have ns: "1 \<le> ns" "ns \<le> 61" and nm: "map_option header_name (get_static ns) = Some nm"
    using assms by (simp_all add: stands_for_name_def)
  have "list_all (\<lambda>n. n \<le> 27) STATIC_NAME_LEN" "length STATIC_NAME_LEN = 62"
    by (simp_all add: STATIC_NAME_LEN_def)
  then have "STATIC_NAME_LEN ! ns \<le> 27"
    using ns by (simp add: list_all_length)
  then show ?thesis
    using nm by (auto intro: static_agreesD [OF ns])
qed

lemma decode_literal_sink:
  assumes lit: "literal_of lib ns nh nenc vh venc h" and p: "p = (if index then 6 else 4)"
    and fb: "unat fb mod 2 ^ p = 0"
  shows "decode_literal lib d index (sink_name fb p ns nh nenc @ sink_str vh venc @ rest) = Ok (h, rest)"
proof (cases "ns = 0")
  case True
  have "decode_int p (sink_int fb p 0 @ sink_str nh nenc @ sink_str vh venc @ rest)
      = Ok (0, sink_str nh nenc @ sink_str vh venc @ rest)"
    using fb by (intro decode_int_sink) (auto simp: p)
  moreover obtain n where "str_of nh nenc = Ok n" "name_of lib n = Some (header_name h)"
    using lit True by (auto simp: literal_of_def stands_for_name_def split: sum.splits)
  moreover from this have "header_new lib n (value_slice h) = Ok h"
    using lit by (auto simp: header_new_Ok_iff literal_of_def)
  ultimately show ?thesis
    using lit True by (simp add: sink_name_def decode_literal_def decode_string_sink literal_of_def p)
next
  case False
  then obtain e where e: "ns \<le> 61" "get_static ns = Some e" "header_name e = header_name h"
    using lit by (auto simp: literal_of_def stands_for_name_def)
  moreover have "decode_int p (sink_int fb p ns @ sink_str vh venc @ rest) = Ok (ns, sink_str vh venc @ rest)"
    using fb e(1) by (intro decode_int_sink) (auto simp: p)
  ultimately show ?thesis
    using lit False
    by (simp add: sink_name_def decode_literal_def decode_string_sink literal_of_def table_get_def p)
qed

lemma sink_name_ne [simp]: "sink_name fb p ns nh nenc \<noteq> []"
  by (simp add: sink_name_def)

lemma hd_sink_name: "hd (sink_name fb p ns nh nenc) = hd (sink_int fb p ns)"
  by (auto simp: sink_name_def)

lemma decode_literal_with_indexing:
  assumes "literal_of lib ns nh nenc vh venc h"
  shows "decode_one lib d cr (sink_name 0x40 6 ns nh nenc @ sink_str vh venc @ rest) =
    Returns (Ok (d\<lparr> dec_table := table_insert h (dec_table d) \<rparr>, False, [h], rest))"
  using decode_literal_sink [OF assms, of 6 True "0x40"]
  by (simp add: decode_one_def hd_sink_name representation_load_sink)

lemma decode_literal_not_indexed:
  assumes "literal_of lib ns nh nenc vh venc h" "fb \<in> {0, 0x10}"
  shows "decode_one lib d cr (sink_name fb 4 ns nh nenc @ sink_str vh venc @ rest) = Returns (Ok (d, False, [h], rest))"
  using decode_literal_sink [OF assms(1), of 4 False fb] assms(2)
  by (auto simp: decode_one_def hd_sink_name representation_load_sink)

lemma decode_indexed_sink:
  assumes "table_get (dec_table d) j = Ok h" "j < 2 ^ 28"
  shows "decode_one lib d cr (sink_int 0x80 7 j @ rest) = Returns (Ok (d, False, [h], rest))"
  using assms decode_int_sink [of 7 "0x80" j rest]
  by (simp add: decode_one_def decode_indexed_def representation_load_sink)

lemma decode_size_update_sink:
  assumes "m \<le> dec_last_max_update d" "m < 2 ^ 28" "hp_table_good (dec_table d)"
  shows "decode_one lib d True (sink_int 0x20 5 m @ rest) =
    Returns (Ok (d\<lparr> dec_table := resized m (dec_table d) \<rparr>, True, [], rest))"
  using assms decode_int_sink [of 5 "0x20" m rest]
  by (simp add: decode_one_def process_size_update_def representation_load_sink resized_def set_max_size_fit)

end
