(* ===== verification/Hpack_Walk.thy ===== *)
theory Hpack_Walk
  imports Hpack_Literal
begin

text \<open>
  The walk of the transcoder over a header block, against the decoder: whenever the decoder
  accepts a block, the walk accepts it, the mirror and the table of the decoder hold the same
  fields afterwards, the representations of the walk stand for the fields that were decoded, and
  the fields for the policy are those that were decoded.

  A history is the field that was inserted under every insertion number of every mirror.
\<close>

type_synonym history = "nat \<times> nat \<Rightarrow> header option"

section \<open>Tables that hold the same fields\<close>

definition tag_for :: "needed_set option \<Rightarrow> octets \<Rightarrow> nat" where
  "tag_for needed n = (case needed of None \<Rightarrow> 0 | Some s \<Rightarrow> tag_of s n)"

definition hkind :: "header \<Rightarrow> kind" where
  "hkind h = kind_of_name (hname h)"

definition wanted :: "needed_set option \<Rightarrow> header \<Rightarrow> bool" where
  "wanted needed h \<longleftrightarrow> hkind h \<noteq> Kind_None \<or> is_needed (tag_for needed (hname h))"

definition copies :: "http_lib \<Rightarrow> insertion \<Rightarrow> header \<Rightarrow> bool" where
  "copies lib ins h \<longleftrightarrow>
     literal_of lib (ins_name_static ins) (ins_name_huff ins) (ins_name_enc ins) (ins_val_huff ins) (ins_val_enc ins) h
     \<and> ins_name_dec_len ins = length (hname h) \<and> ins_val_dec_len ins = length (value_slice h)"

definition mirrors :: "http_lib \<Rightarrow> needed_set option \<Rightarrow> insertion \<Rightarrow> header \<Rightarrow> bool" where
  "mirrors lib needed ins h \<longleftrightarrow> copies lib ins h \<and> ins_kind ins = hkind h \<and> ins_tag ins = tag_for needed (hname h)
     \<and> ins_val_dec ins = (if wanted needed h then Some (value_slice h) else None)"

definition needed_ok :: "needed_set option \<Rightarrow> bool" where
  "needed_ok needed \<longleftrightarrow> (\<forall>n. needed = Some n \<longrightarrow>
     (\<forall>idx \<in> {1..61}. \<forall>h. get_static idx = Some h \<longrightarrow> tag_of_static n idx = tag_of n (hname h)))"

definition mirror_rel :: "http_lib \<Rightarrow> history \<Rightarrow> mirror_table \<Rightarrow> hp_table \<Rightarrow> bool" where
  "mirror_rel lib hist m d \<longleftrightarrow> table_good (mt_table m) \<and> hp_table_good d \<and> tab_max (mt_table m) = tb_max_size d
     \<and> needed_ok (mt_needed m)
     \<and> list_all2 (\<lambda>(s, ins) h. mirrors lib (mt_needed m) ins h \<and> hist (tab_tid (mt_table m), s) = Some h)
         (table_view (mt_table m)) (tb_entries d)
     \<and> (\<forall>s. hist (tab_tid (mt_table m), s) \<noteq> None \<longrightarrow> s < tab_inserts (mt_table m))"

lemma needed_ok_with_options: "needed_ok (Some (needed_with_options ns trust))"
  by (auto simp: needed_ok_def tag_of_static_def tag_of_def needed_with_options_def Let_def hname_def nth_Cons'
      upt_conv_Cons [of 1] simp del: upt_Suc)

interpretation pair: dynamic_table_pair "\<lambda>ins t. snd (table_ins ins t)" set_max table_view tab_max view_size
  "\<lambda>t ins. (tab_inserts t, ins)" table_good ins_ok "\<lambda>m. m < 2 ^ 32"
  table_insert resized tb_entries tb_max_size header_len "\<lambda>_ h. h" hp_table_good "\<lambda>_. True" "\<lambda>_. True" ..

lemma copies_len: "http_lib_laws lib \<Longrightarrow> copies lib ins h \<Longrightarrow> view_size (s, ins) = header_len h"
  using header_len_literal by (fastforce simp: copies_def view_size_def)

lemma copies_ok: "copies lib ins h \<Longrightarrow> length (ins_name_enc ins) < 2 ^ 28 \<and> length (ins_val_enc ins) < 2 ^ 28
    \<and> length (value_slice h) < 2 ^ 29"
  using str_of_length by (fastforce simp: copies_def literal_of_def)

lemma mirrors_ok: "mirrors lib needed ins h \<Longrightarrow> ins_ok ins"
  using copies_ok [of lib ins h] by (auto simp: mirrors_def ins_ok_def u32_max_def split: if_splits)

lemma mirror_rel_insert:
  assumes "http_lib_laws lib" "mirror_rel lib hist m d" "mirrors lib (mt_needed m) ins h"
  shows "mirror_rel lib (hist((tab_tid (mt_table m), tab_inserts (mt_table m)) \<mapsto> h))
    (m\<lparr> mt_table := snd (table_ins ins (mt_table m)) \<rparr>) (table_insert h d)"
proof -
  let ?t = "mt_table m"
  let ?hist = "hist((tab_tid ?t, tab_inserts ?t) \<mapsto> h)"
  let ?R = "\<lambda>(s, ins) h. mirrors lib (mt_needed m) ins h \<and> ?hist (tab_tid ?t, s) = Some h"
  have rel: "table_good ?t" "hp_table_good d" "tab_max ?t = tb_max_size d" "ins_ok ins"
    and fresh: "hist (tab_tid ?t, tab_inserts ?t) = None"
    using assms mirrors_ok by (auto simp: mirror_rel_def)
  have "list_all2 ?R (table_view ?t) (tb_entries d)"
    using assms(2) fresh by (auto simp: mirror_rel_def elim!: list_all2_mono)
  then have "list_all2 ?R (table_view (snd (table_ins ins ?t))) (tb_entries (table_insert h d))"
    using rel assms by (intro pair.related_ins) (auto simp: mirrors_def intro: copies_len)
  then show ?thesis
    using assms(2) rel table_ins_spec [OF rel(1,4)] stock.limit_ins stock.good_ins
    by (auto simp: mirror_rel_def less_Suc_eq)
qed

lemma mirror_rel_resize:
  assumes "http_lib_laws lib" "mirror_rel lib hist m d" "mx < 2 ^ 32"
  shows "mirror_rel lib hist (m\<lparr> mt_table := set_max mx (mt_table m) \<rparr>) (resized mx d)"
proof -
  let ?t = "mt_table m"
  let ?R = "\<lambda>(s, ins) h. mirrors lib (mt_needed m) ins h \<and> hist (tab_tid ?t, s) = Some h"
  have "list_all2 ?R (table_view (set_max mx ?t)) (tb_entries (resized mx d))"
    using assms by (intro pair.related_resize) (auto simp: mirror_rel_def mirrors_def intro: copies_len)
  then show ?thesis
    using assms set_max_spec [of ?t mx] stock.limit_resize stock.good_resize by (simp add: mirror_rel_def)
qed

lemma mirror_rel_lookup:
  assumes "mirror_rel lib hist m d" "table_get d idx = Ok h" "61 < idx"
  obtains e where "get_entry (mt_table m) idx = Some e" "e \<in> set (tab_entries (mt_table m))"
    "mirrors lib (mt_needed m) (entry_ins (tab_arena (mt_table m)) e) h"
    "hist (tab_tid (mt_table m), en_serial e) = Some h"
proof -
  have h: "idx - 62 < length (tb_entries d)" "h = tb_entries d ! (idx - 62)"
    using assms(2,3) by (auto simp: table_get_def slice_get_def split: if_splits)
  have all: "list_all2 (\<lambda>(s, ins) h. mirrors lib (mt_needed m) ins h \<and> hist (tab_tid (mt_table m), s) = Some h)
      (table_view (mt_table m)) (tb_entries d)"
    using assms(1) by (simp add: mirror_rel_def)
  then have len: "length (tab_entries (mt_table m)) = length (tb_entries d)"
    using list_all2_lengthD by fastforce
  show ?thesis
    using that [of "tab_entries (mt_table m) ! (idx - 62)"] list_all2_nthD2 [OF all h(1)] h len assms(3)
    by (simp add: get_entry_def slice_get_def table_view_def)
qed

section \<open>Representations that stand for a field\<close>

definition rep_in :: "nat \<Rightarrow> rep \<Rightarrow> bool" where
  "rep_in n r \<longleftrightarrow> rp_name_off r + rp_name_len r \<le> n \<and> rp_val_off r + rp_val_len r \<le> n
     \<and> rp_dec_off r + rp_dec_len r \<le> n"

definition rep_literal :: "http_lib \<Rightarrow> octets \<Rightarrow> rep \<Rightarrow> header \<Rightarrow> bool" where
  "rep_literal lib bytes r h \<longleftrightarrow>
     literal_of lib (rp_name_static r) (rp_name_huff r) (rep_name r bytes) (rp_val_huff r) (rep_val r bytes) h"

definition rep_sized :: "rep \<Rightarrow> header \<Rightarrow> bool" where
  "rep_sized r h \<longleftrightarrow> rp_name_dec_len r = length (hname h) \<and> rp_val_dec_len r = length (value_slice h)"

definition rep_for :: "http_lib \<Rightarrow> needed_set option \<Rightarrow> history \<Rightarrow> nat \<Rightarrow> octets \<Rightarrow> rep \<Rightarrow> header \<Rightarrow> bool" where
  "rep_for lib needed hist tid bytes r h \<longleftrightarrow> rep_in (length bytes) r
     \<and> rp_hkind r = hkind h \<and> rp_tag r = tag_for needed (hname h)
     \<and> (wanted needed h \<longrightarrow> rep_dec r bytes = Some (value_slice h))
     \<and> (case rp_kind r of
          Rep_Static \<Rightarrow> 1 \<le> rp_num r \<and> rp_num r \<le> 61 \<and> get_static (rp_num r) = Some h
        | Rep_Dynamic \<Rightarrow> rep_literal lib bytes r h \<and> rep_sized r h \<and> hist (tid, rp_num r) = Some h
        | Rep_Insert \<Rightarrow> rep_literal lib bytes r h \<and> rep_sized r h
            \<and> (rp_num r \<noteq> NO_NUM \<longrightarrow> hist (tid, rp_num r) = Some h)
        | Rep_SizeUpdate \<Rightarrow> False
        | _ \<Rightarrow> rep_literal lib bytes r h)"

definition reps_for :: "http_lib \<Rightarrow> needed_set option \<Rightarrow> history \<Rightarrow> nat \<Rightarrow> octets \<Rightarrow> rep list \<Rightarrow> header list \<Rightarrow> bool" where
  "reps_for lib needed hist tid bytes rs hs \<longleftrightarrow>
     list_all2 (rep_for lib needed hist tid bytes) (filter (\<lambda>r. \<not> is_size_update r) rs) hs"

lemma slice_append: "j \<le> length xs \<Longrightarrow> slice i j (xs @ ys) = slice i j xs"
  by (simp add: slice_def)

lemma rep_for_mono:
  assumes "rep_for lib needed hist tid bytes r h" "hist \<subseteq>\<^sub>m hist'" "length (bytes @ x) < 2 ^ 32"
  shows "rep_for lib needed hist' tid (bytes @ x) r h"
proof -
  have "rep_in (length bytes) r"
    using assms(1) by (simp add: rep_for_def)
  then have "rep_name r (bytes @ x) = rep_name r bytes" "rep_val r (bytes @ x) = rep_val r bytes"
    "rep_dec r (bytes @ x) = rep_dec r bytes" "rep_in (length (bytes @ x)) r"
    using assms(3) by (auto simp: rep_in_def rep_name_def rep_val_def rep_dec_def intro!: slice_append)
  moreover have "hist (tid, rp_num r) = Some h \<Longrightarrow> hist' (tid, rp_num r) = Some h"
    using assms(2) by (metis domI map_le_def)
  ultimately show ?thesis
    using assms(1) by (auto simp: rep_for_def rep_literal_def split: rep_kind.splits)
qed

lemma reps_for_mono:
  "reps_for lib needed hist tid bytes rs hs \<Longrightarrow> hist \<subseteq>\<^sub>m hist' \<Longrightarrow> length (bytes @ x) < 2 ^ 32 \<Longrightarrow>
    reps_for lib needed hist' tid (bytes @ x) rs hs"
  unfolding reps_for_def by (erule list_all2_mono) (rule rep_for_mono)

lemma reps_for_append:
  "reps_for lib needed hist tid bytes rs hs \<Longrightarrow> reps_for lib needed hist tid bytes rs' hs' \<Longrightarrow>
    reps_for lib needed hist tid bytes (rs @ rs') (hs @ hs')"
  unfolding reps_for_def by (simp add: list_all2_appendI)

section \<open>What a part of a walk does\<close>

definition deliver_header :: "header \<Rightarrow> policy_fields \<Rightarrow> policy_fields" where
  "deliver_header h pf = (if hkind h \<noteq> Kind_None then policy_set (hkind h) (value_slice h) pf else pf)"

abbreviation walk_tid :: "walk \<Rightarrow> nat" where
  "walk_tid w \<equiv> tab_tid (mt_table (wk_mirror w))"

definition walks :: "http_lib \<Rightarrow> history \<Rightarrow> walk \<Rightarrow> header list \<Rightarrow> history \<Rightarrow> walk \<Rightarrow> bool" where
  "walks lib hist w hs hist' w' \<longleftrightarrow>
     hist \<subseteq>\<^sub>m hist' \<and> (\<forall>k. hist' k \<noteq> hist k \<longrightarrow> fst k = walk_tid w)
     \<and> walk_tid w' = walk_tid w \<and> mt_needed (wk_mirror w') = mt_needed (wk_mirror w)
     \<and> wk_policy w' = map_option (fold deliver_header hs) (wk_policy w)
     \<and> (\<exists>x rs. rb_bytes (wk_buf w') = rb_bytes (wk_buf w) @ x \<and> rb_reps (wk_buf w') = rb_reps (wk_buf w) @ rs
          \<and> (length (rb_bytes (wk_buf w')) < 2 ^ 32 \<longrightarrow>
               reps_for lib (mt_needed (wk_mirror w)) hist' (walk_tid w) (rb_bytes (wk_buf w')) rs hs))"

lemma walks_refl: "walks lib hist w [] hist w"
  by (simp add: walks_def reps_for_def option.map_id0 [unfolded id_def] map_option_cong)

lemma walks_trans:
  assumes "walks lib hist w hs hist1 w1" "walks lib hist1 w1 hs' hist2 w2"
  shows "walks lib hist w (hs @ hs') hist2 w2"
proof -
  obtain x rs where 1: "rb_bytes (wk_buf w1) = rb_bytes (wk_buf w) @ x" "rb_reps (wk_buf w1) = rb_reps (wk_buf w) @ rs"
    and r1: "length (rb_bytes (wk_buf w1)) < 2 ^ 32 \<Longrightarrow>
      reps_for lib (mt_needed (wk_mirror w)) hist1 (walk_tid w) (rb_bytes (wk_buf w1)) rs hs"
    using assms(1) unfolding walks_def by blast
  obtain y rs' where 2: "rb_bytes (wk_buf w2) = rb_bytes (wk_buf w1) @ y" "rb_reps (wk_buf w2) = rb_reps (wk_buf w1) @ rs'"
    and r2: "length (rb_bytes (wk_buf w2)) < 2 ^ 32 \<Longrightarrow>
      reps_for lib (mt_needed (wk_mirror w1)) hist2 (walk_tid w1) (rb_bytes (wk_buf w2)) rs' hs'"
    using assms(2) unfolding walks_def by blast
  have c: "walk_tid w1 = walk_tid w" "mt_needed (wk_mirror w1) = mt_needed (wk_mirror w)" "hist1 \<subseteq>\<^sub>m hist2"
    using assms by (simp_all add: walks_def)
  have "reps_for lib (mt_needed (wk_mirror w)) hist2 (walk_tid w) (rb_bytes (wk_buf w2)) (rs @ rs') (hs @ hs')"
    if "length (rb_bytes (wk_buf w2)) < 2 ^ 32"
    using that r2 c 2 by (intro reps_for_append) (auto intro!: reps_for_mono [OF r1])
  then have "\<exists>z qs. rb_bytes (wk_buf w2) = rb_bytes (wk_buf w) @ z \<and> rb_reps (wk_buf w2) = rb_reps (wk_buf w) @ qs
      \<and> (length (rb_bytes (wk_buf w2)) < 2 ^ 32 \<longrightarrow>
           reps_for lib (mt_needed (wk_mirror w)) hist2 (walk_tid w) (rb_bytes (wk_buf w2)) qs (hs @ hs'))"
    using 1 2 by (intro exI [of _ "x @ y"] exI [of _ "rs @ rs'"]) simp
  moreover have "\<forall>k. hist2 k \<noteq> hist k \<longrightarrow> fst k = walk_tid w"
    using assms unfolding walks_def by metis
  ultimately show ?thesis
    using assms unfolding walks_def
    by (simp add: option.map_comp comp_def map_le_trans [of hist hist1 hist2])
qed

lemma walks_count: "walks lib hist (count_field w) hs hist' w' = walks lib hist w hs hist' w'"
  by (simp add: walks_def count_field_def)

lemma walks_at: "walks lib hist (w\<lparr> wk_i := i \<rparr>) hs hist' w' = walks lib hist w hs hist' w'"
  by (simp add: walks_def)

lemma deliver_simps [simp]:
  "wk_buf (deliver k v w) = wk_buf w" "wk_mirror (deliver k v w) = wk_mirror w" "wk_stats (deliver k v w) = wk_stats w"
  by (simp_all add: deliver_def)

lemma deliver_policy:
  "k = hkind h \<Longrightarrow> (k \<noteq> Kind_None \<Longrightarrow> v = Some (value_slice h)) \<Longrightarrow>
    wk_policy (deliver k v w) = map_option (deliver_header h) (wk_policy w)"
  by (auto simp: deliver_def deliver_header_def split: option.splits)

lemma walksI:
  assumes "hist \<subseteq>\<^sub>m hist'" "\<And>k. hist' k \<noteq> hist k \<Longrightarrow> fst k = walk_tid w" "walk_tid w' = walk_tid w"
    "mt_needed (wk_mirror w') = mt_needed (wk_mirror w)" "wk_policy w' = map_option (deliver_header h) (wk_policy w)"
    "wk_buf w' = push_rep r ((wk_buf w)\<lparr> rb_bytes := rb_bytes (wk_buf w) @ x \<rparr>)" "rp_kind r \<noteq> Rep_SizeUpdate"
    "length (rb_bytes (wk_buf w) @ x) < 2 ^ 32 \<Longrightarrow>
      rep_for lib (mt_needed (wk_mirror w)) hist' (walk_tid w) (rb_bytes (wk_buf w) @ x) r h"
  shows "walks lib hist w [h] hist' w'"
  using assms by (auto simp: walks_def push_rep_def reps_for_def is_size_update_def intro!: option.map_cong)

section \<open>Indexed fields\<close>

lemma static_facts:
  assumes "1 \<le> idx" "idx \<le> 61" "get_static idx = Some h"
  shows "length (hname h) = STATIC_NAME_LEN ! idx" "value_slice h = static_field_value idx" "hkind h = kind_of_static idx"
    "hkind h \<noteq> Kind_None \<Longrightarrow> value_slice h = static_value idx"
proof -
  obtain h' where "get_static idx = Some h'" "length (name_as_slice (header_name h')) = STATIC_NAME_LEN ! idx"
    "value_slice h' = static_field_value idx" "kind_of_name (name_as_slice (header_name h')) = kind_of_static idx"
    using assms(1,2) by (rule static_agreesD)
  then show "length (hname h) = STATIC_NAME_LEN ! idx" "value_slice h = static_field_value idx" "hkind h = kind_of_static idx"
    using assms(3) by (simp_all add: hname_def hkind_def)
  then show "value_slice h = static_value idx" if "hkind h \<noteq> Kind_None"
    using that assms(1,2) by (auto simp: kind_of_static_def static_field_value_def split: if_splits)
qed

lemma static_tag_ok:
  "needed_ok (mt_needed (wk_mirror w)) \<Longrightarrow> 1 \<le> idx \<Longrightarrow> idx \<le> 61 \<Longrightarrow> get_static idx = Some h \<Longrightarrow>
    static_tag w idx = tag_for (mt_needed (wk_mirror w)) (hname h)"
  by (auto simp: static_tag_def tag_for_def needed_ok_def split: option.splits)

lemma parse_static_walks:
  assumes "1 \<le> idx" "idx \<le> 61" "get_static idx = Some h" "needed_ok (mt_needed (wk_mirror w))"
  shows "walks lib hist w [h] hist (parse_static idx w)" "wk_mirror (parse_static idx w) = wk_mirror w"
proof -
  note f = static_facts [OF assms(1-3)]
  define r where "r = \<lparr> rp_kind = Rep_Static, rp_hkind = kind_of_static idx, rp_name_huff = False,
      rp_val_huff = False, rp_has_dec = False, rp_name_static = idx, rp_tag = static_tag w idx, rp_name_off = 0,
      rp_name_len = 0, rp_val_off = 0, rp_val_len = 0, rp_dec_off = 0, rp_dec_len = 0,
      rp_name_dec_len = STATIC_NAME_LEN ! idx, rp_val_dec_len = length (static_field_value idx), rp_num = idx \<rparr>"
  have idx: "idx < 2 ^ 32"
    using assms(2) by simp
  have "rep_for lib (mt_needed (wk_mirror w)) hist (walk_tid w) (rb_bytes (wk_buf w) @ []) r h"
    using assms f idx by (simp add: r_def rep_for_def rep_in_def rep_dec_def static_tag_ok)
  moreover have "wk_buf (parse_static idx w) = push_rep r ((wk_buf w)\<lparr> rb_bytes := rb_bytes (wk_buf w) @ [] \<rparr>)"
    by (simp add: parse_static_def Let_def r_def static_tag_def)
  moreover have "wk_policy (parse_static idx w) = map_option (deliver_header h) (wk_policy w)"
    using f deliver_policy [of "kind_of_static idx" h "Some (static_value idx)"] by (simp add: parse_static_def Let_def)
  ultimately show "walks lib hist w [h] hist (parse_static idx w)"
    by (intro walksI [where r = r and x = "[]"]) (simp_all add: parse_static_def Let_def r_def)
  show "wk_mirror (parse_static idx w) = wk_mirror w"
    by (simp add: parse_static_def Let_def)
qed

lemma arena_get_split:
  "ar_base a \<le> pos \<Longrightarrow> arena_get a pos (m + n) = arena_get a pos m @ arena_get a (pos + m) n"
  by (simp add: arena_get_def slice_def Let_def take_add add.commute)

lemma entry_wire_eq: "in_arena a e \<Longrightarrow> entry_wire a e = name_enc a e @ val_enc a e"
  by (simp add: entry_wire_def name_enc_def val_enc_def in_arena_def arena_get_split)

lemma arena_get_length: "ar_base a \<le> pos \<Longrightarrow> pos + n \<le> arena_end a \<Longrightarrow> length (arena_get a pos n) = n"
  by (simp add: arena_get_def slice_def Let_def arena_end_def)

lemma entry_lengths:
  assumes "in_arena a e"
  shows "length (name_enc a e) = en_name_enc_len e" "length (val_enc a e) = en_val_enc_len e"
    "\<And>d. val_dec a e = Some d \<Longrightarrow> length d = en_dec_len e"
  using assms by (auto simp: name_enc_def val_enc_def val_dec_def in_arena_def entry_span_def has_dec_def
      intro!: arena_get_length split: if_splits)

lemma slice_middle: "slice (length xs) (length xs + length ys) (xs @ ys @ zs) = ys"
  by (simp add: slice_def)

lemma slice_middles:
  "slice (length xs + length ys) (length xs + length ys + length zs) (xs @ ys @ zs @ us) = zs"
  "slice (length xs + (length ys + length zs)) (length xs + (length ys + length zs) + length us) (xs @ ys @ zs @ us) = us"
  by (simp_all add: slice_def)

lemma parse_dynamic_walks:
  assumes "in_arena (tab_arena (mt_table (wk_mirror w))) e"
    "mirrors lib (mt_needed (wk_mirror w)) (entry_ins (tab_arena (mt_table (wk_mirror w))) e) h"
    "hist (walk_tid w, en_serial e) = Some h"
  shows "walks lib hist w [h] hist (parse_dynamic e w)" "wk_mirror (parse_dynamic e w) = wk_mirror w"
proof -
  define a where "a = tab_arena (mt_table (wk_mirror w))"
  define d where "d = (case val_dec a e of Some d \<Rightarrow> d | None \<Rightarrow> [])"
  define B where "B = rb_bytes (wk_buf w)"
  define off where "off = as_u32 (length B)"
  define r where "r = \<lparr> rp_kind = Rep_Dynamic, rp_hkind = en_kind e, rp_name_huff = en_name_huff e,
      rp_val_huff = en_val_huff e, rp_has_dec = has_dec e, rp_name_static = en_name_static e, rp_tag = en_tag e,
      rp_name_off = off, rp_name_len = en_name_enc_len e, rp_val_off = as_u32 (off + en_name_enc_len e),
      rp_val_len = en_val_enc_len e, rp_dec_off = as_u32 (off + as_u32 (en_name_enc_len e + en_val_enc_len e)),
      rp_dec_len = as_u32 (length d), rp_name_dec_len = en_name_dec_len e, rp_val_dec_len = en_val_dec_len e,
      rp_num = en_serial e \<rparr>"
  have in_a: "in_arena a e" and m: "mirrors lib (mt_needed (wk_mirror w)) (entry_ins a e) h"
    using assms by (simp_all add: a_def)
  note lens = entry_lengths [OF in_a]
  have dec: "wanted (mt_needed (wk_mirror w)) h \<Longrightarrow> val_dec a e = Some (value_slice h)"
    using m by (simp add: mirrors_def entry_ins_def)
  have "rep_for lib (mt_needed (wk_mirror w)) hist (walk_tid w) (B @ name_enc a e @ val_enc a e @ d) r h"
    if small: "length (B @ name_enc a e @ val_enc a e @ d) < 2 ^ 32"
  proof -
    have "as_u32 (length B) = length B" "as_u32 (length B + en_name_enc_len e) = length B + en_name_enc_len e"
      "as_u32 (en_name_enc_len e + en_val_enc_len e) = en_name_enc_len e + en_val_enc_len e"
      "as_u32 (length B + en_name_enc_len e + en_val_enc_len e) = length B + en_name_enc_len e + en_val_enc_len e"
      "as_u32 (length B + (en_name_enc_len e + en_val_enc_len e)) = length B + (en_name_enc_len e + en_val_enc_len e)"
      "as_u32 (length d) = length d"
      "as_u32 (length B + (en_name_enc_len e + en_val_enc_len e) + length d) = length B + (en_name_enc_len e + en_val_enc_len e) + length d"
      using small lens by (auto intro!: as_u32_small)
    then have "rep_name r (B @ name_enc a e @ val_enc a e @ d) = name_enc a e"
      "rep_val r (B @ name_enc a e @ val_enc a e @ d) = val_enc a e"
      "val_dec a e = Some (value_slice h) \<Longrightarrow> rep_dec r (B @ name_enc a e @ val_enc a e @ d) = Some (value_slice h)"
      "rep_in (length (B @ name_enc a e @ val_enc a e @ d)) r"
      using lens slice_middle [of B "name_enc a e"] slice_middles [of B "name_enc a e" "val_enc a e" d]
      by (auto simp: rep_name_def rep_val_def rep_dec_def rep_in_def r_def off_def d_def has_dec_def val_dec_def
          split: if_splits)
    then show ?thesis
      using m dec assms(3)
      by (simp add: rep_for_def r_def mirrors_def copies_def rep_literal_def rep_sized_def entry_ins_def)
  qed
  moreover have "wk_buf (parse_dynamic e w) = push_rep r ((wk_buf w)\<lparr> rb_bytes := B @ name_enc a e @ val_enc a e @ d \<rparr>)"
    using entry_wire_eq [OF in_a] by (simp add: parse_dynamic_def Let_def r_def a_def d_def B_def off_def)
  moreover have "wk_policy (parse_dynamic e w) = map_option (deliver_header h) (wk_policy w)"
    using m dec deliver_policy [of "en_kind e" h "val_dec a e"]
    by (simp add: parse_dynamic_def Let_def a_def mirrors_def entry_ins_def wanted_def)
  ultimately show "walks lib hist w [h] hist (parse_dynamic e w)"
    by (intro walksI [where r = r and x = "name_enc a e @ val_enc a e @ d"])
      (simp_all add: parse_dynamic_def Let_def r_def B_def)
  show "wk_mirror (parse_dynamic e w) = wk_mirror w"
    by (simp add: parse_dynamic_def Let_def)
qed

lemma entry_in_arena: "mirror_rel lib hist m d \<Longrightarrow> e \<in> set (tab_entries (mt_table m)) \<Longrightarrow> in_arena (tab_arena (mt_table m)) e"
  by (simp add: mirror_rel_def table_good_def entries_ok_def)

lemma parse_indexed_sim:
  assumes "mirror_rel lib hist (wk_mirror w) (dec_table d)" "decode_indexed d (drop (wk_i w) block) = Ok (h, rest)"
  obtains w' where "parse_indexed block w = Ok w'" "walks lib hist w [h] hist w'" "wk_mirror w' = wk_mirror w"
    "rest = drop (wk_i w') block" "wk_i w' \<le> length block"
proof -
  obtain idx where idx: "decode_int 7 (drop (wk_i w) block) = Ok (idx, rest)" "table_get (dec_table d) idx = Ok h"
    using assms(2) by (auto simp: decode_indexed_def bind_result_Inr_iff)
  obtain j where j: "varint block (wk_i w) 7 = Ok (idx, j)" "rest = drop j block" "j \<le> length block"
    using varint_of_decode_int [OF idx(1)] by auto
  let ?w = "w\<lparr> wk_i := j \<rparr>"
  show ?thesis
  proof (cases "idx \<le> 61")
    case True
    then have s: "1 \<le> idx" "get_static idx = Some h"
      using idx(2) by (auto simp: table_get_def ok_or_Inr_iff split: if_splits)
    have "needed_ok (mt_needed (wk_mirror ?w))"
      using assms(1) by (simp add: mirror_rel_def)
    note p = parse_static_walks [OF s(1) True s(2) this]
    show ?thesis
      using that [of "parse_static idx ?w"] p j s True
      by (simp add: parse_indexed_def Let_def walks_at)
  next
    case False
    then obtain e where e: "get_entry (mt_table (wk_mirror w)) idx = Some e" "e \<in> set (tab_entries (mt_table (wk_mirror w)))"
      "mirrors lib (mt_needed (wk_mirror w)) (entry_ins (tab_arena (mt_table (wk_mirror w))) e) h"
      "hist (walk_tid w, en_serial e) = Some h"
      using mirror_rel_lookup [OF assms(1) idx(2)] by auto
    have "in_arena (tab_arena (mt_table (wk_mirror w))) e"
      using assms(1) e(2) by (rule entry_in_arena)
    then have "walks lib hist ?w [h] hist (parse_dynamic e ?w)" "wk_mirror (parse_dynamic e ?w) = wk_mirror w"
      using e parse_dynamic_walks [of ?w e lib h hist] by simp_all
    then show ?thesis
      using that [of "parse_dynamic e ?w"] j e(1) False
      by (simp add: parse_indexed_def Let_def walks_at)
  qed
qed

section \<open>Size updates\<close>

lemma parse_size_update_sim:
  assumes "http_lib_laws lib" "mirror_rel lib hist (wk_mirror w) (dec_table d)" "dec_last_max_update d < 2 ^ 32"
    "process_size_update d (drop (wk_i w) block) = Returns (Ok (d', rest))"
  obtains w' where "parse_size_update block w = Ok w'" "walks lib hist w [] hist w'"
    "mirror_rel lib hist (wk_mirror w') (dec_table d')" "dec_last_max_update d' = dec_last_max_update d"
    "rest = drop (wk_i w') block" "wk_i w' \<le> length block"
proof -
  have good: "hp_table_good (dec_table d)" "table_good (mt_table (wk_mirror w))"
    using assms(2) by (simp_all add: mirror_rel_def)
  obtain mx where mx: "decode_int 5 (drop (wk_i w) block) = Ok (mx, rest)" "mx \<le> dec_last_max_update d"
    "d' = d\<lparr> dec_table := resized mx (dec_table d) \<rparr>"
    using assms(4) by (auto simp: process_size_update_def set_max_size_fit [OF good(1)] resized_def split: sum.splits if_splits)
  obtain j where j: "varint block (wk_i w) 5 = Ok (mx, j)" "rest = drop j block" "j \<le> length block"
    using varint_of_decode_int [OF mx(1)] by auto
  let ?m = "(wk_mirror w)\<lparr> mt_table := set_max mx (mt_table (wk_mirror w)) \<rparr>"
  obtain w' where w': "parse_size_update block w = Ok w'" "wk_i w' = j" "wk_mirror w' = ?m" "wk_policy w' = wk_policy w"
    "rb_bytes (wk_buf w') = rb_bytes (wk_buf w)" "\<exists>r. rb_reps (wk_buf w') = rb_reps (wk_buf w) @ [r] \<and> is_size_update r"
    using j by (auto simp: parse_size_update_def push_rep_def is_size_update_def Let_def)
  have "mirror_rel lib hist ?m (dec_table d')"
    using mirror_rel_resize [OF assms(1,2), of mx] mx assms(3) by simp
  moreover have "walks lib hist w [] hist w'"
    using w' set_max_spec(4) [OF good(2), of mx] mx(2) assms(3)
    by (auto simp: walks_def reps_for_def option.map_id)
  ultimately show ?thesis
    using that [of w'] w' j mx by simp
qed

section \<open>Literals\<close>

lemma decode_literal_parts:
  assumes "decode_literal lib d index buf = Ok (h, rest)"
  obtains idx b1 nm b2 v where "decode_int (if index then 6 else 4) buf = Ok (idx, b1)"
    "if idx = 0 then (\<exists>n. decode_string b1 = Ok (n, b2) \<and> name_of lib n = Some nm)
     else b2 = b1 \<and> (\<exists>e. table_get (dec_table d) idx = Ok e \<and> header_name e = nm)"
    "decode_string b2 = Ok (v, rest)" "into_entry lib nm v = Ok h"
proof -
  obtain idx b1 where 1: "decode_int (if index then 6 else 4) buf = Ok (idx, b1)"
    using assms by (auto simp: decode_literal_def bind_result_Inr_iff)
  show ?thesis
  proof (cases "idx = 0")
    case True
    then obtain n b2 v where "decode_string b1 = Ok (n, b2)" "decode_string b2 = Ok (v, rest)" "header_new lib n v = Ok h"
      using assms 1 by (auto simp: decode_literal_def bind_result_Inr_iff)
    then show ?thesis
      using that [of idx b1 b2 _ v] 1 True by (auto simp: header_new_Ok_iff)
  next
    case False
    then obtain e v where "table_get (dec_table d) idx = Ok e" "decode_string b1 = Ok (v, rest)"
      "into_entry lib (header_name e) v = Ok h"
      using assms 1 by (auto simp: decode_literal_def bind_result_Inr_iff)
    then show ?thesis
      using that [of idx b1 b1 "header_name e" v] 1 False by auto
  qed
qed

text \<open>The bytes of the name of a literal, and what the walk must know of it.\<close>

definition ln_enc :: "arena \<Rightarrow> octets \<Rightarrow> lit_name \<Rightarrow> octets" where
  "ln_enc a bytes ln = (case ln_from_mirror ln of
     Some ne \<Rightarrow> name_enc a ne
   | None \<Rightarrow> slice (ln_off ln) (ln_off ln + ln_len ln) bytes)"

definition lit_name_ok :: "http_lib \<Rightarrow> needed_set option \<Rightarrow> arena \<Rightarrow> octets \<Rightarrow> lit_name \<Rightarrow> header_field_name \<Rightarrow> bool" where
  "lit_name_ok lib needed a bytes ln nm \<longleftrightarrow>
     stands_for_name lib (ln_static ln) (ln_huff ln) (ln_enc a bytes ln) nm
     \<and> length (ln_enc a bytes ln) = ln_len ln \<and> ln_len ln < 2 ^ 28
     \<and> (ln_from_mirror ln = None \<longrightarrow> ln_off ln + ln_len ln \<le> length bytes)
     \<and> ln_dec_len ln = length (name_as_slice nm) \<and> ln_hkind ln = kind_of_name (name_as_slice nm)
     \<and> ln_tag ln = tag_for needed (name_as_slice nm)"

lemma parse_name_static:
  assumes "mirror_rel lib hist (wk_mirror w) d" "1 \<le> idx" "idx \<le> 61" "get_static idx = Some e"
  obtains ln where "parse_name b idx i w = Ok (ln, i)"
    "lit_name_ok lib (mt_needed (wk_mirror w)) (tab_arena (mt_table (wk_mirror w))) bytes ln (header_name e)"
proof -
  have "needed_ok (mt_needed (wk_mirror w))"
    using assms(1) by (simp add: mirror_rel_def)
  then show ?thesis
    using assms static_facts [OF assms(2-4)] static_tag_ok [of w idx e]
    by (intro that [of "\<lparr> ln_static = idx, ln_huff = False, ln_off = 0, ln_len = 0, ln_from_mirror = None,
          ln_dec_len = STATIC_NAME_LEN ! idx, ln_hkind = kind_of_static idx, ln_tag = static_tag w idx \<rparr>"])
      (auto simp: parse_name_def lit_name_ok_def ln_enc_def stands_for_name_def slice_def hname_def hkind_def)
qed

lemma parse_name_dynamic:
  assumes "mirror_rel lib hist (wk_mirror w) d" "61 < idx" "table_get d idx = Ok h"
  obtains ln where "parse_name b idx i w = Ok (ln, i)"
    "lit_name_ok lib (mt_needed (wk_mirror w)) (tab_arena (mt_table (wk_mirror w))) bytes ln (header_name h)"
proof -
  let ?a = "tab_arena (mt_table (wk_mirror w))"
  obtain e where e: "get_entry (mt_table (wk_mirror w)) idx = Some e" "e \<in> set (tab_entries (mt_table (wk_mirror w)))"
    "mirrors lib (mt_needed (wk_mirror w)) (entry_ins ?a e) h"
    using mirror_rel_lookup [OF assms(1,3,2)] by auto
  have lens: "length (name_enc ?a e) = en_name_enc_len e"
    using assms(1) e(2) by (intro entry_lengths entry_in_arena)
  have st: "stands_for_name lib (en_name_static e) (en_name_huff e) (name_enc ?a e) (header_name h)"
    using e(3) by (simp add: mirrors_def copies_def literal_of_def entry_ins_def)
  then have "en_name_static e \<noteq> 0 \<Longrightarrow> name_enc ?a e = []"
    by (simp add: stands_for_name_def)
  then show ?thesis
    using assms(2) e lens st
    by (intro that [of "\<lparr> ln_static = en_name_static e, ln_huff = en_name_huff e, ln_off = 0, ln_len = en_name_enc_len e,
          ln_from_mirror = (if en_name_static e = 0 then Some e else None),
          ln_dec_len = en_name_dec_len e, ln_hkind = en_kind e, ln_tag = en_tag e \<rparr>"])
      (auto simp: parse_name_def lit_name_ok_def ln_enc_def slice_def hname_def hkind_def mirrors_def copies_def
        literal_of_def entry_ins_def)
qed

lemma parse_name_literal:
  assumes "decode_string (drop i b) = Ok (n, rest)" "name_of lib n = Some nm" "bytes = b @ extra" "length b < 2 ^ 28"
  obtains ln j where "parse_name b 0 i w = Ok (ln, j)" "rest = drop j b" "j \<le> length b"
    "lit_name_ok lib (mt_needed (wk_mirror w)) a bytes ln nm"
proof -
  obtain huff s0 s1 where s: "read_str b i = Ok (huff, s0, s1)" "str_of huff (slice s0 s1 b) = Ok n"
    "rest = drop s1 b" "i < s0" "s0 \<le> s1" "s1 \<le> length b"
    using read_str_of_decode_string [OF assms(1)] .
  show ?thesis
    using that [of "\<lparr> ln_static = 0, ln_huff = huff, ln_off = s0, ln_len = s1 - s0, ln_from_mirror = None,
        ln_dec_len = length n, ln_hkind = kind_of_name n, ln_tag = name_tag w n \<rparr>" s1]
      s decode_str_of [OF s(2)] assms(2-) name_of_slice [OF assms(2)]
    by (auto simp: parse_name_def lit_name_ok_def ln_enc_def stands_for_name_def name_tag_def tag_for_def slice_append)
      (auto simp: slice_def)
qed

lemma parse_value_ok:
  assumes "str_of vh venc = Ok v"
  obtains n where "parse_value want ins vh venc = Ok (if want \<and> vh then Some v else None, n)"
    "want \<or> ins \<longrightarrow> n = length v" "n \<le> 2 * length venc"
  using assms str_of_length [OF assms]
  by (intro that [of "if want \<or> ins then length v else length venc"])
    (auto simp: parse_value_def str_of_def decoded_len_eq split: if_splits)

text \<open>The end of a literal, in the order the code has it.\<close>

definition lit_bytes :: "arena \<Rightarrow> lit_name \<Rightarrow> octets option \<Rightarrow> octets" where
  "lit_bytes a ln dec = (case ln_from_mirror ln of Some ne \<Rightarrow> name_enc a ne | None \<Rightarrow> []) @ (case dec of Some d \<Rightarrow> d | None \<Rightarrow> [])"

definition lit_off :: "octets \<Rightarrow> lit_name \<Rightarrow> nat" where
  "lit_off B ln = (case ln_from_mirror ln of Some _ \<Rightarrow> length B | None \<Rightarrow> ln_off ln)"

definition lit_dec :: "octets \<Rightarrow> arena \<Rightarrow> lit_name \<Rightarrow> nat \<Rightarrow> nat \<Rightarrow> octets option \<Rightarrow> nat \<times> nat" where
  "lit_dec B a ln v0 v1 dec = (case dec of
     Some d \<Rightarrow> (length (B @ (case ln_from_mirror ln of Some ne \<Rightarrow> name_enc a ne | None \<Rightarrow> [])), length d)
   | None \<Rightarrow> (v0, v1 - v0))"

definition lit_ins :: "octets \<Rightarrow> arena \<Rightarrow> lit_name \<Rightarrow> bool \<Rightarrow> octets \<Rightarrow> octets option \<Rightarrow> nat \<Rightarrow> insertion" where
  "lit_ins B a ln vh venc vdec n =
    \<lparr> ins_name_static = ln_static ln, ins_name_enc = ln_enc a B ln, ins_name_huff = ln_huff ln,
      ins_name_dec_len = ln_dec_len ln, ins_val_enc = venc, ins_val_huff = vh, ins_val_dec_len = n,
      ins_kind = ln_hkind ln, ins_tag = ln_tag ln, ins_val_dec = vdec, ins_src_tid = 0, ins_src_serial = 0 \<rparr>"

lemma lit_slices:
  assumes "lit_name_ok lib needed a B ln nm" "v0 \<le> v1" "v1 \<le> length B"
  shows "slice (lit_off B ln) (lit_off B ln + ln_len ln) (B @ lit_bytes a ln dec) = ln_enc a B ln"
    "slice v0 v1 (B @ lit_bytes a ln dec) = slice v0 v1 B"
    "lit_off B ln + ln_len ln \<le> length (B @ lit_bytes a ln dec)"
    "fst (lit_dec B a ln v0 v1 dec) + snd (lit_dec B a ln v0 v1 dec) \<le> length (B @ lit_bytes a ln dec)"
    "slice (fst (lit_dec B a ln v0 v1 dec)) (fst (lit_dec B a ln v0 v1 dec) + snd (lit_dec B a ln v0 v1 dec)) (B @ lit_bytes a ln dec)
      = (case dec of Some d \<Rightarrow> d | None \<Rightarrow> slice v0 v1 B)"
  using assms
  by (auto simp: lit_name_ok_def lit_off_def lit_bytes_def lit_dec_def ln_enc_def slice_append slice_middle split: option.splits)
    (auto simp: slice_def)

definition lit_rep :: "rep_kind \<Rightarrow> octets \<Rightarrow> arena \<Rightarrow> lit_name \<Rightarrow> bool \<Rightarrow> nat \<Rightarrow> nat \<Rightarrow> bool \<Rightarrow> octets option \<Rightarrow> nat \<Rightarrow> nat \<Rightarrow> rep" where
  "lit_rep kind B a ln vh v0 v1 want dec n num =
    \<lparr> rp_kind = kind, rp_hkind = ln_hkind ln, rp_name_huff = ln_huff ln, rp_val_huff = vh,
      rp_has_dec = want, rp_name_static = ln_static ln, rp_tag = ln_tag ln, rp_name_off = as_u32 (lit_off B ln),
      rp_name_len = as_u32 (ln_len ln), rp_val_off = as_u32 v0, rp_val_len = as_u32 (v1 - v0),
      rp_dec_off = as_u32 (fst (lit_dec B a ln v0 v1 dec)), rp_dec_len = as_u32 (snd (lit_dec B a ln v0 v1 dec)),
      rp_name_dec_len = as_u32 (ln_dec_len ln), rp_val_dec_len = as_u32 n, rp_num = num \<rparr>"

lemma finish_literal_eq:
  assumes ok: "lit_name_ok lib needed (tab_arena (mt_table (wk_mirror w))) (rb_bytes (wk_buf w)) ln nm"
    and v: "v0 \<le> v1" "v1 \<le> length (rb_bytes (wk_buf w))" "str_of vh (slice v0 v1 (rb_bytes (wk_buf w))) = Ok v"
    and dec: "dec = (if want \<and> vh then Some v else None)"
    and a: "a = tab_arena (mt_table (wk_mirror w))" and B: "B = rb_bytes (wk_buf w)"
    and vdec: "vdec = (if want then Some v else None)"
    and res: "res = table_ins (lit_ins B a ln vh (slice v0 v1 B) vdec n) (mt_table (wk_mirror w))"
  shows "finish_literal kind ln vh v0 v1 want dec n w =
    (deliver (ln_hkind ln) vdec w)\<lparr>
      wk_mirror := (wk_mirror w)\<lparr> mt_table := if kind = Rep_Insert then snd res else mt_table (wk_mirror w) \<rparr>,
      wk_buf := push_rep (lit_rep kind B a ln vh v0 v1 want dec n
          (if kind = Rep_Insert \<and> snd (fst res) then fst (fst res) else NO_NUM))
        ((wk_buf w)\<lparr> rb_bytes := B @ lit_bytes a ln dec \<rparr>) \<rparr>"
proof -
  note sl = lit_slices [OF ok v(1,2), of dec, folded a B]
  have name: "(case ln_from_mirror ln of Some ne \<Rightarrow> (length B, B @ name_enc a ne) | None \<Rightarrow> (ln_off ln, B))
      = (lit_off B ln, B @ (case ln_from_mirror ln of Some ne \<Rightarrow> name_enc a ne | None \<Rightarrow> []))"
    by (simp add: lit_off_def split: option.splits)
  have dec': "(case dec of Some d \<Rightarrow> (length (B @ x), length d, (B @ x) @ d) | None \<Rightarrow> (v0, v1 - v0, B @ x))
      = (fst (lit_dec B a ln v0 v1 dec), snd (lit_dec B a ln v0 v1 dec), B @ lit_bytes a ln dec)"
    if "x = (case ln_from_mirror ln of Some ne \<Rightarrow> name_enc a ne | None \<Rightarrow> [])" for x
    using that by (simp add: lit_dec_def lit_bytes_def split: option.splits)
  have "(case dec of Some d \<Rightarrow> d | None \<Rightarrow> slice v0 v1 B) = v" if want
    using that v(3) dec B by (auto simp: str_of_def split: if_splits)
  then have vdec': "(if want then Some (slice (fst (lit_dec B a ln v0 v1 dec)) (fst (lit_dec B a ln v0 v1 dec)
      + snd (lit_dec B a ln v0 v1 dec)) (B @ lit_bytes a ln dec)) else None) = vdec"
    using sl(5) vdec by simp
  obtain anum survived t where t: "res = ((anum, survived), t)"
    by (metis surj_pair)
  show ?thesis
    unfolding finish_literal_def Let_def a [symmetric] B [symmetric] name dec' [OF refl] prod.case vdec' sl(1,2)
    using res [symmetric, unfolded t lit_ins_def] by (simp add: t lit_rep_def)
qed

lemma lit_rep_access:
  assumes "lit_name_ok lib needed a B ln nm" "v0 \<le> v1" "v1 \<le> length B" "length (B @ lit_bytes a ln dec) < 2 ^ 32"
    and r: "r = lit_rep kind B a ln vh v0 v1 want dec n num" and B': "B' = B @ lit_bytes a ln dec"
  shows "rep_name r B' = ln_enc a B ln" "rep_val r B' = slice v0 v1 B" "rep_in (length B') r"
    "kind \<noteq> Rep_Static \<Longrightarrow> rep_dec r B' = (if want then Some (case dec of Some d \<Rightarrow> d | None \<Rightarrow> slice v0 v1 B) else None)"
proof -
  note sl = lit_slices [OF assms(1-3), of dec, folded B']
  let ?dec = "lit_dec B a ln v0 v1 dec"
  have u: "as_u32 x = x" if "x \<le> length B'" for x
    using that assms(4) B' by (intro as_u32_small) simp
  have v1: "v1 \<le> length B'"
    using assms(3) B' by simp
  have n: "as_u32 (lit_off B ln) = lit_off B ln" "as_u32 (ln_len ln) = ln_len ln"
      "as_u32 (lit_off B ln + ln_len ln) = lit_off B ln + ln_len ln"
    using sl(3) by (auto intro!: u)
  have v: "as_u32 v0 = v0" "as_u32 (v1 - v0) = v1 - v0" "as_u32 v1 = v1"
    using assms(2) v1 u [of v1] u [of v0] u [of "v1 - v0"] by simp_all
  have d: "as_u32 (fst ?dec) = fst ?dec" "as_u32 (snd ?dec) = snd ?dec" "as_u32 (fst ?dec + snd ?dec) = fst ?dec + snd ?dec"
    using sl(4) by (auto intro!: u)
  show "rep_name r B' = ln_enc a B ln" "rep_val r B' = slice v0 v1 B" "rep_in (length B') r"
    "kind \<noteq> Rep_Static \<Longrightarrow> rep_dec r B' = (if want then Some (case dec of Some d \<Rightarrow> d | None \<Rightarrow> slice v0 v1 B) else None)"
    using assms(2) v1 sl
    by (simp_all add: r lit_rep_def rep_name_def rep_val_def rep_in_def rep_dec_def n v d)
qed

lemma finish_literal_walks:
  assumes lib: "http_lib_laws lib" and rel: "mirror_rel lib hist (wk_mirror w) d"
    and ok: "lit_name_ok lib (mt_needed (wk_mirror w)) (tab_arena (mt_table (wk_mirror w))) (rb_bytes (wk_buf w)) ln nm"
    and v: "v0 \<le> v1" "v1 \<le> length (rb_bytes (wk_buf w))" "str_of vh (slice v0 v1 (rb_bytes (wk_buf w))) = Ok v"
    and small: "v1 - v0 < 2 ^ 28" and h: "into_entry lib nm v = Ok h"
    and want: "want = wanted (mt_needed (wk_mirror w)) h" and dec: "dec = (if want \<and> vh then Some v else None)"
    and n: "want \<or> kind = Rep_Insert \<Longrightarrow> n = length v" and kind: "kind \<in> {Rep_Insert, Rep_NoIndex, Rep_Never}"
    and w': "w' = finish_literal kind ln vh v0 v1 want dec n w"
  shows "\<exists>hist'. walks lib hist w [h] hist' w'
    \<and> mirror_rel lib hist' (wk_mirror w') (if kind = Rep_Insert then table_insert h d else d)"
proof -
  define a where "a = tab_arena (mt_table (wk_mirror w))"
  define B where "B = rb_bytes (wk_buf w)"
  define ins where "ins = lit_ins B a ln vh (slice v0 v1 B) (if want then Some v else None) n"
  define t where "t = mt_table (wk_mirror w)"
  define hist' where "hist' = (if kind = Rep_Insert then hist((tab_tid t, tab_inserts t) \<mapsto> h) else hist)"
  define num where "num = (if kind = Rep_Insert \<and> snd (fst (table_ins ins t)) then fst (fst (table_ins ins t)) else NO_NUM)"
  define r where "r = lit_rep kind B a ln vh v0 v1 want dec n num"
  have eq: "w' = (deliver (ln_hkind ln) (if want then Some v else None) w)\<lparr>
      wk_mirror := (wk_mirror w)\<lparr> mt_table := if kind = Rep_Insert then snd (table_ins ins t) else t \<rparr>,
      wk_buf := push_rep r ((wk_buf w)\<lparr> rb_bytes := B @ lit_bytes a ln dec \<rparr>) \<rparr>"
    unfolding w' by (subst finish_literal_eq [OF ok v dec refl refl refl refl]) (simp add: a_def B_def ins_def t_def r_def num_def)
  have nm: "header_name h = nm" "value_slice h = v"
    using into_entry_OkD [OF h] by simp_all
  have lit: "literal_of lib (ln_static ln) (ln_huff ln) (ln_enc a B ln) vh (slice v0 v1 B) h"
    using ok v h small by (intro literal_ofI [OF _ _ h]) (simp_all add: lit_name_ok_def a_def B_def slice_def)
  have len: "length nm' \<le> 27 \<or> length nm' < 2 ^ 29" if "nm' = name_as_slice nm" for nm'
    using stands_for_name_length [of lib "ln_static ln" "ln_huff ln" "ln_enc a B ln" nm] ok that
    by (auto simp: lit_name_ok_def a_def B_def)
  have mir: "mirrors lib (mt_needed (wk_mirror w)) ins h" if "kind = Rep_Insert"
    using that lit ok n want nm by (simp add: mirrors_def copies_def ins_def lit_ins_def lit_name_ok_def hname_def hkind_def)
  have good: "table_good t"
    using rel by (simp add: mirror_rel_def t_def)
  have tid: "tab_tid (if kind = Rep_Insert then snd (table_ins ins t) else t) = tab_tid t"
    using table_ins_spec(4) [OF good mirrors_ok [OF mir]] by simp
  have "rep_for lib (mt_needed (wk_mirror w)) hist' (walk_tid w) (B @ lit_bytes a ln dec) r h"
    if lt: "length (B @ lit_bytes a ln dec) < 2 ^ 32"
  proof -
    note acc = lit_rep_access [OF ok [folded a_def B_def] v(1,2) [folded B_def] lt r_def refl]
    have "wanted (mt_needed (wk_mirror w)) h \<Longrightarrow> rep_dec r (B @ lit_bytes a ln dec) = Some (value_slice h)"
      using acc(4) kind want dec v(3) nm by (auto simp: B_def str_of_def split: if_splits)
    moreover have "rep_sized r h" if "kind = Rep_Insert"
      using that n ok nm len [OF refl] str_of_length [OF v(3)] small
      by (auto simp: rep_sized_def r_def lit_rep_def lit_name_ok_def hname_def slice_def intro!: as_u32_small)
    moreover have "rp_num r \<noteq> NO_NUM \<Longrightarrow> kind = Rep_Insert \<and> hist' (walk_tid w, rp_num r) = Some h"
      using table_ins_spec(6) [OF good mirrors_ok [OF mir]]
      by (auto simp: r_def lit_rep_def num_def hist'_def t_def split: if_splits)
    ultimately show ?thesis
      using kind acc(1-3) lit ok nm
      by (auto simp: rep_for_def rep_literal_def r_def lit_rep_def lit_name_ok_def hname_def hkind_def)
  qed
  moreover have "hist \<subseteq>\<^sub>m hist'"
    using rel by (auto simp: hist'_def map_le_def mirror_rel_def t_def dom_def)
  moreover have "wk_policy w' = map_option (deliver_header h) (wk_policy w)"
    using deliver_policy [of "ln_hkind ln" h "if want then Some v else None" w] ok nm want
    by (simp add: eq lit_name_ok_def hkind_def hname_def wanted_def)
  ultimately have "walks lib hist w [h] hist' w'"
    using tid kind by (intro walksI [where r = r and x = "lit_bytes a ln dec"])
      (auto simp: eq hist'_def t_def B_def r_def lit_rep_def split: if_splits)
  moreover have "mirror_rel lib hist' (wk_mirror w') (if kind = Rep_Insert then table_insert h d else d)"
    using rel mirror_rel_insert [OF lib rel mir] by (simp add: eq hist'_def t_def)
  ultimately show ?thesis by blast
qed

end
