(* ===== verification/Hpack_Block.thy ===== *)
theory Hpack_Block
  imports Hpack_Walk
begin

text \<open>
  A whole header block: whenever the decoder accepts it, the walk of the transcoder accepts it.
\<close>

lemma parse_literal_sim:
  assumes lib: "http_lib_laws lib" and rel: "mirror_rel lib hist (wk_mirror w) (dec_table d)"
    and bytes: "rb_bytes (wk_buf w) = block @ extra" and small: "length block < 2 ^ 28"
    and dec: "decode_literal lib d (lit_kind c = Rep_Insert) (drop (wk_i w) block) = Ok (h, rest)"
  obtains w' hist' where "parse_literal block c w = Ok w'" "walks lib hist w [h] hist' w'"
    "mirror_rel lib hist' (wk_mirror w') (if lit_kind c = Rep_Insert then table_insert h (dec_table d) else dec_table d)"
    "rest = drop (wk_i w') block" "wk_i w' \<le> length block"
proof -
  let ?a = "tab_arena (mt_table (wk_mirror w))" and ?needed = "mt_needed (wk_mirror w)"
  let ?p = "if lit_kind c = Rep_Insert then 6 else 4 :: nat"
  obtain idx b1 nm b2 v where parts: "decode_int ?p (drop (wk_i w) block) = Ok (idx, b1)"
    "if idx = 0 then (\<exists>n. decode_string b1 = Ok (n, b2) \<and> name_of lib n = Some nm)
     else b2 = b1 \<and> (\<exists>e. table_get (dec_table d) idx = Ok e \<and> header_name e = nm)"
    "decode_string b2 = Ok (v, rest)" "into_entry lib nm v = Ok h"
    using decode_literal_parts [OF dec] by metis
  have "?p \<le> 7" by simp
  then obtain i where i: "varint block (wk_i w) ?p = Ok (idx, i)" "b1 = drop i block" "i \<le> length block"
    by (rule varint_of_decode_int [OF parts(1)])
  obtain ln j where ln: "parse_name block idx i w = Ok (ln, j)" "b2 = drop j block"
    "lit_name_ok lib ?needed ?a (rb_bytes (wk_buf w)) ln nm"
  proof (cases "idx = 0")
    case True
    then show ?thesis
      using parts(2) i that parse_name_literal [OF _ _ bytes small] by (metis (no_types, lifting))
  next
    case False
    then obtain e where e: "table_get (dec_table d) idx = Ok e" "header_name e = nm" "b2 = b1"
      using parts(2) by auto
    show ?thesis
    proof (cases "idx \<le> 61")
      case True
      then have "1 \<le> idx" "get_static idx = Some e"
        using False e(1) by (auto simp: table_get_def ok_or_Inr_iff)
      then show ?thesis
        using that e i True parse_name_static [OF rel _ True] by metis
    next
      case False
      then show ?thesis
        using that e i parse_name_dynamic [OF rel _ e(1)] by (metis not_le)
    qed
  qed
  obtain vh v0 v1 where vv: "read_str block j = Ok (vh, v0, v1)" "str_of vh (slice v0 v1 block) = Ok v"
    "rest = drop v1 block" "v0 \<le> v1" "v1 \<le> length block"
    using read_str_of_decode_string [of j block v rest] parts(3) ln(2) by metis
  define want where "want = (ln_hkind ln \<noteq> Kind_None \<or> is_needed (ln_tag ln))"
  obtain n where n: "parse_value want (lit_kind c = Rep_Insert) vh (slice v0 v1 block) = Ok (if want \<and> vh then Some v else None, n)"
    "want \<or> lit_kind c = Rep_Insert \<longrightarrow> n = length v" "n \<le> 2 * length (slice v0 v1 block)"
    by (rule parse_value_ok [OF vv(2), of want "lit_kind c = Rep_Insert"])
  have want: "want = wanted ?needed h"
    using ln(3) into_entry_OkD [OF parts(4)] by (simp add: want_def wanted_def lit_name_ok_def hkind_def hname_def)
  define w1 where "w1 = w\<lparr> wk_i := v1 \<rparr>"
  define w' where "w' = finish_literal (lit_kind c) ln vh v0 v1 want (if want \<and> vh then Some v else None) n w1"
  have sl: "slice v0 v1 (rb_bytes (wk_buf w1)) = slice v0 v1 block"
    using bytes vv(5) by (simp add: w1_def slice_append)
  have "\<exists>hist'. walks lib hist w1 [h] hist' w'
      \<and> mirror_rel lib hist' (wk_mirror w') (if lit_kind c = Rep_Insert then table_insert h (dec_table d) else dec_table d)"
  proof (rule finish_literal_walks [OF lib _ _ vv(4) _ _ _ parts(4) _ refl n(2) [rule_format] _ w'_def])
    show "mirror_rel lib hist (wk_mirror w1) (dec_table d)"
      "lit_name_ok lib (mt_needed (wk_mirror w1)) (tab_arena (mt_table (wk_mirror w1))) (rb_bytes (wk_buf w1)) ln nm"
      "v1 \<le> length (rb_bytes (wk_buf w1))" "v1 - v0 < 2 ^ 28" "want = wanted (mt_needed (wk_mirror w1)) h"
      using rel ln(3) vv(5) bytes small want by (simp_all add: w1_def)
    show "str_of vh (slice v0 v1 (rb_bytes (wk_buf w1))) = Ok v"
      using vv(2) sl by simp
    show "lit_kind c \<in> {Rep_Insert, Rep_NoIndex, Rep_Never}"
      by (simp add: lit_kind_def)
  qed
  then obtain hist' where "walks lib hist w1 [h] hist' w'"
    "mirror_rel lib hist' (wk_mirror w') (if lit_kind c = Rep_Insert then table_insert h (dec_table d) else dec_table d)"
    by blast
  moreover have "parse_literal block c w = Ok w'"
    using i ln vv n want_def by (simp add: parse_literal_def Let_def w'_def w1_def)
  moreover have "wk_i w' = v1"
    by (simp add: w'_def w1_def)
  ultimately show ?thesis
    using that [of w' hist'] vv by (simp add: w1_def walks_at)
qed

section \<open>One representation\<close>

text \<open>The state of a walk and of a decoder that have read the same part of a block.\<close>

definition in_step :: "http_lib \<Rightarrow> octets \<Rightarrow> history \<Rightarrow> walk \<Rightarrow> hp_decoder \<Rightarrow> bool" where
  "in_step lib block hist w d \<longleftrightarrow> mirror_rel lib hist (wk_mirror w) (dec_table d)
     \<and> (\<exists>extra. rb_bytes (wk_buf w) = block @ extra) \<and> wk_i w \<le> length block \<and> dec_last_max_update d < 2 ^ 32"

lemma in_step_walks:
  "in_step lib block hist w d \<Longrightarrow> walks lib hist w hs hist' w' \<Longrightarrow> mirror_rel lib hist' (wk_mirror w') (dec_table d') \<Longrightarrow>
    wk_i w' \<le> length block \<Longrightarrow> dec_last_max_update d' = dec_last_max_update d \<Longrightarrow> in_step lib block hist' w' d'"
  by (auto simp: in_step_def walks_def)

lemma in_step_count: "in_step lib block hist (count_field w) d = in_step lib block hist w d"
  by (simp add: in_step_def count_field_def)

lemma parse_one_bits:
  assumes "rb_bytes (wk_buf w) = block @ extra" "wk_i w < length block"
  shows "parse_one (length block) w =
    (case (if bit (block ! wk_i w) 7 then parse_indexed block (count_field w)
           else if bit (block ! wk_i w) 5 \<and> \<not> bit (block ! wk_i w) 6 then parse_size_update block (count_field w)
           else parse_literal block (block ! wk_i w) (count_field w)) of
       Inl e \<Rightarrow> (Err e, count_field w) | Inr w' \<Rightarrow> (Ok (), w'))"
  using assms by (auto simp: parse_one_def slice_get_def Let_def u8_and_tests)

lemma parse_one_sim:
  assumes lib: "http_lib_laws lib" and inv: "in_step lib block hist w d" and lt: "wk_i w < length block"
    and small: "length block < 2 ^ 28"
    and dec: "decode_one lib d cr (drop (wk_i w) block) = Returns (Ok (d', cr', hs, rest))"
  obtains w' hist' where "parse_one (length block) w = (Ok (), w')" "walks lib hist w hs hist' w'"
    "in_step lib block hist' w' d'" "rest = drop (wk_i w') block"
proof -
  let ?c = "block ! wk_i w" and ?w = "count_field w"
  obtain extra where bytes: "rb_bytes (wk_buf w) = block @ extra"
    using inv by (auto simp: in_step_def)
  note parse = parse_one_bits [OF bytes lt]
  have rel: "mirror_rel lib hist (wk_mirror ?w) (dec_table d)" and max: "dec_last_max_update d < 2 ^ 32"
    using inv by (simp_all add: in_step_def count_field_def)
  have c: "hd (drop (wk_i w) block) = ?c"
    using lt by (simp add: hd_drop_conv_nth)
  note goal = that
  have fin: thesis if "parse_one (length block) w = (Ok (), w')" "walks lib hist ?w hs hist' w'"
    "mirror_rel lib hist' (wk_mirror w') (dec_table d')" "rest = drop (wk_i w') block" "wk_i w' \<le> length block"
    "dec_last_max_update d' = dec_last_max_update d" for w' hist'
    using that in_step_walks [of lib block hist ?w d hs hist' w' d'] inv
    by (intro goal [of w' hist']) (simp_all add: in_step_count walks_count)
  consider (indexed) "bit ?c 7" | (update) "\<not> bit ?c 7" "bit ?c 5" "\<not> bit ?c 6" | (literal) "\<not> bit ?c 7" "bit ?c 5 \<longrightarrow> bit ?c 6"
    by blast
  then show ?thesis
  proof cases
    case indexed
    then obtain h where h: "decode_indexed d (drop (wk_i ?w) block) = Ok (h, rest)" "hs = [h]" "d' = d"
      using dec by (auto simp: decode_one_def c representation_load_bits bind_result_Inr_iff)
    obtain w' where "parse_indexed block ?w = Ok w'" "walks lib hist ?w [h] hist w'" "wk_mirror w' = wk_mirror ?w"
      "rest = drop (wk_i w') block" "wk_i w' \<le> length block"
      by (rule parse_indexed_sim [OF rel h(1)])
    then show ?thesis
      using indexed h rel parse by (intro fin [of w' hist]) simp_all
  next
    case update
    then have h: "process_size_update d (drop (wk_i ?w) block) = Returns (Ok (d', rest))" "hs = []"
      using dec by (auto simp: decode_one_def c representation_load_bits bind_both_Ok_iff split: if_splits)
    obtain w' where "parse_size_update block ?w = Ok w'" "walks lib hist ?w [] hist w'"
      "mirror_rel lib hist (wk_mirror w') (dec_table d')" "dec_last_max_update d' = dec_last_max_update d"
      "rest = drop (wk_i w') block" "wk_i w' \<le> length block"
      by (rule parse_size_update_sim [OF lib rel max h(1)])
    then show ?thesis
      using update h parse by (intro fin [of w' hist]) simp_all
  next
    case literal
    have k: "lit_kind ?c = Rep_Insert \<longleftrightarrow> bit ?c 6"
      by (simp add: lit_kind_def u8_and_tests)
    obtain h where h: "decode_literal lib d (lit_kind ?c = Rep_Insert) (drop (wk_i ?w) block) = Ok (h, rest)" "hs = [h]"
      "d' = (if lit_kind ?c = Rep_Insert then d\<lparr> dec_table := table_insert h (dec_table d) \<rparr> else d)"
      using dec literal by (auto simp: decode_one_def c k representation_load_bits bind_result_Inr_iff split: if_splits)
    have "rb_bytes (wk_buf ?w) = block @ extra"
      using bytes by (simp add: count_field_def)
    then obtain w' hist' where "parse_literal block ?c ?w = Ok w'" "walks lib hist ?w [h] hist' w'"
      "mirror_rel lib hist' (wk_mirror w') (if lit_kind ?c = Rep_Insert then table_insert h (dec_table d) else dec_table d)"
      "rest = drop (wk_i w') block" "wk_i w' \<le> length block"
      by (rule parse_literal_sim [OF lib rel _ small h(1)])
    then show ?thesis
      using literal h parse by (intro fin [of w' hist']) (auto split: if_splits)
  qed
qed

section \<open>A whole block\<close>

lemma walk_block_sim:
  assumes "http_lib_laws lib" "in_step lib block hist w d" "length block < 2 ^ 28"
    "decode_loop lib d cr (drop (wk_i w) block) out = Returns (Ok (d', out'))"
  shows "\<exists>w' hist' hs. walk_block (length block) w = (Ok (), w') \<and> walks lib hist w hs hist' w'
    \<and> in_step lib block hist' w' d' \<and> out' = out @ hs"
  using assms(2,4)
proof (induction "length block - wk_i w" arbitrary: w hist d cr out rule: less_induct)
  case less
  show ?case
  proof (cases "wk_i w < length block")
    case False
    then show ?thesis
      using less.prems walks_refl [of lib hist w] by (auto simp: decode_loop.simps [of lib d] walk_block.simps [of _ w])
  next
    case True
    then obtain d1 cr1 hs1 rest where one: "decode_one lib d cr (drop (wk_i w) block) = Returns (Ok (d1, cr1, hs1, rest))"
      and loop: "decode_loop lib d1 cr1 rest (out @ hs1) = Returns (Ok (d', out'))"
      using less.prems(2) by (auto simp: decode_loop.simps [of lib d] bind_both_Ok_iff)
    obtain w1 hist1 where 1: "parse_one (length block) w = (Ok (), w1)" "walks lib hist w hs1 hist1 w1"
      "in_step lib block hist1 w1 d1" "rest = drop (wk_i w1) block"
      by (rule parse_one_sim [OF assms(1) less.prems(1) True assms(3) one])
    have "wk_i w < wk_i w1"
      using 1(1) by (rule parse_one_advances)
    then have "length block - wk_i w1 < length block - wk_i w"
      using True by simp
    then obtain w' hist' hs where "walk_block (length block) w1 = (Ok (), w')" "walks lib hist1 w1 hs hist' w'"
      "in_step lib block hist' w' d'" "out' = (out @ hs1) @ hs"
      using less.hyps [OF _ 1(3)] loop 1(4) by blast
    then show ?thesis
      using 1 True walks_trans [OF 1(2)] by (intro exI [of _ w'] exI [of _ hist'] exI [of _ "hs1 @ hs"])
        (auto simp: walk_block.simps [of _ w])
  qed
qed

text \<open>The decoder and the mirror of one connection.\<close>

definition peer_rel :: "http_lib \<Rightarrow> history \<Rightarrow> mirror_table \<Rightarrow> hp_decoder \<Rightarrow> bool" where
  "peer_rel lib hist m d \<longleftrightarrow> mirror_rel lib hist m (dec_table d) \<and> dec_last_max_update d < 2 ^ 32
     \<and> (\<forall>sz. dec_max_size_update d = Some sz \<longrightarrow> sz < 2 ^ 32)"

lemma decode_loop_pending:
  "decode_loop lib d cr buf out = Returns (Ok (d', out')) \<Longrightarrow>
    dec_max_size_update d' = dec_max_size_update d \<and> dec_last_max_update d' = dec_last_max_update d"
proof (induction lib d cr buf out rule: decode_loop.induct)
  case (1 lib d cr buf out)
  show ?case
  proof (cases "buf = []")
    case True
    then show ?thesis
      using 1(2) by (simp add: decode_loop.simps [of lib d])
  next
    case False
    then obtain d1 cr1 hs rest where one: "decode_one lib d cr buf = Returns (Ok (d1, cr1, hs, rest))"
      and loop: "decode_loop lib d1 cr1 rest (out @ hs) = Returns (Ok (d', out'))"
      using 1(2) by (auto simp: decode_loop.simps [of lib d] bind_both_Ok_iff)
    have "dec_max_size_update d1 = dec_max_size_update d \<and> dec_last_max_update d1 = dec_last_max_update d"
      using one by (auto simp: decode_one_def process_size_update_def bind_result_Inr_iff bind_both_Ok_iff
          bind_outcome_Returns_iff split: sum.splits representation.splits if_splits)
    then show ?thesis
      using 1(1) [OF False one refl refl refl loop] by simp
  qed
qed

lemma walk_start_sim:
  assumes "http_lib_laws lib" "peer_rel lib hist m d" "length block < 2 ^ 28"
    "hpack_decode lib d block = Returns (Ok (d', hs))" "walk_start buf block m policy st = (block_end, w)"
  obtains w' hist' where "walk_block block_end w = (Ok (), w')" "walks lib hist w hs hist' w'"
    "peer_rel lib hist' (wk_mirror w') d'"
proof -
  define d0 where "d0 = (case dec_max_size_update d of
      Some sz \<Rightarrow> d\<lparr> dec_max_size_update := None, dec_last_max_update := sz \<rparr> | None \<Rightarrow> d)"
  have loop: "decode_loop lib d0 True block [] = Returns (Ok (d', hs))"
    using assms(4) by (simp add: hpack_decode_def d0_def)
  have w: "block_end = length block" "wk_i w = 0" "wk_mirror w = m" "rb_bytes (wk_buf w) = block"
    using assms(5) by (auto simp: walk_start_def push_block_def rep_buf_clear_def Let_def)
  have inv: "in_step lib block hist w d0"
    using assms(2) w by (auto simp: in_step_def peer_rel_def d0_def split: option.splits)
  obtain w' hist' hs' where "walk_block (length block) w = (Ok (), w')" "walks lib hist w hs' hist' w'"
    "in_step lib block hist' w' d'" "hs = [] @ hs'"
    using walk_block_sim [OF assms(1) inv assms(3), of True "[]"] loop w by auto
  moreover from this have "peer_rel lib hist' (wk_mirror w') d'"
    using decode_loop_pending [OF loop] by (auto simp: peer_rel_def in_step_def d0_def split: option.splits)
  ultimately show ?thesis
    using that w by simp
qed

end
