(* ===== verification/Hpack_Relay.thy ===== *)
theory Hpack_Relay
  imports Hpack_Block
begin

text \<open>
  From one peer to another: what the transcoder emits toward a peer is decoded by that peer to
  the fields that were sent, for every interleaving of blocks from any number of connections, of
  the emission of the walked blocks toward any number of peers and of changes of the table sizes.
\<close>

section \<open>Our table and the table of the peer\<close>

definition source_of :: "history \<Rightarrow> insertion \<Rightarrow> header \<Rightarrow> bool" where
  "source_of hist ins h \<longleftrightarrow> (ins_src_tid ins \<noteq> 0 \<longrightarrow> hist (ins_src_tid ins, ins_src_serial ins) = Some h)"

definition encoder_rel :: "http_lib \<Rightarrow> history \<Rightarrow> table \<Rightarrow> hp_table \<Rightarrow> bool" where
  "encoder_rel lib hist t d \<longleftrightarrow> table_good t \<and> hp_table_good d \<and> tab_max t = tb_max_size d
     \<and> list_all2 (\<lambda>(s, ins) h. copies lib ins h \<and> source_of hist ins h) (table_view t) (tb_entries d)"

lemma map_leD: "m \<subseteq>\<^sub>m m' \<Longrightarrow> m k = Some v \<Longrightarrow> m' k = Some v"
  by (auto simp: map_le_def dom_def)

lemma encoder_rel_mono:
  assumes "encoder_rel lib hist t d" "hist \<subseteq>\<^sub>m hist'"
  shows "encoder_rel lib hist' t d"
proof -
  have src: "source_of hist ins h \<Longrightarrow> source_of hist' ins h" for ins h
    using map_leD [OF assms(2)] by (auto simp: source_of_def)
  have all: "list_all2 (\<lambda>(s, ins) h. copies lib ins h \<and> source_of hist ins h) (table_view t) (tb_entries d)"
    using assms(1) by (simp add: encoder_rel_def)
  have "list_all2 (\<lambda>(s, ins) h. copies lib ins h \<and> source_of hist' ins h) (table_view t) (tb_entries d)"
    by (rule list_all2_mono [OF all]) (auto intro: src)
  then show ?thesis
    using assms(1) by (simp add: encoder_rel_def)
qed

lemma encoder_rel_insert:
  assumes "http_lib_laws lib" "encoder_rel lib hist t d" "copies lib ins h" "source_of hist ins h" "ins_val_dec ins = None"
  shows "encoder_rel lib hist (snd (table_ins ins t)) (table_insert h d)"
proof -
  let ?R = "\<lambda>(s, ins) h. copies lib ins h \<and> source_of hist ins h"
  have ok: "ins_ok ins"
    using copies_ok [OF assms(3)] assms(5) by (simp add: ins_ok_def)
  have rel: "table_good t" "hp_table_good d" "tab_max t = tb_max_size d"
    using assms(2) by (simp_all add: encoder_rel_def)
  have "list_all2 ?R (table_view (snd (table_ins ins t))) (tb_entries (table_insert h d))"
    using assms rel ok by (intro pair.related_ins) (auto simp: encoder_rel_def intro: copies_len)
  then show ?thesis
    using rel table_ins_spec [OF rel(1) ok] stock.limit_ins stock.good_ins by (simp add: encoder_rel_def)
qed

lemma encoder_rel_resize:
  assumes "http_lib_laws lib" "encoder_rel lib hist t d" "mx < 2 ^ 32"
  shows "encoder_rel lib hist (set_max mx t) (resized mx d)"
proof -
  let ?R = "\<lambda>(s, ins) h. copies lib ins h \<and> source_of hist ins h"
  have rel: "table_good t" "hp_table_good d"
    using assms(2) by (simp_all add: encoder_rel_def)
  have "list_all2 ?R (table_view (set_max mx t)) (tb_entries (resized mx d))"
    using assms by (intro pair.related_resize) (auto simp: encoder_rel_def intro: copies_len)
  then show ?thesis
    using rel set_max_spec [OF rel(1) assms(3)] stock.limit_resize stock.good_resize by (simp add: encoder_rel_def)
qed

text \<open>A hit in the cache is an index under which the peer holds the field.\<close>

lemma encoder_rel_hit:
  assumes "encoder_rel lib hist t d" "lookup_provenance t tid serial = Some j" "tid \<noteq> 0" "hist (tid, serial) = Some h"
  shows "table_get d j = Ok h" "j < 2 ^ 28"
proof -
  have good: "table_good t"
    using assms(1) by (simp add: encoder_rel_def)
  note hit = lookup_provenance_hit [OF good assms(2,3)]
  have all: "list_all2 (\<lambda>(s, ins) h. copies lib ins h \<and> source_of hist ins h) (table_view t) (tb_entries d)"
    using assms(1) by (simp add: encoder_rel_def)
  then have len: "length (tab_entries t) = length (tb_entries d)"
    using list_all2_lengthD by fastforce
  have "source_of hist (entry_ins (tab_arena t) (tab_entries t ! (j - 62))) (tb_entries d ! (j - 62))"
    using list_all2_nthD [OF all, of "j - 62"] hit by (simp add: table_view_def)
  then have "tb_entries d ! (j - 62) = h"
    using hit assms(3,4) by (simp add: source_of_def entry_ins_def)
  then show "table_get d j = Ok h"
    using hit len by (auto simp: table_get_def slice_get_def)
  have "32 * length (tab_entries t) \<le> tab_max t" "tab_max t < 2 ^ 32"
    using length_entries_bound [OF good] good by (simp_all add: table_good_def)
  then show "j < 2 ^ 28"
    using hit by simp
qed

section \<open>Emission\<close>

lemma rep_insertion_copies:
  "rep_literal lib bytes r h \<Longrightarrow> rep_sized r h \<Longrightarrow> copies lib (rep_insertion r bytes tid serial) h"
  by (simp add: copies_def rep_insertion_def rep_literal_def rep_sized_def)

lemma rep_insertion_simps [simp]:
  "ins_val_dec (rep_insertion r bytes tid serial) = None" "ins_src_tid (rep_insertion r bytes tid serial) = tid"
  "ins_src_serial (rep_insertion r bytes tid serial) = serial"
  by (simp_all add: rep_insertion_def)

lemma emit_one_sim:
  assumes lib: "http_lib_laws lib" and rep: "rep_for lib needed hist tid bytes r h" and tid: "tid \<noteq> 0"
    and rel: "encoder_rel lib hist (enc_table enc) (dec_table d)"
    and emit: "emit_one r bytes tid enc st = (out, enc', st')"
  shows "\<exists>t. decode_one lib d cr (out @ rest) = Returns (Ok (d\<lparr> dec_table := t \<rparr>, False, [h], rest))
    \<and> encoder_rel lib hist (enc_table enc') t \<and> enc_pending enc' = enc_pending enc"
proof -
  let ?ins = "\<lambda>tid serial. rep_insertion r bytes tid serial"
  have inserted: ?thesis
    if "rep_literal lib bytes r h" "rep_sized r h" "source_of hist (?ins i s) h" "out = emit_literal 0x40 6 r bytes"
      "enc' = enc_insert (?ins i s) enc" for i s
  proof -
    have "encoder_rel lib hist (snd (table_ins (?ins i s) (enc_table enc))) (table_insert h (dec_table d))"
      using that by (intro encoder_rel_insert [OF lib rel]) (simp_all add: rep_insertion_copies)
    moreover have "decode_one lib d cr (out @ rest) = Returns (Ok (d\<lparr> dec_table := table_insert h (dec_table d) \<rparr>, False, [h], rest))"
      using that decode_literal_with_indexing by (simp add: emit_literal_def rep_literal_def)
    ultimately show ?thesis
      using that by (auto simp: enc_insert_def)
  qed
  have kept: ?thesis if "decode_one lib d cr (out @ rest) = Returns (Ok (d, False, [h], rest))" "enc' = enc"
    using that rel by (intro exI [of _ "dec_table d"]) simp
  show ?thesis
  proof (cases "rp_kind r")
    case Rep_Static
    then show ?thesis
      using rep emit by (intro kept) (auto simp: rep_for_def emit_one_def table_get_def intro!: decode_indexed_sink)
  next
    case Rep_Dynamic
    show ?thesis
    proof (cases "lookup_provenance (enc_table enc) tid (rp_num r)")
      case None
      then show ?thesis
        using Rep_Dynamic rep emit
        by (intro inserted [of tid "rp_num r"]) (auto simp: rep_for_def emit_one_def source_of_def)
    next
      case (Some j)
      then have "table_get (dec_table d) j = Ok h" "j < 2 ^ 28"
        using encoder_rel_hit [OF rel Some tid] Rep_Dynamic rep by (simp_all add: rep_for_def)
      then show ?thesis
        using Some Rep_Dynamic emit by (intro kept) (auto simp: emit_one_def intro!: decode_indexed_sink)
    qed
  next
    case Rep_Insert
    then show ?thesis
      using rep emit
      by (intro inserted [of "if rp_num r \<noteq> NO_NUM then tid else 0" "if rp_num r \<noteq> NO_NUM then rp_num r else 0"])
        (auto simp: rep_for_def emit_one_def source_of_def split: if_splits)
  next
    case Rep_NoIndex
    then show ?thesis
      using rep emit decode_literal_not_indexed [where fb = 0]
      by (intro kept) (auto simp: rep_for_def emit_one_def emit_literal_def rep_literal_def)
  next
    case Rep_Never
    then show ?thesis
      using rep emit decode_literal_not_indexed [where fb = "0x10"]
      by (intro kept) (auto simp: rep_for_def emit_one_def emit_literal_def rep_literal_def)
  next
    case Rep_SizeUpdate
    then show ?thesis
      using rep by (simp add: rep_for_def)
  qed
qed

lemma emit_reps_sim:
  assumes "http_lib_laws lib" "tid \<noteq> 0" "reps_for lib needed hist tid bytes rs hs"
    "encoder_rel lib hist (enc_table enc) (dec_table d)" "emit_reps rs bytes tid enc st = (out, enc', st')"
  shows "\<exists>t. decode_loop lib d cr out acc = Returns (Ok (d\<lparr> dec_table := t \<rparr>, acc @ hs))
    \<and> encoder_rel lib hist (enc_table enc') t \<and> enc_pending enc' = enc_pending enc"
  using assms(3-)
proof (induction rs arbitrary: hs enc d st out cr acc)
  case Nil
  then show ?case
    by (intro exI [of _ "dec_table d"]) (auto simp: reps_for_def decode_loop.simps [of lib d])
next
  case (Cons r rs)
  obtain out1 enc1 st1 out2 where one: "emit_one r bytes tid enc st = (out1, enc1, st1)"
    and rest: "emit_reps rs bytes tid enc1 st1 = (out2, enc', st')" and out: "out = out1 @ out2"
    using Cons.prems(3) by (auto split: prod.splits)
  show ?case
  proof (cases "is_size_update r")
    case True
    then have "out1 = []" "enc1 = enc"
      using one by (simp_all add: emit_one_def is_size_update_def)
    then show ?thesis
      using Cons.IH [OF _ _ rest, of hs d] Cons.prems True out by (simp add: reps_for_def)
  next
    case False
    then obtain h hs' where h: "hs = h # hs'" "rep_for lib needed hist tid bytes r h" "reps_for lib needed hist tid bytes rs hs'"
      using Cons.prems(1) by (auto simp: reps_for_def list_all2_Cons1)
    obtain t where t: "decode_one lib d cr (out1 @ out2) = Returns (Ok (d\<lparr> dec_table := t \<rparr>, False, [h], out2))"
      "encoder_rel lib hist (enc_table enc1) t" "enc_pending enc1 = enc_pending enc"
      using emit_one_sim [OF assms(1) h(2) assms(2) Cons.prems(2) one] by blast
    then have "out1 @ out2 \<noteq> []"
      using decode_one_shorter by fastforce
    then show ?thesis
      using Cons.IH [OF h(3) _ rest, of "d\<lparr> dec_table := t \<rparr>" False "acc @ [h]"] t out h(1)
      by (auto simp: decode_loop.simps [of lib d])
  qed
qed

section \<open>Changes of the table size\<close>

text \<open>The limit the decoder will hold a size update to.\<close>

definition eff_max :: "hp_decoder \<Rightarrow> nat" where
  "eff_max d = (case dec_max_size_update d of Some sz \<Rightarrow> sz | None \<Rightarrow> dec_last_max_update d)"

definition backend_rel :: "http_lib \<Rightarrow> history \<Rightarrow> encoder_table \<Rightarrow> hp_decoder \<Rightarrow> bool" where
  "backend_rel lib hist enc d \<longleftrightarrow> encoder_rel lib hist (enc_table enc) (dec_table d)
     \<and> (\<forall>low fin. enc_pending enc = Some (low, fin) \<longrightarrow> low \<le> fin \<and> fin \<le> eff_max d \<and> fin < 2 ^ 28)"

lemma backend_rel_resize:
  "backend_rel lib hist enc d \<Longrightarrow> n < 2 ^ 28 \<Longrightarrow> backend_rel lib hist (enc_resize n enc) (queue_size_update n d)"
  by (auto simp: backend_rel_def enc_resize_def queue_size_update_def eff_max_def split: option.splits if_splits)

lemma set_max_twice:
  assumes "http_lib_laws lib" "encoder_rel lib hist t d" "mx < 2 ^ 32"
  shows "encoder_rel lib hist (set_max mx (set_max mx t)) (resized mx d)"
proof -
  have good: "table_good t"
    using assms(2) by (simp add: encoder_rel_def)
  note 1 = set_max_spec [OF good assms(3)]
  note 2 = set_max_spec [OF 1(2) assms(3)]
  have "table_view (set_max mx (set_max mx t)) = table_view (set_max mx t)"
    unfolding 2(1) unfolding 1(1) by (rule fit_all) (rule fit_sum)
  then show ?thesis
    using encoder_rel_resize [OF assms] 1 2 by (simp add: encoder_rel_def)
qed

lemma decode_loop_update:
  assumes "m \<le> dec_last_max_update d" "m < 2 ^ 28" "hp_table_good (dec_table d)"
  shows "decode_loop lib d True (sink_int 0x20 5 m @ rest) acc =
    decode_loop lib (d\<lparr> dec_table := resized m (dec_table d) \<rparr>) True rest acc"
  using decode_size_update_sink [OF assms] by (simp add: decode_loop.simps [of lib d])

lemma emit_pending_resize_sim:
  assumes lib: "http_lib_laws lib" and rel: "backend_rel lib hist enc d" and d: "dec_last_max_update d = eff_max d"
    and emit: "emit_pending_resize enc = (out, enc')"
  shows "\<exists>t. decode_loop lib d True (out @ rest) acc = decode_loop lib (d\<lparr> dec_table := t \<rparr>) True rest acc
    \<and> encoder_rel lib hist (enc_table enc') t \<and> enc_pending enc' = None"
proof -
  have enc: "encoder_rel lib hist (enc_table enc) (dec_table d)" "hp_table_good (dec_table d)"
    using rel by (simp_all add: backend_rel_def encoder_rel_def)
  show ?thesis
  proof (cases "enc_pending enc")
    case None
    then show ?thesis
      using emit enc by (intro exI [of _ "dec_table d"]) (auto simp: emit_pending_resize_def take_pending_resize_def)
  next
    case (Some p)
    then obtain low fin where p: "enc_pending enc = Some (low, fin)" by (cases p) simp
    then have le: "low \<le> fin" "fin \<le> dec_last_max_update d" "fin < 2 ^ 28"
      using rel d by (simp_all add: backend_rel_def)
    have enc': "enc_table enc' = set_max fin (set_max low (enc_table enc))" "enc_pending enc' = None"
      using emit p by (auto simp: emit_pending_resize_def take_pending_resize_def)
    show ?thesis
    proof (cases "low < fin")
      case True
      let ?t = "resized low (dec_table d)"
      have out: "out = sink_int 0x20 5 low @ sink_int 0x20 5 fin"
        using emit p True by (auto simp: emit_pending_resize_def take_pending_resize_def)
      have t: "encoder_rel lib hist (set_max low (enc_table enc)) ?t"
        using le by (intro encoder_rel_resize [OF lib enc(1)]) simp
      then have "encoder_rel lib hist (enc_table enc') (resized fin ?t)"
        using encoder_rel_resize [OF lib t, of fin] le enc' by simp
      moreover have "decode_loop lib d True (out @ rest) acc = decode_loop lib (d\<lparr> dec_table := resized fin ?t \<rparr>) True rest acc"
        using le enc t decode_loop_update [of low d lib "sink_int 0x20 5 fin @ rest" acc]
          decode_loop_update [of fin "d\<lparr> dec_table := ?t \<rparr>" lib rest acc]
        by (simp add: out encoder_rel_def)
      ultimately show ?thesis
        using enc' by blast
    next
      case False
      then have low: "low = fin" using le by simp
      have out: "out = sink_int 0x20 5 fin"
        using emit p False by (auto simp: emit_pending_resize_def take_pending_resize_def)
      have "encoder_rel lib hist (enc_table enc') (resized fin (dec_table d))"
        using le by (subst enc', subst low, intro set_max_twice [OF lib enc(1)]) simp
      then show ?thesis
        using enc' le enc decode_loop_update [of fin d lib rest acc] by (auto simp: out)
    qed
  qed
qed

text \<open>A block that was walked earlier is decoded to its fields by any peer it is emitted to.\<close>

lemma emit_block_sim:
  assumes "http_lib_laws lib" "tid \<noteq> 0" "reps_for lib needed hist tid bytes rs hs" "backend_rel lib hist enc d"
    "emit_block rs bytes tid enc st = (out, enc', st')"
  obtains d' where "hpack_decode lib d out = Returns (Ok (d', hs))" "backend_rel lib hist enc' d'"
proof -
  define d0 where "d0 = (case dec_max_size_update d of
      Some sz \<Rightarrow> d\<lparr> dec_max_size_update := None, dec_last_max_update := sz \<rparr> | None \<Rightarrow> d)"
  have d0: "backend_rel lib hist enc d0" "dec_last_max_update d0 = eff_max d0" "dec_max_size_update d0 = None"
    using assms(4) by (auto simp: d0_def backend_rel_def eff_max_def split: option.splits)
  obtain out1 enc1 out2 where emit: "emit_pending_resize enc = (out1, enc1)"
    "emit_reps rs bytes tid enc1 st = (out2, enc', st')" "out = out1 @ out2"
    using assms(5) by (auto simp: emit_block_def Let_def split: prod.splits)
  obtain t where t: "decode_loop lib d0 True (out1 @ out2) [] = decode_loop lib (d0\<lparr> dec_table := t \<rparr>) True out2 []"
    "encoder_rel lib hist (enc_table enc1) t" "enc_pending enc1 = None"
    using emit_pending_resize_sim [OF assms(1) d0(1,2) emit(1)] by blast
  obtain t' where t': "decode_loop lib (d0\<lparr> dec_table := t \<rparr>) True out2 [] = Returns (Ok (d0\<lparr> dec_table := t' \<rparr>, hs))"
    "encoder_rel lib hist (enc_table enc') t'" "enc_pending enc' = None"
    using emit_reps_sim [OF assms(1-3) _ emit(2), of "d0\<lparr> dec_table := t \<rparr>" True "[]"] t by auto
  show ?thesis
    using that [of "d0\<lparr> dec_table := t' \<rparr>"] t t' emit(3)
    by (simp add: hpack_decode_def d0_def [symmetric] backend_rel_def)
qed

section \<open>The system\<close>

text \<open>A process with connections to clients, connections to backends and blocks that were walked.
  The decoders of the peers are part of the system: that of a client decides which blocks are
  well formed, that of a backend reads what is emitted. A change of the size of the table of a
  backend reaches its decoder and our table together, a block emitted before it is decoded
  before it.\<close>

definition next_tid :: "nat \<Rightarrow> nat \<times> nat" where
  "next_tid n = (if n \<noteq> 0 then (n, as_u32 (n + 1)) else (1, 2))"

record relay_client =
  rc_mirror :: mirror_table
  rc_decoder :: hp_decoder

record relay_backend =
  rk_enc :: encoder_table
  rk_decoder :: hp_decoder

record relay_block =
  bk_tid :: nat
  bk_buf :: rep_buf
  bk_fields :: "header list"

record relay =
  rl_next :: nat
  rl_clients :: "nat \<rightharpoonup> relay_client"
  rl_backends :: "nat \<rightharpoonup> relay_backend"
  rl_blocks :: "relay_block list"

definition relay_init :: relay where
  "relay_init = \<lparr> rl_next = 1, rl_clients = Map.empty, rl_backends = Map.empty, rl_blocks = [] \<rparr>"

definition new_mirror :: "nat \<Rightarrow> nat \<Rightarrow> (octets list \<times> bool) option \<Rightarrow> mirror_table" where
  "new_mirror tid mx needed = (case needed of
     None \<Rightarrow> mirror_new tid mx
   | Some (names, trust) \<Rightarrow> set_needed (needed_with_options names trust) (mirror_new tid mx))"

definition emit_kept :: "relay_block \<Rightarrow> encoder_table \<Rightarrow> transcode_stats \<Rightarrow> octets \<times> encoder_table \<times> transcode_stats" where
  "emit_kept bk enc st = emit_block (rb_reps (bk_buf bk)) (rb_bytes (bk_buf bk)) (bk_tid bk) enc st"

inductive relay_step :: "http_lib \<Rightarrow> relay \<Rightarrow> relay \<Rightarrow> bool" for lib where
  client_connects:
    "next_tid (rl_next r) = (tid, n) \<Longrightarrow> rl_next r + 1 < 2 ^ 32 \<Longrightarrow> mx < 2 ^ 32 \<Longrightarrow>
     relay_step lib r (r\<lparr> rl_next := n,
       rl_clients := (rl_clients r)(tid \<mapsto> \<lparr> rc_mirror = new_mirror tid mx needed, rc_decoder = hp_decoder_new mx \<rparr>) \<rparr>)"
| backend_connects:
    "next_tid (rl_next r) = (tid, n) \<Longrightarrow> rl_next r + 1 < 2 ^ 32 \<Longrightarrow> mx < 2 ^ 32 \<Longrightarrow>
     relay_step lib r (r\<lparr> rl_next := n,
       rl_backends := (rl_backends r)(tid \<mapsto> \<lparr> rk_enc = encoder_table_new tid mx, rk_decoder = hp_decoder_new mx \<rparr>) \<rparr>)"
| client_settings:
    "rl_clients r tid = Some c \<Longrightarrow> n < 2 ^ 32 \<Longrightarrow>
     relay_step lib r (r\<lparr> rl_clients := (rl_clients r)(tid \<mapsto> c\<lparr> rc_decoder := queue_size_update n (rc_decoder c) \<rparr>) \<rparr>)"
| backend_settings:
    "rl_backends r b = Some k \<Longrightarrow> n < 2 ^ 28 \<Longrightarrow>
     relay_step lib r (r\<lparr> rl_backends := (rl_backends r)(b \<mapsto>
       \<lparr> rk_enc = enc_resize n (rk_enc k), rk_decoder = queue_size_update n (rk_decoder k) \<rparr>) \<rparr>)"
| block_received:
    "rl_clients r tid = Some c \<Longrightarrow> length block < 2 ^ 28 \<Longrightarrow>
     hpack_decode lib (rc_decoder c) block = Returns (Ok (d, hs)) \<Longrightarrow>
     walk_start buf block (rc_mirror c) policy st = (block_end, w) \<Longrightarrow>
     walk_block block_end w = (Ok (), w') \<Longrightarrow> length (rb_bytes (wk_buf w')) < 2 ^ 32 \<Longrightarrow>
     relay_step lib r (r\<lparr>
       rl_clients := (rl_clients r)(tid \<mapsto> \<lparr> rc_mirror = wk_mirror w', rc_decoder = d \<rparr>),
       rl_blocks := rl_blocks r @ [\<lparr> bk_tid = tid, bk_buf = wk_buf w', bk_fields = hs \<rparr>] \<rparr>)"
| block_sent:
    "rl_backends r b = Some k \<Longrightarrow> bk \<in> set (rl_blocks r) \<Longrightarrow> emit_kept bk (rk_enc k) st = (out, enc, st') \<Longrightarrow>
     hpack_decode lib (rk_decoder k) out = Returns (Ok (d, hs)) \<Longrightarrow>
     relay_step lib r (r\<lparr> rl_backends := (rl_backends r)(b \<mapsto> \<lparr> rk_enc = enc, rk_decoder = d \<rparr>) \<rparr>)"
| client_leaves:
    "relay_step lib r (r\<lparr> rl_clients := (rl_clients r)(tid := None) \<rparr>)"

inductive relay_reach :: "http_lib \<Rightarrow> relay \<Rightarrow> bool" for lib where
  reach_init: "relay_reach lib relay_init"
| reach_step: "relay_reach lib r \<Longrightarrow> relay_step lib r r' \<Longrightarrow> relay_reach lib r'"

section \<open>The invariant\<close>

definition client_ok :: "http_lib \<Rightarrow> history \<Rightarrow> nat \<Rightarrow> nat \<Rightarrow> relay_client \<Rightarrow> bool" where
  "client_ok lib hist next tid c \<longleftrightarrow> peer_rel lib hist (rc_mirror c) (rc_decoder c)
     \<and> tab_tid (mt_table (rc_mirror c)) = tid \<and> 0 < tid \<and> tid < next"

definition block_ok :: "http_lib \<Rightarrow> history \<Rightarrow> relay_block \<Rightarrow> bool" where
  "block_ok lib hist bk \<longleftrightarrow> 0 < bk_tid bk \<and>
     (\<exists>needed. reps_for lib needed hist (bk_tid bk) (rb_bytes (bk_buf bk)) (rb_reps (bk_buf bk)) (bk_fields bk))
     \<and> length (rb_bytes (bk_buf bk)) < 2 ^ 32"

definition relay_inv :: "http_lib \<Rightarrow> history \<Rightarrow> relay \<Rightarrow> bool" where
  "relay_inv lib hist r \<longleftrightarrow>
     (\<forall>tid c. rl_clients r tid = Some c \<longrightarrow> client_ok lib hist (rl_next r) tid c)
     \<and> (\<forall>b k. rl_backends r b = Some k \<longrightarrow> backend_rel lib hist (rk_enc k) (rk_decoder k))
     \<and> (\<forall>bk \<in> set (rl_blocks r). block_ok lib hist bk)
     \<and> (\<forall>tid s. hist (tid, s) \<noteq> None \<longrightarrow> tid < rl_next r) \<and> 0 < rl_next r"

lemma relay_inv_next:
  assumes "relay_inv lib hist r"
  shows "relay_inv lib hist (r\<lparr> rl_next := rl_next r + 1 \<rparr>)"
proof -
  have "\<forall>tid s. hist (tid, s) \<noteq> None \<longrightarrow> tid < rl_next r"
    using assms by (simp add: relay_inv_def)
  then have "\<forall>tid s. hist (tid, s) \<noteq> None \<longrightarrow> tid < rl_next r + 1"
    by (meson add_lessD1 less_trans less_add_one)
  then show ?thesis
    using assms by (auto simp: relay_inv_def client_ok_def less_SucI)
qed

lemma next_tid_fresh: "next_tid n = (tid, n') \<Longrightarrow> 0 < n \<Longrightarrow> n + 1 < 2 ^ 32 \<Longrightarrow> tid = n \<and> n' = n + 1"
  by (auto simp: next_tid_def)

lemma peer_rel_cong:
  assumes "peer_rel lib hist m d" "\<And>s. hist' (tab_tid (mt_table m), s) = hist (tab_tid (mt_table m), s)"
  shows "peer_rel lib hist' m d"
  using assms by (simp add: peer_rel_def mirror_rel_def)

lemma peer_rel_new:
  assumes "mx < 2 ^ 32" "\<And>s. hist (tid, s) = None"
  shows "peer_rel lib hist (new_mirror tid mx needed) (hp_decoder_new mx)" "tab_tid (mt_table (new_mirror tid mx needed)) = tid"
proof -
  have "mt_table (new_mirror tid mx needed) = table_new tid mx" "needed_ok (mt_needed (new_mirror tid mx needed))"
    using needed_ok_with_options
    by (auto simp: new_mirror_def mirror_new_def set_needed_def needed_ok_def split: option.splits)
  then show "peer_rel lib hist (new_mirror tid mx needed) (hp_decoder_new mx)"
    "tab_tid (mt_table (new_mirror tid mx needed)) = tid"
    using assms table_new_good [OF assms(1), of tid]
    by (simp_all add: peer_rel_def mirror_rel_def hp_decoder_new_def hp_table_new_def table_new_def table_view_def hp_table_good_def)
qed

lemma backend_rel_new: "mx < 2 ^ 32 \<Longrightarrow> backend_rel lib hist (encoder_table_new tid mx) (hp_decoder_new mx)"
  using table_new_good [of mx tid]
  by (simp add: backend_rel_def encoder_rel_def encoder_table_new_def hp_decoder_new_def hp_table_new_def table_new_def
      table_view_def hp_table_good_def)

lemma backend_rel_mono: "backend_rel lib hist enc d \<Longrightarrow> hist \<subseteq>\<^sub>m hist' \<Longrightarrow> backend_rel lib hist' enc d"
  by (auto simp: backend_rel_def intro: encoder_rel_mono)

lemma block_ok_mono: "block_ok lib hist bk \<Longrightarrow> hist \<subseteq>\<^sub>m hist' \<Longrightarrow> block_ok lib hist' bk"
  using reps_for_mono [where x = "[]"] by (fastforce simp: block_ok_def)

lemma block_received_inv:
  assumes lib: "http_lib_laws lib" and inv: "relay_inv lib hist r" and c: "rl_clients r tid = Some c"
    and len: "length block < 2 ^ 28" and dec: "hpack_decode lib (rc_decoder c) block = Returns (Ok (d, hs))"
    and start: "walk_start buf block (rc_mirror c) policy st = (block_end, w)"
    and walk: "walk_block block_end w = (Ok (), w')" and small: "length (rb_bytes (wk_buf w')) < 2 ^ 32"
  shows "\<exists>hist'. relay_inv lib hist' (r\<lparr>
      rl_clients := (rl_clients r)(tid \<mapsto> \<lparr> rc_mirror = wk_mirror w', rc_decoder = d \<rparr>),
      rl_blocks := rl_blocks r @ [\<lparr> bk_tid = tid, bk_buf = wk_buf w', bk_fields = hs \<rparr>] \<rparr>)"
proof -
  have ok: "client_ok lib hist (rl_next r) tid c"
    using inv c by (simp add: relay_inv_def)
  have peer: "peer_rel lib hist (rc_mirror c) (rc_decoder c)"
    using ok by (simp add: client_ok_def)
  obtain hist' where w': "walks lib hist w hs hist' w'" "peer_rel lib hist' (wk_mirror w') d"
    using walk_start_sim [OF lib peer len dec start] walk by auto
  have start': "wk_mirror w = rc_mirror c" "rb_reps (wk_buf w) = []"
    using start by (auto simp: walk_start_def push_block_def rep_buf_clear_def Let_def)
  have tid: "walk_tid w = tid" "0 < tid" "tid < rl_next r"
    using ok start' by (simp_all add: client_ok_def)
  have le: "hist \<subseteq>\<^sub>m hist'" and other: "\<And>k. hist' k \<noteq> hist k \<Longrightarrow> fst k = tid" and tid': "walk_tid w' = tid"
    using w'(1) tid unfolding walks_def by auto
  have "client_ok lib hist' (rl_next r) i c'" if "rl_clients r i = Some c'" "i \<noteq> tid" for i c'
  proof -
    have "client_ok lib hist (rl_next r) i c'"
      using inv that by (simp add: relay_inv_def)
    moreover have "hist' (i, s) = hist (i, s)" for s
      using other [of "(i, s)"] that by auto
    ultimately show ?thesis
      by (auto simp: client_ok_def intro: peer_rel_cong)
  qed
  moreover have "client_ok lib hist' (rl_next r) tid \<lparr> rc_mirror = wk_mirror w', rc_decoder = d \<rparr>"
    using w'(2) tid tid' by (simp add: client_ok_def)
  moreover have "block_ok lib hist' \<lparr> bk_tid = tid, bk_buf = wk_buf w', bk_fields = hs \<rparr>"
    using w'(1) start' tid small by (auto simp: block_ok_def walks_def)
  moreover have "\<forall>i s. hist' (i, s) \<noteq> None \<longrightarrow> i < rl_next r"
    using inv other tid(3) unfolding relay_inv_def by (metis fst_conv)
  moreover have "\<forall>b k. rl_backends r b = Some k \<longrightarrow> backend_rel lib hist' (rk_enc k) (rk_decoder k)"
    "\<forall>bk \<in> set (rl_blocks r). block_ok lib hist' bk" "0 < rl_next r"
    using inv backend_rel_mono [OF _ le] block_ok_mono [OF _ le] by (simp_all add: relay_inv_def)
  ultimately show ?thesis
    unfolding relay_inv_def by (intro exI [of _ hist']) auto
qed

lemma block_sent_decodes:
  assumes "http_lib_laws lib" "relay_inv lib hist r" "rl_backends r b = Some k" "bk \<in> set (rl_blocks r)"
    "emit_kept bk (rk_enc k) st = (out, enc, st')"
  obtains d where "hpack_decode lib (rk_decoder k) out = Returns (Ok (d, bk_fields bk))" "backend_rel lib hist enc d"
proof -
  have bk: "backend_rel lib hist (rk_enc k) (rk_decoder k)" and "block_ok lib hist bk"
    using assms(2-4) by (auto simp: relay_inv_def)
  then obtain needed where "bk_tid bk \<noteq> 0"
    "reps_for lib needed hist (bk_tid bk) (rb_bytes (bk_buf bk)) (rb_reps (bk_buf bk)) (bk_fields bk)"
    by (auto simp: block_ok_def)
  then show ?thesis
    using that assms(1,5) bk by (auto simp: emit_kept_def elim: emit_block_sim)
qed

lemma relay_inv_step:
  assumes lib: "http_lib_laws lib" and step: "relay_step lib r r'" and inv: "relay_inv lib hist r"
  shows "\<exists>hist'. relay_inv lib hist' r'"
  using step inv
proof cases
  case (client_connects tid n mx needed)
  then have n: "tid = rl_next r" "n = rl_next r + 1"
    using inv next_tid_fresh [of "rl_next r" tid n] by (simp_all add: relay_inv_def)
  then have "hist (tid, s) = None" for s
    using inv unfolding relay_inv_def by (metis less_irrefl)
  then show ?thesis
    using relay_inv_next [OF inv] inv client_connects n peer_rel_new(1) [of mx hist tid lib needed]
      peer_rel_new(2) [of mx hist tid needed]
    by (intro exI [of _ hist]) (auto simp: relay_inv_def client_ok_def)
next
  case (backend_connects tid n mx)
  then have n: "tid = rl_next r" "n = rl_next r + 1"
    using inv next_tid_fresh [of "rl_next r" tid n] by (simp_all add: relay_inv_def)
  then show ?thesis
    using relay_inv_next [OF inv] backend_connects backend_rel_new [of mx lib hist tid]
    by (intro exI [of _ hist]) (auto simp: relay_inv_def)
next
  case (client_settings tid c n)
  have "client_ok lib hist (rl_next r) tid c"
    using inv client_settings by (simp add: relay_inv_def)
  then have "client_ok lib hist (rl_next r) tid (c\<lparr> rc_decoder := queue_size_update n (rc_decoder c) \<rparr>)"
    using client_settings by (auto simp: client_ok_def peer_rel_def queue_size_update_def split: option.splits)
  then show ?thesis
    using inv client_settings by (intro exI [of _ hist]) (auto simp: relay_inv_def)
next
  case (backend_settings b k n)
  then have "backend_rel lib hist (enc_resize n (rk_enc k)) (queue_size_update n (rk_decoder k))"
    using inv by (intro backend_rel_resize) (simp_all add: relay_inv_def)
  then show ?thesis
    using inv backend_settings by (intro exI [of _ hist]) (auto simp: relay_inv_def)
next
  case (block_received tid c block d hs buf policy st block_end w w')
  then show ?thesis
    using block_received_inv [OF lib inv] by simp
next
  case (block_sent b k bk st out enc st' d hs)
  then have "backend_rel lib hist enc d"
    using block_sent_decodes [OF lib inv block_sent(2-4)] by auto
  then show ?thesis
    using inv block_sent by (intro exI [of _ hist]) (auto simp: relay_inv_def)
next
  case (client_leaves tid)
  then show ?thesis
    using inv by (intro exI [of _ hist]) (auto simp: relay_inv_def)
qed

lemma relay_reach_inv: "relay_reach lib r \<Longrightarrow> http_lib_laws lib \<Longrightarrow> \<exists>hist. relay_inv lib hist r"
proof (induction rule: relay_reach.induct)
  case reach_init
  then show ?case
    by (intro exI [of _ Map.empty]) (simp add: relay_inv_def relay_init_def)
next
  case (reach_step r r')
  then show ?case
    using relay_inv_step by blast
qed

section \<open>A run\<close>

definition sample_lib :: http_lib where
  "sample_lib = \<lparr> lib_method = (\<lambda>_. True), lib_status = (\<lambda>v. length v = 3), lib_name = (\<lambda>_. True), lib_value = (\<lambda>_. True) \<rparr>"

definition sample_block :: octets where
  "sample_block = [0x82, 0x41, 0x01, 0x61]"

definition sample_fields :: "header list" where
  "sample_fields = [Header_Method (octets ''GET''), Header_Authority [0x61]]"

definition no_stats :: transcode_stats where
  "no_stats = \<lparr> st_fields = 0, st_static_idx = 0, st_dyn_hit = 0, st_dyn_miss = 0, st_lit_insert = 0, st_lit_noindex = 0,
     st_never_indexed = 0, st_size_updates = 0, st_in_bytes = 0, st_out_bytes = 0, st_rewrites = 0, st_extra_lit = 0,
     st_extra_hit = 0 \<rparr>"

definition no_policy :: policy_fields where
  "no_policy = \<lparr> pf_have = 0, pf_method = [], pf_path = [], pf_authority = [] \<rparr>"

definition sample_client :: relay_client where
  "sample_client = \<lparr> rc_mirror = new_mirror 1 4096 None, rc_decoder = hp_decoder_new 4096 \<rparr>"

definition sample_backend :: relay_backend where
  "sample_backend = \<lparr> rk_enc = encoder_table_new 2 4096, rk_decoder = hp_decoder_new 4096 \<rparr>"

lemma sample_lib_laws: "http_lib_laws sample_lib"
  by (simp add: http_lib_laws_def sample_lib_def)

lemma sample_decodes: "\<exists>d. hpack_decode sample_lib (hp_decoder_new 4096) sample_block = Returns (Ok (d, sample_fields))"
  by (simp add: hpack_decode_def hp_decoder_new_def decode_loop.simps decode_one_def sample_block_def representation_load_def
      decode_indexed_def decode_literal_def decode_int_def prefix_mask_def table_get_def get_static_def slice_get_def
      static_headers_def hp_table_new_def decode_string_def Let_def bytes_str_try_from_def sample_fields_def)

lemma walk_block_step: "parse_one e w = (Ok (), w') \<Longrightarrow> wk_i w < e \<Longrightarrow> walk_block e w = walk_block e w'"
  by (simp add: walk_block.simps [of e w])

lemma walk_block_end: "e \<le> wk_i w \<Longrightarrow> walk_block e w = (Ok (), w)"
  by (simp add: walk_block.simps [of e w])

lemma rb_bytes_unchanged [simp]:
  "rb_bytes (wk_buf (parse_static idx w)) = rb_bytes (wk_buf w)" "rb_bytes (wk_buf (count_field w)) = rb_bytes (wk_buf w)"
  "ln_from_mirror ln = None \<Longrightarrow>
    rb_bytes (wk_buf (finish_literal k ln vh v0 v1 want None n w)) = rb_bytes (wk_buf w)"
  by (simp_all add: parse_static_def count_field_def finish_literal_def Let_def push_rep_def split: prod.splits)

lemma sample_walk:
  assumes "walk_start buf sample_block m policy st = (e, w)"
  obtains w' where "walk_block e w = (Ok (), w')" "rb_bytes (wk_buf w') = sample_block"
proof -
  have w: "e = 4" "rb_bytes (wk_buf w) = sample_block" "wk_i w = 0"
    using assms by (auto simp: walk_start_def push_block_def rep_buf_clear_def Let_def sample_block_def)
  let ?w = "parse_static 2 ((count_field w)\<lparr> wk_i := 1 \<rparr>)"
  have 1: "parse_one 4 w = (Ok (), ?w)"
    using w by (simp add: sample_block_def parse_one_def slice_get_def parse_indexed_def varint_def)
  have "\<exists>w'. parse_one 4 ?w = (Ok (), w') \<and> wk_i w' = 4 \<and> rb_bytes (wk_buf w') = sample_block"
    using w by (simp add: sample_block_def parse_one_def slice_get_def parse_literal_def varint_def lit_kind_def
        parse_name_def read_str_def parse_value_def kind_of_static_def slice_def Let_def)
  then obtain w' where "parse_one 4 ?w = (Ok (), w')" "wk_i w' = 4" "rb_bytes (wk_buf w') = sample_block" by blast
  then show ?thesis
    using that 1 w walk_block_step [of 4 w ?w] walk_block_step [of 4 ?w w'] walk_block_end [of 4 w'] by simp
qed

lemma sample_connected:
  "\<exists>r. relay_reach sample_lib r \<and> rl_clients r 1 = Some sample_client \<and> rl_backends r 2 = Some sample_backend"
proof -
  let ?r = "relay_init\<lparr> rl_next := 2, rl_clients := (rl_clients relay_init)(1 \<mapsto> sample_client) \<rparr>"
  have "relay_step sample_lib relay_init ?r"
    using client_connects [of relay_init 1 2 4096 sample_lib None]
    by (simp add: relay_init_def next_tid_def sample_client_def)
  moreover have "relay_step sample_lib ?r (?r\<lparr> rl_next := 3, rl_backends := (rl_backends ?r)(2 \<mapsto> sample_backend) \<rparr>)"
    using backend_connects [of ?r 2 3 4096 sample_lib] by (simp add: next_tid_def sample_backend_def)
  ultimately have "relay_reach sample_lib (?r\<lparr> rl_next := 3, rl_backends := (rl_backends ?r)(2 \<mapsto> sample_backend) \<rparr>)"
    by (blast intro: relay_reach.intros)
  then show ?thesis
    by (rule exI [where P = "\<lambda>r. relay_reach _ r \<and> _ r", OF conjI]) simp
qed

lemma sample_received:
  "\<exists>r bk. relay_reach sample_lib r \<and> rl_backends r 2 = Some sample_backend \<and> bk \<in> set (rl_blocks r)
    \<and> bk_fields bk = sample_fields"
proof -
  obtain r where r: "relay_reach sample_lib r" "rl_clients r 1 = Some sample_client" "rl_backends r 2 = Some sample_backend"
    using sample_connected by blast
  obtain e w where start: "walk_start \<lparr> rb_reps = [], rb_bytes = [] \<rparr> sample_block (rc_mirror sample_client) None no_stats = (e, w)"
    by fastforce
  obtain w' where walk: "walk_block e w = (Ok (), w')" "rb_bytes (wk_buf w') = sample_block"
    by (rule sample_walk [OF start])
  obtain d where "hpack_decode sample_lib (rc_decoder sample_client) sample_block = Returns (Ok (d, sample_fields))"
    using sample_decodes by (auto simp: sample_client_def)
  moreover define bk where "bk = \<lparr> bk_tid = 1, bk_buf = wk_buf w', bk_fields = sample_fields \<rparr>"
  moreover define r' where "r' = r\<lparr> rl_clients := (rl_clients r)(1 \<mapsto> \<lparr> rc_mirror = wk_mirror w', rc_decoder = d \<rparr>),
      rl_blocks := rl_blocks r @ [bk] \<rparr>"
  ultimately have "relay_step sample_lib r r'"
    using block_received [OF r(2) _ _ start walk(1)] walk(2) by (simp add: sample_block_def)
  with r(1) have "relay_reach sample_lib r'"
    by (rule reach_step)
  then show ?thesis
    using r(3) by (intro exI [of _ r'] exI [of _ bk]) (simp add: r'_def bk_def)
qed

section \<open>What the peers see\<close>

text \<open>C2: a header block that was walked is decoded by every backend it is emitted to, whatever was
  received and emitted before and after, to exactly the fields the client sent.\<close>

theorem relay_fields:
  assumes "http_lib_laws lib" "relay_reach lib r" "rl_backends r b = Some k" "bk \<in> set (rl_blocks r)"
    "emit_kept bk (rk_enc k) st = (out, enc, st')"
  shows "\<exists>d. hpack_decode lib (rk_decoder k) out = Returns (Ok (d, bk_fields bk))"
proof -
  obtain hist where "relay_inv lib hist r"
    using relay_reach_inv [OF assms(2,1)] by blast
  then show ?thesis
    using block_sent_decodes [OF assms(1) _ assms(3-5)] by metis
qed

theorem relay_fields_witness:
  "\<exists>r k bk out. relay_reach sample_lib r \<and> rl_backends r 2 = Some k \<and> bk \<in> set (rl_blocks r)
    \<and> fst (emit_kept bk (rk_enc k) no_stats) = out \<and> (\<exists>d. hpack_decode sample_lib (rk_decoder k) out = Returns (Ok (d, sample_fields)))"
proof -
  obtain r bk where r: "relay_reach sample_lib r" "rl_backends r 2 = Some sample_backend" "bk \<in> set (rl_blocks r)"
    "bk_fields bk = sample_fields"
    using sample_received by blast
  obtain out enc st where out: "emit_kept bk (rk_enc sample_backend) no_stats = (out, enc, st)"
    by (metis surj_pair)
  show ?thesis
    using relay_fields [OF sample_lib_laws r(1-3) out] r out by (intro exI [of _ r] exI [of _ sample_backend] exI [of _ bk]) simp
qed

text \<open>The last value of a field in a list of fields.\<close>

definition last_value :: "octets \<Rightarrow> header list \<Rightarrow> octets option" where
  "last_value n hs = map_option value_slice (find (\<lambda>h. hname h = n) (rev hs))"

lemma last_value_simps [simp]:
  "last_value n [] = None"
  "last_value n (hs @ [h]) = (if hname h = n then Some (value_slice h) else last_value n hs)"
  by (simp_all add: last_value_def)

lemma kind_bits:
  "(x OR kind_bit Kind_Method) AND kind_bit Kind_Method \<noteq> 0" "(x OR kind_bit Kind_Path) AND kind_bit Kind_Path \<noteq> 0"
  "(x OR kind_bit Kind_Authority) AND kind_bit Kind_Authority \<noteq> 0"
  "(x OR kind_bit Kind_Path) AND kind_bit Kind_Method = x AND kind_bit Kind_Method"
  "(x OR kind_bit Kind_Authority) AND kind_bit Kind_Method = x AND kind_bit Kind_Method"
  "(x OR kind_bit Kind_Method) AND kind_bit Kind_Path = x AND kind_bit Kind_Path"
  "(x OR kind_bit Kind_Authority) AND kind_bit Kind_Path = x AND kind_bit Kind_Path"
  "(x OR kind_bit Kind_Method) AND kind_bit Kind_Authority = x AND kind_bit Kind_Authority"
  "(x OR kind_bit Kind_Path) AND kind_bit Kind_Authority = x AND kind_bit Kind_Authority"
  "kind_bit Kind_Method \<noteq> 0" "kind_bit Kind_Path \<noteq> 0" "kind_bit Kind_Authority \<noteq> 0"
  by (simp_all add: kind_bit_def u8_eq_iff all_less_8 bit_and_iff bit_or_iff)

lemma hkind_iff:
  "hkind h = Kind_Method \<longleftrightarrow> hname h = octets '':method''" "hkind h = Kind_Path \<longleftrightarrow> hname h = octets '':path''"
  "hkind h = Kind_Authority \<longleftrightarrow> hname h = octets '':authority''"
  by (auto simp: hkind_def kind_of_name_def hd_octets split: if_splits)

lemma policy_fields_last:
  "policy_method (fold deliver_header hs (policy_clear pf)) = last_value (octets '':method'') hs"
  "policy_path (fold deliver_header hs (policy_clear pf)) = last_value (octets '':path'') hs"
  "policy_authority (fold deliver_header hs (policy_clear pf)) = last_value (octets '':authority'') hs"
proof (induction hs rule: rev_induct)
  case Nil
  {
    case 1
    then show ?case
      by (simp add: policy_method_def policy_has_def policy_clear_def)
  next
    case 2
    then show ?case
      by (simp add: policy_path_def policy_has_def policy_clear_def)
  next
    case 3
    then show ?case
      by (simp add: policy_authority_def policy_has_def policy_clear_def)
  }
next
  case (snoc h hs)
  {
    case 1
    show ?case
      using snoc(1) hkind_iff [of h]
      by (cases "hkind h") (auto simp: deliver_header_def policy_set_def policy_method_def policy_has_def kind_bits)
  next
    case 2
    show ?case
      using snoc(2) hkind_iff [of h]
      by (cases "hkind h") (auto simp: deliver_header_def policy_set_def policy_path_def policy_has_def kind_bits)
  next
    case 3
    show ?case
      using snoc(3) hkind_iff [of h]
      by (cases "hkind h") (auto simp: deliver_header_def policy_set_def policy_authority_def policy_has_def kind_bits)
  }
qed

text \<open>C5: when the decoder of the client accepts a header block, transcoding succeeds, the backend
  decodes what is emitted to the same fields, and the method, path and authority handed to the
  policy are the last ones among these fields.\<close>

theorem transcode_fields:
  assumes lib: "http_lib_laws lib" and reach: "relay_reach lib r"
    and c: "rl_clients r tid = Some c" and k: "rl_backends r b = Some k" and len: "length block < 2 ^ 28"
    and dec: "hpack_decode lib (rc_decoder c) block = Returns (Ok (d, hs))"
    and run: "transcode_with buf block (rc_mirror c) (Some (rk_enc k)) (Some pf) st = (res, w, enc, out)"
    and small: "length (rb_bytes (wk_buf w)) < 2 ^ 32"
  shows "res = Ok () \<and> (\<exists>d'. hpack_decode lib (rk_decoder k) out = Returns (Ok (d', hs)))
    \<and> (\<exists>pf'. wk_policy w = Some pf' \<and> policy_method pf' = last_value (octets '':method'') hs
         \<and> policy_path pf' = last_value (octets '':path'') hs \<and> policy_authority pf' = last_value (octets '':authority'') hs)"
proof -
  obtain hist where inv: "relay_inv lib hist r"
    using relay_reach_inv [OF reach lib] by blast
  have ok: "client_ok lib hist (rl_next r) tid c" and bk: "backend_rel lib hist (rk_enc k) (rk_decoder k)"
    using inv c k by (simp_all add: relay_inv_def)
  have peer: "peer_rel lib hist (rc_mirror c) (rc_decoder c)"
    using ok by (simp add: client_ok_def)
  obtain block_end w0 where start: "walk_start buf block (rc_mirror c) (Some pf) st = (block_end, w0)"
    by fastforce
  then have w0: "wk_mirror w0 = rc_mirror c" "rb_reps (wk_buf w0) = []" "wk_policy w0 = Some (policy_clear pf)"
    by (auto simp: walk_start_def push_block_def rep_buf_clear_def Let_def)
  obtain w' hist' where walk: "walk_block block_end w0 = (Ok (), w')" "walks lib hist w0 hs hist' w'"
    using walk_start_sim [OF lib peer len dec start] by metis
  obtain out' enc' st' where emit: "emit_block (rb_reps (wk_buf w')) (rb_bytes (wk_buf w')) (walk_tid w') (rk_enc k) (wk_stats w') = (out', enc', st')"
    by (metis surj_pair)
  then have run': "res = Ok ()" "wk_buf w = wk_buf w'" "wk_policy w = wk_policy w'" "out = out'"
    using run start walk(1) by (auto simp: transcode_with_def)
  have tid: "walk_tid w' = tid" "tid \<noteq> 0" "hist \<subseteq>\<^sub>m hist'" "wk_policy w' = map_option (fold deliver_header hs) (wk_policy w0)"
    using walk(2) w0 ok by (auto simp: walks_def client_ok_def)
  have "reps_for lib (mt_needed (wk_mirror w0)) hist' (walk_tid w') (rb_bytes (wk_buf w')) (rb_reps (wk_buf w')) hs"
    using walk(2) w0 small run' by (auto simp: walks_def)
  then obtain d' where "hpack_decode lib (rk_decoder k) out' = Returns (Ok (d', hs))"
    using emit_block_sim [OF lib _ _ backend_rel_mono [OF bk tid(3)] emit] tid(1,2) by metis
  then show ?thesis
    using run' tid w0 by (auto simp: policy_fields_last)
qed

theorem transcode_fields_witness:
  "\<exists>w enc out d. transcode_with \<lparr> rb_reps = [], rb_bytes = [] \<rparr> sample_block (rc_mirror sample_client)
      (Some (rk_enc sample_backend)) (Some no_policy) no_stats = (Ok (), w, enc, out)
    \<and> hpack_decode sample_lib (rk_decoder sample_backend) out = Returns (Ok (d, sample_fields))
    \<and> map_option policy_method (wk_policy w) = Some (Some (octets ''GET''))"
proof -
  obtain r where r: "relay_reach sample_lib r" "rl_clients r 1 = Some sample_client" "rl_backends r 2 = Some sample_backend"
    using sample_connected by blast
  obtain d where d: "hpack_decode sample_lib (rc_decoder sample_client) sample_block = Returns (Ok (d, sample_fields))"
    using sample_decodes by (auto simp: sample_client_def)
  obtain e w0 where start: "walk_start \<lparr> rb_reps = [], rb_bytes = [] \<rparr> sample_block (rc_mirror sample_client) (Some no_policy) no_stats = (e, w0)"
    by fastforce
  obtain w' where walk: "walk_block e w0 = (Ok (), w')" "rb_bytes (wk_buf w') = sample_block"
    by (rule sample_walk [OF start])
  obtain res w enc out where run: "transcode_with \<lparr> rb_reps = [], rb_bytes = [] \<rparr> sample_block (rc_mirror sample_client)
      (Some (rk_enc sample_backend)) (Some no_policy) no_stats = (res, w, enc, out)"
    by (metis surj_pair)
  then have "rb_bytes (wk_buf w) = sample_block"
    using start walk by (auto simp: transcode_with_def Let_def split: prod.splits)
  then have "length (rb_bytes (wk_buf w)) < 2 ^ 32" "length sample_block < 2 ^ 28"
    by (simp_all add: sample_block_def)
  with transcode_fields [OF sample_lib_laws r(1-3) _ d run] show ?thesis
    using run by (auto simp: sample_fields_def last_value_def hname_def)
qed

end
