(* ===== verification/Huffman_Code.thy ===== *)
theory Huffman_Code
  imports Huffman
begin

text \<open>
  The code behind the tables of \<open>src/vendor/h2/src/hpack/huffman/\<close>: every state of the
  decoder stands for the bits that were read since the last complete code. Every transition of
  the decoding table, 256 states and 16 inputs each, agrees with the codes of the encoding table,
  and no code is the beginning of another one.
\<close>

section \<open>The bits of a state and of a code\<close>

text \<open>The number of bits and their value. Both tables are checked below against the source's.\<close>

definition state_code_0 :: "nat \<Rightarrow> nat \<times> nat" where
  "state_code_0 n =
    (if n = 0 then (0, 0) else if n = 1 then (1, 0) else if n = 2 then (2, 0) else if n = 3 then (3, 0)
     else if n = 4 then (4, 0) else if n = 5 then (4, 1) else if n = 6 then (3, 1)
     else if n = 7 then (4, 2) else if n = 8 then (4, 3) else if n = 9 then (2, 1)
     else if n = 10 then (3, 2) else if n = 11 then (4, 4) else if n = 12 then (4, 5)
     else if n = 13 then (5, 10) else if n = 14 then (5, 11) else (3, 3))"

definition state_code_1 :: "nat \<Rightarrow> nat \<times> nat" where
  "state_code_1 n =
    (if n = 16 then (4, 6) else if n = 17 then (5, 12) else if n = 18 then (5, 13)
     else if n = 19 then (4, 7) else if n = 20 then (5, 14) else if n = 21 then (5, 15)
     else if n = 22 then (1, 1) else if n = 23 then (2, 2) else if n = 24 then (3, 4)
     else if n = 25 then (4, 8) else if n = 26 then (5, 16) else if n = 27 then (5, 17)
     else if n = 28 then (4, 9) else if n = 29 then (5, 18) else if n = 30 then (5, 19) else (3, 5))"

definition state_code_2 :: "nat \<Rightarrow> nat \<times> nat" where
  "state_code_2 n =
    (if n = 32 then (4, 10) else if n = 33 then (5, 20) else if n = 34 then (5, 21)
     else if n = 35 then (4, 11) else if n = 36 then (5, 22) else if n = 37 then (5, 23)
     else if n = 38 then (6, 46) else if n = 39 then (6, 47) else if n = 40 then (2, 3)
     else if n = 41 then (3, 6) else if n = 42 then (4, 12) else if n = 43 then (5, 24)
     else if n = 44 then (6, 48) else if n = 45 then (6, 49) else if n = 46 then (5, 25) else (6, 50))"

definition state_code_3 :: "nat \<Rightarrow> nat \<times> nat" where
  "state_code_3 n =
    (if n = 48 then (6, 51) else if n = 49 then (4, 13) else if n = 50 then (5, 26)
     else if n = 51 then (6, 52) else if n = 52 then (6, 53) else if n = 53 then (5, 27)
     else if n = 54 then (6, 54) else if n = 55 then (6, 55) else if n = 56 then (3, 7)
     else if n = 57 then (4, 14) else if n = 58 then (5, 28) else if n = 59 then (6, 56)
     else if n = 60 then (6, 57) else if n = 61 then (5, 29) else if n = 62 then (6, 58) else (6, 59))"

definition state_code_4 :: "nat \<Rightarrow> nat \<times> nat" where
  "state_code_4 n =
    (if n = 64 then (4, 15) else if n = 65 then (5, 30) else if n = 66 then (6, 60)
     else if n = 67 then (6, 61) else if n = 68 then (5, 31) else if n = 69 then (6, 62)
     else if n = 70 then (7, 124) else if n = 71 then (7, 125) else if n = 72 then (6, 63)
     else if n = 73 then (7, 126) else if n = 74 then (7, 127) else if n = 75 then (8, 254)
     else if n = 76 then (9, 508) else if n = 77 then (9, 509) else if n = 78 then (8, 255) else (9, 510))"

definition state_code_5 :: "nat \<Rightarrow> nat \<times> nat" where
  "state_code_5 n =
    (if n = 80 then (10, 0x3FD) else if n = 81 then (9, 511) else if n = 82 then (10, 0x3FE)
     else if n = 83 then (11, 0x7FD) else if n = 84 then (10, 0x3FF) else if n = 85 then (11, 0x7FE)
     else if n = 86 then (12, 0xFFC) else if n = 87 then (12, 0xFFD) else if n = 88 then (11, 0x7FF)
     else if n = 89 then (12, 0xFFE) else if n = 90 then (12, 0xFFF) else if n = 91 then (13, 0x1FFE)
     else if n = 92 then (13, 0x1FFF) else if n = 93 then (14, 0x3FFE) else if n = 94 then (14, 0x3FFF)
     else (15, 0x7FFF))"

definition state_code_6 :: "nat \<Rightarrow> nat \<times> nat" where
  "state_code_6 n =
    (if n = 96 then (16, 0xFFFE) else if n = 97 then (17, 0x1FFFC) else if n = 98 then (18, 0x3FFF8)
     else if n = 99 then (18, 0x3FFF9) else if n = 100 then (19, 0x7FFF3)
     else if n = 101 then (17, 0x1FFFD) else if n = 102 then (18, 0x3FFFA)
     else if n = 103 then (19, 0x7FFF4) else if n = 104 then (19, 0x7FFF5)
     else if n = 105 then (18, 0x3FFFB) else if n = 106 then (19, 0x7FFF6)
     else if n = 107 then (19, 0x7FFF7) else if n = 108 then (20, 0xFFFEE)
     else if n = 109 then (20, 0xFFFEF) else if n = 110 then (16, 0xFFFF) else (17, 0x1FFFE))"

definition state_code_7 :: "nat \<Rightarrow> nat \<times> nat" where
  "state_code_7 n =
    (if n = 112 then (18, 0x3FFFC) else if n = 113 then (19, 0x7FFF8) else if n = 114 then (20, 0xFFFF0)
     else if n = 115 then (20, 0xFFFF1) else if n = 116 then (19, 0x7FFF9)
     else if n = 117 then (20, 0xFFFF2) else if n = 118 then (20, 0xFFFF3)
     else if n = 119 then (18, 0x3FFFD) else if n = 120 then (19, 0x7FFFA)
     else if n = 121 then (20, 0xFFFF4) else if n = 122 then (21, 0x1FFFE9)
     else if n = 123 then (20, 0xFFFF5) else if n = 124 then (21, 0x1FFFEA)
     else if n = 125 then (21, 0x1FFFEB) else if n = 126 then (19, 0x7FFFB) else (20, 0xFFFF6))"

definition state_code_8 :: "nat \<Rightarrow> nat \<times> nat" where
  "state_code_8 n =
    (if n = 128 then (21, 0x1FFFEC) else if n = 129 then (21, 0x1FFFED)
     else if n = 130 then (20, 0xFFFF7) else if n = 131 then (21, 0x1FFFEE)
     else if n = 132 then (21, 0x1FFFEF) else if n = 133 then (17, 0x1FFFF)
     else if n = 134 then (18, 0x3FFFE) else if n = 135 then (19, 0x7FFFC)
     else if n = 136 then (20, 0xFFFF8) else if n = 137 then (21, 0x1FFFF0)
     else if n = 138 then (21, 0x1FFFF1) else if n = 139 then (20, 0xFFFF9)
     else if n = 140 then (21, 0x1FFFF2) else if n = 141 then (21, 0x1FFFF3)
     else if n = 142 then (19, 0x7FFFD) else (20, 0xFFFFA))"

definition state_code_9 :: "nat \<Rightarrow> nat \<times> nat" where
  "state_code_9 n =
    (if n = 144 then (21, 0x1FFFF4) else if n = 145 then (21, 0x1FFFF5)
     else if n = 146 then (20, 0xFFFFB) else if n = 147 then (21, 0x1FFFF6)
     else if n = 148 then (22, 0x3FFFEC) else if n = 149 then (22, 0x3FFFED)
     else if n = 150 then (21, 0x1FFFF7) else if n = 151 then (22, 0x3FFFEE)
     else if n = 152 then (22, 0x3FFFEF) else if n = 153 then (18, 0x3FFFF)
     else if n = 154 then (19, 0x7FFFE) else if n = 155 then (20, 0xFFFFC)
     else if n = 156 then (21, 0x1FFFF8) else if n = 157 then (22, 0x3FFFF0)
     else if n = 158 then (22, 0x3FFFF1) else (21, 0x1FFFF9))"

definition state_code_10 :: "nat \<Rightarrow> nat \<times> nat" where
  "state_code_10 n =
    (if n = 160 then (22, 0x3FFFF2) else if n = 161 then (22, 0x3FFFF3)
     else if n = 162 then (20, 0xFFFFD) else if n = 163 then (21, 0x1FFFFA)
     else if n = 164 then (22, 0x3FFFF4) else if n = 165 then (22, 0x3FFFF5)
     else if n = 166 then (21, 0x1FFFFB) else if n = 167 then (22, 0x3FFFF6)
     else if n = 168 then (22, 0x3FFFF7) else if n = 169 then (19, 0x7FFFF)
     else if n = 170 then (20, 0xFFFFE) else if n = 171 then (21, 0x1FFFFC)
     else if n = 172 then (22, 0x3FFFF8) else if n = 173 then (22, 0x3FFFF9)
     else if n = 174 then (21, 0x1FFFFD) else (22, 0x3FFFFA))"

definition state_code_11 :: "nat \<Rightarrow> nat \<times> nat" where
  "state_code_11 n =
    (if n = 176 then (23, 0x7FFFF5) else if n = 177 then (22, 0x3FFFFB)
     else if n = 178 then (23, 0x7FFFF6) else if n = 179 then (23, 0x7FFFF7)
     else if n = 180 then (20, 0xFFFFF) else if n = 181 then (21, 0x1FFFFE)
     else if n = 182 then (22, 0x3FFFFC) else if n = 183 then (23, 0x7FFFF8)
     else if n = 184 then (23, 0x7FFFF9) else if n = 185 then (22, 0x3FFFFD)
     else if n = 186 then (23, 0x7FFFFA) else if n = 187 then (23, 0x7FFFFB)
     else if n = 188 then (24, 0xFFFFF6) else if n = 189 then (24, 0xFFFFF7)
     else if n = 190 then (21, 0x1FFFFF) else (22, 0x3FFFFE))"

definition state_code_12 :: "nat \<Rightarrow> nat \<times> nat" where
  "state_code_12 n =
    (if n = 192 then (23, 0x7FFFFC) else if n = 193 then (24, 0xFFFFF8)
     else if n = 194 then (25, 0x1FFFFF0) else if n = 195 then (25, 0x1FFFFF1)
     else if n = 196 then (24, 0xFFFFF9) else if n = 197 then (25, 0x1FFFFF2)
     else if n = 198 then (25, 0x1FFFFF3) else if n = 199 then (23, 0x7FFFFD)
     else if n = 200 then (24, 0xFFFFFA) else if n = 201 then (25, 0x1FFFFF4)
     else if n = 202 then (25, 0x1FFFFF5) else if n = 203 then (24, 0xFFFFFB)
     else if n = 204 then (25, 0x1FFFFF6) else if n = 205 then (25, 0x1FFFFF7)
     else if n = 206 then (26, 0x3FFFFEF) else (22, 0x3FFFFF))"

definition state_code_13 :: "nat \<Rightarrow> nat \<times> nat" where
  "state_code_13 n =
    (if n = 208 then (23, 0x7FFFFE) else if n = 209 then (24, 0xFFFFFC)
     else if n = 210 then (25, 0x1FFFFF8) else if n = 211 then (26, 0x3FFFFF0)
     else if n = 212 then (26, 0x3FFFFF1) else if n = 213 then (25, 0x1FFFFF9)
     else if n = 214 then (26, 0x3FFFFF2) else if n = 215 then (26, 0x3FFFFF3)
     else if n = 216 then (24, 0xFFFFFD) else if n = 217 then (25, 0x1FFFFFA)
     else if n = 218 then (26, 0x3FFFFF4) else if n = 219 then (26, 0x3FFFFF5)
     else if n = 220 then (25, 0x1FFFFFB) else if n = 221 then (26, 0x3FFFFF6)
     else if n = 222 then (26, 0x3FFFFF7) else (23, 0x7FFFFF))"

definition state_code_14 :: "nat \<Rightarrow> nat \<times> nat" where
  "state_code_14 n =
    (if n = 224 then (24, 0xFFFFFE) else if n = 225 then (25, 0x1FFFFFC)
     else if n = 226 then (26, 0x3FFFFF8) else if n = 227 then (27, 0x7FFFFF1)
     else if n = 228 then (26, 0x3FFFFF9) else if n = 229 then (27, 0x7FFFFF2)
     else if n = 230 then (27, 0x7FFFFF3) else if n = 231 then (25, 0x1FFFFFD)
     else if n = 232 then (26, 0x3FFFFFA) else if n = 233 then (27, 0x7FFFFF4)
     else if n = 234 then (27, 0x7FFFFF5) else if n = 235 then (26, 0x3FFFFFB)
     else if n = 236 then (27, 0x7FFFFF6) else if n = 237 then (27, 0x7FFFFF7)
     else if n = 238 then (24, 0xFFFFFF) else (25, 0x1FFFFFE))"

definition state_code_15 :: "nat \<Rightarrow> nat \<times> nat" where
  "state_code_15 n =
    (if n = 240 then (26, 0x3FFFFFC) else if n = 241 then (27, 0x7FFFFF8)
     else if n = 242 then (27, 0x7FFFFF9) else if n = 243 then (26, 0x3FFFFFD)
     else if n = 244 then (27, 0x7FFFFFA) else if n = 245 then (27, 0x7FFFFFB)
     else if n = 246 then (25, 0x1FFFFFF) else if n = 247 then (26, 0x3FFFFFE)
     else if n = 248 then (27, 0x7FFFFFC) else if n = 249 then (27, 0x7FFFFFD)
     else if n = 250 then (26, 0x3FFFFFF) else if n = 251 then (27, 0x7FFFFFE)
     else if n = 252 then (27, 0x7FFFFFF) else if n = 253 then (28, 0xFFFFFFF)
     else if n = 254 then (29, 0x1FFFFFFE) else (29, 0x1FFFFFFF))"

definition state_code :: "nat \<Rightarrow> nat \<times> nat" where
  "state_code n =
    (if n < 16 then state_code_0 n
     else if n < 32 then state_code_1 n
     else if n < 48 then state_code_2 n
     else if n < 64 then state_code_3 n
     else if n < 80 then state_code_4 n
     else if n < 96 then state_code_5 n
     else if n < 112 then state_code_6 n
     else if n < 128 then state_code_7 n
     else if n < 144 then state_code_8 n
     else if n < 160 then state_code_9 n
     else if n < 176 then state_code_10 n
     else if n < 192 then state_code_11 n
     else if n < 208 then state_code_12 n
     else if n < 224 then state_code_13 n
     else if n < 240 then state_code_14 n
     else state_code_15 n)"

lemmas state_code_defs = state_code_def state_code_0_def state_code_1_def state_code_2_def state_code_3_def state_code_4_def state_code_5_def state_code_6_def state_code_7_def state_code_8_def state_code_9_def state_code_10_def state_code_11_def state_code_12_def state_code_13_def state_code_14_def state_code_15_def

definition byte_code_0 :: "nat \<Rightarrow> nat \<times> nat" where
  "byte_code_0 n =
    (if n = 0 then (13, 0x1FF8) else if n = 1 then (23, 0x7FFFD8) else if n = 2 then (28, 0xFFFFFE2)
     else if n = 3 then (28, 0xFFFFFE3) else if n = 4 then (28, 0xFFFFFE4)
     else if n = 5 then (28, 0xFFFFFE5) else if n = 6 then (28, 0xFFFFFE6)
     else if n = 7 then (28, 0xFFFFFE7) else if n = 8 then (28, 0xFFFFFE8)
     else if n = 9 then (24, 0xFFFFEA) else if n = 10 then (30, 0x3FFFFFFC)
     else if n = 11 then (28, 0xFFFFFE9) else if n = 12 then (28, 0xFFFFFEA)
     else if n = 13 then (30, 0x3FFFFFFD) else if n = 14 then (28, 0xFFFFFEB) else (28, 0xFFFFFEC))"

definition byte_code_1 :: "nat \<Rightarrow> nat \<times> nat" where
  "byte_code_1 n =
    (if n = 16 then (28, 0xFFFFFED) else if n = 17 then (28, 0xFFFFFEE)
     else if n = 18 then (28, 0xFFFFFEF) else if n = 19 then (28, 0xFFFFFF0)
     else if n = 20 then (28, 0xFFFFFF1) else if n = 21 then (28, 0xFFFFFF2)
     else if n = 22 then (30, 0x3FFFFFFE) else if n = 23 then (28, 0xFFFFFF3)
     else if n = 24 then (28, 0xFFFFFF4) else if n = 25 then (28, 0xFFFFFF5)
     else if n = 26 then (28, 0xFFFFFF6) else if n = 27 then (28, 0xFFFFFF7)
     else if n = 28 then (28, 0xFFFFFF8) else if n = 29 then (28, 0xFFFFFF9)
     else if n = 30 then (28, 0xFFFFFFA) else (28, 0xFFFFFFB))"

definition byte_code_2 :: "nat \<Rightarrow> nat \<times> nat" where
  "byte_code_2 n =
    (if n = 32 then (6, 20) else if n = 33 then (10, 0x3F8) else if n = 34 then (10, 0x3F9)
     else if n = 35 then (12, 0xFFA) else if n = 36 then (13, 0x1FF9) else if n = 37 then (6, 21)
     else if n = 38 then (8, 248) else if n = 39 then (11, 0x7FA) else if n = 40 then (10, 0x3FA)
     else if n = 41 then (10, 0x3FB) else if n = 42 then (8, 249) else if n = 43 then (11, 0x7FB)
     else if n = 44 then (8, 250) else if n = 45 then (6, 22) else if n = 46 then (6, 23) else (6, 24))"

definition byte_code_3 :: "nat \<Rightarrow> nat \<times> nat" where
  "byte_code_3 n =
    (if n = 48 then (5, 0) else if n = 49 then (5, 1) else if n = 50 then (5, 2)
     else if n = 51 then (6, 25) else if n = 52 then (6, 26) else if n = 53 then (6, 27)
     else if n = 54 then (6, 28) else if n = 55 then (6, 29) else if n = 56 then (6, 30)
     else if n = 57 then (6, 31) else if n = 58 then (7, 92) else if n = 59 then (8, 251)
     else if n = 60 then (15, 0x7FFC) else if n = 61 then (6, 32) else if n = 62 then (12, 0xFFB)
     else (10, 0x3FC))"

definition byte_code_4 :: "nat \<Rightarrow> nat \<times> nat" where
  "byte_code_4 n =
    (if n = 64 then (13, 0x1FFA) else if n = 65 then (6, 33) else if n = 66 then (7, 93)
     else if n = 67 then (7, 94) else if n = 68 then (7, 95) else if n = 69 then (7, 96)
     else if n = 70 then (7, 97) else if n = 71 then (7, 98) else if n = 72 then (7, 99)
     else if n = 73 then (7, 100) else if n = 74 then (7, 101) else if n = 75 then (7, 102)
     else if n = 76 then (7, 103) else if n = 77 then (7, 104) else if n = 78 then (7, 105) else (7, 106))"

definition byte_code_5 :: "nat \<Rightarrow> nat \<times> nat" where
  "byte_code_5 n =
    (if n = 80 then (7, 107) else if n = 81 then (7, 108) else if n = 82 then (7, 109)
     else if n = 83 then (7, 110) else if n = 84 then (7, 111) else if n = 85 then (7, 112)
     else if n = 86 then (7, 113) else if n = 87 then (7, 114) else if n = 88 then (8, 252)
     else if n = 89 then (7, 115) else if n = 90 then (8, 253) else if n = 91 then (13, 0x1FFB)
     else if n = 92 then (19, 0x7FFF0) else if n = 93 then (13, 0x1FFC) else if n = 94 then (14, 0x3FFC)
     else (6, 34))"

definition byte_code_6 :: "nat \<Rightarrow> nat \<times> nat" where
  "byte_code_6 n =
    (if n = 96 then (15, 0x7FFD) else if n = 97 then (5, 3) else if n = 98 then (6, 35)
     else if n = 99 then (5, 4) else if n = 100 then (6, 36) else if n = 101 then (5, 5)
     else if n = 102 then (6, 37) else if n = 103 then (6, 38) else if n = 104 then (6, 39)
     else if n = 105 then (5, 6) else if n = 106 then (7, 116) else if n = 107 then (7, 117)
     else if n = 108 then (6, 40) else if n = 109 then (6, 41) else if n = 110 then (6, 42) else (5, 7))"

definition byte_code_7 :: "nat \<Rightarrow> nat \<times> nat" where
  "byte_code_7 n =
    (if n = 112 then (6, 43) else if n = 113 then (7, 118) else if n = 114 then (6, 44)
     else if n = 115 then (5, 8) else if n = 116 then (5, 9) else if n = 117 then (6, 45)
     else if n = 118 then (7, 119) else if n = 119 then (7, 120) else if n = 120 then (7, 121)
     else if n = 121 then (7, 122) else if n = 122 then (7, 123) else if n = 123 then (15, 0x7FFE)
     else if n = 124 then (11, 0x7FC) else if n = 125 then (14, 0x3FFD) else if n = 126 then (13, 0x1FFD)
     else (28, 0xFFFFFFC))"

definition byte_code_8 :: "nat \<Rightarrow> nat \<times> nat" where
  "byte_code_8 n =
    (if n = 128 then (20, 0xFFFE6) else if n = 129 then (22, 0x3FFFD2) else if n = 130 then (20, 0xFFFE7)
     else if n = 131 then (20, 0xFFFE8) else if n = 132 then (22, 0x3FFFD3)
     else if n = 133 then (22, 0x3FFFD4) else if n = 134 then (22, 0x3FFFD5)
     else if n = 135 then (23, 0x7FFFD9) else if n = 136 then (22, 0x3FFFD6)
     else if n = 137 then (23, 0x7FFFDA) else if n = 138 then (23, 0x7FFFDB)
     else if n = 139 then (23, 0x7FFFDC) else if n = 140 then (23, 0x7FFFDD)
     else if n = 141 then (23, 0x7FFFDE) else if n = 142 then (24, 0xFFFFEB) else (23, 0x7FFFDF))"

definition byte_code_9 :: "nat \<Rightarrow> nat \<times> nat" where
  "byte_code_9 n =
    (if n = 144 then (24, 0xFFFFEC) else if n = 145 then (24, 0xFFFFED)
     else if n = 146 then (22, 0x3FFFD7) else if n = 147 then (23, 0x7FFFE0)
     else if n = 148 then (24, 0xFFFFEE) else if n = 149 then (23, 0x7FFFE1)
     else if n = 150 then (23, 0x7FFFE2) else if n = 151 then (23, 0x7FFFE3)
     else if n = 152 then (23, 0x7FFFE4) else if n = 153 then (21, 0x1FFFDC)
     else if n = 154 then (22, 0x3FFFD8) else if n = 155 then (23, 0x7FFFE5)
     else if n = 156 then (22, 0x3FFFD9) else if n = 157 then (23, 0x7FFFE6)
     else if n = 158 then (23, 0x7FFFE7) else (24, 0xFFFFEF))"

definition byte_code_10 :: "nat \<Rightarrow> nat \<times> nat" where
  "byte_code_10 n =
    (if n = 160 then (22, 0x3FFFDA) else if n = 161 then (21, 0x1FFFDD)
     else if n = 162 then (20, 0xFFFE9) else if n = 163 then (22, 0x3FFFDB)
     else if n = 164 then (22, 0x3FFFDC) else if n = 165 then (23, 0x7FFFE8)
     else if n = 166 then (23, 0x7FFFE9) else if n = 167 then (21, 0x1FFFDE)
     else if n = 168 then (23, 0x7FFFEA) else if n = 169 then (22, 0x3FFFDD)
     else if n = 170 then (22, 0x3FFFDE) else if n = 171 then (24, 0xFFFFF0)
     else if n = 172 then (21, 0x1FFFDF) else if n = 173 then (22, 0x3FFFDF)
     else if n = 174 then (23, 0x7FFFEB) else (23, 0x7FFFEC))"

definition byte_code_11 :: "nat \<Rightarrow> nat \<times> nat" where
  "byte_code_11 n =
    (if n = 176 then (21, 0x1FFFE0) else if n = 177 then (21, 0x1FFFE1)
     else if n = 178 then (22, 0x3FFFE0) else if n = 179 then (21, 0x1FFFE2)
     else if n = 180 then (23, 0x7FFFED) else if n = 181 then (22, 0x3FFFE1)
     else if n = 182 then (23, 0x7FFFEE) else if n = 183 then (23, 0x7FFFEF)
     else if n = 184 then (20, 0xFFFEA) else if n = 185 then (22, 0x3FFFE2)
     else if n = 186 then (22, 0x3FFFE3) else if n = 187 then (22, 0x3FFFE4)
     else if n = 188 then (23, 0x7FFFF0) else if n = 189 then (22, 0x3FFFE5)
     else if n = 190 then (22, 0x3FFFE6) else (23, 0x7FFFF1))"

definition byte_code_12 :: "nat \<Rightarrow> nat \<times> nat" where
  "byte_code_12 n =
    (if n = 192 then (26, 0x3FFFFE0) else if n = 193 then (26, 0x3FFFFE1)
     else if n = 194 then (20, 0xFFFEB) else if n = 195 then (19, 0x7FFF1)
     else if n = 196 then (22, 0x3FFFE7) else if n = 197 then (23, 0x7FFFF2)
     else if n = 198 then (22, 0x3FFFE8) else if n = 199 then (25, 0x1FFFFEC)
     else if n = 200 then (26, 0x3FFFFE2) else if n = 201 then (26, 0x3FFFFE3)
     else if n = 202 then (26, 0x3FFFFE4) else if n = 203 then (27, 0x7FFFFDE)
     else if n = 204 then (27, 0x7FFFFDF) else if n = 205 then (26, 0x3FFFFE5)
     else if n = 206 then (24, 0xFFFFF1) else (25, 0x1FFFFED))"

definition byte_code_13 :: "nat \<Rightarrow> nat \<times> nat" where
  "byte_code_13 n =
    (if n = 208 then (19, 0x7FFF2) else if n = 209 then (21, 0x1FFFE3)
     else if n = 210 then (26, 0x3FFFFE6) else if n = 211 then (27, 0x7FFFFE0)
     else if n = 212 then (27, 0x7FFFFE1) else if n = 213 then (26, 0x3FFFFE7)
     else if n = 214 then (27, 0x7FFFFE2) else if n = 215 then (24, 0xFFFFF2)
     else if n = 216 then (21, 0x1FFFE4) else if n = 217 then (21, 0x1FFFE5)
     else if n = 218 then (26, 0x3FFFFE8) else if n = 219 then (26, 0x3FFFFE9)
     else if n = 220 then (28, 0xFFFFFFD) else if n = 221 then (27, 0x7FFFFE3)
     else if n = 222 then (27, 0x7FFFFE4) else (27, 0x7FFFFE5))"

definition byte_code_14 :: "nat \<Rightarrow> nat \<times> nat" where
  "byte_code_14 n =
    (if n = 224 then (20, 0xFFFEC) else if n = 225 then (24, 0xFFFFF3) else if n = 226 then (20, 0xFFFED)
     else if n = 227 then (21, 0x1FFFE6) else if n = 228 then (22, 0x3FFFE9)
     else if n = 229 then (21, 0x1FFFE7) else if n = 230 then (21, 0x1FFFE8)
     else if n = 231 then (23, 0x7FFFF3) else if n = 232 then (22, 0x3FFFEA)
     else if n = 233 then (22, 0x3FFFEB) else if n = 234 then (25, 0x1FFFFEE)
     else if n = 235 then (25, 0x1FFFFEF) else if n = 236 then (24, 0xFFFFF4)
     else if n = 237 then (24, 0xFFFFF5) else if n = 238 then (26, 0x3FFFFEA) else (23, 0x7FFFF4))"

definition byte_code_15 :: "nat \<Rightarrow> nat \<times> nat" where
  "byte_code_15 n =
    (if n = 240 then (26, 0x3FFFFEB) else if n = 241 then (27, 0x7FFFFE6)
     else if n = 242 then (26, 0x3FFFFEC) else if n = 243 then (26, 0x3FFFFED)
     else if n = 244 then (27, 0x7FFFFE7) else if n = 245 then (27, 0x7FFFFE8)
     else if n = 246 then (27, 0x7FFFFE9) else if n = 247 then (27, 0x7FFFFEA)
     else if n = 248 then (27, 0x7FFFFEB) else if n = 249 then (28, 0xFFFFFFE)
     else if n = 250 then (27, 0x7FFFFEC) else if n = 251 then (27, 0x7FFFFED)
     else if n = 252 then (27, 0x7FFFFEE) else if n = 253 then (27, 0x7FFFFEF)
     else if n = 254 then (27, 0x7FFFFF0) else (26, 0x3FFFFEE))"

definition byte_code :: "nat \<Rightarrow> nat \<times> nat" where
  "byte_code n =
    (if n < 16 then byte_code_0 n
     else if n < 32 then byte_code_1 n
     else if n < 48 then byte_code_2 n
     else if n < 64 then byte_code_3 n
     else if n < 80 then byte_code_4 n
     else if n < 96 then byte_code_5 n
     else if n < 112 then byte_code_6 n
     else if n < 128 then byte_code_7 n
     else if n < 144 then byte_code_8 n
     else if n < 160 then byte_code_9 n
     else if n < 176 then byte_code_10 n
     else if n < 192 then byte_code_11 n
     else if n < 208 then byte_code_12 n
     else if n < 224 then byte_code_13 n
     else if n < 240 then byte_code_14 n
     else byte_code_15 n)"

lemmas byte_code_defs = byte_code_def byte_code_0_def byte_code_1_def byte_code_2_def byte_code_3_def byte_code_4_def byte_code_5_def byte_code_6_def byte_code_7_def byte_code_8_def byte_code_9_def byte_code_10_def byte_code_11_def byte_code_12_def byte_code_13_def byte_code_14_def byte_code_15_def

text \<open>A byte whose code goes on from each state, and the bytes in the order of their codes.\<close>

definition state_bytes :: "nat list" where
  "state_bytes = [
    0, 32, 48, 48, 48, 50, 99, 99, 105, 32, 32, 115, 32, 32, 45, 47, 47, 47, 52, 54, 54, 56, 0, 58,
    61, 61, 61, 95, 100, 100, 103, 58, 108, 108, 110, 58, 114, 58, 58, 67, 0, 69, 69, 69, 69, 71,
    73, 73, 75, 77, 77, 77, 79, 81, 81, 83, 0, 85, 85, 85, 87, 106, 106, 113, 0, 119, 119, 121, 0,
    38, 38, 44, 0, 88, 0, 33, 33, 40, 0, 39, 39, 0, 35, 35, 0, 0, 0, 64, 1, 93, 1, 94, 1, 60, 1, 1,
    92, 92, 92, 128, 128, 131, 131, 131, 184, 153, 224, 153, 153, 167, 1, 129, 176, 176, 176, 179,
    216, 216, 227, 129, 129, 129, 129, 133, 133, 136, 154, 154, 154, 160, 164, 164, 170, 1, 1, 178,
    178, 178, 185, 187, 187, 190, 1, 198, 198, 232, 1, 1, 1, 137, 139, 139, 141, 2, 147, 147, 147,
    147, 150, 152, 152, 157, 165, 165, 165, 168, 175, 175, 182, 2, 9, 188, 188, 197, 9, 9, 9, 144,
    144, 148, 2, 171, 171, 171, 215, 199, 236, 199, 199, 234, 2, 192, 192, 192, 192, 200, 202, 202,
    210, 203, 218, 218, 238, 203, 242, 203, 203, 2, 211, 211, 211, 211, 214, 222, 222, 241, 245,
    245, 245, 247, 250, 250, 252, 2, 2, 2, 2, 2, 4, 4, 6, 8, 8, 8, 12, 15, 15, 17, 10, 19, 19, 19,
    21, 24, 24, 26, 10, 28, 28, 30, 10, 127, 10, 10, 10, 22]"

definition code_order :: "nat list" where
  "code_order = [
    48, 49, 50, 97, 99, 101, 105, 111, 115, 116, 32, 37, 45, 46, 47, 51, 52, 53, 54, 55, 56, 57,
    61, 65, 95, 98, 100, 102, 103, 104, 108, 109, 110, 112, 114, 117, 58, 66, 67, 68, 69, 70, 71,
    72, 73, 74, 75, 76, 77, 78, 79, 80, 81, 82, 83, 84, 85, 86, 87, 89, 106, 107, 113, 118, 119,
    120, 121, 122, 38, 42, 44, 59, 88, 90, 33, 34, 40, 41, 63, 39, 43, 124, 35, 62, 0, 36, 64, 91,
    93, 126, 94, 125, 60, 96, 123, 92, 195, 208, 128, 130, 131, 162, 184, 194, 224, 226, 153, 161,
    167, 172, 176, 177, 179, 209, 216, 217, 227, 229, 230, 129, 132, 133, 134, 136, 146, 154, 156,
    160, 163, 164, 169, 170, 173, 178, 181, 185, 186, 187, 189, 190, 196, 198, 228, 232, 233, 1,
    135, 137, 138, 139, 140, 141, 143, 147, 149, 150, 151, 152, 155, 157, 158, 165, 166, 168, 174,
    175, 180, 182, 183, 188, 191, 197, 231, 239, 9, 142, 144, 145, 148, 159, 171, 206, 215, 225,
    236, 237, 199, 207, 234, 235, 192, 193, 200, 201, 202, 205, 210, 213, 218, 219, 238, 240, 242,
    243, 255, 203, 204, 211, 212, 214, 221, 222, 223, 241, 244, 245, 246, 247, 248, 250, 251, 252,
    253, 254, 2, 3, 4, 5, 6, 7, 8, 11, 12, 14, 15, 16, 17, 18, 19, 20, 21, 23, 24, 25, 26, 27, 28,
    29, 30, 31, 127, 220, 249, 10, 13, 22]"

section \<open>The checks\<close>

definition EOS :: nat where
  "EOS = 2 ^ 30 - 1"

fun codes_agree :: "nat \<Rightarrow> (nat \<times> nat) list \<Rightarrow> bool" where
  "codes_agree k [] = True"
| "codes_agree k ((n, c) # xs) = (byte_code k = (n, c) \<and> 5 \<le> n \<and> n \<le> 30 \<and> c < 2 ^ n \<and> codes_agree (k + 1) xs)"

definition transition_ok :: "nat \<Rightarrow> nat \<Rightarrow> nat \<times> nat \<times> nat \<Rightarrow> bool" where
  "transition_ok st nib e =
    (let (next, byte, flags) = e; (l, v) = state_code st; len = l + 4; val = v * 16 + nib in
     if flags AND ERROR = ERROR then 30 \<le> len \<and> val div 2 ^ (len - 30) = EOS
     else let (l', v') = state_code next in
       next < 256 \<and> (flags AND MAYBE_EOS = MAYBE_EOS \<longleftrightarrow> 1 \<le> l' \<and> l' \<le> 7 \<and> v' = 2 ^ l' - 1)
       \<and> (if flags AND DECODED = DECODED
          then byte < 256 \<and> (let (n, c) = byte_code byte in len = n + l' \<and> val = c * 2 ^ l' + v')
          else len = l' \<and> val = v'))"

fun row_ok :: "nat \<Rightarrow> nat \<Rightarrow> (nat \<times> nat \<times> nat) list \<Rightarrow> bool" where
  "row_ok st nib [] \<longleftrightarrow> nib = 16"
| "row_ok st nib (e # es) \<longleftrightarrow> transition_ok st nib e \<and> row_ok st (nib + 1) es"

fun rows_ok :: "nat \<Rightarrow> (nat \<times> nat \<times> nat) list list \<Rightarrow> bool" where
  "rows_ok st [] \<longleftrightarrow> True"
| "rows_ok st (r # rs) \<longleftrightarrow> row_ok st 0 r \<and> rows_ok (st + 1) rs"

lemma rows_ok_0: "rows_ok 0 DECODE_TABLE_0 \<and> length DECODE_TABLE_0 = 16"
  by (simp add: DECODE_TABLE_0_def transition_ok_def state_code_defs byte_code_defs ERROR_def MAYBE_EOS_def DECODED_def EOS_def
      del: One_nat_def)

lemma rows_ok_1: "rows_ok 16 DECODE_TABLE_1 \<and> length DECODE_TABLE_1 = 16"
  by (simp add: DECODE_TABLE_1_def transition_ok_def state_code_defs byte_code_defs ERROR_def MAYBE_EOS_def DECODED_def EOS_def
      del: One_nat_def)

lemma rows_ok_2: "rows_ok 32 DECODE_TABLE_2 \<and> length DECODE_TABLE_2 = 16"
  by (simp add: DECODE_TABLE_2_def transition_ok_def state_code_defs byte_code_defs ERROR_def MAYBE_EOS_def DECODED_def EOS_def
      del: One_nat_def)

lemma rows_ok_3: "rows_ok 48 DECODE_TABLE_3 \<and> length DECODE_TABLE_3 = 16"
  by (simp add: DECODE_TABLE_3_def transition_ok_def state_code_defs byte_code_defs ERROR_def MAYBE_EOS_def DECODED_def EOS_def
      del: One_nat_def)

lemma rows_ok_4: "rows_ok 64 DECODE_TABLE_4 \<and> length DECODE_TABLE_4 = 16"
  by (simp add: DECODE_TABLE_4_def transition_ok_def state_code_defs byte_code_defs ERROR_def MAYBE_EOS_def DECODED_def EOS_def
      del: One_nat_def)

lemma rows_ok_5: "rows_ok 80 DECODE_TABLE_5 \<and> length DECODE_TABLE_5 = 16"
  by (simp add: DECODE_TABLE_5_def transition_ok_def state_code_defs byte_code_defs ERROR_def MAYBE_EOS_def DECODED_def EOS_def
      del: One_nat_def)

lemma rows_ok_6: "rows_ok 96 DECODE_TABLE_6 \<and> length DECODE_TABLE_6 = 16"
  by (simp add: DECODE_TABLE_6_def transition_ok_def state_code_defs byte_code_defs ERROR_def MAYBE_EOS_def DECODED_def EOS_def
      del: One_nat_def)

lemma rows_ok_7: "rows_ok 112 DECODE_TABLE_7 \<and> length DECODE_TABLE_7 = 16"
  by (simp add: DECODE_TABLE_7_def transition_ok_def state_code_defs byte_code_defs ERROR_def MAYBE_EOS_def DECODED_def EOS_def
      del: One_nat_def)

lemma rows_ok_8: "rows_ok 128 DECODE_TABLE_8 \<and> length DECODE_TABLE_8 = 16"
  by (simp add: DECODE_TABLE_8_def transition_ok_def state_code_defs byte_code_defs ERROR_def MAYBE_EOS_def DECODED_def EOS_def
      del: One_nat_def)

lemma rows_ok_9: "rows_ok 144 DECODE_TABLE_9 \<and> length DECODE_TABLE_9 = 16"
  by (simp add: DECODE_TABLE_9_def transition_ok_def state_code_defs byte_code_defs ERROR_def MAYBE_EOS_def DECODED_def EOS_def
      del: One_nat_def)

lemma rows_ok_10: "rows_ok 160 DECODE_TABLE_10 \<and> length DECODE_TABLE_10 = 16"
  by (simp add: DECODE_TABLE_10_def transition_ok_def state_code_defs byte_code_defs ERROR_def MAYBE_EOS_def DECODED_def EOS_def
      del: One_nat_def)

lemma rows_ok_11: "rows_ok 176 DECODE_TABLE_11 \<and> length DECODE_TABLE_11 = 16"
  by (simp add: DECODE_TABLE_11_def transition_ok_def state_code_defs byte_code_defs ERROR_def MAYBE_EOS_def DECODED_def EOS_def
      del: One_nat_def)

lemma rows_ok_12: "rows_ok 192 DECODE_TABLE_12 \<and> length DECODE_TABLE_12 = 16"
  by (simp add: DECODE_TABLE_12_def transition_ok_def state_code_defs byte_code_defs ERROR_def MAYBE_EOS_def DECODED_def EOS_def
      del: One_nat_def)

lemma rows_ok_13: "rows_ok 208 DECODE_TABLE_13 \<and> length DECODE_TABLE_13 = 16"
  by (simp add: DECODE_TABLE_13_def transition_ok_def state_code_defs byte_code_defs ERROR_def MAYBE_EOS_def DECODED_def EOS_def
      del: One_nat_def)

lemma rows_ok_14: "rows_ok 224 DECODE_TABLE_14 \<and> length DECODE_TABLE_14 = 16"
  by (simp add: DECODE_TABLE_14_def transition_ok_def state_code_defs byte_code_defs ERROR_def MAYBE_EOS_def DECODED_def EOS_def
      del: One_nat_def)

lemma rows_ok_15: "rows_ok 240 DECODE_TABLE_15 \<and> length DECODE_TABLE_15 = 16"
  by (simp add: DECODE_TABLE_15_def transition_ok_def state_code_defs byte_code_defs ERROR_def MAYBE_EOS_def DECODED_def EOS_def
      del: One_nat_def)

lemma rows_ok_append: "rows_ok st (xs @ ys) \<longleftrightarrow> rows_ok st xs \<and> rows_ok (st + length xs) ys"
  by (induction xs arbitrary: st) auto

lemma rows_ok_all: "rows_ok 0 DECODE_TABLE" "length DECODE_TABLE = 256"
  unfolding DECODE_TABLE_def
  by (simp_all add: rows_ok_append rows_ok_0 [simplified] rows_ok_1 [simplified] rows_ok_2 [simplified] rows_ok_3 [simplified] rows_ok_4 [simplified] rows_ok_5 [simplified] rows_ok_6 [simplified] rows_ok_7 [simplified] rows_ok_8 [simplified] rows_ok_9 [simplified] rows_ok_10 [simplified] rows_ok_11 [simplified] rows_ok_12 [simplified] rows_ok_13 [simplified] rows_ok_14 [simplified] rows_ok_15 [simplified])

lemma codes_agree_all: "codes_agree 0 (butlast ENCODE_TABLE) \<and> length ENCODE_TABLE = 257"
  by (simp add: ENCODE_TABLE_def byte_code_defs del: One_nat_def)

fun states_ok :: "nat \<Rightarrow> nat list \<Rightarrow> bool" where
  "states_ok st [] \<longleftrightarrow> st = 256"
| "states_ok st (b # bs) \<longleftrightarrow>
    (let (l, v) = state_code st; (n, c) = byte_code b in
     b < 256 \<and> l < n \<and> v < 2 ^ l \<and> c div 2 ^ (n - l) = v \<and> (l = 0 \<longrightarrow> st = 0)) \<and> states_ok (st + 1) bs"

lemma states_ok_all: "states_ok 0 state_bytes"
  by (simp add: state_bytes_def state_code_defs byte_code_defs del: One_nat_def)

fun chain_ok :: "nat \<Rightarrow> nat list \<Rightarrow> bool" where
  "chain_ok low [] \<longleftrightarrow> low \<le> EOS"
| "chain_ok low (b # bs) \<longleftrightarrow>
    (let (n, c) = byte_code b in low \<le> c * 2 ^ (30 - n) \<and> chain_ok ((c + 1) * 2 ^ (30 - n)) bs)"

lemma chain_ok_all: "chain_ok 0 code_order"
  by (simp add: code_order_def byte_code_defs EOS_def)

lemma code_order_bound: "list_all (\<lambda>b. b < 256) code_order \<and> length code_order = 256"
  by (simp add: code_order_def)

end
