(* ===== verification/Huffman_Roundtrip.thy ===== *)
theory Huffman_Roundtrip
  imports Huffman_Code
begin

text \<open>
  The Huffman decoder and encoder of \<open>src/vendor/h2/src/hpack/huffman/mod.rs\<close> are inverse
  to each other: what the encoder writes is decoded to what was encoded, and nothing else is
  decoded to it.
\<close>

section \<open>Bits\<close>

definition bits :: "nat \<Rightarrow> nat \<Rightarrow> bool list" where
  "bits n v = map (\<lambda>i. odd (v div 2 ^ i)) (rev [0..<n])"

lemma length_bits [simp]: "length (bits n v) = n"
  by (simp add: bits_def)

lemma bits_0 [simp]: "bits 0 v = []"
  by (simp add: bits_def)

lemma bits_Suc: "bits (Suc n) v = odd (v div 2 ^ n) # bits n v"
  by (simp add: bits_def)

lemma bits_append: "b < 2 ^ n \<Longrightarrow> bits (m + n) (a * 2 ^ n + b) = bits m a @ bits n b"
proof (induction m)
  case 0
  have "odd ((a * 2 ^ n + b) div 2 ^ i) = odd (b div 2 ^ i)" if "i < n" for i
  proof -
    have "a * 2 ^ n = 2 ^ i * (2 * (a * 2 ^ (n - Suc i)))"
      using that by (simp add: power_add [symmetric] flip: power_Suc mult.assoc)
    then have "(a * 2 ^ n + b) div 2 ^ i = 2 * (a * 2 ^ (n - Suc i)) + b div 2 ^ i"
      by (metis div_mult_self4 power_not_zero zero_neq_numeral)
    then show ?thesis by simp
  qed
  then show ?case
    by (simp add: bits_def)
next
  case (Suc m)
  have "(a * 2 ^ n + b) div 2 ^ (m + n) = a div 2 ^ m"
    using Suc.prems by (simp add: power_add add.commute [of m] div_mult2_eq)
  then show ?case
    using Suc by (simp add: bits_Suc)
qed

lemma bits_mod: "bits n (v mod 2 ^ n) = bits n v"
  using bits_append [of "v mod 2 ^ n" n 0 "v div 2 ^ n"] by (simp add: div_mult_mod_eq)

lemma bits_inj: "a < 2 ^ n \<Longrightarrow> b < 2 ^ n \<Longrightarrow> bits n a = bits n b \<Longrightarrow> a = b"
proof (induction n arbitrary: a b)
  case (Suc n)
  have eq: "bits n (a mod 2 ^ n) = bits n (b mod 2 ^ n)" "odd (a div 2 ^ n) = odd (b div 2 ^ n)"
    using Suc.prems(3) by (simp_all add: bits_Suc bits_mod)
  have "a mod 2 ^ n = b mod 2 ^ n"
    using eq(1) by (intro Suc.IH) simp_all
  moreover have "a div 2 ^ n < 2" "b div 2 ^ n < 2"
    using Suc.prems by (simp_all add: less_mult_imp_div_less mult.commute)
  then have "a div 2 ^ n = b div 2 ^ n"
    using eq(2) by (metis (no_types) One_nat_def even_zero less_2_cases odd_one)
  ultimately show ?case
    by (metis div_mult_mod_eq)
qed simp

lemma bits_ones: "bits n (2 ^ n - 1) = replicate n True"
proof -
  have "odd ((2 ^ n - 1) div 2 ^ i :: nat)" if "i < n" for i
  proof -
    have "(2 :: nat) ^ n - 1 = (2 ^ (n - i) - 1) * 2 ^ i + (2 ^ i - 1)"
      using that by (simp add: diff_mult_distrib power_add [symmetric])
    then have "((2 :: nat) ^ n - 1) div 2 ^ i = 2 ^ (n - i) - 1 + (2 ^ i - 1) div 2 ^ i"
      by (metis div_mult_self3 power_not_zero zero_neq_numeral)
    then have "((2 :: nat) ^ n - 1) div 2 ^ i = 2 ^ (n - i) - 1"
      by simp
    then show ?thesis
      using that by simp
  qed
  then have "map (\<lambda>i. odd ((2 ^ n - 1 :: nat) div 2 ^ i)) (rev [0..<n]) = map (\<lambda>_. True) (rev [0..<n])"
    by (intro map_cong) auto
  then show ?thesis
    by (simp add: bits_def map_replicate_const)
qed

lemma bits_prefix: "m \<le> n \<Longrightarrow> take m (bits n v) = bits m (v div 2 ^ (n - m))"
  using bits_append [of "v mod 2 ^ (n - m)" "n - m" m "v div 2 ^ (n - m)"]
  by (simp add: div_mult_mod_eq)

section \<open>Codes\<close>

definition code_bits :: "u8 \<Rightarrow> bool list" where
  "code_bits b = (case byte_code (unat b) of (n, c) \<Rightarrow> bits n c)"

definition state_bits :: "nat \<Rightarrow> bool list" where
  "state_bits st = (case state_code st of (l, v) \<Rightarrow> bits l v)"

definition string_codes :: "octets \<Rightarrow> bool list" where
  "string_codes s = concat (map code_bits s)"

lemma string_codes_simps [simp]:
  "string_codes [] = []" "string_codes (b # s) = code_bits b @ string_codes s" "string_codes (s @ s') = string_codes s @ string_codes s'"
  by (simp_all add: string_codes_def)

lemma codes_agree_nth:
  "codes_agree k xs \<Longrightarrow> i < length xs \<Longrightarrow>
    byte_code (k + i) = xs ! i \<and> 5 \<le> fst (xs ! i) \<and> fst (xs ! i) \<le> 30 \<and> snd (xs ! i) < 2 ^ fst (xs ! i)"
proof (induction k xs arbitrary: i rule: codes_agree.induct)
  case (2 k n c xs)
  then show ?case
    by (cases i) auto
qed simp

lemma byte_code_ok:
  assumes "b < 256"
  shows "ENCODE_TABLE ! b = byte_code b" "5 \<le> fst (byte_code b)" "fst (byte_code b) \<le> 30"
    "snd (byte_code b) < 2 ^ fst (byte_code b)"
  using codes_agree_nth [of 0 "butlast ENCODE_TABLE" b] codes_agree_all assms by (simp_all add: nth_butlast)

lemma unat_u8_less: "unat (b :: u8) < 256"
  by simp

text \<open>The interval of the numbers of thirty bits that begin with a code.\<close>

definition code_low :: "nat \<Rightarrow> nat" where
  "code_low b = (case byte_code b of (n, c) \<Rightarrow> c * 2 ^ (30 - n))"

definition code_high :: "nat \<Rightarrow> nat" where
  "code_high b = (case byte_code b of (n, c) \<Rightarrow> (c + 1) * 2 ^ (30 - n))"

lemma code_low_high: "code_low b < code_high b"
  by (simp add: code_low_def code_high_def split: prod.splits)

lemma chain_ok_Cons: "chain_ok low (b # bs) \<longleftrightarrow> low \<le> code_low b \<and> chain_ok (code_high b) bs"
  by (simp add: code_low_def code_high_def split: prod.splits)

lemma chain_ok_EOS: "chain_ok low bs \<Longrightarrow> low \<le> EOS"
proof (induction bs arbitrary: low)
  case (Cons b bs)
  then show ?case
    using code_low_high [of b] by (fastforce simp only: chain_ok_Cons)
qed simp

lemma chain_ok_low: "chain_ok low bs \<Longrightarrow> b \<in> set bs \<Longrightarrow> low \<le> code_low b \<and> code_high b \<le> EOS"
proof (induction bs arbitrary: low)
  case (Cons a bs)
  have low: "low \<le> code_low a" and rest: "chain_ok (code_high a) bs"
    using Cons.prems(1) unfolding chain_ok_Cons by simp_all
  show ?case
    using Cons.IH [OF rest] Cons.prems(2) low chain_ok_EOS [OF rest] code_low_high [of a] by auto
qed simp

lemma chain_ok_disjoint:
  "chain_ok low bs \<Longrightarrow> a \<in> set bs \<Longrightarrow> b \<in> set bs \<Longrightarrow> a = b \<or> code_high a \<le> code_low b \<or> code_high b \<le> code_low a"
proof (induction bs arbitrary: low)
  case (Cons x bs)
  have rest: "chain_ok (code_high x) bs"
    using Cons.prems(1) unfolding chain_ok_Cons by simp
  show ?case
    using Cons.IH [OF rest] Cons.prems(2,3) chain_ok_low [OF rest] by auto
qed simp

lemma chain_ok_distinct: "chain_ok low bs \<Longrightarrow> distinct bs"
proof (induction bs arbitrary: low)
  case (Cons x bs)
  have rest: "chain_ok (code_high x) bs"
    using Cons.prems unfolding chain_ok_Cons by simp
  show ?case
    using Cons.IH [OF rest] chain_ok_low [OF rest, of x] code_low_high [of x] by auto
qed simp

lemma code_order_all: "set code_order = {..<256}"
proof (rule card_subset_eq)
  show "set code_order \<subseteq> {..<256}"
    using code_order_bound by (auto simp: list_all_iff)
  show "card (set code_order) = card {..<256 :: nat}"
    using code_order_bound chain_ok_distinct [OF chain_ok_all] by (simp add: distinct_card)
qed simp

lemma code_disjoint:
  "a < 256 \<Longrightarrow> b < 256 \<Longrightarrow> a = b \<or> code_high a \<le> code_low b \<or> code_high b \<le> code_low a"
  using chain_ok_disjoint [OF chain_ok_all, of a b] by (simp add: code_order_all)

lemma code_high_EOS: "b < 256 \<Longrightarrow> code_high b \<le> EOS"
  using chain_ok_low [OF chain_ok_all, of b] by (simp add: code_order_all)

text \<open>No code begins another code, and no code is a run of ones.\<close>

lemma code_bits_prefix:
  assumes "code_bits a @ xs = code_bits b @ ys"
  shows "a = b"
proof -
  have len: "a = b" if "length (code_bits a) \<le> length (code_bits b)" "code_bits a @ xs = code_bits b @ ys" for a b xs ys
  proof -
    obtain n c where a: "byte_code (unat a) = (n, c)" by fastforce
    obtain m e where b: "byte_code (unat b) = (m, e)" by fastforce
    have bounds: "c < 2 ^ n" "e < 2 ^ m" "m \<le> 30"
      using byte_code_ok [OF unat_u8_less [of a]] byte_code_ok [OF unat_u8_less [of b]] a b by simp_all
    have le: "n \<le> m" and "take n (code_bits b) = code_bits a"
      using that by (auto simp: code_bits_def a b append_eq_append_conv_if)
    then have "bits n (e div 2 ^ (m - n)) = bits n c"
      using bits_prefix [OF le, of e] by (simp add: code_bits_def a b)
    moreover have "e div 2 ^ (m - n) < 2 ^ n"
      using bounds le by (simp add: less_mult_imp_div_less power_add [symmetric])
    ultimately have c: "c = e div 2 ^ (m - n)"
      using bits_inj bounds(1) by metis
    have "(2 :: nat) ^ (30 - n) = 2 ^ (m - n) * 2 ^ (30 - m)"
      using le bounds(3) by (simp add: power_add [symmetric])
    then have "code_low (unat a) = c * 2 ^ (m - n) * 2 ^ (30 - m)" "code_high (unat a) = (c + 1) * 2 ^ (m - n) * 2 ^ (30 - m)"
      "code_low (unat b) = e * 2 ^ (30 - m)"
      by (simp_all only: code_low_def code_high_def a b prod.case mult.assoc)
    moreover have "c * 2 ^ (m - n) \<le> e" "e < (c + 1) * 2 ^ (m - n)"
      using c by (simp_all add: div_times_less_eq_dividend dividend_less_div_times)
    ultimately have "code_low (unat a) \<le> code_low (unat b)" "code_low (unat b) < code_high (unat a)"
      by (simp_all only: mult_le_mono1 mult_less_mono1 zero_less_power zero_less_numeral)
    then have "unat a = unat b"
      using code_disjoint [OF unat_u8_less [of a] unat_u8_less [of b]] code_low_high [of "unat b"] by linarith
    then show ?thesis by (simp add: word_unat_eq_iff)
  qed
  show ?thesis
    using len [OF _ assms] len [OF _ assms [symmetric]] by (metis nat_le_linear)
qed

lemma code_bits_ones:
  assumes "code_bits b @ xs = replicate k True @ ys" "length (code_bits b) \<le> k"
  shows False
proof -
  obtain n c where b: "byte_code (unat b) = (n, c)" by fastforce
  have bounds: "c < 2 ^ n" "n \<le> 30"
    using byte_code_ok [OF unat_u8_less [of b]] b by simp_all
  have "take n (code_bits b @ xs) = take n (replicate k True @ ys)"
    using assms(1) by simp
  moreover have "n \<le> k"
    using assms(2) by (simp add: code_bits_def b)
  ultimately have "bits n c = bits n (2 ^ n - 1)"
    unfolding bits_ones by (simp add: code_bits_def b)
  then have "c = 2 ^ n - 1"
    using bits_inj [of c n "2 ^ n - 1"] bounds by simp
  then have "c + 1 = 2 ^ n"
    by simp
  then have "code_high (unat b) = 2 ^ n * 2 ^ (30 - n)"
    by (simp only: code_high_def b prod.case)
  then have "code_high (unat b) = 2 ^ 30"
    using bounds(2) by (simp add: power_add [symmetric])
  then show False
    using code_high_EOS [OF unat_u8_less [of b]] by (simp add: EOS_def)
qed

section \<open>The decoder\<close>

definition octet_bits :: "u8 \<Rightarrow> bool list" where
  "octet_bits b = bits 8 (unat b)"

definition octet_stream :: "octets \<Rightarrow> bool list" where
  "octet_stream src = concat (map octet_bits src)"

lemma octet_stream_simps [simp]: "octet_stream [] = []" "octet_stream (b # src) = octet_bits b @ octet_stream src" "octet_stream (s @ t) = octet_stream s @ octet_stream t"
  by (simp_all add: octet_stream_def)

lemma length_octet_stream: "length (octet_stream src) = 8 * length src"
  by (induction src) (simp_all add: octet_bits_def)

lemma octet_bits_inj: "octet_bits a = octet_bits b \<Longrightarrow> a = b"
  using bits_inj [of "unat a" 8 "unat b"] by (simp add: octet_bits_def word_unat_eq_iff)

lemma octet_stream_inj: "octet_stream a = octet_stream b \<Longrightarrow> a = b"
proof (induction a arbitrary: b)
  case Nil
  then show ?case
    using length_octet_stream [of b] by simp
next
  case (Cons x a)
  then have "length b = length (x # a)"
    using length_octet_stream [of b] length_octet_stream [of "x # a"] by simp
  then obtain y b' where b: "b = y # b'"
    by (cases b) auto
  then have "octet_bits x = octet_bits y \<and> octet_stream a = octet_stream b'"
    using Cons.prems by (simp add: octet_bits_def)
  then show ?case
    using Cons.IH octet_bits_inj b by blast
qed

lemma nibbles: "octet_bits b = bits 4 (unat (drop_bit 4 b)) @ bits 4 (unat (b AND 0xF))"
proof -
  have "unat (drop_bit 4 b) = unat b div 2 ^ 4"
    by (simp only: unat_drop_bit_eq) (simp add: drop_bit_eq_div)
  moreover have "b AND 0xF = take_bit 4 b"
    by (simp add: take_bit_eq_mask mask_eq_exp_minus_1)
  then have "unat (b AND 0xF) = unat b mod 2 ^ 4"
    by (simp only: unat_take_bit)
  ultimately show ?thesis
    using bits_append [of "unat b mod 2 ^ 4" 4 4 "unat b div 2 ^ 4"] by (simp add: octet_bits_def div_mult_mod_eq)
qed

lemma nibble_less: "unat (drop_bit 4 (b :: u8)) < 16" "unat ((b :: u8) AND 0xF) < 16"
proof -
  have "b AND 0xF = take_bit 4 b"
    by (simp add: take_bit_eq_mask mask_eq_exp_minus_1)
  then show "unat (b AND 0xF) < 16"
    by (simp only: unat_take_bit) simp
  have "unat (drop_bit 4 b) = unat b div 16"
    by (simp only: unat_drop_bit_eq) (simp add: drop_bit_eq_div)
  then show "unat (drop_bit 4 b) < 16"
    using unat_u8_less [of b] by (simp add: less_mult_imp_div_less)
qed

lemma row_ok_nth: "row_ok st k es \<Longrightarrow> i < length es \<Longrightarrow> transition_ok st (k + i) (es ! i)"
proof (induction es arbitrary: k i)
  case (Cons e es)
  then show ?case
    using Cons.IH [of "k + 1" "i - 1"] by (cases i) auto
qed simp

lemma row_ok_length: "row_ok st k es \<Longrightarrow> k + length es = 16"
  by (induction es arbitrary: k) fastforce+

lemma rows_ok_nth: "rows_ok k rs \<Longrightarrow> i < length rs \<Longrightarrow> row_ok (k + i) 0 (rs ! i)"
proof (induction rs arbitrary: k i)
  case (Cons r rs)
  then show ?case
    using Cons.IH [of "k + 1" "i - 1"] by (cases i) auto
qed simp

lemma transition: "st < 256 \<Longrightarrow> nib < 16 \<Longrightarrow> transition_ok st nib (DECODE_TABLE ! st ! nib)"
  using rows_ok_nth [OF rows_ok_all(1), of st] row_ok_nth [of st 0 "DECODE_TABLE ! st" nib]
    row_ok_length [of st 0 "DECODE_TABLE ! st"] rows_ok_all(2) by simp

definition ones :: "bool list \<Rightarrow> bool" where
  "ones xs \<longleftrightarrow> xs = replicate (length xs) True"

lemma states_ok_nth:
  "states_ok k bs \<Longrightarrow> k \<le> st \<Longrightarrow> st < 256 \<Longrightarrow> \<exists>b. b < 256 \<and> fst (state_code st) < fst (byte_code b)
    \<and> snd (state_code st) < 2 ^ fst (state_code st)
    \<and> snd (byte_code b) div 2 ^ (fst (byte_code b) - fst (state_code st)) = snd (state_code st)
    \<and> (fst (state_code st) = 0 \<longrightarrow> st = 0)"
proof (induction k bs rule: states_ok.induct)
  case (2 k b bs)
  then show ?case
    by (cases "k = st") (auto simp: Let_def split: prod.splits)
qed simp

lemma state_ok:
  assumes "st < 256"
  obtains b xs where "xs \<noteq> []" "code_bits b = state_bits st @ xs"
    "snd (state_code st) < 2 ^ fst (state_code st)" "state_bits st = [] \<longrightarrow> st = 0"
proof -
  obtain k where k: "k < 256" "fst (state_code st) < fst (byte_code k)" "snd (state_code st) < 2 ^ fst (state_code st)"
    "snd (byte_code k) div 2 ^ (fst (byte_code k) - fst (state_code st)) = snd (state_code st)"
    "fst (state_code st) = 0 \<longrightarrow> st = 0"
    using states_ok_nth [OF states_ok_all _ assms] by auto
  define b :: u8 where "b = of_nat k"
  have b: "unat b = k"
    using k(1) by (simp add: b_def)
  have "take (fst (state_code st)) (code_bits b) = state_bits st"
    using k(2,4) bits_prefix [of "fst (state_code st)" "fst (byte_code k)" "snd (byte_code k)"]
    by (simp add: code_bits_def state_bits_def b case_prod_beta)
  moreover have "length (code_bits b) = fst (byte_code k)"
    by (simp add: code_bits_def b split: prod.splits)
  moreover have "length (state_bits st) = fst (state_code st)"
    by (simp add: state_bits_def split: prod.splits)
  ultimately show ?thesis
    using k append_take_drop_id [of "fst (state_code st)" "code_bits b"]
    by (intro that [of "drop (fst (state_code st)) (code_bits b)" b]) auto
qed

text \<open>What a transition means for the bits.\<close>

lemma transition_bits:
  assumes "st < 256" "nib < 16" "DECODE_TABLE ! st ! nib = (next, byte, flags)"
  shows "flags AND ERROR = ERROR \<Longrightarrow> \<exists>xs. state_bits st @ bits 4 nib = replicate 30 True @ xs"
    "flags AND ERROR \<noteq> ERROR \<Longrightarrow> next < 256
      \<and> (flags AND MAYBE_EOS = MAYBE_EOS \<longleftrightarrow> 1 \<le> length (state_bits next) \<and> length (state_bits next) \<le> 7 \<and> ones (state_bits next))
      \<and> state_bits st @ bits 4 nib
        = (if flags AND DECODED = DECODED then code_bits (of_nat byte) else []) @ state_bits next"
proof -
  obtain l v where st: "state_code st = (l, v)" by fastforce
  have ok: "transition_ok st nib (next, byte, flags)"
    using transition [OF assms(1,2)] assms(3) by simp
  have sum: "state_bits st @ bits 4 nib = bits (l + 4) (v * 16 + nib)"
    using bits_append [of nib 4 l v] assms(2) by (simp add: state_bits_def st)
  show "\<exists>xs. state_bits st @ bits 4 nib = replicate 30 True @ xs" if "flags AND ERROR = ERROR"
  proof -
    have le: "30 \<le> l + 4" and eos: "(v * 16 + nib) div 2 ^ (l + 4 - 30) = EOS"
      using ok that by (simp_all add: transition_ok_def st Let_def)
    have "take 30 (state_bits st @ bits 4 nib) = bits 30 (2 ^ 30 - 1)"
      unfolding sum bits_prefix [OF le] eos EOS_def ..
    then show ?thesis
      unfolding bits_ones by (metis append_take_drop_id)
  qed
  show "next < 256
      \<and> (flags AND MAYBE_EOS = MAYBE_EOS \<longleftrightarrow> 1 \<le> length (state_bits next) \<and> length (state_bits next) \<le> 7 \<and> ones (state_bits next))
      \<and> state_bits st @ bits 4 nib
        = (if flags AND DECODED = DECODED then code_bits (of_nat byte) else []) @ state_bits next"
    if ne: "flags AND ERROR \<noteq> ERROR"
  proof -
    obtain l' v' where next': "state_code next = (l', v')" by fastforce
    have all: "next < 256 \<and> (flags AND MAYBE_EOS = MAYBE_EOS \<longleftrightarrow> 1 \<le> l' \<and> l' \<le> 7 \<and> v' = 2 ^ l' - 1)
        \<and> (if flags AND DECODED = DECODED
           then byte < 256 \<and> (let (n, c) = byte_code byte in l + 4 = n + l' \<and> v * 16 + nib = c * 2 ^ l' + v')
           else l + 4 = l' \<and> v * 16 + nib = v')"
      using ok [unfolded transition_ok_def st next' Let_def prod.case if_not_P [OF ne]] unfolding Let_def .
    note n = conjunct1 [OF all] and m = conjunct1 [OF conjunct2 [OF all]] and d = conjunct2 [OF conjunct2 [OF all]]
    have v': "v' < 2 ^ l'"
      using state_ok [OF n] next' by auto
    have "ones (bits l' v') \<longleftrightarrow> v' = 2 ^ l' - 1"
      using bits_inj [OF v', of "2 ^ l' - 1"] bits_ones [of l'] by (auto simp: ones_def)
    moreover have "state_bits st @ bits 4 nib
        = (if flags AND DECODED = DECODED then code_bits (of_nat byte) else []) @ state_bits next"
      using d bits_append [OF v'] unfolding sum
      by (cases "flags AND DECODED = DECODED") (auto simp: state_bits_def next' code_bits_def Let_def split: prod.splits)
    ultimately show ?thesis
      using n m by (simp add: state_bits_def next')
  qed
qed

text \<open>A nibble of a stream that stands for a string.\<close>

lemma ones_replicate [simp]: "ones (replicate k True)"
  by (simp add: ones_def)

lemma decode4_step:
  assumes d: "hd_state d < 256" "nib < 16" and k: "k < 8"
    and eq: "state_bits (hd_state d) @ bits 4 nib @ rest = string_codes s @ replicate k True"
  obtains o' d' s' where "decode4 d nib = Ok (o', d')" "s = option_list o' @ s'" "hd_state d' < 256"
    "state_bits (hd_state d') @ rest = string_codes s' @ replicate k True"
    "hd_maybe_eos d' \<longleftrightarrow> 1 \<le> length (state_bits (hd_state d')) \<and> length (state_bits (hd_state d')) \<le> 7 \<and> ones (state_bits (hd_state d'))"
proof -
  obtain nx byte flags where e: "DECODE_TABLE ! hd_state d ! nib = (nx, byte, flags)"
    by (metis prod_cases3)
  note t = transition_bits [OF d e]
  have no_ones: False if "string_codes s @ replicate k True = replicate n True @ xs" "30 \<le> n" for n xs
  proof (cases s)
    case Nil
    then have "k = n + length xs"
      using arg_cong [OF that(1), of length] by simp
    then show False using that(2) k by simp
  next
    case (Cons b s1)
    have "length (code_bits b) \<le> n"
      using byte_code_ok(3) [OF unat_u8_less [of b]] that(2) by (simp add: code_bits_def case_prod_beta)
    then show False
      using code_bits_ones [of b _ n xs] that(1) Cons by auto
  qed
  have ne: "flags AND ERROR \<noteq> ERROR"
  proof
    assume "flags AND ERROR = ERROR"
    then obtain xs where "state_bits (hd_state d) @ bits 4 nib = replicate 30 True @ xs"
      using t(1) by blast
    then have "string_codes s @ replicate k True = replicate 30 True @ (xs @ rest)"
      using eq by (metis append.assoc)
    then show False
      by (rule no_ones) simp
  qed
  note n = t(2) [OF ne]
  define d' where "d' = \<lparr> hd_state = nx, hd_maybe_eos = (flags AND MAYBE_EOS = MAYBE_EOS) \<rparr>"
  have dec: "decode4 d nib = Ok (if flags AND DECODED = DECODED then Some (of_nat byte) else None, d')"
    using e ne by (simp add: decode4_def d'_def)
  show ?thesis
  proof (cases "flags AND DECODED = DECODED")
    case False
    then show ?thesis
      using that [of None d' s] n dec eq by (simp add: d'_def option_list_def flip: append.assoc)
  next
    case True
    then have c: "code_bits (of_nat byte) @ state_bits nx @ rest = string_codes s @ replicate k True"
      using n eq by (metis append.assoc)
    show ?thesis
    proof (cases s)
      case Nil
      then have "length (code_bits (of_nat byte)) \<le> k"
        using arg_cong [OF c, of length] by simp
      then show ?thesis
        using code_bits_ones [of "of_nat byte" "state_bits nx @ rest" k "[]"] c Nil by simp
    next
      case (Cons b s')
      then have "of_nat byte = b"
        using c code_bits_prefix [of "of_nat byte" "state_bits nx @ rest" b] by simp
      then show ?thesis
        using that [of "Some b" d' s'] n dec c Cons True by (simp add: d'_def option_list_def)
    qed
  qed
qed

text \<open>A decoder in a state of the code, whose flag says whether the bits that remain may be padding.\<close>

definition decoder_ok :: "huff_decoder \<Rightarrow> bool" where
  "decoder_ok d \<longleftrightarrow> hd_state d < 256 \<and> (hd_maybe_eos d \<longleftrightarrow>
     1 \<le> length (state_bits (hd_state d)) \<and> length (state_bits (hd_state d)) \<le> 7 \<and> ones (state_bits (hd_state d)))"

lemma decoder_ok_new: "decoder_ok huff_decoder_new" "state_bits (hd_state huff_decoder_new) = []"
  by (simp_all add: decoder_ok_def huff_decoder_new_def state_bits_def state_code_def state_code_0_def)

lemma decoder_final:
  assumes "decoder_ok d"
  shows "huff_is_final d \<longleftrightarrow> (\<exists>k < 8. state_bits (hd_state d) = replicate k True)"
proof
  assume "huff_is_final d"
  then show "\<exists>k < 8. state_bits (hd_state d) = replicate k True"
    using assms decoder_ok_new by (auto simp: huff_is_final_def decoder_ok_def ones_def huff_decoder_new_def
        intro!: exI [of _ "length (state_bits (hd_state d))"])
next
  assume "\<exists>k < 8. state_bits (hd_state d) = replicate k True"
  then obtain k where k: "k < 8" "state_bits (hd_state d) = replicate k True" by blast
  have "state_bits (hd_state d) = [] \<Longrightarrow> hd_state d = 0"
    using assms state_ok by (metis decoder_ok_def)
  then show "huff_is_final d"
    using k assms by (cases "k = 0") (auto simp: huff_is_final_def decoder_ok_def)
qed

lemma state_no_code:
  assumes "st < 256" "state_bits st = string_codes s @ xs"
  shows "s = []"
proof (cases s)
  case (Cons a s')
  obtain b ys where b: "ys \<noteq> []" "code_bits b = state_bits st @ ys"
    using state_ok [OF assms(1)] by metis
  then have "code_bits b @ [] = code_bits a @ (string_codes s' @ xs @ ys)"
    using assms(2) Cons by simp
  moreover from this have "b = a"
    by (rule code_bits_prefix)
  ultimately show ?thesis
    using b by simp
qed simp

lemma huff_decode_loop_codes:
  assumes "decoder_ok d" "k < 8" "state_bits (hd_state d) @ octet_stream src = string_codes s @ replicate k True"
  shows "\<exists>d'. huff_decode_loop src d buf = Ok (buf @ s, d') \<and> huff_is_final d'"
  using assms(1,3)
proof (induction src arbitrary: d s buf)
  case Nil
  then have "s = []"
    using state_no_code [of "hd_state d" s "replicate k True"] by (simp add: decoder_ok_def)
  then show ?case
    using Nil decoder_final [OF Nil(1)] assms(2) by auto
next
  case (Cons b src)
  have "state_bits (hd_state d) @ bits 4 (unat (drop_bit 4 b)) @ bits 4 (unat (b AND 0xF)) @ octet_stream src = string_codes s @ replicate k True"
    using Cons.prems(2) nibbles [of b] by simp
  then obtain hi d1 s1 where 1: "decode4 d (unat (drop_bit 4 b)) = Ok (hi, d1)" "s = option_list hi @ s1"
    "hd_state d1 < 256" "state_bits (hd_state d1) @ bits 4 (unat (b AND 0xF)) @ octet_stream src = string_codes s1 @ replicate k True"
    using decode4_step [OF _ nibble_less(1) [of b] assms(2)] Cons.prems(1) unfolding decoder_ok_def by metis
  obtain lo d2 s2 where 2: "decode4 d1 (unat (b AND 0xF)) = Ok (lo, d2)" "s1 = option_list lo @ s2"
    "decoder_ok d2" "state_bits (hd_state d2) @ octet_stream src = string_codes s2 @ replicate k True"
    using decode4_step [OF 1(3) nibble_less(2) [of b] assms(2) 1(4)] unfolding decoder_ok_def by metis
  show ?case
    using Cons.IH [OF 2(3,4), of "buf @ option_list hi @ option_list lo"] 1 2 by simp
qed

lemma huff_decode_codes: "k < 8 \<Longrightarrow> octet_stream src = string_codes s @ replicate k True \<Longrightarrow> huff_decode src = Ok s"
  using huff_decode_loop_codes [OF decoder_ok_new(1), of k src s "[]"] decoder_ok_new(2)
  by (auto simp: huff_decode_def)

text \<open>Conversely, what is decoded is what the stream stands for.\<close>

lemma decode4_sound:
  assumes "hd_state d < 256" "nib < 16" "decode4 d nib = Ok (o', d')"
  shows "decoder_ok d'" "state_bits (hd_state d) @ bits 4 nib = string_codes (option_list o') @ state_bits (hd_state d')"
proof -
  obtain nx byte flags where e: "DECODE_TABLE ! hd_state d ! nib = (nx, byte, flags)"
    by (metis prod_cases3)
  note t = transition_bits [OF assms(1,2) e]
  show "decoder_ok d'" "state_bits (hd_state d) @ bits 4 nib = string_codes (option_list o') @ state_bits (hd_state d')"
    using assms(3) e t(2) by (auto simp: decode4_def decoder_ok_def option_list_def split: if_splits)
qed

lemma huff_decode_loop_sound:
  "huff_decode_loop src d buf = Ok (out, d') \<Longrightarrow> decoder_ok d \<Longrightarrow>
    decoder_ok d' \<and> (\<exists>s. out = buf @ s \<and> state_bits (hd_state d) @ octet_stream src = string_codes s @ state_bits (hd_state d'))"
proof (induction src d buf rule: huff_decode_loop.induct)
  case (2 b src d buf)
  obtain hi d1 lo d2 where 1: "decode4 d (unat (drop_bit 4 b)) = Ok (hi, d1)" and 3: "decode4 d1 (unat (b AND 0xF)) = Ok (lo, d2)"
    and rec: "huff_decode_loop src d2 (buf @ option_list hi @ option_list lo) = Ok (out, d')"
    using 2(2) by (auto simp: bind_result_Inr_iff)
  have d: "hd_state d < 256"
    using 2(3) by (simp add: decoder_ok_def)
  note hi = decode4_sound [OF d nibble_less(1) 1]
  have d1: "hd_state d1 < 256"
    using hi(1) by (simp add: decoder_ok_def)
  note lo = decode4_sound [OF d1 nibble_less(2) 3]
  obtain s where s: "decoder_ok d'" "out = (buf @ option_list hi @ option_list lo) @ s"
    "state_bits (hd_state d2) @ octet_stream src = string_codes s @ state_bits (hd_state d')"
    using 2(1) [OF rec lo(1)] by blast
  have "state_bits (hd_state d) @ octet_stream (b # src)
      = (state_bits (hd_state d) @ bits 4 (unat (drop_bit 4 b))) @ bits 4 (unat (b AND 0xF)) @ octet_stream src"
    using nibbles [of b] by simp
  also have "\<dots> = string_codes (option_list hi) @ (state_bits (hd_state d1) @ bits 4 (unat (b AND 0xF))) @ octet_stream src"
    unfolding hi(2) by simp
  also have "\<dots> = string_codes (option_list hi @ option_list lo @ s) @ state_bits (hd_state d')"
    unfolding lo(2) using s(3) by simp
  finally have "state_bits (hd_state d) @ octet_stream (b # src) = string_codes (option_list hi @ option_list lo @ s) @ state_bits (hd_state d')" .
  then show ?case
    using s by auto
qed auto

lemma huff_decode_sound:
  assumes "huff_decode src = Ok s"
  obtains k where "k < 8" "octet_stream src = string_codes s @ replicate k True"
proof -
  obtain d where "huff_decode_loop src huff_decoder_new [] = Ok (s, d)" "huff_is_final d"
    using assms by (auto simp: huff_decode_def bind_result_Inr_iff split: if_splits)
  then show ?thesis
    using huff_decode_loop_sound [of src huff_decoder_new "[]" s d] decoder_ok_new decoder_final that by auto
qed

section \<open>The encoder\<close>

text \<open>The bits of the register that are still to be written; those below are zero.\<close>

definition reg :: "64 word \<Rightarrow> nat \<Rightarrow> bool list" where
  "reg w left = map (bit w) (rev [left..<40])"

definition reg_ok :: "64 word \<Rightarrow> nat \<Rightarrow> bool" where
  "reg_ok w left \<longleftrightarrow> left \<le> 40 \<and> (\<forall>i < left. \<not> bit w i)"

lemma bits_bit: "bits n v = map (bit v) (rev [0..<n])"
  by (simp add: bits_def bit_iff_odd)

lemma bit_less_power: "(c :: nat) < 2 ^ n \<Longrightarrow> n \<le> i \<Longrightarrow> \<not> bit c i"
  by (metis bit_take_bit_iff not_le take_bit_nat_eq_self_iff)

lemma upt_shift: "[a + k..<b + k] = map (\<lambda>i. i + k) [a..<b]"
  by (rule nth_equalityI) auto

lemma map_rev_shift: "map f (rev [a..<a + n]) = map (\<lambda>i. f (a + i)) (rev [0..<n])"
  using upt_shift [of 0 a n] by (simp add: rev_map add.commute)

lemma rev_upt_split: "a \<le> b \<Longrightarrow> b \<le> c \<Longrightarrow> rev [a..<c] = rev [b..<c] @ rev [a..<b]"
  using upt_add_eq_append [of a b "c - b"] by simp

lemma reg_or:
  assumes "reg_ok w left" "n \<le> left" "c < 2 ^ n"
  shows "reg (w OR push_bit (left - n) (of_nat c)) (left - n) = reg w left @ bits n c"
    "reg_ok (w OR push_bit (left - n) (of_nat c)) (left - n)"
proof -
  let ?w = "w OR push_bit (left - n) (of_nat c)"
  have b: "bit ?w i \<longleftrightarrow> bit w i \<or> left - n \<le> i \<and> bit c (i - (left - n))" if "i < 40" for i
    using that by (auto simp: bit_or_iff bit_push_bit_iff bit_of_nat_iff)
  have "map (bit ?w) (rev [left..<40]) = reg w left"
    using assms b bit_less_power [OF assms(3)] by (auto simp: reg_def reg_ok_def)
  moreover have "map (bit ?w) (rev [left - n..<left - n + n]) = bits n c"
    unfolding map_rev_shift using assms b by (auto simp: bits_bit reg_ok_def)
  ultimately show "reg ?w (left - n) = reg w left @ bits n c"
    using assms rev_upt_split [of "left - n" left 40] by (simp add: reg_def reg_ok_def)
  show "reg_ok ?w (left - n)"
    using assms b by (auto simp: reg_ok_def)
qed

lemma octet_bits_bit: "octet_bits b = map (bit b) (rev [0..<8])"
  by (simp add: octet_bits_def bits_bit bit_unsigned_iff)

lemma octet_bits_ucast: "octet_bits (ucast (drop_bit 32 (w :: 64 word))) = map (bit w) (rev [32..<32 + 8])"
  unfolding map_rev_shift by (auto simp: octet_bits_bit bit_ucast_iff bit_drop_bit_eq add.commute)

lemma encode_flush_stream:
  "encode_flush w left = (dst, w', left') \<Longrightarrow> reg_ok w left \<Longrightarrow>
    reg w left = octet_stream dst @ reg w' left' \<and> reg_ok w' left' \<and> 32 < left'"
proof (induction w left arbitrary: dst rule: encode_flush.induct)
  case (1 w left)
  show ?case
  proof (cases "left \<le> 32")
    case False
    then show ?thesis
      using 1(2,3) by (auto simp: encode_flush.simps [of w])
  next
    case True
    obtain dst1 where dst: "encode_flush (push_bit 8 w) (left + 8) = (dst1, w', left')" "dst = ucast (drop_bit 32 w) # dst1"
      using 1(2) True by (auto simp: encode_flush.simps [of w] Let_def split: prod.splits)
    have ok: "reg_ok (push_bit 8 w) (left + 8)"
      using 1(3) True by (auto simp: reg_ok_def bit_push_bit_iff)
    have "reg w left = map (bit w) (rev [32..<32 + 8]) @ map (bit w) (rev [left..<32])"
      using rev_upt_split [of left 32 40] True by (simp add: reg_def)
    also have "map (bit w) (rev [32..<32 + 8]) = octet_bits (ucast (drop_bit 32 w))"
      by (rule octet_bits_ucast [symmetric])
    also have "map (bit w) (rev [left..<32]) = reg (push_bit 8 w) (left + 8)"
    proof -
      have "rev [left + 8..<40] = map (\<lambda>i. i + 8) (rev [left..<32])"
        using upt_shift [of left 8 32] by (simp add: rev_map)
      then show ?thesis
        by (auto simp: reg_def bit_push_bit_iff)
    qed
    finally show ?thesis
      using 1(1) [OF True dst(1) ok] dst(2) by simp
  qed
qed

lemma huff_encode_loop_stream:
  "huff_encode_loop src w left = (dst, w', left') \<Longrightarrow> reg_ok w left \<Longrightarrow> 32 < left \<Longrightarrow>
    reg w left @ string_codes src = octet_stream dst @ reg w' left' \<and> reg_ok w' left' \<and> 32 < left'"
proof (induction src arbitrary: w left dst)
  case (Cons b src)
  obtain n c where code: "ENCODE_TABLE ! unat b = (n, c)" by fastforce
  have nc: "byte_code (unat b) = (n, c)" "n \<le> 30" "c < 2 ^ n"
    using byte_code_ok [OF unat_u8_less [of b]] code by (metis fst_conv snd_conv)+
  let ?w = "w OR push_bit (left - n) (of_nat c)"
  obtain d1 w1 left1 where flush: "encode_flush ?w (left - n) = (d1, w1, left1)"
    by (metis prod_cases3)
  obtain d2 where rest: "huff_encode_loop src w1 left1 = (d2, w', left')" and dst: "dst = d1 @ d2"
    using Cons.prems(1) code flush by (auto simp: Let_def split: prod.splits)
  note or = reg_or [OF Cons.prems(2) _ nc(3)]
  have f: "reg ?w (left - n) = octet_stream d1 @ reg w1 left1" "reg_ok w1 left1" "32 < left1"
    using encode_flush_stream [OF flush] or nc(2) Cons.prems(3) by simp_all
  have "reg w left @ string_codes (b # src) = (reg w left @ bits n c) @ string_codes src"
    using nc(1) by (simp add: code_bits_def)
  also have "\<dots> = octet_stream d1 @ reg w1 left1 @ string_codes src"
    using or(1) f(1) nc(2) Cons.prems(3) by simp
  also have "\<dots> = octet_stream dst @ reg w' left'"
    using Cons.IH [OF rest f(2,3)] dst by simp
  finally show ?case
    using Cons.IH [OF rest f(2,3)] by simp
qed simp

lemma huff_encode_stream:
  obtains k where "k < 8" "octet_stream (huff_encode s) = string_codes s @ replicate k True"
proof -
  obtain dst w left where loop: "huff_encode_loop s 0 40 = (dst, w, left)"
    by (metis prod_cases3)
  have start: "reg_ok 0 40" "reg 0 40 = []"
    by (simp_all add: reg_ok_def reg_def)
  have s: "string_codes s = octet_stream dst @ reg w left" "reg_ok w left" "32 < left"
    using huff_encode_loop_stream [OF loop start(1)] start(2) by simp_all
  show ?thesis
  proof (cases "left = 40")
    case True
    then show ?thesis
      using that [of 0] s loop by (simp add: huff_encode_def reg_def)
  next
    case False
    let ?w = "w OR (push_bit left 1 - 1)"
    have left: "32 < left" "left \<le> 40"
      using s by (simp_all add: reg_ok_def)
    have b: "bit ?w i \<longleftrightarrow> (if i < left then True else bit w i)" if "i < 40" for i
    proof -
      have "push_bit left 1 - 1 = (mask left :: 64 word)"
        by (simp add: mask_eq_exp_minus_1 push_bit_eq_mult)
      then show ?thesis
        using that by (auto simp: bit_or_iff bit_mask_iff)
    qed
    have "octet_bits (ucast (drop_bit 32 ?w)) = map (bit ?w) (rev [32..<32 + 8])"
      by (rule octet_bits_ucast)
    also have "\<dots> = map (bit ?w) (rev [left..<40]) @ map (bit ?w) (rev [32..<left])"
      using rev_upt_split [of 32 left 40] left by simp
    also have "\<dots> = reg w left @ map (\<lambda>_. True) (rev [32..<left])"
      using b left by (auto simp: reg_def)
    also have "\<dots> = reg w left @ replicate (left - 32) True"
      by (simp add: map_replicate_const)
    finally have "octet_stream (huff_encode s) = string_codes s @ replicate (left - 32) True"
      using s(1) loop False by (simp add: huff_encode_def)
    then show ?thesis
      using that [of "left - 32"] left False by simp
  qed
qed

section \<open>Round trip\<close>

text \<open>C4: a Huffman string is decoded to a string exactly when it is what the encoder writes for this
  string: decoding inverts encoding, and no second encoding, no other padding and no string with
  the end-of-string symbol in it is accepted.\<close>

theorem huff_roundtrip: "huff_decode src = Ok s \<longleftrightarrow> src = huff_encode s"
proof
  assume "huff_decode src = Ok s"
  then obtain k where k: "k < 8" "octet_stream src = string_codes s @ replicate k True"
    by (rule huff_decode_sound)
  obtain m where m: "m < 8" "octet_stream (huff_encode s) = string_codes s @ replicate m True"
    by (rule huff_encode_stream)
  have "length (string_codes s) + k = 8 * length src" "length (string_codes s) + m = 8 * length (huff_encode s)"
    using k(2) m(2) length_octet_stream [of src] length_octet_stream [of "huff_encode s"] by simp_all
  then have "k = m"
    using k(1) m(1) by presburger
  then show "src = huff_encode s"
    using k(2) m(2) by (intro octet_stream_inj) simp
next
  assume "src = huff_encode s"
  then show "huff_decode src = Ok s"
    using huff_encode_stream [of s] huff_decode_codes by metis
qed

end
