(* ===== verification/Spec2Isabelle.thy ===== *)
theory Spec2Isabelle
  imports Inbound_Properties Failure_Accrual Route_Retry Distribute Load_Biaser Hpack_Relay Huffman_Roundtrip
begin

text \<open>
  A verification of the decision-making core of the Linkerd 2 proxy (a Rust program; all paths
  are under \<open>src/\<close>).

  \<^bold>\<open>The program.\<close> The proxy sits beside a service and handles its inbound and outbound
  traffic. The inbound side accepts a connection, looks up the policy of its port, authorizes the
  connection or each request, applies the filters of the route and forwards the request. The
  outbound side finds the route of a request, distributes it over backends, balances over endpoints
  that may be broken, retries what may be retried and enforces timeouts. Both sides are stacks of
  asynchronous middleware; the decisions of the middleware are modelled, the scheduling of tasks
  and the sockets are not. A poll of a future or of a service is a function from its state to a
  result and a new state; the interleaving of tasks is an explicit list of events.

  \<^bold>\<open>Conventions.\<close> A \<open>Result\<close> is a sum with the error on the left, a
  call that may panic returns an \<open>outcome\<close>, a \<open>Duration\<close> or an \<open>Instant\<close> is a
  number of nanoseconds, a string is a list of bytes. Code that is not part of the repository (the
  \<open>http\<close>, \<open>regex\<close>, \<open>url\<close>, \<open>ipnet\<close>, \<open>governor\<close>, \<open>rand\<close> and \<open>tokio\<close>
  crates, generated protocol buffers) is a record of functions with its documented laws as
  hypotheses; each such property is applied to a concrete instance in its witness.

  \<^bold>\<open>Prelude.\<close> \<open>Rust_Prelude\<close> holds results, polls, orderings, string methods and number
  parsing of the standard library, the interface of a total preorder and the interface
  \<open>metered\<close> of a resource that steps pay for, by which gates and rate limits are bounded;
  \<open>F64\<close> the binary64 arithmetic with its rounding; \<open>Http_Types\<close> the types of the \<open>http\<close> crate.

  \<^bold>\<open>Routes\<close> (\<open>linkerd/http/route\<close>). \<open>Http_Match\<close> models \<open>http/match\<close>
  (hosts, paths, headers, query parameters and their orders), \<open>Http_Route\<close> the search of
  \<open>lib.rs\<close>, \<open>Http_Filter\<close> redirects, header changes and failure injection,
  \<open>Grpc_Route\<close> the gRPC counterparts, \<open>Route_Proto\<close> the conversions from the
  controller's messages. The lemmas show that the byte-wise matchers compare whole labels and
  segments, that the nested search returns the first of the best matches, that a redirect
  accepted from the controller which keeps or fully replaces the path, and whose host
  override has no port, does nothing to the location it produced, and that a redirect of a path
  prefix drops the prefix that was matched.

  \<^bold>\<open>Identities.\<close> \<open>Dns_Name\<close> (\<open>linkerd/dns/name\<close>) and \<open>Identity\<close>
  (\<open>linkerd/identity\<close>, \<open>linkerd/tls/src/server.rs\<close>): the loop that validates a
  name accepts exactly the names its labels describe; identities survive printing and parsing.

  \<^bold>\<open>Server policy\<close> (\<open>linkerd/proxy/server-policy\<close>). \<open>Server_Policy\<close> and
  \<open>Server_Policy_Proto\<close> model policies, authorizations, local rate limits and the
  conversion of a message; \<open>Inbound_Policy\<close> and \<open>Inbound_Properties\<close>
  (\<open>linkerd/app/inbound/src/policy\<close>) the middleware for connections and requests, the policy
  store and the defaults. Main results: only authorized requests are forwarded, a policy change
  ends exactly the connections it no longer authorizes, and under an accepted policy a client at
  \<open>127.0.0.1\<close> or \<open>::1\<close> passes the connection check of every server that is not HTTP-only and
  has no request refused as unauthorized. The limiters of \<open>governor\<close> are refilled
  as time passes: what a limit admits over a stretch of time is at most what its limiter holds at
  the start and what is refilled since.

  \<^bold>\<open>Circuit breaking\<close> (\<open>linkerd/app/outbound/src/http/breaker\<close>). \<open>Gate\<close> models
  \<open>linkerd/stack/src/gate.rs\<close> over a semaphore, \<open>Exp_Backoff\<close>
  \<open>linkerd/exp-backoff\<close>, \<open>Success_Rate\<close> the ring of buckets, \<open>Classify\<close> the
  response classes, \<open>Breaker\<close> both breakers as state machines that drive a gate,
  \<open>Failure_Accrual\<close> their configuration. Under every interleaving the calls that a limited gate,
  or a gate shut by a breaker, lets through are at most the permits granted and one for each
  gate that had been polled ready before: such a gate keeps its next call. The breaker
  reopens after a successful probe, the delays of its backoff double from the minimum up to the
  maximum, and the ring counts exactly the samples in its window.

  \<^bold>\<open>Retries and timeouts.\<close> \<open>Replay_Body\<close> and \<open>Http_Retry\<close> model
  \<open>linkerd/http/retry\<close>, \<open>Stream_Timeouts\<close> \<open>linkerd/http/stream-timeouts\<close>,
  \<open>Route_Retry\<close> the policy of a route (\<open>app/outbound/src/http/logical/policy/route\<close>).
  When at least one byte of the body was buffered, or it has no data, a retried request carries
  the whole body; a body dropped unread repeats its first chunk. Attempts and buffered bytes are
  bounded, timeouts fire exactly when they are due.

  \<^bold>\<open>Distribution and load.\<close> \<open>Distribute\<close> models \<open>linkerd/distribute\<close>,
  \<open>Load_Biaser\<close> \<open>linkerd/ewma\<close>, \<open>linkerd/load-biaser\<close> and the retry hints of
  \<open>linkerd/http/classify\<close>. A round of the random selection ends for every random choice;
  a failure lifts a load estimate below its penalty to the penalty, which is bounded.

  \<^bold>\<open>Header compression\<close> (\<open>vendor/h2/src/hpack\<close>, the repository's changed copy of the
  \<open>h2\<close> crate). \<open>Hpack_Int\<close> models integers, \<open>Hpack_Header\<close> fields and
  the static table, \<open>Huffman_Table\<close> and \<open>Huffman\<close> the string code,
  \<open>Hpack_Decoder\<close> the decoder, \<open>Hpack_Mirror\<close> the tables of the re-indexing
  transcoder and \<open>Hpack_Transcode\<close> its walk over a block and its emission.
  \<open>Huffman_Code\<close> checks every transition of the decoding table against the codes of the
  encoding table, and \<open>Huffman_Roundtrip\<close> shows that decoder and encoder are inverse to
  each other. \<open>Hpack_Literal\<close>, \<open>Hpack_Walk\<close> and \<open>Hpack_Block\<close> relate
  the walk to the decoder, and \<open>Hpack_Relay\<close> shows that what is emitted is decoded to the
  fields that were received, for every interleaving of connections. Both tables, the mirror's and the
  decoder's, implement the interface \<open>dynamic_table\<close> of \<open>Hpack_Header\<close>. The theorems
  on blocks assume that a block is shorter than \<open>2 ^ 28\<close> bytes, that the bytes kept for a
  block stay below \<open>2 ^ 32\<close>, the range of the offsets, and that fewer than \<open>2 ^ 32\<close>
  tables are created in a process.

  \<^bold>\<open>Bounds and fuel.\<close> Loops are structural recursion or recursion with a measure; the random
  selection is a partial function that is shown to return. No definition has fuel. Integers are
  unbounded where the code cannot reach their width (counters of bytes and insertions, times in
  nanoseconds) and keep their wrap-around, saturation or conversion where it can.

  \<^bold>\<open>Not modelled.\<close> Sockets, TLS and HTTP/1 and HTTP/2 connection handling (\<open>hyper\<close>,
  \<open>h2\<close> outside header compression, \<open>rustls\<close>): they drive the operating system and upstream
  libraries. The composition of the inbound and outbound stacks: it is type-level plumbing around
  the middleware modelled here. Streams of updates from the control plane, DNS resolution, metrics,
  tracing, tap and admin servers, the DMA transport and its foreign functions: their behaviour is
  input and output. Wall-clock waiting appears only as the times at which polls happen.
\<close>

end
